(* ===== verification/Heap_List.thy ===== *)
theory Heap_List
  imports Prelude
begin

text \<open>
  The intrusive doubly linked list of framework/include/list.h and the container
  framework/common/bt_list.c on an explicit heap. A cell is a \<open>struct list_node\<close> with the
  \<open>data\<close> member of \<open>bt_list_node_t\<close>; a list head is a cell whose data is not used. Reading or
  writing a cell that is not allocated (a null or a freed pointer) is the result \<open>None\<close>, and
  so is a failed \<open>assert\<close>. The lemmas show that on a well-formed ring every operation is
  defined and implements the operation of the same name on HOL lists.
\<close>

section \<open>The heap\<close>

record cell =
  lnext :: ptr
  lprev :: ptr
  ldata :: ptr

text \<open>\<open>brk\<close> is the next fresh address, \<open>budget\<close> the number of allocations that still succeed,
  \<open>freed\<close> the data pointers handed to a list's \<open>free_cb\<close>, in order.\<close>

record mem =
  cells :: "ptr \<rightharpoonup> cell"
  brk :: ptr
  budget :: nat
  freed :: "ptr list"

definition get_next :: "mem \<Rightarrow> ptr \<Rightarrow> ptr option" where
  "get_next m p = map_option lnext (cells m p)"

definition get_prev :: "mem \<Rightarrow> ptr \<Rightarrow> ptr option" where
  "get_prev m p = map_option lprev (cells m p)"

definition get_data :: "mem \<Rightarrow> ptr \<Rightarrow> ptr option" where
  "get_data m p = map_option ldata (cells m p)"

definition set_cell :: "mem \<Rightarrow> ptr \<Rightarrow> (cell \<Rightarrow> cell) \<Rightarrow> mem option" where
  "set_cell m p f =
     (case cells m p of None \<Rightarrow> None | Some c \<Rightarrow> Some (m\<lparr>cells := (cells m)(p \<mapsto> f c)\<rparr>))"

abbreviation set_next :: "mem \<Rightarrow> ptr \<Rightarrow> ptr \<Rightarrow> mem option" where
  "set_next m p v \<equiv> set_cell m p (\<lambda>c. c\<lparr>lnext := v\<rparr>)"

abbreviation set_prev :: "mem \<Rightarrow> ptr \<Rightarrow> ptr \<Rightarrow> mem option" where
  "set_prev m p v \<equiv> set_cell m p (\<lambda>c. c\<lparr>lprev := v\<rparr>)"

abbreviation set_data :: "mem \<Rightarrow> ptr \<Rightarrow> ptr \<Rightarrow> mem option" where
  "set_data m p v \<equiv> set_cell m p (\<lambda>c. c\<lparr>ldata := v\<rparr>)"

text \<open>\<open>malloc\<close> of one cell: a fresh address, or \<open>NULL\<close> when memory is exhausted. The
  contents are indeterminate in C; every field is written before it is read.\<close>

definition malloc_cell :: "mem \<Rightarrow> ptr \<times> mem" where
  "malloc_cell m =
     (if budget m = 0 then (NULL, m)
      else (brk m, m\<lparr>cells := (cells m)(brk m \<mapsto> \<lparr>lnext = NULL, lprev = NULL, ldata = NULL\<rparr>),
                     brk := Suc (brk m), budget := budget m - 1\<rparr>))"

definition free_cell :: "mem \<Rightarrow> ptr \<Rightarrow> mem option" where
  "free_cell m p =
     (if cells m p = None then None else Some (m\<lparr>cells := (cells m)(p := None)\<rparr>))"

section \<open>The macros of list.h\<close>

definition list_initialize :: "mem \<Rightarrow> ptr \<Rightarrow> mem option" where
  "list_initialize m l = do { m \<leftarrow> set_next m l l; set_prev m l l }"

definition list_peek_head :: "mem \<Rightarrow> ptr \<Rightarrow> ptr option" where
  "list_peek_head m l = do { n \<leftarrow> get_next m l; Some (if n \<noteq> l then n else NULL) }"

definition list_peek_tail :: "mem \<Rightarrow> ptr \<Rightarrow> ptr option" where
  "list_peek_tail m l = do { p \<leftarrow> get_prev m l; Some (if p \<noteq> l then p else NULL) }"

definition list_next :: "mem \<Rightarrow> ptr \<Rightarrow> ptr \<Rightarrow> ptr option" where
  "list_next m l item = do { n \<leftarrow> get_next m item; Some (if n \<noteq> l then n else NULL) }"

definition list_add_head :: "mem \<Rightarrow> ptr \<Rightarrow> ptr \<Rightarrow> mem option" where
  "list_add_head m l item = do {
     n \<leftarrow> get_next m l;
     m \<leftarrow> set_next m item n;
     m \<leftarrow> set_prev m item l;
     n \<leftarrow> get_next m l;
     m \<leftarrow> set_prev m n item;
     set_next m l item }"

definition list_add_tail :: "mem \<Rightarrow> ptr \<Rightarrow> ptr \<Rightarrow> mem option" where
  "list_add_tail m l item = do {
     p \<leftarrow> get_prev m l;
     m \<leftarrow> set_prev m item p;
     m \<leftarrow> set_next m item l;
     p \<leftarrow> get_prev m l;
     m \<leftarrow> set_next m p item;
     set_prev m l item }"

definition list_delete :: "mem \<Rightarrow> ptr \<Rightarrow> mem option" where
  "list_delete m item = do {
     n \<leftarrow> get_next m item;
     p \<leftarrow> get_prev m item;
     m \<leftarrow> set_prev m n p;
     p \<leftarrow> get_prev m item;
     n \<leftarrow> get_next m item;
     m \<leftarrow> set_next m p n;
     m \<leftarrow> set_next m item NULL;
     set_prev m item NULL }"

definition list_merge :: "mem \<Rightarrow> ptr \<Rightarrow> ptr \<Rightarrow> mem option" where
  "list_merge m dst src = do {
     dp \<leftarrow> get_prev m dst;
     sn \<leftarrow> get_next m src;
     m \<leftarrow> set_next m dp sn;
     sn \<leftarrow> get_next m src;
     dp \<leftarrow> get_prev m dst;
     m \<leftarrow> set_prev m sn dp;
     sp \<leftarrow> get_prev m src;
     m \<leftarrow> set_next m sp dst;
     sp \<leftarrow> get_prev m src;
     m \<leftarrow> set_prev m dst sp;
     list_initialize m src }"

definition list_remove_head :: "mem \<Rightarrow> ptr \<Rightarrow> (ptr \<times> mem) option" where
  "list_remove_head m l = do {
     n \<leftarrow> get_next m l;
     if n \<noteq> l then do { m \<leftarrow> list_delete m n; Some (n, m) } else Some (NULL, m) }"

definition list_remove_tail :: "mem \<Rightarrow> ptr \<Rightarrow> (ptr \<times> mem) option" where
  "list_remove_tail m l = do {
     p \<leftarrow> get_prev m l;
     if p \<noteq> l then do { m \<leftarrow> list_delete m p; Some (p, m) } else Some (NULL, m) }"

text \<open>The counting loop of \<open>list_length\<close>, from the node it has reached.\<close>

partial_function (option) list_count :: "mem \<Rightarrow> ptr \<Rightarrow> ptr \<Rightarrow> nat \<Rightarrow> nat option" where
  "list_count m l node cnt =
     (if node = l then Some cnt
      else do { n \<leftarrow> get_next m node; list_count m l n (Suc cnt) })"

definition list_length :: "mem \<Rightarrow> ptr \<Rightarrow> nat option" where
  "list_length m l = do { n \<leftarrow> get_next m l; list_count m l n 0 }"

section \<open>The container of bt_list.c\<close>

text \<open>\<open>bt_list_t\<close>: the address of its list head (the first member of the struct), the
  element count, and whether a \<open>free_cb\<close> was given.\<close>

record bt_list_t =
  lhead :: ptr
  llen :: nat
  free_cb :: bool

definition run_free_cb :: "bt_list_t \<Rightarrow> ptr \<Rightarrow> mem \<Rightarrow> mem" where
  "run_free_cb l d m = (if free_cb l then m\<lparr>freed := freed m @ [d]\<rparr> else m)"

definition bt_list_new :: "mem \<Rightarrow> bool \<Rightarrow> (bt_list_t option \<times> mem) option" where
  "bt_list_new m cb =
     (case malloc_cell m of (p, m) \<Rightarrow>
        if p = NULL then Some (None, m)
        else do { m \<leftarrow> list_initialize m p;
                  Some (Some \<lparr>lhead = p, llen = 0, free_cb = cb\<rparr>, m) })"

text \<open>The loop of \<open>bt_list_clear\<close>: \<open>list_for_every_safe\<close> keeps the successor in \<open>tmp\<close>
  before the node is unlinked and freed.\<close>

partial_function (option) bt_list_clear_loop ::
  "mem \<Rightarrow> bt_list_t \<Rightarrow> ptr \<Rightarrow> ptr \<Rightarrow> (bt_list_t \<times> mem) option" where
  "bt_list_clear_loop m l node tmp =
     (if node = lhead l then Some (l, m)
      else do {
        m \<leftarrow> list_delete m node;
        d \<leftarrow> get_data m node;
        m \<leftarrow> free_cell (run_free_cb l d m) node;
        tmp' \<leftarrow> get_next m tmp;
        bt_list_clear_loop m (l\<lparr>llen := llen l - 1\<rparr>) tmp tmp' })"

definition bt_list_clear :: "mem \<Rightarrow> bt_list_t \<Rightarrow> (bt_list_t \<times> mem) option" where
  "bt_list_clear m l = do {
     node \<leftarrow> get_next m (lhead l);
     tmp \<leftarrow> get_next m node;
     bt_list_clear_loop m l node tmp }"

definition bt_list_free :: "mem \<Rightarrow> bt_list_t option \<Rightarrow> mem option" where
  "bt_list_free m lo =
     (case lo of None \<Rightarrow> Some m
      | Some l \<Rightarrow> do {
          (l, m) \<leftarrow> bt_list_clear m l;
          m \<leftarrow> list_delete m (lhead l);
          free_cell m (lhead l) })"

definition bt_list_is_empty :: "bt_list_t \<Rightarrow> bool" where
  "bt_list_is_empty l \<longleftrightarrow> llen l = 0"

definition bt_list_length :: "bt_list_t \<Rightarrow> nat" where
  "bt_list_length l = llen l"

definition bt_list_head :: "mem \<Rightarrow> bt_list_t \<Rightarrow> ptr option" where
  "bt_list_head m l = list_peek_head m (lhead l)"

definition bt_list_tail :: "mem \<Rightarrow> bt_list_t \<Rightarrow> ptr option" where
  "bt_list_tail m l = list_peek_tail m (lhead l)"

definition bt_list_next :: "mem \<Rightarrow> bt_list_t \<Rightarrow> ptr \<Rightarrow> ptr option" where
  "bt_list_next m l node =
     (if node = NULL then Some NULL else list_next m (lhead l) node)"

definition bt_list_node :: "mem \<Rightarrow> ptr \<Rightarrow> ptr option" where
  "bt_list_node m node = (if node = NULL then None else get_data m node)"

definition bt_list_add_head :: "mem \<Rightarrow> bt_list_t \<Rightarrow> ptr \<Rightarrow> (bt_list_t \<times> mem) option" where
  "bt_list_add_head m l d =
     (case malloc_cell m of (p, m) \<Rightarrow>
        if p = NULL then None
        else do {
          m \<leftarrow> set_data m p d;
          m \<leftarrow> list_add_head m (lhead l) p;
          Some (l\<lparr>llen := llen l + 1\<rparr>, m) })"

definition bt_list_add_tail :: "mem \<Rightarrow> bt_list_t \<Rightarrow> ptr \<Rightarrow> (bt_list_t \<times> mem) option" where
  "bt_list_add_tail m l d =
     (case malloc_cell m of (p, m) \<Rightarrow>
        if p = NULL then None
        else do {
          m \<leftarrow> set_data m p d;
          m \<leftarrow> list_add_tail m (lhead l) p;
          Some (l\<lparr>llen := llen l + 1\<rparr>, m) })"

definition bt_list_remove_node :: "mem \<Rightarrow> bt_list_t \<Rightarrow> ptr \<Rightarrow> (bt_list_t \<times> mem) option" where
  "bt_list_remove_node m l node = do {
     m \<leftarrow> list_delete m node;
     d \<leftarrow> get_data m node;
     m \<leftarrow> free_cell (run_free_cb l d m) node;
     Some (l\<lparr>llen := llen l - 1\<rparr>, m) }"

partial_function (option) bt_list_remove_loop ::
  "mem \<Rightarrow> bt_list_t \<Rightarrow> ptr \<Rightarrow> ptr \<Rightarrow> ptr \<Rightarrow> (bt_list_t \<times> mem) option" where
  "bt_list_remove_loop m l d node tmp =
     (if node = lhead l then Some (l, m)
      else do {
        e \<leftarrow> get_data m node;
        if e = d then do {
          m \<leftarrow> list_delete m node;
          e \<leftarrow> get_data m node;
          m \<leftarrow> free_cell (run_free_cb l e m) node;
          Some (l\<lparr>llen := llen l - 1\<rparr>, m) }
        else do {
          tmp' \<leftarrow> get_next m tmp;
          bt_list_remove_loop m l d tmp tmp' } })"

definition bt_list_remove :: "mem \<Rightarrow> bt_list_t \<Rightarrow> ptr \<Rightarrow> (bt_list_t \<times> mem) option" where
  "bt_list_remove m l d = do {
     node \<leftarrow> get_next m (lhead l);
     tmp \<leftarrow> get_next m node;
     bt_list_remove_loop m l d node tmp }"

partial_function (option) bt_list_move_loop ::
  "mem \<Rightarrow> bt_list_t \<Rightarrow> bt_list_t \<Rightarrow> ptr \<Rightarrow> bool \<Rightarrow> ptr \<Rightarrow> ptr \<Rightarrow>
     (bt_list_t \<times> bt_list_t \<times> mem) option" where
  "bt_list_move_loop m src dst d to_head node tmp =
     (if node = lhead src then Some (src, dst, m)
      else do {
        e \<leftarrow> get_data m node;
        if e \<noteq> d then do {
          tmp' \<leftarrow> get_next m tmp;
          bt_list_move_loop m src dst d to_head tmp tmp' }
        else do {
          m \<leftarrow> list_delete m node;
          m \<leftarrow> (if to_head then list_add_head m (lhead dst) node
                 else list_add_tail m (lhead dst) node);
          Some (src\<lparr>llen := llen src - 1\<rparr>, dst\<lparr>llen := llen dst + 1\<rparr>, m) } })"

definition bt_list_move ::
  "mem \<Rightarrow> bt_list_t \<Rightarrow> bt_list_t \<Rightarrow> ptr \<Rightarrow> bool \<Rightarrow> (bt_list_t \<times> bt_list_t \<times> mem) option" where
  "bt_list_move m src dst d to_head = do {
     node \<leftarrow> get_next m (lhead src);
     tmp \<leftarrow> get_next m node;
     bt_list_move_loop m src dst d to_head node tmp }"

text \<open>\<open>bt_list_foreach\<close> with a callback that updates its context and leaves the list alone.\<close>

partial_function (option) bt_list_foreach_loop ::
  "mem \<Rightarrow> bt_list_t \<Rightarrow> (ptr \<Rightarrow> 'c \<Rightarrow> 'c) \<Rightarrow> 'c \<Rightarrow> ptr \<Rightarrow> ptr \<Rightarrow> 'c option" where
  "bt_list_foreach_loop m l cb ctx node tmp =
     (if node = lhead l then Some ctx
      else do {
        e \<leftarrow> get_data m node;
        tmp' \<leftarrow> get_next m tmp;
        bt_list_foreach_loop m l cb (cb e ctx) tmp tmp' })"

definition bt_list_foreach :: "mem \<Rightarrow> bt_list_t \<Rightarrow> (ptr \<Rightarrow> 'c \<Rightarrow> 'c) \<Rightarrow> 'c \<Rightarrow> 'c option" where
  "bt_list_foreach m l cb ctx = do {
     node \<leftarrow> get_next m (lhead l);
     tmp \<leftarrow> get_next m node;
     bt_list_foreach_loop m l cb ctx node tmp }"

partial_function (option) bt_list_find_loop ::
  "mem \<Rightarrow> bt_list_t \<Rightarrow> (ptr \<Rightarrow> bool) \<Rightarrow> ptr \<Rightarrow> ptr \<Rightarrow> ptr option" where
  "bt_list_find_loop m l cb node tmp =
     (if node = lhead l then Some NULL
      else do {
        e \<leftarrow> get_data m node;
        if cb e then Some e
        else do {
          tmp' \<leftarrow> get_next m tmp;
          bt_list_find_loop m l cb tmp tmp' } })"

definition bt_list_find :: "mem \<Rightarrow> bt_list_t \<Rightarrow> (ptr \<Rightarrow> bool) \<Rightarrow> ptr option" where
  "bt_list_find m l cb = do {
     node \<leftarrow> get_next m (lhead l);
     tmp \<leftarrow> get_next m node;
     bt_list_find_loop m l cb node tmp }"

section \<open>Cells and their updates\<close>

definition alive :: "mem \<Rightarrow> ptr \<Rightarrow> bool" where
  "alive m p \<longleftrightarrow> p \<in> dom (cells m)"

text \<open>The update of a cell as a total function, so that the getters simplify.\<close>

definition upd_cell :: "mem \<Rightarrow> ptr \<Rightarrow> (cell \<Rightarrow> cell) \<Rightarrow> mem" where
  "upd_cell m p f = m\<lparr>cells := (cells m)(p := map_option f (cells m p))\<rparr>"

lemma set_cell_eq: "set_cell m p f = (if alive m p then Some (upd_cell m p f) else None)"
  by (auto simp: set_cell_def upd_cell_def alive_def split: option.splits)

lemma alive_upd_cell [simp]: "alive (upd_cell m p f) q = alive m q"
  by (auto simp: upd_cell_def alive_def)

lemma get_upd_next [simp]:
  "get_next (upd_cell m p (\<lambda>c. c\<lparr>lnext := v\<rparr>)) q =
     (if q = p \<and> alive m p then Some v else get_next m q)"
  "get_prev (upd_cell m p (\<lambda>c. c\<lparr>lnext := v\<rparr>)) q = get_prev m q"
  "get_data (upd_cell m p (\<lambda>c. c\<lparr>lnext := v\<rparr>)) q = get_data m q"
  by (cases "cells m p"; auto simp: get_next_def get_prev_def get_data_def upd_cell_def alive_def)+

lemma get_upd_prev [simp]:
  "get_next (upd_cell m p (\<lambda>c. c\<lparr>lprev := v\<rparr>)) q = get_next m q"
  "get_prev (upd_cell m p (\<lambda>c. c\<lparr>lprev := v\<rparr>)) q =
     (if q = p \<and> alive m p then Some v else get_prev m q)"
  "get_data (upd_cell m p (\<lambda>c. c\<lparr>lprev := v\<rparr>)) q = get_data m q"
  by (cases "cells m p"; auto simp: get_next_def get_prev_def get_data_def upd_cell_def alive_def)+

lemma get_upd_data [simp]:
  "get_next (upd_cell m p (\<lambda>c. c\<lparr>ldata := v\<rparr>)) q = get_next m q"
  "get_prev (upd_cell m p (\<lambda>c. c\<lparr>ldata := v\<rparr>)) q = get_prev m q"
  "get_data (upd_cell m p (\<lambda>c. c\<lparr>ldata := v\<rparr>)) q =
     (if q = p \<and> alive m p then Some v else get_data m q)"
  by (cases "cells m p"; auto simp: get_next_def get_prev_def get_data_def upd_cell_def alive_def)+

lemma mem_upd_cell [simp]:
  "brk (upd_cell m p f) = brk m" "budget (upd_cell m p f) = budget m"
  "freed (upd_cell m p f) = freed m"
  by (simp_all add: upd_cell_def)

lemma get_freed [simp]:
  "get_next (m\<lparr>freed := fr\<rparr>) = get_next m" "get_prev (m\<lparr>freed := fr\<rparr>) = get_prev m"
  "get_data (m\<lparr>freed := fr\<rparr>) = get_data m"
  by (auto simp: get_next_def get_prev_def get_data_def fun_eq_iff)

lemma get_next_alive: "get_next m p = Some n \<Longrightarrow> alive m p"
  and get_prev_alive: "get_prev m p = Some n \<Longrightarrow> alive m p"
  by (auto simp: get_next_def get_prev_def alive_def)

lemma alive_getters:
  assumes "alive m p"
  shows "\<exists>n. get_next m p = Some n" and "\<exists>n. get_prev m p = Some n" and "\<exists>d. get_data m p = Some d"
  using assms by (auto simp: get_next_def get_prev_def get_data_def alive_def)

text \<open>A heap is sane when every live cell lies below the break and is not \<open>NULL\<close>.\<close>

definition mem_ok :: "mem \<Rightarrow> bool" where
  "mem_ok m \<longleftrightarrow> 0 < brk m \<and> (\<forall>p. alive m p \<longrightarrow> 0 < p \<and> p < brk m)"

lemma mem_ok_upd_cell [simp]: "mem_ok (upd_cell m p f) = mem_ok m"
  by (simp add: mem_ok_def)

lemma alive_freed [simp]: "alive (m\<lparr>freed := fr\<rparr>) p = alive m p"
  by (simp add: alive_def)

lemma mem_ok_freed [simp]: "mem_ok (m\<lparr>freed := fr\<rparr>) = mem_ok m"
  by (simp add: mem_ok_def)

lemma mem_ok_free_cell: "mem_ok m \<Longrightarrow> free_cell m p = Some m' \<Longrightarrow> mem_ok m'"
  by (fastforce simp: mem_ok_def free_cell_def alive_def split: if_splits)

lemma get_free_cell:
  assumes "free_cell m p = Some m'" and "q \<noteq> p"
  shows "get_next m' q = get_next m q" "get_prev m' q = get_prev m q" "get_data m' q = get_data m q"
  using assms by (auto simp: free_cell_def get_next_def get_prev_def get_data_def split: if_splits)

lemma malloc_cell_ok:
  assumes "mem_ok m" and "0 < budget m" and "malloc_cell m = (p, m')"
  shows "p = brk m" "p \<noteq> NULL" "mem_ok m'" "\<not> alive m p" "alive m' p"
    "budget m' = budget m - 1" "freed m' = freed m"
    "q \<noteq> p \<Longrightarrow> get_next m' q = get_next m q" "q \<noteq> p \<Longrightarrow> get_prev m' q = get_prev m q"
    "q \<noteq> p \<Longrightarrow> get_data m' q = get_data m q"
  using assms
  by (fastforce simp: malloc_cell_def mem_ok_def get_next_def get_prev_def get_data_def alive_def)+

section \<open>Rings\<close>

abbreviation linked :: "mem \<Rightarrow> ptr \<Rightarrow> ptr \<Rightarrow> bool" where
  "linked m a b \<equiv> get_next m a = Some b \<and> get_prev m b = Some a"

text \<open>The list head \<open>l\<close> and the nodes \<open>xs\<close>, in order, form a circular doubly linked list.\<close>

definition ring :: "mem \<Rightarrow> ptr \<Rightarrow> ptr list \<Rightarrow> bool" where
  "ring m l xs \<longleftrightarrow> distinct (l # xs) \<and> list_all2 (linked m) (l # xs) (xs @ [l])"

lemma links_frame:
  assumes "list_all2 (linked m) as bs"
    and "\<And>a. a \<in> set as \<Longrightarrow> get_next m' a = get_next m a"
    and "\<And>b. b \<in> set bs \<Longrightarrow> get_prev m' b = get_prev m b"
  shows "list_all2 (linked m') as bs"
  using assms(1) by (rule list.rel_mono_strong) (simp add: assms(2,3))

lemma links_alive:
  assumes "list_all2 (linked m) as bs"
  shows "a \<in> set as \<Longrightarrow> alive m a" and "b \<in> set bs \<Longrightarrow> alive m b"
  using assms by (auto simp: list_all2_conv_all_nth in_set_conv_nth dest: get_next_alive get_prev_alive)

lemma ring_alive: "ring m l xs \<Longrightarrow> p \<in> set (l # xs) \<Longrightarrow> alive m p"
  by (auto simp: ring_def dest: links_alive)

lemma ring_frame:
  assumes "ring m l xs"
    and "\<And>a. a \<in> set (l # xs) \<Longrightarrow> get_next m' a = get_next m a \<and> get_prev m' a = get_prev m a"
  shows "ring m' l xs"
  using assms unfolding ring_def by (auto elim!: links_frame)

lemma ring_Nil: "ring m l [] \<longleftrightarrow> get_next m l = Some l \<and> get_prev m l = Some l"
  by (simp add: ring_def)

lemma ring_Cons:
  "ring m l (x # xs) \<Longrightarrow> get_next m l = Some x \<and> get_prev m x = Some l \<and> x \<noteq> l"
  by (auto simp: ring_def)

text \<open>The last link of a ring, and a node in the middle with its neighbours.\<close>

lemma ring_last:
  assumes "ring m l xs"
  obtains us p where "l # xs = us @ [p]" "list_all2 (linked m) us xs" "linked m p l"
proof -
  obtain us p where up: "l # xs = us @ [p]"
    by (metis append_butlast_last_id list.distinct(1))
  then have "length us = length xs" by (metis length_Cons length_append_singleton nat.inject)
  with assms up have "list_all2 (linked m) us xs \<and> linked m p l"
    by (simp add: ring_def list_all2_append)
  with up that show ?thesis by blast
qed

lemma ring_middle:
  assumes "ring m l (xs @ x # ys)"
  obtains us p n vs where "l # xs = us @ [p]" "ys @ [l] = n # vs"
    "list_all2 (linked m) us xs" "linked m p x" "linked m x n" "list_all2 (linked m) ys vs"
    "p \<noteq> x" "n \<noteq> x" "p \<notin> set us" "n \<notin> set vs" "x \<notin> set us" "x \<notin> set xs" "x \<notin> set ys" "x \<notin> set vs"
    "n \<notin> set xs" "p \<notin> set ys"
proof -
  obtain us p where up: "l # xs = us @ [p]"
    by (metis append_butlast_last_id list.distinct(1))
  obtain n vs where nv: "ys @ [l] = n # vs"
    by (cases "ys @ [l]") auto
  have len: "length us = length xs" using up by (metis length_Cons length_append_singleton nat.inject)
  have lay: "l # xs @ x # ys = (us @ [p]) @ x # ys" and lay2: "(xs @ x # ys) @ [l] = xs @ [x] @ n # vs"
    using up nv by (metis append_Cons, simp)
  have links: "list_all2 (linked m) ((us @ [p]) @ x # ys) (xs @ [x] @ n # vs)"
    using assms unfolding ring_def lay lay2 by blast
  have d: "distinct ((us @ [p]) @ x # ys)" using assms unfolding ring_def lay by blast
  have d2: "distinct (xs @ [x] @ n # vs)"
    using assms unfolding ring_def using nv by (metis distinct1_rotate lay2 rotate1.simps(2))
  have "list_all2 (linked m) us xs \<and> linked m p x \<and> linked m x n \<and> list_all2 (linked m) ys vs"
    using links len by (auto simp: list_all2_append list_all2_append1)
  then show ?thesis
    using that [OF up nv] d d2 by auto
qed

section \<open>The macros on rings\<close>

text \<open>The effect of an operation that changes links only: the new link functions, with data,
  liveness, break, budget and the free log unchanged.\<close>

definition relink :: "mem \<Rightarrow> mem \<Rightarrow> (ptr \<rightharpoonup> ptr) \<Rightarrow> (ptr \<rightharpoonup> ptr) \<Rightarrow> bool" where
  "relink m m' nx pv \<longleftrightarrow>
     get_next m' = nx \<and> get_prev m' = pv \<and> get_data m' = get_data m \<and> alive m' = alive m \<and>
     brk m' = brk m \<and> budget m' = budget m \<and> freed m' = freed m"

text \<open>The same with the links of the cells outside \<open>S\<close> unchanged.\<close>

definition relinked :: "mem \<Rightarrow> mem \<Rightarrow> ptr set \<Rightarrow> bool" where
  "relinked m m' S \<longleftrightarrow>
     (\<exists>nx pv. relink m m' nx pv \<and> (\<forall>p. p \<notin> S \<longrightarrow> nx p = get_next m p \<and> pv p = get_prev m p))"

lemma relinkedI:
  "relink m m' nx pv \<Longrightarrow> (\<And>p. p \<notin> S \<Longrightarrow> nx p = get_next m p \<and> pv p = get_prev m p) \<Longrightarrow> relinked m m' S"
  unfolding relinked_def by blast

lemma relinkedD:
  assumes "relinked m m' S"
  shows "get_data m' = get_data m" "alive m' = alive m" "brk m' = brk m" "budget m' = budget m"
    "freed m' = freed m" "p \<notin> S \<Longrightarrow> get_next m' p = get_next m p" "p \<notin> S \<Longrightarrow> get_prev m' p = get_prev m p"
  using assms by (auto simp: relinked_def relink_def)

lemma relinked_mem_ok: "relinked m m' S \<Longrightarrow> mem_ok m \<Longrightarrow> mem_ok m'"
  by (auto simp: relinked_def relink_def mem_ok_def)

lemma relinked_ring: "relinked m m' S \<Longrightarrow> ring m k ys \<Longrightarrow> set (k # ys) \<inter> S = {} \<Longrightarrow> ring m' k ys"
  by (rule ring_frame [of m]) (auto dest: relinkedD)

lemma list_initialize_effect:
  "alive m l \<Longrightarrow>
     \<exists>m'. list_initialize m l = Some m' \<and> relink m m' ((get_next m)(l \<mapsto> l)) ((get_prev m)(l \<mapsto> l))"
  by (simp add: list_initialize_def set_cell_eq relink_def fun_eq_iff)

lemma list_add_tail_effect:
  assumes "get_prev m l = Some p" "alive m l" "alive m p" "alive m item" "item \<noteq> l" "item \<noteq> p"
  shows "\<exists>m'. list_add_tail m l item = Some m' \<and>
     relink m m' ((get_next m)(item \<mapsto> l, p \<mapsto> item)) ((get_prev m)(item \<mapsto> p, l \<mapsto> item))"
  using assms by (simp add: list_add_tail_def set_cell_eq relink_def fun_eq_iff)

lemma list_add_head_effect:
  assumes "get_next m l = Some n" "alive m l" "alive m n" "alive m item" "item \<noteq> l" "item \<noteq> n"
  shows "\<exists>m'. list_add_head m l item = Some m' \<and>
     relink m m' ((get_next m)(item \<mapsto> n, l \<mapsto> item)) ((get_prev m)(item \<mapsto> l, n \<mapsto> item))"
  using assms by (simp add: list_add_head_def set_cell_eq relink_def fun_eq_iff)

lemma list_delete_effect:
  assumes "get_next m x = Some n" "get_prev m x = Some p" "alive m n" "alive m p" "alive m x" "n \<noteq> x" "p \<noteq> x"
  shows "\<exists>m'. list_delete m x = Some m' \<and>
     relink m m' ((get_next m)(p \<mapsto> n, x \<mapsto> NULL)) ((get_prev m)(n \<mapsto> p, x \<mapsto> NULL))"
  using assms by (simp add: list_delete_def set_cell_eq relink_def fun_eq_iff)

lemma list_initialize_ring:
  "alive m l \<Longrightarrow> \<exists>m'. list_initialize m l = Some m' \<and> ring m' l [] \<and> relinked m m' {l}"
  by (drule list_initialize_effect, elim exE conjE, rule exI, intro conjI, assumption)
    (simp add: ring_Nil relink_def, erule relinkedI, simp)

lemma list_add_tail_ring:
  assumes r: "ring m l xs" and it: "alive m item" "item \<notin> set (l # xs)"
  shows "\<exists>m'. list_add_tail m l item = Some m' \<and> ring m' l (xs @ [item]) \<and>
           relinked m m' (set (l # item # xs))"
proof -
  from r obtain us p where up: "l # xs = us @ [p]" and lus: "list_all2 (linked m) us xs" and pl: "linked m p l"
    by (rule ring_last)
  have pin: "p \<in> set (l # xs)" and usin: "set us \<subseteq> set (l # xs)" unfolding up by auto
  have d: "distinct (us @ [p])" "distinct (l # xs)" using r up by (auto simp: ring_def)
  have al: "alive m p" "alive m l" and ne: "item \<noteq> l" "item \<noteq> p"
    using ring_alive [OF r] pin it by auto
  obtain m' where eq: "list_add_tail m l item = Some m'"
    and rl: "relink m m' ((get_next m)(item \<mapsto> l, p \<mapsto> item)) ((get_prev m)(item \<mapsto> p, l \<mapsto> item))"
    using list_add_tail_effect pl al ne it by blast
  have "list_all2 (linked m') us xs"
    using lus by (rule links_frame) (use rl d it usin in \<open>auto simp: relink_def\<close>)
  moreover have "linked m' p item" "linked m' item l" using rl ne by (auto simp: relink_def)
  ultimately have "list_all2 (linked m') ((us @ [p]) @ [item]) (xs @ [item, l])"
    by (simp add: list_all2_append list_all2_lengthD)
  then have "ring m' l (xs @ [item])"
    using d(2) it unfolding ring_def up [symmetric] by simp
  moreover have "relinked m m' (set (l # item # xs))"
    using rl by (rule relinkedI) (use pin in auto)
  ultimately show ?thesis using eq by blast
qed

lemma list_add_head_ring:
  assumes r: "ring m l xs" and it: "alive m item" "item \<notin> set (l # xs)"
  shows "\<exists>m'. list_add_head m l item = Some m' \<and> ring m' l (item # xs) \<and>
           relinked m m' (set (l # item # xs))"
proof -
  obtain n vs where nv: "xs @ [l] = n # vs" by (cases "xs @ [l]") auto
  have ln: "linked m l n" and lvs: "list_all2 (linked m) xs vs"
    using r nv by (auto simp: ring_def)
  have nvin: "set (n # vs) = set (l # xs)" unfolding nv [symmetric] by auto
  have d: "distinct (n # vs)" using r unfolding ring_def nv [symmetric] by auto
  have al: "alive m n" "alive m l" and ne: "item \<noteq> l" "item \<noteq> n"
    using ring_alive [OF r] nvin it by auto
  obtain m' where eq: "list_add_head m l item = Some m'"
    and rl: "relink m m' ((get_next m)(item \<mapsto> n, l \<mapsto> item)) ((get_prev m)(item \<mapsto> l, n \<mapsto> item))"
    using list_add_head_effect ln al ne it by blast
  have "list_all2 (linked m') xs vs"
    using lvs by (rule links_frame) (use rl d it nvin r in \<open>auto simp: relink_def ring_def\<close>)
  moreover have "linked m' l item" "linked m' item n" using rl ne by (auto simp: relink_def)
  ultimately have "ring m' l (item # xs)" using r it by (auto simp: ring_def nv)
  moreover have "relinked m m' (set (l # item # xs))"
    using rl by (rule relinkedI) (use nvin in auto)
  ultimately show ?thesis using eq by blast
qed

lemma list_delete_ring:
  assumes r: "ring m l (xs @ x # ys)"
  shows "\<exists>m'. list_delete m x = Some m' \<and> ring m' l (xs @ ys) \<and>
           relinked m m' (set (l # xs @ x # ys)) \<and> get_next m' x = Some NULL"
  using r
proof (rule ring_middle)
  fix us p n vs
  assume up: "l # xs = us @ [p]" and nv: "ys @ [l] = n # vs"
    and links: "list_all2 (linked m) us xs" "linked m p x" "linked m x n" "list_all2 (linked m) ys vs"
    and ne: "p \<noteq> x" "n \<noteq> x" "p \<notin> set us" "n \<notin> set vs" "x \<notin> set us" "x \<notin> set xs" "x \<notin> set ys"
      "x \<notin> set vs" "n \<notin> set xs" "p \<notin> set ys"
  have al: "alive m n" "alive m p" "alive m x"
    using links by (auto dest: get_next_alive get_prev_alive)
  obtain m' where eq: "list_delete m x = Some m'"
    and rl: "relink m m' ((get_next m)(p \<mapsto> n, x \<mapsto> NULL)) ((get_prev m)(n \<mapsto> p, x \<mapsto> NULL))"
    using list_delete_effect links al ne by blast
  have "list_all2 (linked m') us xs"
    using links(1) by (rule links_frame) (use rl ne in \<open>auto simp: relink_def\<close>)
  moreover have "list_all2 (linked m') ys vs"
    using links(4) by (rule links_frame) (use rl ne in \<open>auto simp: relink_def\<close>)
  moreover have "linked m' p n" using rl ne by (auto simp: relink_def)
  ultimately have "list_all2 (linked m') ((us @ [p]) @ ys) (xs @ n # vs)"
    by (simp add: list_all2_append list_all2_lengthD)
  then have "ring m' l (xs @ ys)"
    using r unfolding ring_def up [symmetric] nv [symmetric] by auto
  moreover have "relinked m m' (set (l # xs @ x # ys))"
  proof (rule relinkedI [OF rl])
    have "p \<in> set (l # xs)" unfolding up by simp
    moreover have "n \<in> set (ys @ [l])" unfolding nv by simp
    ultimately show "((get_next m)(p \<mapsto> n, x \<mapsto> NULL)) q = get_next m q \<and>
        ((get_prev m)(n \<mapsto> p, x \<mapsto> NULL)) q = get_prev m q" if "q \<notin> set (l # xs @ x # ys)" for q
      using that by auto
  qed
  moreover have "get_next m' x = Some NULL" using rl by (simp add: relink_def)
  ultimately show ?thesis using eq by blast
qed

lemma list_count_ring:
  "list_all2 (linked m) ys (zs @ [l]) \<Longrightarrow> ys = y # zs \<Longrightarrow> l \<notin> set ys \<Longrightarrow>
     list_count m l y c = Some (c + length ys)"
proof (induction zs arbitrary: y ys c)
  case Nil
  then show ?case by (auto simp: list_count.simps [of m l y] list_count.simps [of m l l])
next
  case (Cons z zs)
  then have "list_count m l z (Suc c) = Some (Suc c + length (z # zs))" by auto
  with Cons.prems show ?case by (auto simp: list_count.simps [of m l y])
qed

lemma list_length_ring: "ring m l xs \<Longrightarrow> list_length m l = Some (length xs)"
proof (cases xs)
  case Nil
  assume "ring m l xs"
  with Nil show ?thesis by (simp add: ring_Nil list_length_def list_count.simps)
next
  case (Cons x zs)
  assume "ring m l xs"
  with Cons show ?thesis
    using list_count_ring [of m "x # zs" zs l x 0] by (auto simp: ring_def list_length_def)
qed

lemma list_remove_head_ring:
  assumes "ring m l xs"
  shows "xs = [] \<Longrightarrow> list_remove_head m l = Some (NULL, m)"
    and "xs = x # ys \<Longrightarrow> \<exists>m'. list_remove_head m l = Some (x, m') \<and> ring m' l ys \<and>
           relinked m m' (set (l # xs))"
  using assms list_delete_ring [of m l "[]" x ys]
  by (auto simp: list_remove_head_def ring_Nil dest!: ring_Cons)

lemma list_merge_ring:
  assumes rd: "ring m d xs" and rs: "ring m s ys" and dis: "set (d # xs) \<inter> set (s # ys) = {}"
  shows "\<exists>m'. list_merge m d s = Some m' \<and> ring m' d (xs @ ys) \<and> ring m' s [] \<and>
           relinked m m' (set (d # xs) \<union> set (s # ys))"
proof -
  from rd obtain us p where up: "d # xs = us @ [p]" and lus: "list_all2 (linked m) us xs" and pd: "linked m p d"
    by (rule ring_last)
  from rs obtain ws q where wq: "s # ys = ws @ [q]" and lws: "list_all2 (linked m) ws ys" and qs: "linked m q s"
    by (rule ring_last)
  obtain n vs where nv: "ys @ [s] = n # vs" by (cases "ys @ [s]") auto
  have sn: "linked m s n" using rs nv by (simp add: ring_def)
  have pin: "p \<in> set (d # xs)" "set us \<subseteq> set (d # xs)" unfolding up by auto
  have qin: "q \<in> set (s # ys)" unfolding wq by simp
  have nin: "n \<in> set (s # ys)" using arg_cong [OF nv, of set] by auto
  have dd: "distinct (us @ [p])" "distinct (d # xs)" "distinct (ws @ [q])" "distinct (s # ys)"
    using rd rs up wq by (auto simp: ring_def)
  have al: "alive m p" "alive m d" "alive m s" "alive m q" "alive m n"
    using ring_alive [OF rd] ring_alive [OF rs] pin qin nin by auto
  have sep: "p \<noteq> s" "p \<noteq> q" "p \<noteq> n" "d \<noteq> s" "d \<noteq> q" "d \<noteq> n"
    using dis pin qin nin by auto
  let ?nx = "if ys = [] then (get_next m)(p \<mapsto> d, s \<mapsto> s) else (get_next m)(p \<mapsto> n, q \<mapsto> d, s \<mapsto> s)"
  let ?pv = "if ys = [] then (get_prev m)(d \<mapsto> p, s \<mapsto> s) else (get_prev m)(n \<mapsto> p, d \<mapsto> q, s \<mapsto> s)"
  have qn: "if ys = [] then q = s \<and> n = s else q \<noteq> s \<and> n \<noteq> s"
    using wq nv dd by (cases ys) (auto simp: Cons_eq_append_conv)
  obtain m' where eq: "list_merge m d s = Some m'" and rl: "relink m m' ?nx ?pv"
    using pd qs sn al sep qn
    by (simp add: list_merge_def list_initialize_def set_cell_eq relink_def fun_eq_iff split: if_splits)
  have rs': "ring m' s []" using rl by (auto simp: ring_Nil relink_def)
  have fr: "relinked m m' (set (d # xs) \<union> set (s # ys))"
    using rl by (rule relinkedI) (use pin qin nin in auto)
  have "ring m' d (xs @ ys)"
  proof (cases "ys = []")
    case True
    have "ring m' d xs" using rd by (rule ring_frame) (use True rl sep pd dis in \<open>auto simp: relink_def\<close>)
    with True show ?thesis by simp
  next
    case False
    obtain ws' where ws: "ws = s # ws'" and ysq: "ys = ws' @ [q]" using wq False by (cases ws) auto
    obtain vs' where ysn: "ys = n # vs'" using nv False by (cases ys) auto
    have mid: "list_all2 (linked m) ws' vs'" using lws ws ysn by simp
    have wsin: "set ws' \<subseteq> set ys" "q \<notin> set ws'" using ysq dd by auto
    have vsin: "set vs' \<subseteq> set ys" "n \<notin> set vs'" using ysn dd by auto
    have "list_all2 (linked m') us xs"
      using lus by (rule links_frame) (use False rl dd pin qin nin dis in \<open>auto simp: relink_def\<close>)
    moreover have "list_all2 (linked m') ws' vs'"
      using mid by (rule links_frame) (use False rl dd wsin vsin pin dis in \<open>auto simp: relink_def\<close>)
    moreover have "linked m' p n" "linked m' q d" using False rl sep qn by (auto simp: relink_def)
    ultimately have "list_all2 (linked m') ((us @ [p]) @ ws' @ [q]) (xs @ (n # vs') @ [d])"
      by (simp add: list_all2_append list_all2_lengthD)
    then have "list_all2 (linked m') (d # xs @ ys) ((xs @ ys) @ [d])"
      unfolding up [symmetric] ysq [symmetric] ysn [symmetric] by simp
    with dd dis show ?thesis by (auto simp: ring_def)
  qed
  with eq rs' fr show ?thesis by blast
qed

section \<open>The container represents a list of data pointers\<close>

definition bt_rep :: "mem \<Rightarrow> bt_list_t \<Rightarrow> ptr list \<Rightarrow> ptr list \<Rightarrow> bool" where
  "bt_rep m l xs ds \<longleftrightarrow>
     mem_ok m \<and> ring m (lhead l) xs \<and> map (get_data m) xs = map Some ds \<and> llen l = length ds"

lemma bt_repD:
  assumes "bt_rep m l xs ds"
  shows "mem_ok m" "ring m (lhead l) xs" "map (get_data m) xs = map Some ds" "llen l = length ds"
    "length xs = length ds" "distinct (lhead l # xs)"
  using assms map_eq_imp_length_eq by (auto simp: bt_rep_def ring_def)

text \<open>Where an iteration of the container stands: \<open>node\<close> is the next node to visit and
  \<open>rest\<close> the nodes from it on.\<close>

lemma ring_iter:
  assumes "ring m l (xs @ ys)"
  shows "get_next m (last (l # xs)) = Some (hd (ys @ [l]))"
    and "ys = y # ys' \<Longrightarrow> get_next m y = Some (hd (ys' @ [l]))"
proof -
  have nth: "get_next m ((l # xs @ ys) ! i) = Some (((xs @ ys) @ [l]) ! i)" if "i \<le> length (xs @ ys)" for i
    using assms that by (auto simp: ring_def list_all2_conv_all_nth less_Suc_eq_le)
  have "((xs @ ys) @ [l]) ! length xs = hd (ys @ [l])" by (cases ys) (auto simp: nth_append)
  moreover have "(l # xs @ ys) ! length xs = last (l # xs)"
    by (simp add: last_conv_nth nth_append nth_Cons' split: if_splits)
  ultimately show "get_next m (last (l # xs)) = Some (hd (ys @ [l]))"
    using nth [of "length xs"] by simp
  assume ys: "ys = y # ys'"
  have "((xs @ ys) @ [l]) ! Suc (length xs) = hd (ys' @ [l])" using ys by (cases ys') (auto simp: nth_append)
  with nth [of "Suc (length xs)"] ys show "get_next m y = Some (hd (ys' @ [l]))" by simp
qed

lemma ring_first: "ring m l xs \<Longrightarrow> get_next m l = Some (hd (xs @ [l]))"
  using ring_iter(1) [of m l "[]" xs] by simp

lemma hd_ring_alive: "ring m l xs \<Longrightarrow> \<exists>n. get_next m (hd (ys @ [l])) = Some n" if "set ys \<subseteq> set xs"
  using that by (cases ys) (auto dest!: ring_alive intro: alive_getters)

lemma bt_list_find_loop_eq:
  assumes "ring m (lhead l) (xs @ ys)" "map (get_data m) ys = map Some ds"
    "node = hd (ys @ [lhead l])" "get_next m node = Some tmp"
  shows "bt_list_find_loop m l cb node tmp = Some (case find cb ds of None \<Rightarrow> NULL | Some d \<Rightarrow> d)"
  using assms
proof (induction ys arbitrary: xs ds node tmp)
  case Nil
  then show ?case by (simp add: bt_list_find_loop.simps)
next
  case (Cons y ys)
  then obtain d ds' where ds: "ds = d # ds'" "get_data m y = Some d" "map (get_data m) ys = map Some ds'"
    by (cases ds) auto
  have tmp: "tmp = hd (ys @ [lhead l])" using Cons.prems ring_iter(2) [of m "lhead l" xs "y # ys" y ys] by simp
  obtain n where n: "get_next m tmp = Some n" using hd_ring_alive [OF _ Cons.prems(1), of ys] tmp by auto
  have "y \<noteq> lhead l" using Cons.prems(1) by (auto simp: ring_def)
  moreover have "bt_list_find_loop m l cb tmp n = Some (case find cb ds' of None \<Rightarrow> NULL | Some d \<Rightarrow> d)"
    using Cons.IH [of "xs @ [y]" ds' tmp n] Cons.prems(1) ds(3) tmp n by simp
  ultimately show ?case
    using Cons.prems ds n by (simp add: bt_list_find_loop.simps [of m l cb y])
qed

lemma bt_list_find_eq:
  assumes "bt_rep m l xs ds"
  shows "bt_list_find m l cb = Some (case find cb ds of None \<Rightarrow> NULL | Some d \<Rightarrow> d)"
proof -
  have r: "ring m (lhead l) xs" using bt_repD [OF assms] by blast
  obtain tmp where "get_next m (hd (xs @ [lhead l])) = Some tmp" using hd_ring_alive [OF _ r, of xs] by auto
  then show ?thesis
    using bt_list_find_loop_eq [of m l "[]" xs ds] ring_first [OF r] bt_repD [OF assms]
    by (simp add: bt_list_find_def)
qed

lemma bt_list_foreach_loop_eq:
  assumes "ring m (lhead l) (xs @ ys)" "map (get_data m) ys = map Some ds"
    "node = hd (ys @ [lhead l])" "get_next m node = Some tmp"
  shows "bt_list_foreach_loop m l cb ctx node tmp = Some (fold cb ds ctx)"
  using assms
proof (induction ys arbitrary: xs ds node tmp ctx)
  case Nil
  then show ?case by (simp add: bt_list_foreach_loop.simps)
next
  case (Cons y ys)
  then obtain d ds' where ds: "ds = d # ds'" "get_data m y = Some d" "map (get_data m) ys = map Some ds'"
    by (cases ds) auto
  have tmp: "tmp = hd (ys @ [lhead l])" using Cons.prems ring_iter(2) [of m "lhead l" xs "y # ys" y ys] by simp
  obtain n where n: "get_next m tmp = Some n" using hd_ring_alive [OF _ Cons.prems(1), of ys] tmp by auto
  have "y \<noteq> lhead l" using Cons.prems(1) by (auto simp: ring_def)
  moreover have "bt_list_foreach_loop m l cb (cb d ctx) tmp n = Some (fold cb ds' (cb d ctx))"
    using Cons.IH [of "xs @ [y]" ds' tmp n] Cons.prems(1) ds(3) tmp n by simp
  ultimately show ?case
    using Cons.prems ds n by (simp add: bt_list_foreach_loop.simps [of m l cb ctx y])
qed

lemma bt_list_foreach_eq:
  assumes "bt_rep m l xs ds"
  shows "bt_list_foreach m l cb ctx = Some (fold cb ds ctx)"
proof -
  have r: "ring m (lhead l) xs" using bt_repD [OF assms] by blast
  obtain tmp where "get_next m (hd (xs @ [lhead l])) = Some tmp" using hd_ring_alive [OF _ r, of xs] by auto
  then show ?thesis
    using ring_first [OF r] bt_repD [OF assms]
    by (simp add: bt_list_foreach_def bt_list_foreach_loop_eq [where xs = "[]" and ys = xs and ds = ds])
qed

text \<open>Allocation of a node for an element.\<close>

lemma bt_rep_alloc:
  assumes rep: "bt_rep m l xs ds" and room: "0 < budget m"
  obtains m1 where "malloc_cell m = (brk m, m1)" "brk m \<noteq> NULL" "\<exists>m2. set_data m1 (brk m) d = Some m2 \<and>
    mem_ok m2 \<and> ring m2 (lhead l) xs \<and> alive m2 (brk m) \<and> brk m \<notin> set (lhead l # xs) \<and>
    map (get_data m2) xs = map Some ds \<and> get_data m2 (brk m) = Some d \<and>
    budget m2 = budget m - 1 \<and> freed m2 = freed m"
proof -
  note rep = bt_repD [OF rep]
  obtain p m1 where mc: "malloc_cell m = (p, m1)" by (cases "malloc_cell m")
  note ok = malloc_cell_ok [OF rep(1) room mc]
  have m1: "malloc_cell m = (brk m, m1)" "brk m \<noteq> NULL" "mem_ok m1" "\<not> alive m (brk m)"
    "alive m1 (brk m)" "budget m1 = budget m - 1" "freed m1 = freed m"
    using mc ok(1-7) by simp_all
  have fr: "get_next m1 q = get_next m q" "get_prev m1 q = get_prev m q" "get_data m1 q = get_data m q"
    if "q \<noteq> brk m" for q using that ok(1,8-10) by simp_all
  have out: "brk m \<notin> set (lhead l # xs)" using ring_alive [OF rep(2)] m1(4) by auto
  let ?m2 = "upd_cell m1 (brk m) (\<lambda>c. c\<lparr>ldata := d\<rparr>)"
  have "ring ?m2 (lhead l) xs" using rep(2) by (rule ring_frame) (use fr out in \<open>metis get_upd_data(1,2)\<close>)
  moreover have "map (get_data ?m2) xs = map (get_data m) xs"
    by (rule map_cong [OF refl]) (use fr(3) out in \<open>metis get_upd_data(3) list.set_intros(2)\<close>)
  ultimately show ?thesis
    using that [OF m1(1,2)] m1 out rep(3) by (auto simp: set_cell_eq)
qed

lemma bt_list_add_tail_rep:
  assumes rep: "bt_rep m l xs ds" and room: "0 < budget m"
  shows "\<exists>l' m'. bt_list_add_tail m l d = Some (l', m') \<and> bt_rep m' l' (xs @ [brk m]) (ds @ [d]) \<and>
     lhead l' = lhead l \<and> free_cb l' = free_cb l \<and> budget m' = budget m - 1 \<and> freed m' = freed m"
  using rep room
proof (rule bt_rep_alloc [where d = d])
  fix m1
  assume m1: "malloc_cell m = (brk m, m1)" "brk m \<noteq> NULL"
    and "\<exists>m2. set_data m1 (brk m) d = Some m2 \<and>
    mem_ok m2 \<and> ring m2 (lhead l) xs \<and> alive m2 (brk m) \<and> brk m \<notin> set (lhead l # xs) \<and>
    map (get_data m2) xs = map Some ds \<and> get_data m2 (brk m) = Some d \<and>
    budget m2 = budget m - 1 \<and> freed m2 = freed m"
  then obtain m2 where m2: "set_data m1 (brk m) d = Some m2" "mem_ok m2" "ring m2 (lhead l) xs"
    "alive m2 (brk m)" "brk m \<notin> set (lhead l # xs)" "map (get_data m2) xs = map Some ds"
    "get_data m2 (brk m) = Some d" "budget m2 = budget m - 1" "freed m2 = freed m" by blast
  obtain m3 where m3: "list_add_tail m2 (lhead l) (brk m) = Some m3" "ring m3 (lhead l) (xs @ [brk m])"
    and rl: "relinked m2 m3 (set (lhead l # brk m # xs))"
    using list_add_tail_ring [OF m2(3,4,5)] by blast
  have "bt_rep m3 (l\<lparr>llen := llen l + 1\<rparr>) (xs @ [brk m]) (ds @ [d])"
    using m3(2) m2 relinkedD [OF rl] relinked_mem_ok [OF rl] bt_repD [OF rep] by (simp add: bt_rep_def)
  then show ?thesis using m1 m2 m3 relinkedD [OF rl] by (simp add: bt_list_add_tail_def)
qed

lemma bt_list_add_head_rep:
  assumes rep: "bt_rep m l xs ds" and room: "0 < budget m"
  shows "\<exists>l' m'. bt_list_add_head m l d = Some (l', m') \<and> bt_rep m' l' (brk m # xs) (d # ds) \<and>
     lhead l' = lhead l \<and> free_cb l' = free_cb l \<and> budget m' = budget m - 1 \<and> freed m' = freed m"
  using rep room
proof (rule bt_rep_alloc [where d = d])
  fix m1
  assume m1: "malloc_cell m = (brk m, m1)" "brk m \<noteq> NULL"
    and "\<exists>m2. set_data m1 (brk m) d = Some m2 \<and>
    mem_ok m2 \<and> ring m2 (lhead l) xs \<and> alive m2 (brk m) \<and> brk m \<notin> set (lhead l # xs) \<and>
    map (get_data m2) xs = map Some ds \<and> get_data m2 (brk m) = Some d \<and>
    budget m2 = budget m - 1 \<and> freed m2 = freed m"
  then obtain m2 where m2: "set_data m1 (brk m) d = Some m2" "mem_ok m2" "ring m2 (lhead l) xs"
    "alive m2 (brk m)" "brk m \<notin> set (lhead l # xs)" "map (get_data m2) xs = map Some ds"
    "get_data m2 (brk m) = Some d" "budget m2 = budget m - 1" "freed m2 = freed m" by blast
  obtain m3 where m3: "list_add_head m2 (lhead l) (brk m) = Some m3" "ring m3 (lhead l) (brk m # xs)"
    and rl: "relinked m2 m3 (set (lhead l # brk m # xs))"
    using list_add_head_ring [OF m2(3,4,5)] by blast
  have "bt_rep m3 (l\<lparr>llen := llen l + 1\<rparr>) (brk m # xs) (d # ds)"
    using m3(2) m2 relinkedD [OF rl] relinked_mem_ok [OF rl] bt_repD [OF rep] by (simp add: bt_rep_def)
  then show ?thesis using m1 m2 m3 relinkedD [OF rl] by (simp add: bt_list_add_head_def)
qed

text \<open>Unlinking a node, handing its data to the free callback and releasing the node, as the
  three removal functions do it.\<close>

lemma bt_rep_unlink:
  assumes rep: "bt_rep m l (xs @ x # ys) (ds @ d # es)" and len: "length xs = length ds"
  shows "\<exists>m1 m2. list_delete m x = Some m1 \<and> get_data m1 x = Some d \<and>
     free_cell (run_free_cb l d m1) x = Some m2 \<and>
     bt_rep m2 (l\<lparr>llen := llen l - 1\<rparr>) (xs @ ys) (ds @ es) \<and>
     freed m2 = freed m @ (if free_cb l then [d] else []) \<and> budget m2 = budget m \<and>
     (\<forall>q. alive m2 q \<longleftrightarrow> alive m q \<and> q \<noteq> x) \<and>
     (\<forall>q. q \<notin> set (lhead l # xs @ x # ys) \<longrightarrow>
        get_next m2 q = get_next m q \<and> get_prev m2 q = get_prev m q \<and> get_data m2 q = get_data m q)"
proof -
  note rep = bt_repD [OF rep]
  have mp: "map (get_data m) xs = map Some ds" "get_data m x = Some d" "map (get_data m) ys = map Some es"
    using rep(3) len by auto
  obtain m1 where m1: "list_delete m x = Some m1" "ring m1 (lhead l) (xs @ ys)"
    and rl: "relinked m m1 (set (lhead l # xs @ x # ys))"
    using list_delete_ring [OF rep(2)] by blast
  note rd = relinkedD [OF rl]
  have d1: "get_data m1 x = Some d" using rd mp by simp
  let ?m = "run_free_cb l d m1"
  have al: "alive ?m x" using d1 by (auto simp: run_free_cb_def get_data_def alive_def)
  then obtain m2 where m2: "free_cell ?m x = Some m2" by (auto simp: free_cell_def alive_def)
  have q: "get_next m2 q = get_next m1 q" "get_prev m2 q = get_prev m1 q" "get_data m2 q = get_data m1 q"
    if "q \<noteq> x" for q using get_free_cell [OF m2 that] by (auto simp: run_free_cb_def)
  have xout: "x \<notin> set (lhead l # xs @ ys)" using rep(6) by auto
  have "ring m2 (lhead l) (xs @ ys)" using m1(2) by (rule ring_frame) (use q xout in metis)
  moreover have "map (get_data m2) (xs @ ys) = map (get_data m) (xs @ ys)"
    by (rule map_cong [OF refl]) (use xout q(3) rd(1) in \<open>metis list.set_intros(2)\<close>)
  then have "map (get_data m2) (xs @ ys) = map Some (ds @ es)" using mp by simp
  moreover have "mem_ok m2" using mem_ok_free_cell [OF _ m2] relinked_mem_ok [OF rl rep(1)]
    by (simp add: run_free_cb_def split: if_splits)
  moreover have "freed m2 = freed m @ (if free_cb l then [d] else [])" "budget m2 = budget m"
    using m2 rd by (auto simp: free_cell_def run_free_cb_def split: if_splits)
  moreover have "alive m2 q \<longleftrightarrow> alive m q \<and> q \<noteq> x" for q
    using m2 fun_cong [OF rd(2), of q] by (auto simp: free_cell_def run_free_cb_def alive_def split: if_splits)
  moreover have "get_next m2 q = get_next m q \<and> get_prev m2 q = get_prev m q \<and> get_data m2 q = get_data m q"
    if "q \<notin> set (lhead l # xs @ x # ys)" for q using that q [of q] rd(1,6,7) by auto
  ultimately show ?thesis using m1(1) d1 m2 rep(4) by (auto simp: bt_rep_def)
qed

lemma bt_list_remove_node_rep:
  assumes "bt_rep m l (xs @ x # ys) (ds @ d # es)" "length xs = length ds"
  shows "\<exists>l' m'. bt_list_remove_node m l x = Some (l', m') \<and> bt_rep m' l' (xs @ ys) (ds @ es) \<and>
     lhead l' = lhead l \<and> free_cb l' = free_cb l \<and> budget m' = budget m \<and>
     freed m' = freed m @ (if free_cb l then [d] else [])"
  using bt_rep_unlink [OF assms] by (auto simp: bt_list_remove_node_def)

lemma bt_list_new_rep:
  assumes "mem_ok m" "0 < budget m"
  shows "\<exists>l m'. bt_list_new m cb = Some (Some l, m') \<and> bt_rep m' l [] [] \<and> lhead l = brk m \<and> free_cb l = cb \<and>
     budget m' = budget m - 1 \<and> freed m' = freed m"
proof -
  obtain p m1 where mc: "malloc_cell m = (p, m1)" by (cases "malloc_cell m")
  note ok = malloc_cell_ok [OF assms mc]
  have m1: "malloc_cell m = (brk m, m1)" "brk m \<noteq> NULL" "mem_ok m1" "alive m1 (brk m)"
    "budget m1 = budget m - 1" "freed m1 = freed m"
    using mc ok(1-7) by simp_all
  obtain m2 where m2: "list_initialize m1 (brk m) = Some m2" "ring m2 (brk m) []" "relinked m1 m2 {brk m}"
    using list_initialize_ring [OF m1(4)] by blast
  show ?thesis
    using m1 m2(1,2) relinkedD [OF m2(3)] relinked_mem_ok [OF m2(3)] by (simp add: bt_list_new_def bt_rep_def)
qed

lemma bt_list_remove_loop_eq:
  assumes "bt_rep m l (xs @ ys) (ds @ es)" "length xs = length ds" "d \<notin> set ds"
    "node = hd (ys @ [lhead l])" "get_next m node = Some tmp"
  shows "\<exists>l' m' zs. bt_list_remove_loop m l d node tmp = Some (l', m') \<and>
     bt_rep m' l' zs (ds @ remove1 d es) \<and> lhead l' = lhead l \<and> free_cb l' = free_cb l \<and>
     budget m' = budget m \<and> freed m' = freed m @ (if free_cb l \<and> d \<in> set es then [d] else [])"
  using assms
proof (induction ys arbitrary: xs ds es node tmp)
  case Nil
  then have "es = []" using bt_repD(5) [OF Nil.prems(1)] by auto
  with Nil show ?case by (auto simp: bt_list_remove_loop.simps)
next
  case (Cons y ys)
  note rep = bt_repD [OF Cons.prems(1)]
  obtain e es' where es: "es = e # es'" using rep(5) Cons.prems(2) by (cases es) auto
  have data: "get_data m y = Some e" using rep(3) es Cons.prems(2) by auto
  have ny: "y \<noteq> lhead l" and node: "node = y" using rep(6) Cons.prems(4) by auto
  have tmp: "tmp = hd (ys @ [lhead l])"
    using Cons.prems(5) node ring_iter(2) [OF rep(2) refl] by simp
  obtain n where n: "get_next m tmp = Some n" using hd_ring_alive [OF _ rep(2), of ys] tmp by auto
  show ?case
  proof (cases "e = d")
    case True
    obtain m1 m2 where u: "list_delete m y = Some m1" "get_data m1 y = Some e"
      "free_cell (run_free_cb l e m1) y = Some m2" "bt_rep m2 (l\<lparr>llen := llen l - 1\<rparr>) (xs @ ys) (ds @ es')"
      "freed m2 = freed m @ (if free_cb l then [e] else [])" "budget m2 = budget m"
      using bt_rep_unlink [OF Cons.prems(1) [unfolded es] Cons.prems(2)] by blast
    have "bt_list_remove_loop m l d node tmp = Some (l\<lparr>llen := llen l - 1\<rparr>, m2)"
      using u(1-3) data ny node True by (simp add: bt_list_remove_loop.simps [of m l d y])
    with u(4-6) es True show ?thesis by auto
  next
    case False
    have "bt_rep m l ((xs @ [y]) @ ys) ((ds @ [e]) @ es')" using Cons.prems(1) es by simp
    from Cons.IH [OF this] show ?thesis
      using Cons.prems(2,3) False data ny node es tmp n by (simp add: bt_list_remove_loop.simps [of m l d y])
  qed
qed

lemma bt_list_remove_rep:
  assumes rep: "bt_rep m l xs ds"
  shows "\<exists>l' m' zs. bt_list_remove m l d = Some (l', m') \<and> bt_rep m' l' zs (remove1 d ds) \<and>
     lhead l' = lhead l \<and> free_cb l' = free_cb l \<and>
     budget m' = budget m \<and> freed m' = freed m @ (if free_cb l \<and> d \<in> set ds then [d] else [])"
proof -
  have r: "ring m (lhead l) xs" using bt_repD [OF rep] by blast
  obtain tmp where "get_next m (hd (xs @ [lhead l])) = Some tmp" using hd_ring_alive [OF _ r, of xs] by auto
  then show ?thesis
    using bt_list_remove_loop_eq [of m l "[]" xs "[]" ds d] rep ring_first [OF r] by (simp add: bt_list_remove_def)
qed

lemma bt_list_clear_loop_eq:
  assumes "bt_rep m l xs ds" "node = hd (xs @ [lhead l])" "get_next m node = Some tmp"
  shows "\<exists>l' m'. bt_list_clear_loop m l node tmp = Some (l', m') \<and> bt_rep m' l' [] [] \<and>
     lhead l' = lhead l \<and> free_cb l' = free_cb l \<and> budget m' = budget m \<and>
     freed m' = freed m @ (if free_cb l then ds else []) \<and>
     (\<forall>q. alive m' q \<longleftrightarrow> alive m q \<and> q \<notin> set xs)"
  using assms
proof (induction xs arbitrary: m l ds node tmp)
  case Nil
  then have "ds = []" using bt_repD(5) [OF Nil.prems(1)] by simp
  with Nil show ?case by (simp add: bt_list_clear_loop.simps)
next
  case (Cons x xs)
  note rep = bt_repD [OF Cons.prems(1)]
  obtain d ds' where ds: "ds = d # ds'" using rep(5) by (cases ds) auto
  have ne: "x \<noteq> lhead l" and node: "node = x" using rep(6) Cons.prems(2) by auto
  have tmp: "tmp = hd (xs @ [lhead l])"
    using Cons.prems(3) node ring_iter(2) [of m "lhead l" "[]" "x # xs"] rep(2) by simp
  obtain m1 m2 where u: "list_delete m x = Some m1" "get_data m1 x = Some d"
    "free_cell (run_free_cb l d m1) x = Some m2" "bt_rep m2 (l\<lparr>llen := llen l - 1\<rparr>) xs ds'"
    "freed m2 = freed m @ (if free_cb l then [d] else [])" "budget m2 = budget m"
    "\<forall>q. alive m2 q \<longleftrightarrow> alive m q \<and> q \<noteq> x"
    using bt_rep_unlink [of m l "[]" x xs "[]" d ds'] Cons.prems(1) ds by auto
  have "ring m2 (lhead l) xs" using bt_repD(2) [OF u(4)] by simp
  then obtain n where n: "get_next m2 tmp = Some n" using hd_ring_alive [of xs xs m2 "lhead l"] tmp by auto
  show ?case
    using Cons.IH [OF u(4) _ n] u(1-3) u(5-7) tmp n node ne ds
    by (auto simp: bt_list_clear_loop.simps [of m l x])
qed

lemma bt_list_clear_rep:
  assumes rep: "bt_rep m l xs ds"
  shows "\<exists>l' m'. bt_list_clear m l = Some (l', m') \<and> bt_rep m' l' [] [] \<and>
     lhead l' = lhead l \<and> free_cb l' = free_cb l \<and> budget m' = budget m \<and>
     freed m' = freed m @ (if free_cb l then ds else []) \<and>
     (\<forall>q. alive m' q \<longleftrightarrow> alive m q \<and> q \<notin> set xs)"
proof -
  have r: "ring m (lhead l) xs" using bt_repD [OF rep] by blast
  obtain tmp where "get_next m (hd (xs @ [lhead l])) = Some tmp" using hd_ring_alive [OF _ r, of xs] by auto
  then show ?thesis
    using bt_list_clear_loop_eq [OF rep refl] ring_first [OF r] by (simp add: bt_list_clear_def)
qed

lemma bt_list_free_rep:
  assumes rep: "bt_rep m l xs ds"
  shows "\<exists>m'. bt_list_free m (Some l) = Some m' \<and> freed m' = freed m @ (if free_cb l then ds else []) \<and>
     (\<forall>q. alive m' q \<longleftrightarrow> alive m q \<and> q \<notin> set (lhead l # xs))"
proof -
  obtain l1 m1 where c: "bt_list_clear m l = Some (l1, m1)" "bt_rep m1 l1 [] []" "lhead l1 = lhead l"
    "freed m1 = freed m @ (if free_cb l then ds else [])" "\<forall>q. alive m1 q \<longleftrightarrow> alive m q \<and> q \<notin> set xs"
    using bt_list_clear_rep [OF rep] by blast
  have r: "get_next m1 (lhead l) = Some (lhead l)" "get_prev m1 (lhead l) = Some (lhead l)"
    using bt_repD(2) [OF c(2)] c(3) by (auto simp: ring_Nil)
  then have al: "alive m1 (lhead l)" by (auto dest: get_next_alive)
  let ?m = "upd_cell (upd_cell (upd_cell (upd_cell m1 (lhead l) (\<lambda>c. c\<lparr>lprev := lhead l\<rparr>))
     (lhead l) (\<lambda>c. c\<lparr>lnext := lhead l\<rparr>)) (lhead l) (\<lambda>c. c\<lparr>lnext := NULL\<rparr>)) (lhead l) (\<lambda>c. c\<lparr>lprev := NULL\<rparr>)"
  have "list_delete m1 (lhead l) = Some ?m"
    using r al by (simp add: list_delete_def set_cell_eq)
  moreover have "alive ?m (lhead l)" using al by simp
  moreover have "alive (?m\<lparr>cells := (cells ?m)(lhead l := None)\<rparr>) q \<longleftrightarrow> alive m q \<and> q \<notin> set (lhead l # xs)" for q
  proof -
    have "alive (?m\<lparr>cells := (cells ?m)(lhead l := None)\<rparr>) q \<longleftrightarrow> alive ?m q \<and> q \<noteq> lhead l"
      by (simp add: alive_def)
    then show ?thesis using c(5) by auto
  qed
  ultimately show ?thesis
    using c by (auto simp: bt_list_free_def free_cell_def alive_def)
qed

text \<open>Moving an element between two lists that share no cell.\<close>

lemma bt_rep_move_node:
  assumes src: "bt_rep m l (xs @ x # ys) (ds @ d # es)" and len: "length xs = length ds"
    and dst: "bt_rep m k us fs" and dis: "set (lhead l # xs @ x # ys) \<inter> set (lhead k # us) = {}"
  shows "\<exists>m1 m2. list_delete m x = Some m1 \<and>
     (if to_head then list_add_head m1 (lhead k) x else list_add_tail m1 (lhead k) x) = Some m2 \<and>
     bt_rep m2 (l\<lparr>llen := llen l - 1\<rparr>) (xs @ ys) (ds @ es) \<and>
     bt_rep m2 (k\<lparr>llen := llen k + 1\<rparr>) (if to_head then x # us else us @ [x])
       (if to_head then d # fs else fs @ [d]) \<and> freed m2 = freed m \<and> budget m2 = budget m"
proof -
  note s = bt_repD [OF src] and t = bt_repD [OF dst]
  have mp: "map (get_data m) xs = map Some ds" "get_data m x = Some d" "map (get_data m) ys = map Some es"
    using s(3) len by auto
  obtain m1 where m1: "list_delete m x = Some m1" "ring m1 (lhead l) (xs @ ys)"
    and r1: "relinked m m1 (set (lhead l # xs @ x # ys))"
    using list_delete_ring [OF s(2)] by blast
  have kr: "ring m1 (lhead k) us" using relinked_ring [OF r1 t(2)] dis by blast
  have x: "alive m1 x" "x \<notin> set (lhead k # us)" "x \<notin> set (lhead l # xs @ ys)"
    using relinkedD(2) [OF r1] ring_alive [OF s(2)] dis s(6) by auto
  obtain m2 where m2: "(if to_head then list_add_head m1 (lhead k) x else list_add_tail m1 (lhead k) x) = Some m2"
    "ring m2 (lhead k) (if to_head then x # us else us @ [x])" and r2: "relinked m1 m2 (set (lhead k # x # us))"
    using list_add_head_ring [OF kr x(1,2)] list_add_tail_ring [OF kr x(1,2)] by (cases to_head) auto
  have "ring m2 (lhead l) (xs @ ys)" using relinked_ring [OF r2 m1(2)] x(3) dis by auto
  moreover have "mem_ok m2" using relinked_mem_ok [OF r2] relinked_mem_ok [OF r1] s(1) by blast
  moreover have "get_data m2 = get_data m" "freed m2 = freed m" "budget m2 = budget m"
    using relinkedD [OF r1] relinkedD [OF r2] by simp_all
  ultimately show ?thesis using m1(1) m2 mp s(4) t(3,4) by (auto simp: bt_rep_def)
qed

lemma bt_list_move_loop_eq:
  assumes "bt_rep m l (xs @ ys) (ds @ es)" "length xs = length ds" "d \<notin> set ds"
    "node = hd (ys @ [lhead l])" "get_next m node = Some tmp"
    "bt_rep m k us fs" "set (lhead l # xs @ ys) \<inter> set (lhead k # us) = {}"
  shows "\<exists>l' k' m' zs ws. bt_list_move_loop m l k d to_head node tmp = Some (l', k', m') \<and>
     bt_rep m' l' zs (ds @ remove1 d es) \<and>
     bt_rep m' k' ws (if d \<notin> set es then fs else if to_head then d # fs else fs @ [d]) \<and>
     freed m' = freed m \<and> budget m' = budget m"
  using assms(1-5,7)
proof (induction ys arbitrary: xs ds es node tmp)
  case Nil
  then have "es = []" using bt_repD(5) [OF Nil.prems(1)] by auto
  with Nil assms(6) show ?case by (auto simp: bt_list_move_loop.simps)
next
  case (Cons y ys)
  note rep = bt_repD [OF Cons.prems(1)]
  obtain e es' where es: "es = e # es'" using rep(5) Cons.prems(2) by (cases es) auto
  have data: "get_data m y = Some e" using rep(3) es Cons.prems(2) by auto
  have ny: "y \<noteq> lhead l" and node: "node = y" using rep(6) Cons.prems(4) by auto
  have tmp: "tmp = hd (ys @ [lhead l])"
    using Cons.prems(5) node ring_iter(2) [OF rep(2) refl] by simp
  obtain n where n: "get_next m tmp = Some n" using hd_ring_alive [OF _ rep(2), of ys] tmp by auto
  show ?case
  proof (cases "e = d")
    case True
    obtain m1 m2 where u: "list_delete m y = Some m1"
      "(if to_head then list_add_head m1 (lhead k) y else list_add_tail m1 (lhead k) y) = Some m2"
      "bt_rep m2 (l\<lparr>llen := llen l - 1\<rparr>) (xs @ ys) (ds @ es')"
      "bt_rep m2 (k\<lparr>llen := llen k + 1\<rparr>) (if to_head then y # us else us @ [y]) (if to_head then e # fs else fs @ [e])"
      "freed m2 = freed m" "budget m2 = budget m"
      using bt_rep_move_node [OF Cons.prems(1) [unfolded es] Cons.prems(2) assms(6) Cons.prems(6)] by blast
    have "bt_list_move_loop m l k d to_head node tmp =
        Some (l\<lparr>llen := llen l - 1\<rparr>, k\<lparr>llen := llen k + 1\<rparr>, m2)"
      using u(1,2) data ny node True by (simp add: bt_list_move_loop.simps [of m l k d to_head y])
    with u(3-6) es True show ?thesis by auto
  next
    case False
    have "bt_rep m l ((xs @ [y]) @ ys) ((ds @ [e]) @ es')" using Cons.prems(1) es by simp
    from Cons.IH [OF this] show ?thesis
      using Cons.prems(2,3,6) False data ny node es tmp n
      by (simp add: bt_list_move_loop.simps [of m l k d to_head y])
  qed
qed

section \<open>The container interface\<close>

text \<open>What a client of the container relies on: the data pointers form a list, appending adds
  at its end, searching returns the first match or \<open>NULL\<close>, removing drops the first
  occurrence.\<close>

locale list_container =
  fixes rep :: "'m \<Rightarrow> 'l \<Rightarrow> ptr list \<Rightarrow> bool"
    and room :: "'m \<Rightarrow> bool"
    and add_tail :: "'m \<Rightarrow> 'l \<Rightarrow> ptr \<Rightarrow> ('l \<times> 'm) option"
    and search :: "'m \<Rightarrow> 'l \<Rightarrow> (ptr \<Rightarrow> bool) \<Rightarrow> ptr option"
    and remove :: "'m \<Rightarrow> 'l \<Rightarrow> ptr \<Rightarrow> ('l \<times> 'm) option"
  assumes add_tail_law: "rep m l ds \<Longrightarrow> room m \<Longrightarrow> \<exists>l' m'. add_tail m l d = Some (l', m') \<and> rep m' l' (ds @ [d])"
    and search_law: "rep m l ds \<Longrightarrow> search m l P = Some (case find P ds of None \<Rightarrow> NULL | Some d \<Rightarrow> d)"
    and remove_law: "rep m l ds \<Longrightarrow> \<exists>l' m'. remove m l d = Some (l', m') \<and> rep m' l' (remove1 d ds)"
begin

lemma search_hit: "rep m l ds \<Longrightarrow> d \<in> set ds \<Longrightarrow> P d \<Longrightarrow> \<exists>e \<in> set ds. P e \<and> search m l P = Some e"
  using search_law [of m l ds P] by (cases "find P ds") (auto dest: find_Some_in find_None_all)

lemma search_miss: "rep m l ds \<Longrightarrow> (\<And>d. d \<in> set ds \<Longrightarrow> \<not> P d) \<Longrightarrow> search m l P = Some NULL"
  using search_law [of m l ds P] by (cases "find P ds") (auto dest: find_Some_in)

lemma add_then_search:
  assumes "rep m l ds" "room m" "P d" "\<And>e. e \<in> set ds \<Longrightarrow> \<not> P e"
  shows "\<exists>l' m'. add_tail m l d = Some (l', m') \<and> search m' l' P = Some d"
proof -
  obtain l' m' where a: "add_tail m l d = Some (l', m')" "rep m' l' (ds @ [d])"
    using add_tail_law [OF assms(1,2)] by blast
  have "find P ds = None" using assms(4) by (cases "find P ds") (auto dest: find_Some_in)
  then have "search m' l' P = Some d" using search_law [OF a(2)] assms(3) by (simp add: find_append)
  with a show ?thesis by blast
qed

lemma add_then_remove:
  assumes "rep m l ds" "room m" "d \<notin> set ds"
  shows "\<exists>l1 m1 l2 m2. add_tail m l d = Some (l1, m1) \<and> remove m1 l1 d = Some (l2, m2) \<and> rep m2 l2 ds"
proof -
  obtain l1 m1 where a: "add_tail m l d = Some (l1, m1)" "rep m1 l1 (ds @ [d])"
    using add_tail_law [OF assms(1,2)] by blast
  obtain l2 m2 where "remove m1 l1 d = Some (l2, m2)" "rep m2 l2 (remove1 d (ds @ [d]))"
    using remove_law [OF a(2)] by blast
  with a assms(3) show ?thesis by (auto simp: remove1_append)
qed

end

abbreviation bt_holds :: "mem \<Rightarrow> bt_list_t \<Rightarrow> ptr list \<Rightarrow> bool" where
  "bt_holds m l ds \<equiv> \<exists>xs. bt_rep m l xs ds"

interpretation btl: list_container bt_holds "\<lambda>m. 0 < budget m" bt_list_add_tail bt_list_find bt_list_remove
proof unfold_locales
  show "\<exists>l' m'. bt_list_add_tail m l d = Some (l', m') \<and> bt_holds m' l' (ds @ [d])"
    if "bt_holds m l ds" "0 < budget m" for m l ds d
    using that bt_list_add_tail_rep by blast
  show "bt_list_find m l P = Some (case find P ds of None \<Rightarrow> NULL | Some d \<Rightarrow> d)"
    if "bt_holds m l ds" for m l ds P
    using that bt_list_find_eq by blast
  show "\<exists>l' m'. bt_list_remove m l d = Some (l', m') \<and> bt_holds m' l' (remove1 d ds)"
    if "bt_holds m l ds" for m l ds d
    using that bt_list_remove_rep by blast
qed

section \<open>Properties\<close>

text \<open>A concrete list with two elements, for the witnesses: head at address 1, nodes at 2 and 3
  holding the data pointers 70 and 80; a second, empty list at 4.\<close>

definition demo_mem :: mem where
  "demo_mem = \<lparr>cells = [1 \<mapsto> \<lparr>lnext = 2, lprev = 3, ldata = 0\<rparr>, 2 \<mapsto> \<lparr>lnext = 3, lprev = 1, ldata = 70\<rparr>,
     3 \<mapsto> \<lparr>lnext = 1, lprev = 2, ldata = 80\<rparr>, 4 \<mapsto> \<lparr>lnext = 4, lprev = 4, ldata = 0\<rparr>],
     brk = 5, budget = 1, freed = []\<rparr>"

definition demo_list :: bt_list_t where
  "demo_list = \<lparr>lhead = 1, llen = 2, free_cb = True\<rparr>"

definition demo_empty :: bt_list_t where
  "demo_empty = \<lparr>lhead = 4, llen = 0, free_cb = True\<rparr>"

lemma demo_rep: "bt_rep demo_mem demo_list [2, 3] [70, 80]" "bt_rep demo_mem demo_empty [] []"
  by (auto simp: bt_rep_def demo_mem_def demo_list_def demo_empty_def mem_ok_def alive_def ring_def
      get_next_def get_prev_def get_data_def split: if_splits)

text \<open>C12. Freeing a list is memory safe and complete: on a well-formed list of any length
  \<open>bt_list_free\<close> runs to its end without touching a dead cell, hands every stored data pointer
  to the free callback exactly once and in list order, and releases the head and all nodes
  and no other cell.\<close>

theorem bt_list_free_releases:
  assumes "bt_rep m l xs ds"
  shows "\<exists>m'. bt_list_free m (Some l) = Some m' \<and>
     freed m' = freed m @ (if free_cb l then ds else []) \<and>
     (\<forall>q. alive m' q \<longleftrightarrow> alive m q \<and> q \<notin> set (lhead l # xs))"
  using assms by (rule bt_list_free_rep)

theorem bt_list_free_releases_witness:
  "bt_rep demo_mem demo_list [2, 3] [70, 80] \<and>
   (\<exists>m'. bt_list_free demo_mem (Some demo_list) = Some m' \<and> freed m' = [70, 80] \<and> \<not> alive m' 2 \<and> alive m' 4)"
  using bt_list_free_releases [OF demo_rep(1)] demo_rep(1)
  by (auto simp: demo_mem_def demo_list_def alive_def)

text \<open>C17. \<open>bt_list_move\<close> between two lists that share no cell moves exactly the first
  occurrence of the data pointer: the source loses it, the destination gains it at the chosen
  end, both element counts stay exact, nothing is freed, and when the pointer is not in the
  source both lists are unchanged.\<close>

theorem bt_list_move_contents:
  assumes "bt_rep m src xs ds" "bt_rep m dst us fs"
    and "set (lhead src # xs) \<inter> set (lhead dst # us) = {}"
  shows "\<exists>src' dst' m' zs ws. bt_list_move m src dst d to_head = Some (src', dst', m') \<and>
     bt_rep m' src' zs (remove1 d ds) \<and>
     bt_rep m' dst' ws (if d \<notin> set ds then fs else if to_head then d # fs else fs @ [d]) \<and>
     freed m' = freed m"
proof -
  have r: "ring m (lhead src) xs" using bt_repD [OF assms(1)] by blast
  obtain tmp where t: "get_next m (hd (xs @ [lhead src])) = Some tmp" using hd_ring_alive [OF _ r, of xs] by auto
  show ?thesis
    using bt_list_move_loop_eq [of m src "[]" xs "[]" ds d _ tmp dst us fs to_head] t assms ring_first [OF r]
    by (auto simp: bt_list_move_def)
qed

theorem bt_list_move_contents_witness:
  "\<exists>src' dst' m' zs ws. bt_list_move demo_mem demo_list demo_empty 80 True = Some (src', dst', m') \<and>
     bt_rep m' src' zs [70] \<and> bt_rep m' dst' ws [80] \<and> freed m' = []"
  using bt_list_move_contents [OF demo_rep, of 80 True]
  by (auto simp: demo_mem_def demo_list_def demo_empty_def)

text \<open>\<open>list_merge\<close> splices the source ring behind the destination ring in order and leaves
  the source as an empty ring, also when either list is empty.\<close>

theorem list_merge_appends:
  assumes "ring m dst xs" "ring m src ys" "set (dst # xs) \<inter> set (src # ys) = {}"
  shows "\<exists>m'. list_merge m dst src = Some m' \<and> ring m' dst (xs @ ys) \<and> ring m' src [] \<and>
     list_length m' dst = Some (length xs + length ys) \<and> list_length m' src = Some 0"
proof -
  obtain m' where m': "list_merge m dst src = Some m'" "ring m' dst (xs @ ys)" "ring m' src []"
    using list_merge_ring [OF assms] by blast
  then show ?thesis using list_length_ring [of m' dst] list_length_ring [of m' src] by auto
qed

theorem list_merge_appends_witness:
  "\<exists>m'. list_merge demo_mem 4 1 = Some m' \<and> ring m' 4 [2, 3] \<and> list_length m' 4 = Some 2 \<and> list_length m' 1 = Some 0"
  using list_merge_appends [of demo_mem 4 "[]" 1 "[2, 3]"] bt_repD(2) [OF demo_rep(1)] bt_repD(2) [OF demo_rep(2)]
  by (auto simp: demo_list_def demo_empty_def)

end
