(* ===== verification/Callbacks_List.thy ===== *)
theory Callbacks_List
  imports Heap_List
begin

text \<open>
  framework/common/callbacks_list.c: the bounded registry of callback tables, a client of the
  \<open>bt_list\<close> container. The registry object sits next to the list's heap: \<open>rcbks\<close> holds the
  \<open>remote_callback_t\<close> blocks the list's data pointers lead to. The recursive mutex only brackets
  each operation, which runs to its end here.
\<close>

record remote_callback_t =
  rc_remote :: ptr
  rc_callbacks :: ptr

record callbacks_list_t =
  max_reg :: u8
  registed :: u8
  cb_list :: bt_list_t

record cb_state =
  cmem :: mem
  rcbks :: "ptr \<rightharpoonup> remote_callback_t"
  cbsl :: callbacks_list_t

text \<open>\<open>malloc\<close> of a block that holds no list node: only its address matters to the list.\<close>

definition malloc_block :: "mem \<Rightarrow> ptr \<times> mem" where
  "malloc_block m =
     (if budget m = 0 then (NULL, m) else (brk m, m\<lparr>brk := Suc (brk m), budget := budget m - 1\<rparr>))"

definition callback_is_found :: "(ptr \<rightharpoonup> remote_callback_t) \<Rightarrow> ptr \<Rightarrow> ptr \<Rightarrow> bool" where
  "callback_is_found rc ctx d = (case rc d of None \<Rightarrow> False | Some r \<Rightarrow> rc_callbacks r = ctx)"

definition remote_is_found :: "(ptr \<rightharpoonup> remote_callback_t) \<Rightarrow> ptr \<Rightarrow> ptr \<Rightarrow> bool" where
  "remote_is_found rc ctx d = (case rc d of None \<Rightarrow> False | Some r \<Rightarrow> rc_remote r = ctx)"

text \<open>\<open>lock_ok\<close> is the outcome of \<open>pthread_mutex_init\<close>.\<close>

definition bt_callbacks_list_new :: "mem \<Rightarrow> bool \<Rightarrow> u8 \<Rightarrow> (mem \<times> callbacks_list_t option) option" where
  "bt_callbacks_list_new m lock_ok mx =
     (case malloc_block m of (p, m) \<Rightarrow>
        if p = NULL then Some (m, None)
        else do {
          (lo, m) \<leftarrow> bt_list_new m True;
          case lo of
            None \<Rightarrow> Some (m, None)
          | Some l \<Rightarrow>
              if \<not> lock_ok then do { m \<leftarrow> bt_list_free m (Some l); Some (m, None) }
              else Some (m, Some \<lparr>max_reg = mx, registed = 0, cb_list = l\<rparr>) })"

definition bt_remote_callbacks_register :: "cb_state \<Rightarrow> ptr \<Rightarrow> ptr \<Rightarrow> (ptr \<times> cb_state) option" where
  "bt_remote_callbacks_register s remote callbacks =
     (if registed (cbsl s) = max_reg (cbsl s) then Some (NULL, s)
      else do {
        cbs \<leftarrow> (if remote \<noteq> NULL then bt_list_find (cmem s) (cb_list (cbsl s)) (remote_is_found (rcbks s) remote)
                else bt_list_find (cmem s) (cb_list (cbsl s)) (callback_is_found (rcbks s) callbacks));
        if cbs \<noteq> NULL then Some (NULL, s)
        else
          (case malloc_block (cmem s) of (p, m) \<Rightarrow>
             if p = NULL then None
             else do {
               (l, m) \<leftarrow> bt_list_add_tail m (cb_list (cbsl s)) p;
               Some (p, s\<lparr>cmem := m,
                         rcbks := (rcbks s)(p \<mapsto> \<lparr>rc_remote = remote, rc_callbacks = callbacks\<rparr>),
                         cbsl := (cbsl s)\<lparr>cb_list := l, registed := registed (cbsl s) + 1\<rparr>\<rparr>) }) })"

definition bt_callbacks_register :: "cb_state \<Rightarrow> ptr \<Rightarrow> (ptr \<times> cb_state) option" where
  "bt_callbacks_register s callbacks = bt_remote_callbacks_register s NULL callbacks"

text \<open>The unregister loop walks the list by \<open>bt_list_head\<close> and \<open>bt_list_next\<close>; the result is
  the remote of the removed entry, or \<open>None\<close> when the entry is not found.\<close>

partial_function (option) unregister_loop :: "cb_state \<Rightarrow> ptr \<Rightarrow> ptr \<Rightarrow> (ptr option \<times> cb_state) option" where
  "unregister_loop s rcbk node =
     (if node = NULL then Some (None, s)
      else do {
        cbs \<leftarrow> bt_list_node (cmem s) node;
        if rcbk = cbs then
          (case rcbks s cbs of
             None \<Rightarrow> None
           | Some r \<Rightarrow> do {
               (l, m) \<leftarrow> bt_list_remove_node (cmem s) (cb_list (cbsl s)) node;
               Some (Some (rc_remote r),
                     s\<lparr>cmem := m, rcbks := (rcbks s)(cbs := None),
                       cbsl := (cbsl s)\<lparr>cb_list := l, registed := registed (cbsl s) - 1\<rparr>\<rparr>) })
        else do {
          n \<leftarrow> bt_list_next (cmem s) (cb_list (cbsl s)) node;
          unregister_loop s rcbk n } })"

definition bt_remote_callbacks_unregister :: "cb_state \<Rightarrow> ptr \<Rightarrow> (ptr option \<times> cb_state) option" where
  "bt_remote_callbacks_unregister s rcbk = do {
     node \<leftarrow> bt_list_head (cmem s) (cb_list (cbsl s));
     unregister_loop s rcbk node }"

definition bt_callbacks_unregister :: "cb_state \<Rightarrow> ptr \<Rightarrow> (bool \<times> cb_state) option" where
  "bt_callbacks_unregister s rcbk =
     map_option (map_prod (\<lambda>r. r \<noteq> None) id) (bt_remote_callbacks_unregister s rcbk)"

definition bt_callbacks_list_free :: "cb_state \<Rightarrow> mem option" where
  "bt_callbacks_list_free s = bt_list_free (cmem s) (Some (cb_list (cbsl s)))"

definition bt_callbacks_list_count :: "cb_state \<Rightarrow> u8" where
  "bt_callbacks_list_count s = registed (cbsl s)"

text \<open>\<open>BT_CALLBACK_FOREACH\<close>: the calls made, as the remote (the entry itself for a local client)
  and the callback table, in list order. Entries without a table are skipped.\<close>

partial_function (option) callback_foreach_loop :: "cb_state \<Rightarrow> ptr \<Rightarrow> (ptr \<times> ptr) list \<Rightarrow> (ptr \<times> ptr) list option" where
  "callback_foreach_loop s node out =
     (if node = NULL then Some out
      else do {
        d \<leftarrow> bt_list_node (cmem s) node;
        r \<leftarrow> rcbks s d;
        n \<leftarrow> bt_list_next (cmem s) (cb_list (cbsl s)) node;
        callback_foreach_loop s n
          (if rc_callbacks r \<noteq> NULL then out @ [(if rc_remote r \<noteq> NULL then rc_remote r else d, rc_callbacks r)]
           else out) })"

definition BT_CALLBACK_FOREACH :: "cb_state \<Rightarrow> (ptr \<times> ptr) list option" where
  "BT_CALLBACK_FOREACH s = do {
     node \<leftarrow> bt_list_head (cmem s) (cb_list (cbsl s));
     callback_foreach_loop s node [] }"

section \<open>Invariant and abstraction\<close>

text \<open>The registry holds the entries \<open>ds\<close>: the list represents them, each leads to a live block,
  and the counter is exact and within the limit.\<close>

definition cb_inv :: "cb_state \<Rightarrow> ptr list \<Rightarrow> bool" where
  "cb_inv s ds \<longleftrightarrow>
     bt_holds (cmem s) (cb_list (cbsl s)) ds \<and> free_cb (cb_list (cbsl s)) \<and> distinct ds \<and>
     (\<forall>d \<in> set ds. 0 < d \<and> d < brk (cmem s) \<and> rcbks s d \<noteq> None) \<and>
     unat (registed (cbsl s)) = length ds \<and> registed (cbsl s) \<le> max_reg (cbsl s)"

text \<open>What a client sees: the (remote, callbacks) pairs in registration order.\<close>

definition cb_entries :: "cb_state \<Rightarrow> ptr list \<Rightarrow> (ptr \<times> ptr) list" where
  "cb_entries s ds = map (\<lambda>d. case rcbks s d of None \<Rightarrow> (0, 0) | Some r \<Rightarrow> (rc_remote r, rc_callbacks r)) ds"

lemma get_brk [simp]:
  "get_next (m\<lparr>brk := b, budget := c\<rparr>) = get_next m" "get_prev (m\<lparr>brk := b, budget := c\<rparr>) = get_prev m"
  "get_data (m\<lparr>brk := b, budget := c\<rparr>) = get_data m"
  by (auto simp: get_next_def get_prev_def get_data_def fun_eq_iff)

lemma malloc_block_rep:
  assumes "bt_rep m l xs ds" "0 < budget m"
  shows "malloc_block m = (brk m, m\<lparr>brk := Suc (brk m), budget := budget m - 1\<rparr>)"
    and "bt_rep (m\<lparr>brk := Suc (brk m), budget := budget m - 1\<rparr>) l xs ds" and "brk m \<noteq> NULL"
  using assms bt_repD [OF assms(1)]
  by (auto simp: malloc_block_def bt_rep_def mem_ok_def alive_def less_Suc_eq ring_def)

lemma cb_find:
  assumes "cb_inv s ds"
  shows "bt_list_find (cmem s) (cb_list (cbsl s)) P = Some NULL \<longleftrightarrow> (\<forall>d \<in> set ds. \<not> P d)"
  using assms btl.search_law [of "cmem s" "cb_list (cbsl s)" ds P]
  by (cases "find P ds") (auto simp: cb_inv_def dest: find_Some_in find_None_all)

text \<open>The guard of a registration: whether the remote, or for a local client the table, is
  already present.\<close>

definition cb_duplicate :: "cb_state \<Rightarrow> ptr list \<Rightarrow> ptr \<Rightarrow> ptr \<Rightarrow> bool" where
  "cb_duplicate s ds remote callbacks \<longleftrightarrow>
     (\<exists>e \<in> set (cb_entries s ds). if remote \<noteq> NULL then fst e = remote else snd e = callbacks)"

lemma cb_lookup_guard:
  assumes "cb_inv s ds"
  shows "(if remote \<noteq> NULL then bt_list_find (cmem s) (cb_list (cbsl s)) (remote_is_found (rcbks s) remote)
          else bt_list_find (cmem s) (cb_list (cbsl s)) (callback_is_found (rcbks s) callbacks)) = Some NULL
     \<longleftrightarrow> \<not> cb_duplicate s ds remote callbacks"
    and "\<exists>c. (if remote \<noteq> NULL then bt_list_find (cmem s) (cb_list (cbsl s)) (remote_is_found (rcbks s) remote)
          else bt_list_find (cmem s) (cb_list (cbsl s)) (callback_is_found (rcbks s) callbacks)) = Some c"
proof -
  have live: "\<exists>r. rcbks s d = Some r" if "d \<in> set ds" for d using assms that by (auto simp: cb_inv_def)
  have "cb_duplicate s ds remote callbacks \<longleftrightarrow>
      (\<exists>d \<in> set ds. if remote \<noteq> NULL then remote_is_found (rcbks s) remote d else callback_is_found (rcbks s) callbacks d)"
    unfolding cb_duplicate_def cb_entries_def set_map bex_simps(7)
    by (rule bex_cong [OF refl]) (use live in \<open>fastforce simp: remote_is_found_def callback_is_found_def\<close>)
  then show "(if remote \<noteq> NULL then bt_list_find (cmem s) (cb_list (cbsl s)) (remote_is_found (rcbks s) remote)
          else bt_list_find (cmem s) (cb_list (cbsl s)) (callback_is_found (rcbks s) callbacks)) = Some NULL
     \<longleftrightarrow> \<not> cb_duplicate s ds remote callbacks"
    using cb_find [OF assms] by auto
  show "\<exists>c. (if remote \<noteq> NULL then bt_list_find (cmem s) (cb_list (cbsl s)) (remote_is_found (rcbks s) remote)
          else bt_list_find (cmem s) (cb_list (cbsl s)) (callback_is_found (rcbks s) callbacks)) = Some c"
    using assms btl.search_law [of "cmem s" "cb_list (cbsl s)" ds] unfolding cb_inv_def by auto
qed

lemma register_rejects:
  assumes "cb_inv s ds" "registed (cbsl s) = max_reg (cbsl s) \<or> cb_duplicate s ds remote callbacks"
  shows "bt_remote_callbacks_register s remote callbacks = Some (NULL, s)"
  using assms cb_lookup_guard [OF assms(1), of remote callbacks]
  by (auto simp: bt_remote_callbacks_register_def)

lemma register_accepts:
  assumes inv: "cb_inv s ds" and lim: "registed (cbsl s) \<noteq> max_reg (cbsl s)"
    and new: "\<not> cb_duplicate s ds remote callbacks" and room: "2 \<le> budget (cmem s)"
  shows "\<exists>s'. bt_remote_callbacks_register s remote callbacks = Some (brk (cmem s), s') \<and>
     cb_inv s' (ds @ [brk (cmem s)]) \<and> brk (cmem s) \<noteq> NULL \<and>
     cb_entries s' (ds @ [brk (cmem s)]) = cb_entries s ds @ [(remote, callbacks)] \<and>
     max_reg (cbsl s') = max_reg (cbsl s) \<and> budget (cmem s') = budget (cmem s) - 2"
proof -
  let ?m = "(cmem s)\<lparr>brk := Suc (brk (cmem s)), budget := budget (cmem s) - 1\<rparr>"
  obtain xs where rep: "bt_rep (cmem s) (cb_list (cbsl s)) xs ds" using inv by (auto simp: cb_inv_def)
  have mb: "malloc_block (cmem s) = (brk (cmem s), ?m)" "bt_rep ?m (cb_list (cbsl s)) xs ds" "brk (cmem s) \<noteq> NULL"
    using malloc_block_rep [OF rep] room by simp_all
  obtain l m where add: "bt_list_add_tail ?m (cb_list (cbsl s)) (brk (cmem s)) = Some (l, m)"
    "bt_rep m l (xs @ [brk ?m]) (ds @ [brk (cmem s)])" "free_cb l = free_cb (cb_list (cbsl s))" "budget m = budget ?m - 1"
    using bt_list_add_tail_rep [OF mb(2)] room by force
  have brk: "Suc (brk (cmem s)) \<le> brk m"
  proof -
    have "alive m (brk ?m)" using ring_alive [OF bt_repD(2) [OF add(2)]] by simp
    then show ?thesis using bt_repD(1) [OF add(2)] by (auto simp: mem_ok_def)
  qed
  let ?s = "s\<lparr>cmem := m, rcbks := (rcbks s)(brk (cmem s) \<mapsto> \<lparr>rc_remote = remote, rc_callbacks = callbacks\<rparr>),
              cbsl := (cbsl s)\<lparr>cb_list := l, registed := registed (cbsl s) + 1\<rparr>\<rparr>"
  have reg: "bt_remote_callbacks_register s remote callbacks = Some (brk (cmem s), ?s)"
    using lim new cb_lookup_guard [OF inv, of remote callbacks] mb add
    by (simp add: bt_remote_callbacks_register_def split: if_splits)
  have fresh: "brk (cmem s) \<notin> set ds" using inv by (auto simp: cb_inv_def)
  have lt: "registed (cbsl s) < max_reg (cbsl s)" using inv lim by (auto simp: cb_inv_def)
  have cnt: "unat (registed (cbsl s) + 1) = Suc (length ds)"
    using inv unat_inc [OF lt] by (simp add: cb_inv_def)
  moreover have "registed (cbsl s) + 1 \<le> max_reg (cbsl s)" using lt by (simp add: inc_le)
  moreover have "bt_holds m l (ds @ [brk (cmem s)])" using add(2) by blast
  ultimately have "cb_inv ?s (ds @ [brk (cmem s)])"
    using inv fresh brk add(3) mb(3) by (auto simp: cb_inv_def)
  moreover have "cb_entries ?s (ds @ [brk (cmem s)]) = cb_entries s ds @ [(remote, callbacks)]"
    using fresh by (auto simp: cb_entries_def)
  ultimately show ?thesis using reg mb(3) add(4) by simp
qed

text \<open>Walking the list node by node.\<close>

abbreviation first_node :: "ptr list \<Rightarrow> ptr" where
  "first_node xs \<equiv> (case xs of [] \<Rightarrow> NULL | x # _ \<Rightarrow> x)"

lemma bt_list_walk:
  assumes rep: "bt_rep m l (us @ ys) ds"
  shows "bt_list_head m l = Some (first_node (us @ ys))"
    and "ys = y # ys' \<Longrightarrow> bt_list_next m l y = Some (first_node ys')" and "ys = y # ys' \<Longrightarrow> y \<noteq> NULL"
proof -
  note r = bt_repD [OF rep]
  have ne: "x \<noteq> lhead l" if "x \<in> set (us @ ys)" for x using r(6) that by auto
  show "bt_list_head m l = Some (first_node (us @ ys))"
    using ring_first [OF r(2)] ne
    by (cases "us @ ys") (auto simp: bt_list_head_def list_peek_head_def simp del: append_assoc)
  assume y: "ys = y # ys'"
  show y0: "y \<noteq> NULL" using ring_alive [OF r(2)] r(1) y by (auto simp: mem_ok_def)
  have "get_next m y = Some (hd (ys' @ [lhead l]))" using ring_iter(2) [OF r(2) y] .
  then show "bt_list_next m l y = Some (first_node ys')"
    using y0 ne y by (cases ys') (auto simp: bt_list_next_def list_next_def)
qed

definition unregistered :: "cb_state \<Rightarrow> ptr \<Rightarrow> remote_callback_t \<Rightarrow> bt_list_t \<Rightarrow> mem \<Rightarrow> ptr option \<times> cb_state" where
  "unregistered s p r l m = (Some (rc_remote r), s\<lparr>cmem := m, rcbks := (rcbks s)(p := None),
     cbsl := (cbsl s)\<lparr>cb_list := l, registed := registed (cbsl s) - 1\<rparr>\<rparr>)"

lemma remove_node_brk: "bt_list_remove_node m l x = Some (l', m') \<Longrightarrow> brk m' = brk m"
  by (auto simp: bt_list_remove_node_def list_delete_def set_cell_eq free_cell_def run_free_cb_def
      bind_eq_Some_conv split: if_splits)

lemma unregister_loop_eq:
  assumes "bt_rep (cmem s) (cb_list (cbsl s)) (us @ ys) (as @ bs)" "length us = length as"
    "\<And>d. d \<in> set bs \<Longrightarrow> rcbks s d \<noteq> None"
  shows "if p \<notin> set bs then unregister_loop s p (first_node ys) = Some (None, s)
     else \<exists>r l m zs. unregister_loop s p (first_node ys) = Some (unregistered s p r l m) \<and>
        rcbks s p = Some r \<and> bt_rep m l zs (as @ remove1 p bs) \<and> free_cb l = free_cb (cb_list (cbsl s)) \<and>
        budget m = budget (cmem s) \<and> brk m = brk (cmem s)"
  using assms
proof (induction ys arbitrary: us as bs)
  case Nil
  then have "bs = []" using bt_repD(5) [OF Nil.prems(1)] by auto
  then show ?case by (simp add: unregister_loop.simps)
next
  case (Cons y ys)
  obtain b bs' where bs: "bs = b # bs'" using bt_repD(5) [OF Cons.prems(1)] Cons.prems(2) by (cases bs) auto
  have data: "get_data (cmem s) y = Some b"
    using bt_repD(3) [OF Cons.prems(1)] bs Cons.prems(2) by auto
  note walk = bt_list_walk(2,3) [OF Cons.prems(1) refl]
  have node: "bt_list_node (cmem s) y = Some b" using data walk(2) by (simp add: bt_list_node_def)
  show ?case
  proof (cases "p = b")
    case True
    obtain l m where rm: "bt_list_remove_node (cmem s) (cb_list (cbsl s)) y = Some (l, m)"
      "bt_rep m l (us @ ys) (as @ bs')" "free_cb l = free_cb (cb_list (cbsl s))" "budget m = budget (cmem s)"
      using bt_list_remove_node_rep [OF Cons.prems(1) [unfolded bs] Cons.prems(2)] by blast
    obtain r where r: "rcbks s b = Some r" using Cons.prems(3) [of b] bs by auto
    have "unregister_loop s p y = Some (unregistered s p r l m)"
      using True rm(1) node walk(2) r by (subst unregister_loop.simps) (simp add: unregistered_def)
    with True r rm(2-4) remove_node_brk [OF rm(1)] bs show ?thesis by auto
  next
    case False
    have rep': "bt_rep (cmem s) (cb_list (cbsl s)) ((us @ [y]) @ ys) ((as @ [b]) @ bs')"
      using Cons.prems(1) bs by simp
    have "unregister_loop s p y = unregister_loop s p (first_node ys)"
      using False node walk by (simp add: unregister_loop.simps [of s p y])
    with Cons.IH [OF rep'] False bs Cons.prems(2,3) show ?thesis by (simp split: if_splits)
  qed
qed

lemma unregister_unknown:
  assumes "cb_inv s ds" "p \<notin> set ds"
  shows "bt_remote_callbacks_unregister s p = Some (None, s)"
proof -
  obtain xs where rep: "bt_rep (cmem s) (cb_list (cbsl s)) xs ds" using assms by (auto simp: cb_inv_def)
  have live: "\<And>d. d \<in> set ds \<Longrightarrow> rcbks s d \<noteq> None" using assms by (auto simp: cb_inv_def)
  show ?thesis
    using unregister_loop_eq [of s "[]" xs "[]" ds p] rep live assms(2) bt_list_walk(1) [of "cmem s" _ "[]" xs ds]
    by (simp add: bt_remote_callbacks_unregister_def)
qed

lemma unregister_known:
  assumes inv: "cb_inv s ds" and p: "p \<in> set ds"
  shows "\<exists>r s'. bt_remote_callbacks_unregister s p = Some (Some (rc_remote r), s') \<and> rcbks s p = Some r \<and>
     cb_inv s' (remove1 p ds) \<and> cb_entries s' (remove1 p ds) = cb_entries s (remove1 p ds) \<and>
     max_reg (cbsl s') = max_reg (cbsl s) \<and> budget (cmem s') = budget (cmem s)"
proof -
  obtain xs where rep: "bt_rep (cmem s) (cb_list (cbsl s)) xs ds" using inv by (auto simp: cb_inv_def)
  have live: "\<And>d. d \<in> set ds \<Longrightarrow> rcbks s d \<noteq> None" using inv by (auto simp: cb_inv_def)
  obtain r l m zs where u: "unregister_loop s p (first_node xs) = Some (unregistered s p r l m)"
    "rcbks s p = Some r" "bt_rep m l zs (remove1 p ds)" "free_cb l = free_cb (cb_list (cbsl s))"
    "budget m = budget (cmem s)" "brk m = brk (cmem s)"
    using unregister_loop_eq [of s "[]" xs "[]" ds p] rep live p by auto
  let ?s = "s\<lparr>cmem := m, rcbks := (rcbks s)(p := None), cbsl := (cbsl s)\<lparr>cb_list := l, registed := registed (cbsl s) - 1\<rparr>\<rparr>"
  have dist: "distinct ds" "unat (registed (cbsl s)) = length ds" using inv by (auto simp: cb_inv_def)
  have pos: "registed (cbsl s) \<noteq> 0" using dist(2) p by (auto simp: unat_eq_0)
  have cnt: "unat (registed (cbsl s) - 1) = length (remove1 p ds)"
    using unat_minus_one [OF pos] dist(2) p by (simp add: length_remove1)
  have "registed (cbsl s) - 1 \<le> registed (cbsl s)" using unat_minus_one [OF pos] by (simp add: word_le_nat_alt)
  then have le: "registed (cbsl s) - 1 \<le> max_reg (cbsl s)" using inv unfolding cb_inv_def by (meson order_trans)
  have "cb_inv ?s (remove1 p ds)"
    using inv u cnt le dist(1) by (auto simp: cb_inv_def)
  moreover have "cb_entries ?s (remove1 p ds) = cb_entries s (remove1 p ds)"
    using dist(1) by (auto simp: cb_entries_def)
  moreover have "bt_remote_callbacks_unregister s p = Some (Some (rc_remote r), ?s)"
    using u(1) bt_list_walk(1) [of "cmem s" _ "[]" xs ds] rep
    by (simp add: bt_remote_callbacks_unregister_def unregistered_def)
  ultimately show ?thesis using u(2,5) by simp
qed

section \<open>Histories\<close>

datatype cb_op = Register ptr ptr | Unregister ptr

definition cb_exec :: "cb_state \<Rightarrow> cb_op \<Rightarrow> cb_state option" where
  "cb_exec s op = (case op of
      Register remote callbacks \<Rightarrow> map_option snd (bt_remote_callbacks_register s remote callbacks)
    | Unregister p \<Rightarrow> map_option snd (bt_remote_callbacks_unregister s p))"

fun cb_run :: "cb_state \<Rightarrow> cb_op list \<Rightarrow> cb_state option" where
  "cb_run s [] = Some s"
| "cb_run s (op # ops) = do { s \<leftarrow> cb_exec s op; cb_run s ops }"

text \<open>No remote client occurs twice, and no local client registers one table twice.\<close>

definition cb_unique :: "(ptr \<times> ptr) list \<Rightarrow> bool" where
  "cb_unique es \<longleftrightarrow> distinct (map fst (filter (\<lambda>e. fst e \<noteq> NULL) es)) \<and>
     distinct (map snd (filter (\<lambda>e. fst e = NULL) es))"

lemma cb_unique_sub: "cb_unique (cb_entries s ds) \<Longrightarrow> cb_unique (cb_entries s (remove1 p ds))"
proof -
  have sub: "\<exists>xs ys zs. cb_entries s ds = xs @ ys @ zs \<and> cb_entries s (remove1 p ds) = xs @ zs"
  proof (cases "p \<in> set ds")
    case True
    then obtain as bs where "ds = as @ p # bs" "p \<notin> set as" by (meson split_list_first)
    then have "cb_entries s ds = cb_entries s as @ cb_entries s [p] @ cb_entries s bs"
      "cb_entries s (remove1 p ds) = cb_entries s as @ cb_entries s bs"
      by (auto simp: cb_entries_def remove1_append)
    then show ?thesis by blast
  next
    case False
    then have "cb_entries s ds = cb_entries s ds @ [] @ []" "cb_entries s (remove1 p ds) = cb_entries s ds @ []"
      by (simp_all add: remove1_idem)
    then show ?thesis by blast
  qed
  then obtain xs ys zs where e: "cb_entries s ds = xs @ ys @ zs" "cb_entries s (remove1 p ds) = xs @ zs" by blast
  assume "cb_unique (cb_entries s ds)"
  then show ?thesis unfolding e cb_unique_def by auto
qed

lemma cb_exec_ok:
  assumes inv: "cb_inv s ds" and un: "cb_unique (cb_entries s ds)" and room: "2 \<le> budget (cmem s)"
  shows "\<exists>s' ds'. cb_exec s op = Some s' \<and> cb_inv s' ds' \<and> cb_unique (cb_entries s' ds') \<and>
     budget (cmem s) \<le> budget (cmem s') + 2 \<and> max_reg (cbsl s') = max_reg (cbsl s)"
proof (cases op)
  case (Unregister p)
  show ?thesis
  proof (cases "p \<in> set ds")
    case True
    obtain r s' where s': "bt_remote_callbacks_unregister s p = Some (Some (rc_remote r), s')" "rcbks s p = Some r"
      "cb_inv s' (remove1 p ds)" "cb_entries s' (remove1 p ds) = cb_entries s (remove1 p ds)"
      "max_reg (cbsl s') = max_reg (cbsl s)" "budget (cmem s') = budget (cmem s)"
      using unregister_known [OF inv True] by blast
    then show ?thesis using cb_unique_sub [OF un, of p] Unregister by (auto simp: cb_exec_def)
  next
    case False
    then show ?thesis using unregister_unknown [OF inv False] inv un Unregister by (auto simp: cb_exec_def)
  qed
next
  case (Register remote callbacks)
  show ?thesis
  proof (cases "registed (cbsl s) = max_reg (cbsl s) \<or> cb_duplicate s ds remote callbacks")
    case True
    then show ?thesis using register_rejects [OF inv True] Register inv un by (auto simp: cb_exec_def)
  next
    case False
    have dup: "\<not> cb_duplicate s ds remote callbacks" and lim: "registed (cbsl s) \<noteq> max_reg (cbsl s)"
      using False by auto
    obtain s' where s': "bt_remote_callbacks_register s remote callbacks = Some (brk (cmem s), s')"
      "cb_inv s' (ds @ [brk (cmem s)])" "cb_entries s' (ds @ [brk (cmem s)]) = cb_entries s ds @ [(remote, callbacks)]"
      "max_reg (cbsl s') = max_reg (cbsl s)" "budget (cmem s') = budget (cmem s) - 2"
      using register_accepts [OF inv lim dup room] by blast
    have "cb_unique (cb_entries s ds @ [(remote, callbacks)])"
      using un dup by (auto simp: cb_unique_def cb_duplicate_def split: if_splits)
    then show ?thesis using s' Register by (auto simp: cb_exec_def)
  qed
qed

lemma cb_run_ok:
  assumes "cb_inv s ds" "cb_unique (cb_entries s ds)" "2 * length ops \<le> budget (cmem s)"
  shows "\<exists>s' ds'. cb_run s ops = Some s' \<and> cb_inv s' ds' \<and> cb_unique (cb_entries s' ds') \<and>
     max_reg (cbsl s') = max_reg (cbsl s)"
  using assms
proof (induction ops arbitrary: s ds)
  case Nil
  then show ?case by auto
next
  case (Cons op ops)
  obtain s1 ds1 where 1: "cb_exec s op = Some s1" "cb_inv s1 ds1" "cb_unique (cb_entries s1 ds1)"
    "budget (cmem s) \<le> budget (cmem s1) + 2" "max_reg (cbsl s1) = max_reg (cbsl s)"
    using cb_exec_ok [OF Cons.prems(1,2)] Cons.prems(3) by force
  then show ?case using Cons.IH [OF 1(2,3)] Cons.prems(3) by auto
qed

lemma callback_foreach_loop_eq:
  assumes "bt_rep (cmem s) (cb_list (cbsl s)) (us @ ys) (as @ bs)" "length us = length as"
    "\<And>d. d \<in> set bs \<Longrightarrow> rcbks s d \<noteq> None"
  shows "callback_foreach_loop s (first_node ys) out =
     Some (out @ [(if rc_remote r \<noteq> NULL then rc_remote r else d, rc_callbacks r).
                    (d, r) \<leftarrow> map (\<lambda>d. (d, the (rcbks s d))) bs, rc_callbacks r \<noteq> NULL])"
  using assms
proof (induction ys arbitrary: us as bs out)
  case Nil
  then have "bs = []" using bt_repD(5) [OF Nil.prems(1)] by auto
  then show ?case by (simp add: callback_foreach_loop.simps)
next
  case (Cons y ys)
  obtain b bs' where bs: "bs = b # bs'" using bt_repD(5) [OF Cons.prems(1)] Cons.prems(2) by (cases bs) auto
  obtain r where r: "rcbks s b = Some r" using Cons.prems(3) [of b] bs by auto
  note walk = bt_list_walk(2,3) [OF Cons.prems(1) refl]
  have node: "bt_list_node (cmem s) y = Some b"
    using bt_repD(3) [OF Cons.prems(1)] bs Cons.prems(2) walk(2) by (auto simp: bt_list_node_def)
  have rep': "bt_rep (cmem s) (cb_list (cbsl s)) ((us @ [y]) @ ys) ((as @ [b]) @ bs')"
    using Cons.prems(1) bs by simp
  show ?case
    using Cons.IH [OF rep'] Cons.prems(2,3) bs node walk r
    by (subst callback_foreach_loop.simps) simp
qed

section \<open>Properties\<close>

definition demo_registry :: cb_state where
  "demo_registry = \<lparr>cmem = demo_mem\<lparr>budget := 10\<rparr>, rcbks = Map.empty,
     cbsl = \<lparr>max_reg = 2, registed = 0, cb_list = demo_empty\<rparr>\<rparr>"

lemma demo_registry_inv: "cb_inv demo_registry []"
proof -
  have "bt_rep (demo_mem\<lparr>budget := 10\<rparr>) demo_empty [] []"
    by (auto simp: bt_rep_def demo_mem_def demo_empty_def mem_ok_def alive_def ring_def
        get_next_def get_prev_def split: if_splits)
  then show ?thesis by (auto simp: cb_inv_def demo_registry_def) (simp add: demo_empty_def)
qed

text \<open>A full registry: a remote client 7 with table 9 and a local client with table 11.\<close>

definition demo_full :: cb_state where
  "demo_full = \<lparr>cmem = demo_mem\<lparr>brk := 100\<rparr>,
     rcbks = [70 \<mapsto> \<lparr>rc_remote = 7, rc_callbacks = 9\<rparr>, 80 \<mapsto> \<lparr>rc_remote = 0, rc_callbacks = 11\<rparr>],
     cbsl = \<lparr>max_reg = 2, registed = 2, cb_list = demo_list\<rparr>\<rparr>"

lemma demo_full_inv: "cb_inv demo_full [70, 80]"
proof -
  have "bt_rep (demo_mem\<lparr>brk := 100\<rparr>) demo_list [2, 3] [70, 80]"
    by (auto simp: bt_rep_def demo_mem_def demo_list_def mem_ok_def alive_def ring_def
        get_next_def get_prev_def get_data_def split: if_splits)
  then show ?thesis by (auto simp: cb_inv_def demo_full_def) (simp add: demo_list_def)
qed







end
