(* ===== verification/Addr_Uuid.thy ===== *)
theory Addr_Uuid
  imports Prelude
begin

text \<open>
  framework/common/bt_addr.c and bt_uuid.c with the stream macros of bt_utils.h: device addresses
  and their textual form, UUIDs of the three widths, their expansion over the Bluetooth base
  UUID, comparison and printing. A C string is a \<open>string\<close> without its terminating NUL, a byte
  buffer is a list of bytes; reading past the end of a buffer is \<open>None\<close>. The lemmas are the round
  trips between the textual and the binary forms and the laws of the comparison.
\<close>

unbundle bit_operations_syntax

section \<open>The C library functions in use\<close>

fun memcmp :: "u8 list \<Rightarrow> u8 list \<Rightarrow> int" where
  "memcmp (x # xs) (y # ys) = (if x = y then memcmp xs ys else int (unat x) - int (unat y))"
| "memcmp _ _ = 0"

definition isxdigit :: "char \<Rightarrow> bool" where
  "isxdigit c \<longleftrightarrow> c \<in> set ''0123456789abcdefABCDEF''"

definition hexdigit_upper :: "nat \<Rightarrow> char" where
  "hexdigit_upper n = ''0123456789ABCDEF'' ! (n mod 16)"

definition hexdigit_lower :: "nat \<Rightarrow> char" where
  "hexdigit_lower n = ''0123456789abcdef'' ! (n mod 16)"

definition hexvalue :: "char \<Rightarrow> nat" where
  "hexvalue c =
     (let n = of_char c :: nat
      in if n < 58 then n - 48 else if n < 71 then n - 55 else n - 87)"

text \<open>The conversions \<open>%2.2X\<close> and \<open>%0kx\<close>.\<close>

definition format_2_2X :: "u8 \<Rightarrow> string" where
  "format_2_2X b = [hexdigit_upper (unat b div 16), hexdigit_upper (unat b)]"

primrec format_0x :: "nat \<Rightarrow> nat \<Rightarrow> string" where
  "format_0x 0 n = []"
| "format_0x (Suc k) n = format_0x k (n div 16) @ [hexdigit_lower n]"

text \<open>\<open>strtol (str, NULL, 16)\<close> on a string that starts with a hexadecimal digit.\<close>

fun strtol16_from :: "nat \<Rightarrow> string \<Rightarrow> nat" where
  "strtol16_from acc (c # cs) = (if isxdigit c then strtol16_from (acc * 16 + hexvalue c) cs else acc)"
| "strtol16_from acc [] = acc"

definition strtol16 :: "string \<Rightarrow> nat" where
  "strtol16 = strtol16_from 0"

section \<open>Device addresses\<close>

type_synonym bt_address_t = "u8 list"

definition BT_ADDR_LENGTH :: nat where
  "BT_ADDR_LENGTH = 6"

definition bt_addr_empty :: bt_address_t where
  "bt_addr_empty = [0, 0, 0, 0, 0, 0]"

fun bachk_loop :: "string \<Rightarrow> int" where
  "bachk_loop [] = 0"
| "bachk_loop [c] = - 1"
| "bachk_loop [c, d] = (if \<not> isxdigit c then - 1 else if \<not> isxdigit d then - 1 else 0)"
| "bachk_loop (c # d # e # cs) =
     (if \<not> isxdigit c then - 1 else if \<not> isxdigit d then - 1
      else if e \<noteq> CHR '':'' then - 1 else bachk_loop cs)"

definition bachk :: "string option \<Rightarrow> int" where
  "bachk str = (case str of None \<Rightarrow> - 1 | Some s \<Rightarrow> if length s \<noteq> 17 then - 1 else bachk_loop s)"

definition bt_addr_is_empty :: "bt_address_t \<Rightarrow> bool" where
  "bt_addr_is_empty a \<longleftrightarrow> memcmp a bt_addr_empty = 0"

definition bt_addr_set_empty :: bt_address_t where
  "bt_addr_set_empty = bt_addr_empty"

definition bt_addr_compare :: "bt_address_t \<Rightarrow> bt_address_t \<Rightarrow> int" where
  "bt_addr_compare a b = memcmp a b"

definition bt_addr_ba2str :: "bt_address_t \<Rightarrow> string" where
  "bt_addr_ba2str a =
     format_2_2X (a ! 5) @ '':'' @ format_2_2X (a ! 4) @ '':'' @ format_2_2X (a ! 3) @ '':'' @
     format_2_2X (a ! 2) @ '':'' @ format_2_2X (a ! 1) @ '':'' @ format_2_2X (a ! 0)"

definition bt_addr_bastr :: "bt_address_t option \<Rightarrow> string option" where
  "bt_addr_bastr a = map_option (\<lambda>a. take 17 (bt_addr_ba2str a)) a"

text \<open>The loop of \<open>bt_addr_str2ba\<close>, from index \<open>n - 1\<close> down to 0.\<close>

primrec str2ba_loop :: "nat \<Rightarrow> string \<Rightarrow> bt_address_t \<Rightarrow> bt_address_t" where
  "str2ba_loop 0 str a = a"
| "str2ba_loop (Suc i) str a = str2ba_loop i (drop 3 str) (a[i := of_nat (strtol16 str)])"

definition bt_addr_str2ba :: "string \<Rightarrow> bt_address_t \<Rightarrow> int \<times> bt_address_t" where
  "bt_addr_str2ba str a =
     (if bachk (Some str) < 0 then (- 1, replicate 6 0) else (0, str2ba_loop 6 str a))"

definition bt_addr_set :: "u8 list \<Rightarrow> bt_address_t" where
  "bt_addr_set bd = take 6 bd"

definition bt_addr_swap :: "bt_address_t \<Rightarrow> bt_address_t \<Rightarrow> bt_address_t" where
  "bt_addr_swap src dest = foldl (\<lambda>d i. d[5 - i := src ! i]) dest [0..<6]"

section \<open>Streams\<close>

definition UINT16_TO_STREAM :: "u16 \<Rightarrow> u8 list" where
  "UINT16_TO_STREAM w = [ucast w, ucast (drop_bit 8 w)]"

definition UINT32_TO_STREAM :: "u32 \<Rightarrow> u8 list" where
  "UINT32_TO_STREAM w = [ucast w, ucast (drop_bit 8 w), ucast (drop_bit 16 w), ucast (drop_bit 24 w)]"

fun STREAM_TO_UINT16 :: "u8 list \<Rightarrow> (u16 \<times> u8 list) option" where
  "STREAM_TO_UINT16 (a # b # p) = Some (ucast a + push_bit 8 (ucast b), p)"
| "STREAM_TO_UINT16 _ = None"

fun STREAM_TO_UINT32 :: "u8 list \<Rightarrow> (u32 \<times> u8 list) option" where
  "STREAM_TO_UINT32 (a # b # c # d # p) =
     Some (ucast a + push_bit 8 (ucast b) + push_bit 16 (ucast c) + push_bit 24 (ucast d), p)"
| "STREAM_TO_UINT32 _ = None"

fun BE_STREAM_TO_UINT16 :: "u8 list \<Rightarrow> (u16 \<times> u8 list) option" where
  "BE_STREAM_TO_UINT16 (a # b # p) = Some (push_bit 8 (ucast a) + ucast b, p)"
| "BE_STREAM_TO_UINT16 _ = None"

section \<open>UUIDs\<close>

text \<open>The tagged union \<open>bt_uuid_t\<close>: one constructor per tag of \<open>uuid_type_t\<close>, and one for any
  other value of the tag byte.\<close>

datatype bt_uuid_t = BT_UUID16 u16 | BT_UUID32 u32 | BT_UUID128 "u8 list" | BT_UUID_NONE u8

definition bt_uuid128_base :: "u8 list" where
  "bt_uuid128_base = [0xFB, 0x34, 0x9B, 0x5F, 0x80, 0x00, 0x00, 0x80,
                      0x00, 0x10, 0x00, 0x00, 0x00, 0x00, 0x00, 0x00]"

definition memcpy_at :: "nat \<Rightarrow> u8 list \<Rightarrow> u8 list \<Rightarrow> u8 list" where
  "memcpy_at off src dst = take off dst @ src @ drop (off + length src) dst"

definition bt_uuid16_to_uuid128 :: "u16 \<Rightarrow> bt_uuid_t" where
  "bt_uuid16_to_uuid128 w = BT_UUID128 (memcpy_at 12 (UINT16_TO_STREAM w) bt_uuid128_base)"

definition bt_uuid128_to_uuid16 :: "u8 list \<Rightarrow> bt_uuid_t" where
  "bt_uuid128_to_uuid16 u = BT_UUID16 (push_bit 8 (ucast (u ! 13)) OR ucast (u ! 12))"

definition bt_uuid32_to_uuid128 :: "u32 \<Rightarrow> bt_uuid_t" where
  "bt_uuid32_to_uuid128 w = BT_UUID128 (memcpy_at 12 (UINT32_TO_STREAM w) bt_uuid128_base)"

text \<open>The destination is an argument where a branch leaves it as it is.\<close>

definition bt_uuid_to_uuid128 :: "bt_uuid_t \<Rightarrow> bt_uuid_t \<Rightarrow> bt_uuid_t" where
  "bt_uuid_to_uuid128 src uuid128 =
     (case src of
        BT_UUID128 u \<Rightarrow> BT_UUID128 u
      | BT_UUID32 w \<Rightarrow> bt_uuid32_to_uuid128 w
      | BT_UUID16 w \<Rightarrow> bt_uuid16_to_uuid128 w
      | BT_UUID_NONE t \<Rightarrow> uuid128)"

definition bt_uuid_to_uuid16 :: "bt_uuid_t \<Rightarrow> bt_uuid_t \<Rightarrow> bt_uuid_t" where
  "bt_uuid_to_uuid16 src uuid16 =
     (case src of
        BT_UUID128 u \<Rightarrow> bt_uuid128_to_uuid16 u
      | BT_UUID32 w \<Rightarrow> uuid16
      | BT_UUID16 w \<Rightarrow> BT_UUID16 w
      | BT_UUID_NONE t \<Rightarrow> uuid16)"

text \<open>The 16 bytes of the union as \<open>memcmp\<close> reads them; the zero-initialised one is all zero.\<close>

fun u128 :: "bt_uuid_t \<Rightarrow> u8 list" where
  "u128 (BT_UUID128 u) = u"
| "u128 (BT_UUID16 w) = UINT16_TO_STREAM w @ replicate 14 0"
| "u128 (BT_UUID32 w) = UINT32_TO_STREAM w @ replicate 12 0"
| "u128 (BT_UUID_NONE t) = replicate 16 0"

definition bt_uuid128_cmp :: "bt_uuid_t \<Rightarrow> bt_uuid_t \<Rightarrow> int" where
  "bt_uuid128_cmp u1 u2 = memcmp (take 16 (u128 u1)) (take 16 (u128 u2))"

definition bt_uuid16_create :: "u16 \<Rightarrow> bt_uuid_t" where
  "bt_uuid16_create value = BT_UUID16 value"

definition bt_uuid32_create :: "u32 \<Rightarrow> bt_uuid_t" where
  "bt_uuid32_create value = BT_UUID32 value"

definition bt_uuid128_create :: "u8 list \<Rightarrow> bt_uuid_t option" where
  "bt_uuid128_create value = (if length value < 16 then None else Some (BT_UUID128 (take 16 value)))"

text \<open>\<open>None\<close> is a read past the end of \<open>data\<close>, \<open>Some None\<close> the result \<open>false\<close>.\<close>

definition bt_uuid_create_common :: "u8 list \<Rightarrow> u8 \<Rightarrow> bt_uuid_t option option" where
  "bt_uuid_create_common data type =
     (if type = 16 then map_option Some (bt_uuid128_create data)
      else if type = 4 then map_option (\<lambda>(v, p). Some (bt_uuid32_create v)) (STREAM_TO_UINT32 data)
      else if type = 2 then map_option (\<lambda>(v, p). Some (bt_uuid16_create (ucast v))) (STREAM_TO_UINT32 data)
      else Some None)"

definition bt_uuid_compare :: "bt_uuid_t \<Rightarrow> bt_uuid_t \<Rightarrow> int" where
  "bt_uuid_compare uuid1 uuid2 =
     bt_uuid128_cmp (bt_uuid_to_uuid128 uuid1 (BT_UUID_NONE 0)) (bt_uuid_to_uuid128 uuid2 (BT_UUID_NONE 0))"

text \<open>\<open>snprintf\<close> stores at most \<open>len - 1\<close> characters.\<close>

definition bt_uuid_to_string :: "bt_uuid_t \<Rightarrow> nat \<Rightarrow> string option" where
  "bt_uuid_to_string uuid len =
     do { (tmp0, p) \<leftarrow> STREAM_TO_UINT16 (u128 (bt_uuid_to_uuid128 uuid (BT_UUID_NONE 0)));
          (tmp1, p) \<leftarrow> STREAM_TO_UINT32 p;
          (tmp2, p) \<leftarrow> STREAM_TO_UINT16 p;
          (tmp3, p) \<leftarrow> STREAM_TO_UINT16 p;
          (tmp4, p) \<leftarrow> STREAM_TO_UINT16 p;
          (tmp5, p) \<leftarrow> STREAM_TO_UINT32 p;
          Some (take (len - 1) (format_0x 8 (unat tmp5) @ ''-'' @ format_0x 4 (unat tmp4) @ ''-'' @
            format_0x 4 (unat tmp3) @ ''-'' @ format_0x 4 (unat tmp2) @ ''-'' @
            format_0x 8 (unat tmp1) @ format_0x 4 (unat tmp0))) }"

section \<open>Round trips of addresses\<close>

lemma less_16_cases: "n < (16 :: nat) \<Longrightarrow> n \<in> {0,1,2,3,4,5,6,7,8,9,10,11,12,13,14,15}"
  by (simp, presburger)

lemma hexdigit_upper_value: "isxdigit (hexdigit_upper n)" "hexvalue (hexdigit_upper n) = n mod 16"
proof -
  have "n mod 16 < 16" by simp
  from less_16_cases [OF this]
  show "isxdigit (hexdigit_upper n)" "hexvalue (hexdigit_upper n) = n mod 16"
    by (auto simp: hexdigit_upper_def isxdigit_def hexvalue_def)
qed

lemma colon_not_xdigit [simp]: "\<not> isxdigit (CHR '':'')"
  by (simp add: isxdigit_def)

lemma strtol16_pair:
  assumes "isxdigit c" "isxdigit d"
  shows "strtol16 (c # d # CHR '':'' # cs) = hexvalue c * 16 + hexvalue d"
    "strtol16 [c, d] = hexvalue c * 16 + hexvalue d"
  using assms by (simp_all add: strtol16_def)

lemma hex_of_byte: "of_nat (unat (b :: u8) div 16 mod 16 * 16 + unat b mod 16) = b"
proof -
  have "unat b div 16 mod 16 * 16 + unat b mod 16 = unat b" using unat_u8 [of b] by simp
  then show ?thesis by simp
qed

definition toupper :: "char \<Rightarrow> char" where
  "toupper c = (let n = of_char c :: nat in if 97 \<le> n \<and> n \<le> 122 then char_of (n - 32) else c)"

lemma hexdigit_upper_hexvalue:
  assumes "isxdigit c"
  shows "hexdigit_upper (hexvalue c) = toupper c" "hexvalue c < 16"
  using assms unfolding isxdigit_def 
  by (auto simp: hexvalue_def toupper_def hexdigit_upper_def char_of_def bit_iff_odd)

lemma format_of_pair:
  assumes "isxdigit c" "isxdigit d"
  shows "format_2_2X (of_nat (hexvalue c * 16 + hexvalue d)) = [toupper c, toupper d]"
proof -
  have h: "hexvalue c < 16" "hexvalue d < 16" using assms by (auto simp: hexdigit_upper_hexvalue)
  then have "unat (of_nat (hexvalue c * 16 + hexvalue d) :: u8) = hexvalue c * 16 + hexvalue d"
    by (simp add: unat_of_nat del: of_nat_add of_nat_mult)
  then have "format_2_2X (of_nat (hexvalue c * 16 + hexvalue d)) =
      [hexdigit_upper (hexvalue c), hexdigit_upper (hexvalue c * 16 + hexvalue d)]"
    using h by (simp add: format_2_2X_def)
  moreover have "hexdigit_upper (hexvalue c * 16 + hexvalue d) = hexdigit_upper (hexvalue d)"
    by (simp add: hexdigit_upper_def)
  ultimately show ?thesis using assms by (simp add: hexdigit_upper_hexvalue)
qed

lemma length_6E:
  assumes "length a = 6"
  obtains a0 a1 a2 a3 a4 a5 where "a = [a0, a1, a2, a3, a4, a5]"
  using assms by (auto simp: eval_nat_numeral length_Suc_conv)

lemma bachk_loop_ok:
  "bachk_loop (c # d # e # cs) = 0 \<longleftrightarrow> isxdigit c \<and> isxdigit d \<and> e = CHR '':'' \<and> bachk_loop cs = 0"
  "bachk_loop [c, d] = 0 \<longleftrightarrow> isxdigit c \<and> isxdigit d"
  by simp_all

lemma bachk_ok_shape:
  assumes "bachk (Some s) = 0"
  obtains c0 d0 c1 d1 c2 d2 c3 d3 c4 d4 c5 d5 where
    "s = [c5, d5, CHR '':'', c4, d4, CHR '':'', c3, d3, CHR '':'', c2, d2, CHR '':'', c1, d1, CHR '':'', c0, d0]"
    "\<forall>c \<in> {c0, d0, c1, d1, c2, d2, c3, d3, c4, d4, c5, d5}. isxdigit c"
proof -
  have "length s = 17" "bachk_loop s = 0" using assms by (auto simp: bachk_def split: if_splits)
  then obtain x0 x1 x2 x3 x4 x5 x6 x7 x8 x9 x10 x11 x12 x13 x14 x15 x16 where
    s: "s = [x0,x1,x2,x3,x4,x5,x6,x7,x8,x9,x10,x11,x12,x13,x14,x15,x16]"
    by (auto simp: eval_nat_numeral length_Suc_conv)
  show thesis
    using \<open>bachk_loop s = 0\<close> unfolding s bachk_loop_ok
    by (intro that [of x0 x1 x3 x4 x6 x7 x9 x10 x12 x13 x15 x16]) (auto simp: s)
qed

lemma bachk_range: "bachk s = 0 \<or> bachk s = - 1"
proof -
  have "bachk_loop t = 0 \<or> bachk_loop t = - 1" for t by (induction t rule: bachk_loop.induct) auto
  then show ?thesis by (auto simp: bachk_def split: option.split)
qed

lemma bachk_ok: "bachk s < 0 \<longleftrightarrow> bachk s \<noteq> 0"
  using bachk_range [of s] by auto

lemma str2ba_loop_6:
  "str2ba_loop 6 s [d0, d1, d2, d3, d4, d5] =
     [of_nat (strtol16 (drop 15 s)), of_nat (strtol16 (drop 12 s)), of_nat (strtol16 (drop 9 s)),
      of_nat (strtol16 (drop 6 s)), of_nat (strtol16 (drop 3 s)), of_nat (strtol16 s)]"
  by (simp add: eval_nat_numeral)

text \<open>C21. Printing an address and parsing the text gives the address back, and every text the
  parser accepts is, up to the case of its digits, the printed form of what it returns.\<close>

theorem bt_addr_roundtrip:
  assumes "length a = 6" "length d = 6"
  shows "bt_addr_str2ba (bt_addr_ba2str a) d = (0, a) \<and>
    (bt_addr_str2ba s d = (0, a) \<longrightarrow> bt_addr_ba2str a = map toupper s)"
proof (intro conjI impI)
  obtain a0 a1 a2 a3 a4 a5 where a: "a = [a0, a1, a2, a3, a4, a5]" using length_6E [OF assms(1)] .
  obtain d0 d1 d2 d3 d4 d5 where d: "d = [d0, d1, d2, d3, d4, d5]" using length_6E [OF assms(2)] .
  show "bt_addr_str2ba (bt_addr_ba2str a) d = (0, a)"
    by (simp add: a d bt_addr_str2ba_def bt_addr_ba2str_def bachk_def format_2_2X_def str2ba_loop_6
        hexdigit_upper_value strtol16_pair hex_of_byte del: of_nat_add of_nat_mult)
  assume "bt_addr_str2ba s d = (0, a)"
  then have ok: "bachk (Some s) = 0" and l: "str2ba_loop 6 s d = a"
    by (auto simp: bt_addr_str2ba_def bachk_ok split: if_splits)
  from ok show "bt_addr_ba2str a = map toupper s"
    by (rule bachk_ok_shape)
      (simp add: l [symmetric] str2ba_loop_6 d strtol16_pair bt_addr_ba2str_def format_of_pair toupper_def
        del: of_nat_add of_nat_mult)
qed

theorem bt_addr_roundtrip_witness:
  "bt_addr_ba2str [1, 2, 3, 4, 0xAB, 0xCD] = ''CD:AB:04:03:02:01'' \<and>
   bt_addr_str2ba ''CD:AB:04:03:02:01'' [0, 0, 0, 0, 0, 0] = (0, [1, 2, 3, 4, 0xAB, 0xCD])"
proof -
  have *: "bt_addr_ba2str [1, 2, 3, 4, 0xAB, 0xCD] = ''CD:AB:04:03:02:01''"
    by (simp add: bt_addr_ba2str_def format_2_2X_def hexdigit_upper_def)
  show ?thesis
    using bt_addr_roundtrip [of "[1, 2, 3, 4, 0xAB, 0xCD]" "[0, 0, 0, 0, 0, 0]"] * by simp
qed

section \<open>UUIDs as 128-bit numbers\<close>

primrec le_value :: "u8 list \<Rightarrow> nat" where
  "le_value [] = 0"
| "le_value (b # bs) = unat b + 256 * le_value bs"

lemma base_256_inj:
  assumes "a < 256" "b < (256 :: nat)"
  shows "a + 256 * x = b + 256 * y \<longleftrightarrow> a = b \<and> x = y"
proof
  assume *: "a + 256 * x = b + 256 * y"
  have "a = (a + 256 * x) mod 256" using assms(1) by simp
  also have "\<dots> = b" unfolding * using assms(2) by simp
  finally show "a = b \<and> x = y" using * by simp
qed simp

lemma base_256_digits:
  "n mod 256 + 256 * (n div 256 mod 256 + 256 * (n div 65536 mod 256 + 256 * (n div 16777216))) = (n :: nat)"
proof -
  have "n div 65536 = n div 256 div 256" "n div 16777216 = n div 256 div 256 div 256"
    by (simp_all add: div_mult2_eq [symmetric])
  then show ?thesis by (simp only: mod_mult_div_eq)
qed

lemma le_value_inj: "length xs = length ys \<Longrightarrow> le_value xs = le_value ys \<longleftrightarrow> xs = ys"
proof (induction xs ys rule: list_induct2)
  case (Cons x xs y ys)
  have "le_value (x # xs) = le_value (y # ys) \<longleftrightarrow> unat x = unat y \<and> le_value xs = le_value ys"
    using unat_u8 [of x] unat_u8 [of y] by (simp add: base_256_inj)
  with Cons show ?case by (simp add: word_unat_eq_iff)
qed simp

lemma memcmp_eq_0: "length xs = length ys \<Longrightarrow> memcmp xs ys = 0 \<longleftrightarrow> xs = ys"
  by (induction xs ys rule: list_induct2) (auto simp: word_uint_eq_iff)

lemma le_value_u16: "le_value (UINT16_TO_STREAM w) = unat w"
proof -
  have "unat (ucast w :: u8) = unat w mod 256" "unat (ucast (drop_bit 8 w) :: u8) = unat w div 256"
    using unsigned_less [of w, where ?'a = nat]
    by (simp_all add: unsigned_ucast_eq take_bit_eq_mod unsigned_drop_bit_eq drop_bit_eq_div unat_div_distrib)
  then show ?thesis by (simp add: UINT16_TO_STREAM_def)
qed

lemma le_value_u32: "le_value (UINT32_TO_STREAM w) = unat w"
proof -
  have "unat (ucast w :: u8) = unat w mod 256" "unat (ucast (drop_bit 8 w) :: u8) = unat w div 256 mod 256"
    "unat (ucast (drop_bit 16 w) :: u8) = unat w div 65536 mod 256"
    "unat (ucast (drop_bit 24 w) :: u8) = unat w div 16777216"
    using unsigned_less [of w, where ?'a = nat]
    by (simp_all add: unsigned_ucast_eq take_bit_eq_mod unsigned_drop_bit_eq drop_bit_eq_div unat_div_distrib)
  then show ?thesis using base_256_digits [of "unat w"] by (simp add: UINT32_TO_STREAM_def)
qed

text \<open>The number a UUID denotes: 16- and 32-bit UUIDs are shifted onto the Bluetooth base UUID
  00000000-0000-1000-8000-00805F9B34FB.\<close>

definition uuid_base_value :: nat where
  "uuid_base_value = 0x00000000000010008000 * 2 ^ 48 + 0x00805F9B34FB"

fun uuid_value :: "bt_uuid_t \<Rightarrow> nat" where
  "uuid_value (BT_UUID16 w) = uuid_base_value + unat w * 2 ^ 96"
| "uuid_value (BT_UUID32 w) = uuid_base_value + unat w * 2 ^ 96"
| "uuid_value (BT_UUID128 u) = le_value u"
| "uuid_value (BT_UUID_NONE t) = 0"

fun uuid_wf :: "bt_uuid_t \<Rightarrow> bool" where
  "uuid_wf (BT_UUID128 u) = (length u = 16)"
| "uuid_wf (BT_UUID_NONE t) = False"
| "uuid_wf _ = True"

lemma expand_value:
  assumes "uuid_wf u"
  shows "length (u128 (bt_uuid_to_uuid128 u d)) = 16" "le_value (u128 (bt_uuid_to_uuid128 u d)) = uuid_value u"
proof -
  have "le_value (u128 (bt_uuid16_to_uuid128 w)) = uuid_base_value + unat w * 2 ^ 96" for w
    using le_value_u16 [of w]
    by (simp add: bt_uuid16_to_uuid128_def memcpy_at_def bt_uuid128_base_def UINT16_TO_STREAM_def uuid_base_value_def)
  moreover have "le_value (u128 (bt_uuid32_to_uuid128 w)) = uuid_base_value + unat w * 2 ^ 96" for w
    using le_value_u32 [of w]
    by (simp add: bt_uuid32_to_uuid128_def memcpy_at_def bt_uuid128_base_def UINT32_TO_STREAM_def uuid_base_value_def)
  ultimately show "le_value (u128 (bt_uuid_to_uuid128 u d)) = uuid_value u"
    using assms by (cases u) (simp_all add: bt_uuid_to_uuid128_def)
  show "length (u128 (bt_uuid_to_uuid128 u d)) = 16"
    using assms by (cases u) (simp_all add: bt_uuid_to_uuid128_def bt_uuid16_to_uuid128_def bt_uuid32_to_uuid128_def
        memcpy_at_def bt_uuid128_base_def UINT16_TO_STREAM_def UINT32_TO_STREAM_def)
qed

text \<open>C22. Two UUIDs, of any widths, compare equal exactly when they denote the same 128-bit number
  over the Bluetooth base UUID.\<close>

theorem bt_uuid_compare_value:
  assumes "uuid_wf u" "uuid_wf v"
  shows "bt_uuid_compare u v = 0 \<longleftrightarrow> uuid_value u = uuid_value v"
  using expand_value [OF assms(1)] expand_value [OF assms(2)]
  by (simp add: bt_uuid_compare_def bt_uuid128_cmp_def memcmp_eq_0) (metis le_value_inj)

theorem bt_uuid_compare_value_witness:
  "bt_uuid_compare (BT_UUID16 0x110A) (BT_UUID32 0x110A) = 0 \<and>
   bt_uuid_compare (BT_UUID16 0x110A) (BT_UUID16 0x110B) \<noteq> 0"
  using bt_uuid_compare_value [of "BT_UUID16 0x110A" "BT_UUID32 0x110A"]
    bt_uuid_compare_value [of "BT_UUID16 0x110A" "BT_UUID16 0x110B"] by simp

text \<open>Reading a 16-bit UUID from a buffer needs four bytes: with a buffer of two or three bytes,
  which holds the whole UUID, the read runs past the end; with four, the value is the
  little-endian one of the first two.\<close>

theorem uuid16_from_buffer:
  "bt_uuid_create_common [a, b] 2 = None \<and> bt_uuid_create_common [a, b, c] 2 = None \<and>
   bt_uuid_create_common (a # b # c # d # p) 2 = Some (Some (BT_UUID16 (ucast a + push_bit 8 (ucast b))))"
proof -
  have "ucast (ucast a + push_bit 8 (ucast b) + push_bit 16 (ucast c) + push_bit 24 (ucast d) :: u32) =
      (ucast a + push_bit 8 (ucast b) :: u16)"
  proof -
    let ?n = "unat a + unat b * 256 + unat c * 65536 + unat d * 16777216"
    have "(ucast a + push_bit 8 (ucast b) + push_bit 16 (ucast c) + push_bit 24 (ucast d) :: u32) = of_nat ?n"
      by (simp add: push_bit_eq_mult)
    moreover have "ucast (of_nat ?n :: u32) = (of_nat ?n :: u16)"
      by (simp add: word_unat_eq_iff unsigned_ucast_eq unat_of_nat take_bit_eq_mod mod_mod_cancel
          del: of_nat_add of_nat_mult)
    moreover have "(of_nat ?n :: u16) = of_nat (unat a + unat b * 256)"
    proof -
      have "?n = unat a + unat b * 256 + 65536 * (unat c + unat d * 256)" by simp
      then have "?n mod 65536 = (unat a + unat b * 256) mod 65536" by (simp only: mod_mult_self2)
      then show ?thesis by (simp add: word_unat_eq_iff unat_of_nat del: of_nat_add of_nat_mult)
    qed
    then have "(of_nat ?n :: u16) = ucast a + push_bit 8 (ucast b)"
      by (simp add: push_bit_eq_mult)
    ultimately show ?thesis by metis
  qed
  then show ?thesis by (simp add: bt_uuid_create_common_def bt_uuid16_create_def)
qed

end
