(* ===== verification/Bt_Types.thy ===== *)
theory Bt_Types
  imports Addr_Uuid
begin

text \<open>
  The enumerations of framework/include (bt_status.h, bluetooth.h, bt_device.h) that several
  components use, with the order of the connection states the code compares by.
\<close>

datatype bt_status_t =
    BT_STATUS_SUCCESS | BT_STATUS_FAIL | BT_STATUS_NOT_READY | BT_STATUS_NOMEM | BT_STATUS_BUSY
  | BT_STATUS_DONE | BT_STATUS_UNSUPPORTED | BT_STATUS_PARM_INVALID | BT_STATUS_UNHANDLED
  | BT_STATUS_AUTH_FAILURE | BT_STATUS_RMT_DEV_DOWN | BT_STATUS_AUTH_REJECTED
  | BT_STATUS_JNI_ENVIRONMENT_ERROR | BT_STATUS_JNI_THREAD_ATTACH_ERROR | BT_STATUS_WAKELOCK_ERROR
  | BT_STATUS_ERROR_BUT_UNKNOWN | BT_STATUS_NOT_FOUND | BT_STATUS_DEVICE_NOT_FOUND
  | BT_STATUS_SERVICE_NOT_FOUND | BT_STATUS_NO_RESOURCES | BT_STATUS_IPC_ERROR
  | BT_STATUS_PAGE_TIMEOUT | BT_STATUS_RMT_DEV_TERMINATE | BT_STATUS_LOCAL_TERMINATED

abbreviation BT_STATUS_NOT_ENABLED :: bt_status_t where
  "BT_STATUS_NOT_ENABLED \<equiv> BT_STATUS_NOT_READY"

abbreviation BT_STATUS_NOT_SUPPORTED :: bt_status_t where
  "BT_STATUS_NOT_SUPPORTED \<equiv> BT_STATUS_UNSUPPORTED"

datatype bt_transport_t = BT_TRANSPORT_BLE | BT_TRANSPORT_BREDR

datatype ble_addr_type_t =
    BT_LE_ADDR_TYPE_PUBLIC | BT_LE_ADDR_TYPE_RANDOM | BT_LE_ADDR_TYPE_PUBLIC_ID
  | BT_LE_ADDR_TYPE_RANDOM_ID | BT_LE_ADDR_TYPE_ANONYMOUS | BT_LE_ADDR_TYPE_UNKNOWN

datatype bt_link_role_t = BT_LINK_ROLE_MASTER | BT_LINK_ROLE_SLAVE | BT_LINK_ROLE_UNKNOWN

datatype bt_link_mode_t = BT_LINK_MODE_ACTIVE | BT_LINK_MODE_SNIFF | BT_LINK_MODE_UNKNOWN

datatype bt_link_policy_t =
    BT_BR_LINK_POLICY_DISABLE_ALL | BT_BR_LINK_POLICY_ENABLE_ROLE_SWITCH
  | BT_BR_LINK_POLICY_ENABLE_SNIFF | BT_BR_LINK_POLICY_ENABLE_ROLE_SWITCH_AND_SNIFF

datatype bond_state_t = BOND_STATE_NONE | BOND_STATE_BONDING | BOND_STATE_BONDED | BOND_STATE_CANCELING

datatype connection_state_t =
    CONNECTION_STATE_DISCONNECTED | CONNECTION_STATE_CONNECTING | CONNECTION_STATE_DISCONNECTING
  | CONNECTION_STATE_CONNECTED | CONNECTION_STATE_ENCRYPTED_BREDR | CONNECTION_STATE_ENCRYPTED_LE

text \<open>The values C gives the enumerators, which order them.\<close>

fun connection_value :: "connection_state_t \<Rightarrow> nat" where
  "connection_value CONNECTION_STATE_DISCONNECTED = 0"
| "connection_value CONNECTION_STATE_CONNECTING = 1"
| "connection_value CONNECTION_STATE_DISCONNECTING = 2"
| "connection_value CONNECTION_STATE_CONNECTED = 3"
| "connection_value CONNECTION_STATE_ENCRYPTED_BREDR = 4"
| "connection_value CONNECTION_STATE_ENCRYPTED_LE = 5"

lemma connection_value_inj: "connection_value x = connection_value y \<Longrightarrow> x = y"
  by (cases x; cases y) auto

instantiation connection_state_t :: linorder
begin

definition less_eq_connection_state_t :: "connection_state_t \<Rightarrow> connection_state_t \<Rightarrow> bool" where
  "less_eq_connection_state_t x y \<longleftrightarrow> connection_value x \<le> connection_value y"

definition less_connection_state_t :: "connection_state_t \<Rightarrow> connection_state_t \<Rightarrow> bool" where
  "less_connection_state_t x y \<longleftrightarrow> connection_value x < connection_value y"

instance
  by standard (auto simp: less_eq_connection_state_t_def less_connection_state_t_def dest: connection_value_inj)

end

lemmas connection_order = less_eq_connection_state_t_def less_connection_state_t_def

end
