(* ===== verification/Device.thy ===== *)
theory Device
  imports Bt_Types
begin

text \<open>
  service/src/device.c: the record the service keeps of a remote device, its accessors, and the
  packing of the UUIDs of a bonded device into the byte array that is stored on flash, with
  the unpacking (\<open>load_remote_uuids\<close> of service/src/adapter_service.c). A \<open>char\<close> array holds the
  string up to its NUL; the pointer and count of the UUID array are a list.
\<close>

unbundle bit_operations_syntax

section \<open>The record and its accessors\<close>

definition BT_REM_NAME_MAX_LEN :: nat where
  "BT_REM_NAME_MAX_LEN = 64"

record remote_device =
  rd_name :: string
  rd_alias :: string
  rd_addr :: bt_address_t
  rd_addr_type :: ble_addr_type_t
  rd_local_role :: bt_link_role_t
  rd_device_class :: u32
  rd_transport :: bt_transport_t
  rd_device_type :: u8
  rd_acl_handle :: u32
  rd_rssi :: int
  rd_uuids :: "bt_uuid_t list"
  rd_connection_state :: connection_state_t
  rd_bond_state :: bond_state_t
  rd_local_initiate_bond :: bool
  rd_link_key :: "u8 list"
  rd_link_key_type :: u8
  rd_link_policy :: bt_link_policy_t
  rd_identity_addr :: bt_address_t
  rd_appearance :: u16
  rd_smp_data :: "u8 list"
  rd_local_csrk :: "u8 list"
  rd_tx_phy :: u8
  rd_rx_phy :: u8

record bt_device = remote_device +
  is_temporary :: bool
  flags :: u32

abbreviation (input) DFLAG_NAME_SET :: u32 where "DFLAG_NAME_SET \<equiv> 1"
abbreviation (input) DFLAG_GET_RMT_NAME :: u32 where "DFLAG_GET_RMT_NAME \<equiv> 2"
abbreviation (input) DFLAG_WHITELIST_ADDED :: u32 where "DFLAG_WHITELIST_ADDED \<equiv> 16"
abbreviation (input) DFLAG_CONNECTED :: u32 where "DFLAG_CONNECTED \<equiv> 32"
abbreviation (input) DFLAG_BONDED :: u32 where "DFLAG_BONDED \<equiv> 64"
abbreviation (input) DFLAG_LE_KEY_SET :: u32 where "DFLAG_LE_KEY_SET \<equiv> 128"

definition BT_LOC_NAME_MAX_LEN :: nat where
  "BT_LOC_NAME_MAX_LEN = 64"

text \<open>\<open>strncmp (a, b, n) = 0\<close>, and \<open>strlcpy\<close> into an array of \<open>BT_REM_NAME_MAX_LEN + 1\<close> bytes.\<close>

definition strncmp_eq :: "string \<Rightarrow> string \<Rightarrow> nat \<Rightarrow> bool" where
  "strncmp_eq a b n \<longleftrightarrow> take n a = take n b"

definition strlcpy :: "string \<Rightarrow> nat \<Rightarrow> string" where
  "strlcpy src sz = take (sz - 1) src"

definition device_create :: "bt_address_t \<Rightarrow> bt_transport_t \<Rightarrow> ble_addr_type_t \<Rightarrow> bt_device" where
  "device_create addr transport addr_type =
     \<lparr>rd_name = '''', rd_alias = '''', rd_addr = addr, rd_addr_type = addr_type,
      rd_local_role = BT_LINK_ROLE_UNKNOWN, rd_device_class = 0, rd_transport = transport,
      rd_device_type = 0, rd_acl_handle = 0, rd_rssi = 0, rd_uuids = [],
      rd_connection_state = CONNECTION_STATE_DISCONNECTED, rd_bond_state = BOND_STATE_NONE,
      rd_local_initiate_bond = False, rd_link_key = replicate 16 0, rd_link_key_type = 0,
      rd_link_policy = BT_BR_LINK_POLICY_ENABLE_ROLE_SWITCH_AND_SNIFF,
      rd_identity_addr = bt_addr_set_empty, rd_appearance = 0, rd_smp_data = replicate 80 0,
      rd_local_csrk = replicate 16 0, rd_tx_phy = 0, rd_rx_phy = 0, is_temporary = True, flags = 0\<rparr>"

definition br_device_create :: "bt_address_t \<Rightarrow> bt_device" where
  "br_device_create addr = device_create addr BT_TRANSPORT_BREDR BT_LE_ADDR_TYPE_UNKNOWN"

definition le_device_create :: "bt_address_t \<Rightarrow> ble_addr_type_t \<Rightarrow> bt_device" where
  "le_device_create addr addr_type = device_create addr BT_TRANSPORT_BLE addr_type"

definition device_get_transport :: "bt_device \<Rightarrow> bt_transport_t" where
  "device_get_transport d = rd_transport d"

definition device_get_address :: "bt_device \<Rightarrow> bt_address_t" where
  "device_get_address d = rd_addr d"

definition device_get_identity_address :: "bt_device \<Rightarrow> bt_address_t" where
  "device_get_identity_address d = rd_identity_addr d"

definition device_set_identity_address :: "bt_address_t option \<Rightarrow> bt_device \<Rightarrow> bt_device" where
  "device_set_identity_address addr d =
     (case addr of Some a \<Rightarrow> d\<lparr>rd_identity_addr := a\<rparr> | None \<Rightarrow> d\<lparr>rd_identity_addr := bt_addr_set_empty\<rparr>)"

definition device_set_local_csrk :: "u8 list \<Rightarrow> bt_device \<Rightarrow> bt_device" where
  "device_set_local_csrk csrk d = d\<lparr>rd_local_csrk := take 16 csrk\<rparr>"

definition device_get_address_type :: "bt_device \<Rightarrow> ble_addr_type_t" where
  "device_get_address_type d = rd_addr_type d"

definition device_set_address_type :: "ble_addr_type_t \<Rightarrow> bt_device \<Rightarrow> bt_device" where
  "device_set_address_type t d = d\<lparr>rd_addr_type := t\<rparr>"

definition device_set_device_type :: "u8 \<Rightarrow> bt_device \<Rightarrow> bt_device" where
  "device_set_device_type t d = d\<lparr>rd_device_type := t\<rparr>"

definition device_set_flags :: "u32 \<Rightarrow> bt_device \<Rightarrow> bt_device" where
  "device_set_flags f d = d\<lparr>flags := flags d OR f\<rparr>"

definition device_clear_flag :: "u32 \<Rightarrow> bt_device \<Rightarrow> bt_device" where
  "device_clear_flag f d = d\<lparr>flags := flags d AND NOT f\<rparr>"

definition device_check_flag :: "u32 \<Rightarrow> bt_device \<Rightarrow> bool" where
  "device_check_flag f d \<longleftrightarrow> flags d AND f \<noteq> 0"

definition device_set_name :: "string \<Rightarrow> bt_device \<Rightarrow> bool \<times> bt_device" where
  "device_set_name name d =
     (if strncmp_eq (rd_name d) name BT_REM_NAME_MAX_LEN then (False, d)
      else let d = d\<lparr>rd_name := strlcpy name (BT_REM_NAME_MAX_LEN + 1)\<rparr>;
               d = (if strncmp_eq (rd_alias d) '''' BT_REM_NAME_MAX_LEN
                    then d\<lparr>rd_alias := strlcpy name (BT_REM_NAME_MAX_LEN + 1)\<rparr> else d)
           in (True, device_set_flags DFLAG_NAME_SET d))"

definition device_set_alias :: "string \<Rightarrow> bt_device \<Rightarrow> bool \<times> bt_device" where
  "device_set_alias alias d =
     (if strncmp_eq (rd_alias d) alias BT_REM_NAME_MAX_LEN then (False, d)
      else (True, d\<lparr>rd_alias := strlcpy alias (BT_REM_NAME_MAX_LEN + 1)\<rparr>))"

definition device_set_device_class :: "u32 \<Rightarrow> bt_device \<Rightarrow> bool \<times> bt_device" where
  "device_set_device_class cod d =
     (if rd_device_class d = cod then (False, d) else (True, d\<lparr>rd_device_class := cod\<rparr>))"

definition device_get_uuids_size :: "bt_device \<Rightarrow> nat" where
  "device_get_uuids_size d = length (rd_uuids d)"

definition device_get_uuids :: "bt_device \<Rightarrow> nat \<Rightarrow> bt_uuid_t list" where
  "device_get_uuids d sz = (if rd_uuids d = [] then [] else take (min sz (length (rd_uuids d))) (rd_uuids d))"

text \<open>The two nested loops of the comparison: \<open>update\<close> is set anew for every UUID of the argument.\<close>

fun set_uuids_inner :: "bt_uuid_t \<Rightarrow> bt_uuid_t list \<Rightarrow> bool" where
  "set_uuids_inner uuid1 [] = True"
| "set_uuids_inner uuid1 (uuid2 # us) = (if bt_uuid_compare uuid1 uuid2 = 0 then False else set_uuids_inner uuid1 us)"

fun set_uuids_outer :: "bool \<Rightarrow> bt_uuid_t list \<Rightarrow> bt_uuid_t list \<Rightarrow> bool" where
  "set_uuids_outer update [] stored = update"
| "set_uuids_outer update (uuid1 # us) stored = set_uuids_outer (set_uuids_inner uuid1 stored) us stored"

definition device_set_uuids :: "bt_uuid_t list \<Rightarrow> bt_device \<Rightarrow> bool \<times> bt_device" where
  "device_set_uuids uuids d =
     (if rd_uuids d = [] then (True, d\<lparr>rd_uuids := uuids\<rparr>)
      else let update = (if length (rd_uuids d) = length uuids then set_uuids_outer True uuids (rd_uuids d) else True)
           in if \<not> update then (False, d) else (True, d\<lparr>rd_uuids := uuids\<rparr>))"

definition device_set_rssi :: "int \<Rightarrow> bt_device \<Rightarrow> bt_device" where
  "device_set_rssi r d = d\<lparr>rd_rssi := r\<rparr>"

definition device_get_rssi :: "bt_device \<Rightarrow> int" where
  "device_get_rssi d = rd_rssi d"

definition device_get_connection_state :: "bt_device \<Rightarrow> connection_state_t" where
  "device_get_connection_state d = rd_connection_state d"

definition device_set_connection_state :: "connection_state_t \<Rightarrow> bt_device \<Rightarrow> bt_device" where
  "device_set_connection_state s d = d\<lparr>rd_connection_state := s\<rparr>"

definition device_is_connected :: "bt_device \<Rightarrow> bool" where
  "device_is_connected d \<longleftrightarrow> CONNECTION_STATE_CONNECTED \<le> rd_connection_state d"

definition device_is_encrypted :: "bt_device \<Rightarrow> bool" where
  "device_is_encrypted d \<longleftrightarrow> CONNECTION_STATE_CONNECTED < rd_connection_state d"

text \<open>The handle is stored in 32 bits and read and written as 16.\<close>

definition device_get_acl_handle :: "bt_device \<Rightarrow> u16" where
  "device_get_acl_handle d = ucast (rd_acl_handle d)"

definition device_set_acl_handle :: "u16 \<Rightarrow> bt_device \<Rightarrow> bt_device" where
  "device_set_acl_handle h d = d\<lparr>rd_acl_handle := ucast h\<rparr>"

definition device_get_local_role :: "bt_device \<Rightarrow> bt_link_role_t" where
  "device_get_local_role d = rd_local_role d"

definition device_set_local_role :: "bt_link_role_t \<Rightarrow> bt_device \<Rightarrow> bt_device" where
  "device_set_local_role r d = d\<lparr>rd_local_role := r\<rparr>"

definition device_set_bond_initiate_local :: "bool \<Rightarrow> bt_device \<Rightarrow> bt_device" where
  "device_set_bond_initiate_local b d = d\<lparr>rd_local_initiate_bond := b\<rparr>"

definition device_is_bond_initiate_local :: "bt_device \<Rightarrow> bool" where
  "device_is_bond_initiate_local d = rd_local_initiate_bond d"

definition device_get_bond_state :: "bt_device \<Rightarrow> bond_state_t" where
  "device_get_bond_state d = rd_bond_state d"

text \<open>The message the \<open>notify\<close> callback gets is a result: the previous state and the CTKD flag.\<close>

definition device_set_bond_state :: "bond_state_t \<Rightarrow> bool \<Rightarrow> bool \<Rightarrow> bt_device \<Rightarrow> (bond_state_t \<times> bool) option \<times> bt_device" where
  "device_set_bond_state state is_ctkd notify d =
     ((if notify then Some (rd_bond_state d, is_ctkd) else None), d\<lparr>rd_bond_state := state\<rparr>)"

definition device_is_bonded :: "bt_device \<Rightarrow> bool" where
  "device_is_bonded d \<longleftrightarrow> rd_bond_state d = BOND_STATE_BONDED"

definition device_set_link_key :: "u8 list \<Rightarrow> bt_device \<Rightarrow> bt_device" where
  "device_set_link_key k d = d\<lparr>rd_link_key := take 16 k\<rparr>"

definition device_delete_link_key :: "bt_device \<Rightarrow> bt_device" where
  "device_delete_link_key d = d\<lparr>rd_link_key := replicate 16 0\<rparr>"

definition device_set_link_key_type :: "u8 \<Rightarrow> bt_device \<Rightarrow> bt_device" where
  "device_set_link_key_type t d = d\<lparr>rd_link_key_type := t\<rparr>"

definition device_set_link_policy :: "bt_link_policy_t \<Rightarrow> bt_device \<Rightarrow> bt_device" where
  "device_set_link_policy p d = d\<lparr>rd_link_policy := p\<rparr>"

definition device_set_le_phy :: "u8 \<Rightarrow> u8 \<Rightarrow> bt_device \<Rightarrow> bt_device" where
  "device_set_le_phy tx rx d = d\<lparr>rd_tx_phy := tx, rd_rx_phy := rx\<rparr>"

definition device_set_smp_key :: "u8 list \<Rightarrow> bt_device \<Rightarrow> bt_device" where
  "device_set_smp_key k d = (device_set_flags DFLAG_LE_KEY_SET d)\<lparr>rd_smp_data := take 80 k\<rparr>"

definition device_delete_smp_key :: "bt_device \<Rightarrow> bt_device" where
  "device_delete_smp_key d = (device_clear_flag DFLAG_LE_KEY_SET d)\<lparr>rd_smp_data := replicate 80 0\<rparr>"

section \<open>Packing the UUIDs of a bonded device\<close>

definition MAX_SAVED_REMOTE_UUIDS_LEN :: nat where
  "MAX_SAVED_REMOTE_UUIDS_LEN = 80"

text \<open>How a UUID is stored: as 16 bits, as 128 bits, or not at all (0).\<close>

fun saved_kind :: "bt_uuid_t \<Rightarrow> nat" where
  "saved_kind (BT_UUID16 w) = 16"
| "saved_kind (BT_UUID32 w) = 0"
| "saved_kind (BT_UUID128 u) =
     (if bt_uuid_compare (BT_UUID128 (u[12 := 0, 13 := 0])) (BT_UUID128 bt_uuid128_base) \<noteq> 0 then 128
      else if u ! 14 = 0 \<and> u ! 15 = 0 then 16 else 0)"
| "saved_kind (BT_UUID_NONE t) = 0"

text \<open>The two bytes of a UUID stored as 16 bits.\<close>

fun saved_bytes16 :: "bt_uuid_t \<Rightarrow> u8 list" where
  "saved_bytes16 (BT_UUID16 w) = UINT16_TO_STREAM w"
| "saved_bytes16 u = [u128 u ! 13, u128 u ! 12]"

text \<open>The second loop, with the write positions \<open>p\<close> and \<open>q\<close> as offsets into the array.\<close>

fun save_uuids_loop :: "bt_uuid_t list \<Rightarrow> nat \<Rightarrow> nat \<Rightarrow> nat \<Rightarrow> nat \<Rightarrow> u8 list \<Rightarrow> u8 list" where
  "save_uuids_loop [] p q c16 c128 arr = arr"
| "save_uuids_loop (u # us) p q c16 c128 arr =
     (if c16 = 0 \<and> c128 = 0 then arr
      else if saved_kind u = 16 then
        (if 0 < c16 \<and> p < MAX_SAVED_REMOTE_UUIDS_LEN - 1
         then save_uuids_loop us (p + 2) q (c16 - 1) c128 (memcpy_at p (saved_bytes16 u) arr)
         else save_uuids_loop us p q c16 c128 arr)
      else if saved_kind u = 128 then
        (if 0 < c128 \<and> q < MAX_SAVED_REMOTE_UUIDS_LEN - 15
         then save_uuids_loop us p (q + 16) c16 (c128 - 1) (memcpy_at q (u128 u) arr)
         else save_uuids_loop us p q c16 c128 arr)
      else save_uuids_loop us p q c16 c128 arr)"

definition head_byte :: "nat \<Rightarrow> nat \<Rightarrow> u8" where
  "head_byte type count = (push_bit 5 (of_nat type) OR of_nat count) AND 0x7F"

definition device_get_remote_uuids :: "bt_device \<Rightarrow> u8 list \<Rightarrow> u8 list" where
  "device_get_remote_uuids d arr =
     (let us = rd_uuids d;
          n16 = length (filter (\<lambda>u. saved_kind u = 16) us) mod 256;
          n128 = length (filter (\<lambda>u. saved_kind u = 128) us) mod 256
      in if us = [] then arr
         else if n16 = 0 \<and> n128 = 0 then arr
         else let c16 = (if n16 * 2 + 1 > MAX_SAVED_REMOTE_UUIDS_LEN then (MAX_SAVED_REMOTE_UUIDS_LEN - 1) div 2 else n16);
                  arr = (if 0 < c16 then arr[0 := head_byte 1 c16] else arr);
                  c128 = (if n128 = 0 then 0
                          else if 0 < c16
                          then if n128 * 16 + 1 > MAX_SAVED_REMOTE_UUIDS_LEN - c16 * 2 + 1
                               then (MAX_SAVED_REMOTE_UUIDS_LEN - c16 * 2 - 2) div 16 else n128
                          else if n128 * 16 + 1 > MAX_SAVED_REMOTE_UUIDS_LEN
                               then (MAX_SAVED_REMOTE_UUIDS_LEN - 1) div 16 else n128);
                  arr = (if n128 = 0 then arr
                         else if 0 < c16 then arr[c16 * 2 + 1 := head_byte 3 c128]
                         else arr[0 := head_byte 3 c128])
              in save_uuids_loop us 1 (c16 * 2 + 2) c16 c128 arr)"

text \<open>What is stored of a bonded device.\<close>

record remote_device_properties =
  p_addr :: bt_address_t
  p_addr_type :: ble_addr_type_t
  p_name :: string
  p_alias :: string
  p_link_key_type :: u8
  p_device_type :: u8
  p_link_key :: "u8 list"
  p_class_of_device :: u32
  p_uuids :: "u8 list"

record remote_device_le_properties =
  lp_addr :: bt_address_t
  lp_addr_type :: ble_addr_type_t
  lp_device_type :: u8
  lp_smp_key :: "u8 list"
  lp_local_csrk :: "u8 list"

text \<open>The argument \<open>prop\<close> is zeroed by the caller.\<close>

definition device_get_property :: "bt_device \<Rightarrow> remote_device_properties" where
  "device_get_property d =
     \<lparr>p_addr = rd_addr d, p_addr_type = rd_addr_type d,
      p_name = strlcpy (rd_name d) BT_REM_NAME_MAX_LEN, p_alias = strlcpy (rd_alias d) BT_REM_NAME_MAX_LEN,
      p_link_key_type = rd_link_key_type d, p_device_type = rd_device_type d,
      p_link_key = take 16 (rd_link_key d), p_class_of_device = rd_device_class d,
      p_uuids = device_get_remote_uuids d (replicate MAX_SAVED_REMOTE_UUIDS_LEN 0)\<rparr>"

definition device_get_le_property :: "bt_device \<Rightarrow> remote_device_le_properties" where
  "device_get_le_property d =
     \<lparr>lp_addr = rd_addr d, lp_addr_type = rd_addr_type d, lp_device_type = rd_device_type d,
      lp_smp_key = rd_smp_data d, lp_local_csrk = rd_local_csrk d\<rparr>"

section \<open>Unpacking\<close>

primrec load_uuids16 :: "nat \<Rightarrow> u8 list \<Rightarrow> (bt_uuid_t list \<times> u8 list) option" where
  "load_uuids16 0 p = Some ([], p)"
| "load_uuids16 (Suc n) p =
     do { (w, p) \<leftarrow> BE_STREAM_TO_UINT16 p;
          (us, p) \<leftarrow> load_uuids16 n p;
          Some (bt_uuid_to_uuid128 (BT_UUID16 w) (BT_UUID_NONE 0) # us, p) }"

primrec load_uuids128 :: "nat \<Rightarrow> u8 list \<Rightarrow> bt_uuid_t list option" where
  "load_uuids128 0 p = Some []"
| "load_uuids128 (Suc n) p =
     (if length p < 16 then None
      else do { us \<leftarrow> load_uuids128 n (drop 16 p); Some (BT_UUID128 (take 16 p) # us) })"

text \<open>The result is the list given to \<open>device_set_uuids\<close>, \<open>Some None\<close> an early return, and \<open>None\<close> a
  read past the end of the array.\<close>

definition load_remote_uuids :: "u8 list \<Rightarrow> bt_uuid_t list option option" where
  "load_remote_uuids arr =
     (case arr of [] \<Rightarrow> None
      | h # p \<Rightarrow>
        if h = 0 then Some None
        else let c16 = (if unat (drop_bit 5 h) = 1 then unat (h AND 0x1F) else 0);
                 c128 = (if unat (drop_bit 5 h) = 3 then unat (h AND 0x1F) else 0)
             in if c16 \<noteq> 0 \<and> c16 * 2 + 1 < MAX_SAVED_REMOTE_UUIDS_LEN \<and> length p \<le> c16 * 2 then None
                else let c128 = (if c16 \<noteq> 0 \<and> c16 * 2 + 1 < MAX_SAVED_REMOTE_UUIDS_LEN
                                 then unat (p ! (c16 * 2) AND 0x1F) else c128)
                     in if c16 + c128 = 0 then Some None
                        else if (if c16 \<noteq> 0 then 1 + c16 * 2 else 0) + (if c128 \<noteq> 0 then 1 + c128 * 16 else 0)
                                > MAX_SAVED_REMOTE_UUIDS_LEN then Some None
                        else do { (us, p) \<leftarrow> load_uuids16 c16 p;
                                  vs \<leftarrow> load_uuids128 c128 (if c128 \<noteq> 0 then drop 1 p else p);
                                  Some (Some (us @ vs)) })"

section \<open>Round trip of the packed UUIDs\<close>

lemma length_memcpy_at [simp]: "off + length src \<le> length dst \<Longrightarrow> length (memcpy_at off src dst) = length dst"
  by (simp add: memcpy_at_def)

lemma memcpy_at_Nil [simp]: "memcpy_at off [] dst = dst"
  by (simp add: memcpy_at_def)

lemma memcpy_at_append:
  "off + length xs \<le> length dst \<Longrightarrow> memcpy_at (off + length xs) ys (memcpy_at off xs dst) = memcpy_at off (xs @ ys) dst"
  by (simp add: memcpy_at_def add_ac)

lemma memcpy_at_commute:
  assumes "p + length xs \<le> q" "q + length ys \<le> length dst"
  shows "memcpy_at p xs (memcpy_at q ys dst) = memcpy_at q ys (memcpy_at p xs dst)"
  using assms by (intro nth_equalityI) (auto simp: memcpy_at_def nth_append)

definition is16 :: "bt_uuid_t \<Rightarrow> bool" where
  "is16 u \<longleftrightarrow> saved_kind u = 16"

definition is128 :: "bt_uuid_t \<Rightarrow> bool" where
  "is128 u \<longleftrightarrow> saved_kind u = 128"

abbreviation full_uuid :: "bt_uuid_t \<Rightarrow> bool" where
  "full_uuid u \<equiv> \<exists>b. u = BT_UUID128 b \<and> length b = 16"

lemma full_uuid_kind:
  assumes "full_uuid u"
  shows "is128 u \<longleftrightarrow> \<not> is16 u" "length (saved_bytes16 u) = 2" "length (u128 u) = 16"
proof -
  obtain b where u: "u = BT_UUID128 b" "length b = 16" using assms by auto
  have "b ! 14 = 0 \<and> b ! 15 = 0" if "b[12 := 0, 13 := 0] = bt_uuid128_base"
    using arg_cong [OF that, of "\<lambda>x. x ! 14"] arg_cong [OF that, of "\<lambda>x. x ! 15"]
    by (simp add: bt_uuid128_base_def)
  moreover have "bt_uuid_compare (BT_UUID128 (b[12 := 0, 13 := 0])) (BT_UUID128 bt_uuid128_base) = 0 \<longleftrightarrow>
      b[12 := 0, 13 := 0] = bt_uuid128_base"
    using u(2) by (simp add: bt_uuid_compare_def bt_uuid128_cmp_def bt_uuid_to_uuid128_def memcmp_eq_0 bt_uuid128_base_def)
  ultimately show "is128 u \<longleftrightarrow> \<not> is16 u" by (auto simp: is16_def is128_def u)
  show "length (saved_bytes16 u) = 2" "length (u128 u) = 16" by (simp_all add: u)
qed

lemma save_uuids_loop_eq:
  assumes "\<forall>u \<in> set us. full_uuid u"
    and "p + 2 * length (filter is16 us) \<le> q" "q + 16 * length (filter is128 us) \<le> 80" "length arr = 80"
  shows "save_uuids_loop us p q (length (filter is16 us)) (length (filter is128 us)) arr =
    memcpy_at q (concat (map u128 (filter is128 us))) (memcpy_at p (concat (map saved_bytes16 (filter is16 us))) arr)"
  using assms
proof (induction us arbitrary: p q arr)
  case (Cons u us)
  let ?S = "concat (map saved_bytes16 (filter is16 us))" and ?L = "concat (map u128 (filter is128 us))"
  have f: "full_uuid u" "\<forall>u \<in> set us. full_uuid u" using Cons.prems(1) by auto
  note k = full_uuid_kind [OF f(1)]
  have ls: "length ?S = 2 * length (filter is16 us)" and ll: "length ?L = 16 * length (filter is128 us)"
    using f(2) full_uuid_kind(2, 3) by (induction us) auto
  show ?case
  proof (cases "is16 u")
    case True
    then have *: "saved_kind u = 16" "\<not> is128 u" using k by (auto simp: is16_def)
    have "save_uuids_loop (u # us) p q (length (filter is16 (u # us))) (length (filter is128 (u # us))) arr =
        save_uuids_loop us (p + 2) q (length (filter is16 us)) (length (filter is128 us)) (memcpy_at p (saved_bytes16 u) arr)"
      using True * Cons.prems by (simp add: MAX_SAVED_REMOTE_UUIDS_LEN_def)
    also have "\<dots> = memcpy_at q ?L (memcpy_at (p + 2) ?S (memcpy_at p (saved_bytes16 u) arr))"
      using True * Cons.prems f(2) k by (intro Cons.IH) auto
    finally show ?thesis
      using True * k Cons.prems memcpy_at_append [of p "saved_bytes16 u" arr ?S] by simp
  next
    case False
    then have *: "saved_kind u = 128" "is128 u" using k by (auto simp: is128_def)
    have "save_uuids_loop (u # us) p q (length (filter is16 (u # us))) (length (filter is128 (u # us))) arr =
        save_uuids_loop us p (q + 16) (length (filter is16 us)) (length (filter is128 us)) (memcpy_at q (u128 u) arr)"
      using False * Cons.prems by (simp add: MAX_SAVED_REMOTE_UUIDS_LEN_def)
    also have "\<dots> = memcpy_at (q + 16) ?L (memcpy_at p ?S (memcpy_at q (u128 u) arr))"
      using False * Cons.prems f(2) k by (intro Cons.IH) auto
    also have "\<dots> = memcpy_at (q + 16) ?L (memcpy_at q (u128 u) (memcpy_at p ?S arr))"
      using memcpy_at_commute [of p ?S q "u128 u" arr] ls False * Cons.prems k by simp
    finally show ?thesis
      using False * k ls Cons.prems memcpy_at_append [of q "u128 u" "memcpy_at p ?S arr" ?L] by simp
  qed
qed simp

lemma is16_shape:
  assumes "full_uuid u" "is16 u"
  obtains a b where "saved_bytes16 u = [b, a]" "u = BT_UUID128 (memcpy_at 12 [a, b] bt_uuid128_base)"
proof -
  obtain c where u: "u = BT_UUID128 c" "length c = 16" using assms(1) by auto
  then have "c[12 := 0, 13 := 0] = bt_uuid128_base"
    using assms(2) by (simp add: is16_def bt_uuid_compare_def bt_uuid128_cmp_def bt_uuid_to_uuid128_def memcmp_eq_0
        bt_uuid128_base_def split: if_splits)
  then have base: "bt_uuid128_base = c[12 := 0, 13 := 0]" by simp
  have "c = take 12 c @ c ! 12 # c ! 13 # drop 14 c"
    using u(2) id_take_nth_drop [of 12 c] Cons_nth_drop_Suc [of 13 c] by simp
  then have "memcpy_at 12 [c ! 12, c ! 13] bt_uuid128_base = c"
    unfolding base by (simp add: memcpy_at_def)
  then show thesis using that [of "c ! 13" "c ! 12"] u by simp
qed

lemma stream_of_be16: "UINT16_TO_STREAM (push_bit 8 (ucast b) + ucast a) = [a, b :: u8]"
proof -
  have n: "push_bit 8 (ucast b) + ucast a = (of_nat (unat a + unat b * 256) :: u16)"
    by (simp add: push_bit_eq_mult)
  have "le_value (UINT16_TO_STREAM (push_bit 8 (ucast b) + ucast a)) = le_value [a, b]"
    using unat_u8 [of a] unat_u8 [of b] unfolding n le_value_u16
    by (simp add: unat_of_nat del: of_nat_add of_nat_mult)
  then show ?thesis by (subst (asm) le_value_inj) (simp_all add: UINT16_TO_STREAM_def)
qed

lemma load_uuids16_saved:
  assumes "\<forall>u \<in> set us. full_uuid u \<and> is16 u"
  shows "load_uuids16 (length us) (concat (map saved_bytes16 us) @ rest) = Some (us, rest)"
  using assms
proof (induction us)
  case (Cons u us)
  have "full_uuid u" "is16 u" using Cons.prems by simp_all
  then obtain a b where "saved_bytes16 u = [b, a]" "u = BT_UUID128 (memcpy_at 12 [a, b] bt_uuid128_base)"
    by (rule is16_shape)
  with Cons show ?case by (simp add: bt_uuid_to_uuid128_def bt_uuid16_to_uuid128_def stream_of_be16)
qed simp

lemma load_uuids128_saved:
  assumes "\<forall>u \<in> set us. full_uuid u"
  shows "load_uuids128 (length us) (concat (map u128 us) @ rest) = Some us"
  using assms by (induction us) auto

lemma unat_and_31: "unat ((w :: u8) AND 0x1F) = unat w mod 32"
proof -
  have "w AND 0x1F = take_bit 5 w" by (simp add: take_bit_eq_mask mask_eq_exp_minus_1)
  then show ?thesis by (simp add: take_bit_eq_mod unat_mod_distrib)
qed

lemma head_byte_fields:
  assumes "n < 32"
  shows "unat (drop_bit 5 (head_byte 1 n)) = 1" "unat (head_byte 1 n AND 0x1F) = n" "head_byte 1 n \<noteq> 0"
    "unat (drop_bit 5 (head_byte 3 n)) = 3" "unat (head_byte 3 n AND 0x1F) = n" "head_byte 3 n \<noteq> 0"
proof -
  have "n \<in> set [0..<32]" using assms by simp
  then have h: "unat (head_byte 1 n) = 32 + n" "unat (head_byte 3 n) = 96 + n"
    unfolding upt_conv_Cons_Cons by (auto simp: head_byte_def upt_rec)
  then show "unat (drop_bit 5 (head_byte 1 n)) = 1" "unat (drop_bit 5 (head_byte 3 n)) = 3"
    using assms by (simp_all add: drop_bit_eq_div unat_div_distrib)
  show "unat (head_byte 1 n AND 0x1F) = n" "unat (head_byte 3 n AND 0x1F) = n"
    using assms h by (simp_all add: unat_and_31 mod_if)
  show "head_byte 1 n \<noteq> 0" "head_byte 3 n \<noteq> 0" using h by auto
qed

text \<open>The packed array of a device whose UUIDs fit: the 16-bit part, then the 128-bit part.\<close>

lemma packed_layout:
  assumes "length S = 2 * n" "2 * n + 2 + length L \<le> 80" "h' = 0 \<or> 0 < n"
  shows "memcpy_at (n * 2 + 2) L (memcpy_at 1 S ((replicate 80 0)[0 := h, n * 2 + 1 := h'])) =
    h # S @ (if n = 0 then 0 else h') # L @ replicate (78 - 2 * n - length L) 0"
proof -
  have z: "replicate 80 (0 :: u8) = 0 # replicate (2 * n) 0 @ 0 # replicate (78 - 2 * n) 0"
    using assms(2) by (simp flip: replicate_add replicate_Suc append_Cons)
  show ?thesis using assms unfolding z
    by (auto simp: memcpy_at_def list_update_append nth_append)
qed

lemma packed_uuids:
  assumes "us \<noteq> []" "\<forall>u \<in> set us. full_uuid u" "rd_uuids d = us"
    and "n = length (filter is16 us)" "m = length (filter is128 us)" "n < 32" "m = 0 \<or> 2 * n + 16 * m \<le> 78"
  shows "device_get_remote_uuids d (replicate 80 0) =
    (if n = 0 then head_byte 3 m else head_byte 1 n) # concat (map saved_bytes16 (filter is16 us)) @
    (if n = 0 \<or> m = 0 then 0 else head_byte 3 m) # concat (map u128 (filter is128 us)) @ replicate (78 - 2 * n - 16 * m) 0"
proof -
  let ?S = "concat (map saved_bytes16 (filter is16 us))" and ?L = "concat (map u128 (filter is128 us))"
  let ?h = "if n = 0 then head_byte 3 m else head_byte 1 n" and ?h' = "if n = 0 \<or> m = 0 then 0 else head_byte 3 m"
  have ls: "length ?S = 2 * n" and ll: "length ?L = 16 * m"
    using assms(2) full_uuid_kind(2, 3) unfolding assms(4, 5) by (induction us) auto
  have "n + m = length us"
    using assms(2) full_uuid_kind(1) unfolding assms(4, 5) by (induction us) auto
  then have "0 < n + m" using assms(1) by simp
  have k: "(\<lambda>u. saved_kind u = 16) = is16" "(\<lambda>u. saved_kind u = 128) = is128"
    by (auto simp: is16_def is128_def)
  have "n mod 256 = n" "m mod 256 = m" "\<not> n * 2 + 1 > 80" "m \<noteq> 0 \<Longrightarrow> \<not> m * 16 + 1 > 80"
    "m \<noteq> 0 \<Longrightarrow> \<not> m * 16 + 1 > 80 - n * 2 + 1"
    using assms(6, 7) by auto
  moreover have "(replicate 80 (0 :: u8))[0 := h, i := 0] = (replicate 80 0)[0 := h]" if "0 < i" for h i
    using that by (cases "i < 80") (auto intro!: nth_equalityI simp: nth_list_update)
  ultimately have "device_get_remote_uuids d (replicate 80 0) =
      save_uuids_loop us 1 (n * 2 + 2) n m ((replicate 80 0)[0 := ?h, n * 2 + 1 := ?h'])"
    using assms(1) \<open>0 < n + m\<close>
    unfolding device_get_remote_uuids_def assms(3) k assms(4, 5) [symmetric] MAX_SAVED_REMOTE_UUIDS_LEN_def Let_def
    by auto
  also have "\<dots> = memcpy_at (n * 2 + 2) ?L (memcpy_at 1 ?S ((replicate 80 0)[0 := ?h, n * 2 + 1 := ?h']))"
    using assms(2, 6, 7) unfolding assms(4, 5) by (intro save_uuids_loop_eq) auto
  also have "\<dots> = ?h # ?S @ (if n = 0 then 0 else ?h') # ?L @ replicate (78 - 2 * n - 16 * m) 0"
    using packed_layout [OF ls, of ?L ?h' ?h] ll assms(6, 7) by auto
  finally show ?thesis by simp
qed

lemma load_mixed:
  assumes "0 < n" "n < 32" "length S = 2 * n" "unat (h' AND 0x1F) = m" "2 * n + 16 * m \<le> 78"
    and "load_uuids16 n (S @ h' # R) = Some (us, h' # R)" "load_uuids128 m R = Some vs"
  shows "load_remote_uuids (head_byte 1 n # S @ h' # R) = Some (Some (us @ vs))"
proof -
  have h: "(S @ h' # R) ! (n * 2) = h'" using assms(3) by (simp add: nth_append)
  show ?thesis
    using assms head_byte_fields [OF assms(2)]
    by (cases "m = 0") (simp_all add: load_remote_uuids_def MAX_SAVED_REMOTE_UUIDS_LEN_def Let_def h)
qed

lemma load_pure128:
  assumes "0 < m" "m < 5" "load_uuids128 m R = Some vs"
  shows "load_remote_uuids (head_byte 3 m # x # R) = Some (Some vs)"
  using assms head_byte_fields [of m]
  by (simp add: load_remote_uuids_def MAX_SAVED_REMOTE_UUIDS_LEN_def Let_def)

text \<open>C23. The UUIDs of a bonded device survive being stored: when they are in the 128-bit form,
  fewer than 32 of them are 16-bit ones, and they fit the array of 80 bytes, unpacking the
  packed array gives all of them, those with a 16-bit form first.\<close>

theorem saved_uuids_roundtrip:
  assumes "rd_uuids d \<noteq> []" "\<forall>u \<in> set (rd_uuids d). full_uuid u"
    and "length (filter is16 (rd_uuids d)) < 32"
    and "2 * length (filter is16 (rd_uuids d)) + 16 * length (filter is128 (rd_uuids d)) \<le> 78"
  shows "load_remote_uuids (p_uuids (device_get_property d)) =
    Some (Some (filter is16 (rd_uuids d) @ filter is128 (rd_uuids d)))"
proof -
  define us n m where "us = rd_uuids d" and "n = length (filter is16 us)" and "m = length (filter is128 us)"
  let ?S = "concat (map saved_bytes16 (filter is16 us))" and ?L = "concat (map u128 (filter is128 us))"
  have full: "\<forall>u \<in> set us. full_uuid u" and bound: "n < 32" "2 * n + 16 * m \<le> 78" "m < 32"
    using assms by (auto simp: us_def n_def m_def)
  have ls: "length ?S = 2 * n"
    using full full_uuid_kind(2) unfolding n_def by (induction us) auto
  have "n + m = length us" using full full_uuid_kind(1) unfolding n_def m_def by (induction us) auto
  then have "0 < n + m" using assms(1) by (simp add: us_def)
  have load16: "load_uuids16 n (?S @ rest) = Some (filter is16 us, rest)" for rest
    using load_uuids16_saved [of "filter is16 us"] full by (simp add: n_def)
  have load128: "load_uuids128 m (?L @ rest) = Some (filter is128 us)" for rest
    using load_uuids128_saved [of "filter is128 us"] full by (simp add: m_def)
  have arr: "p_uuids (device_get_property d) =
    (if n = 0 then head_byte 3 m else head_byte 1 n) # ?S @
    (if n = 0 \<or> m = 0 then 0 else head_byte 3 m) # ?L @ replicate (78 - 2 * n - 16 * m) 0"
    using packed_uuids [OF _ full us_def [symmetric] n_def m_def bound(1)] assms(1) bound(2)
    by (simp add: device_get_property_def MAX_SAVED_REMOTE_UUIDS_LEN_def us_def)
  show ?thesis
  proof (cases "n = 0")
    case True
    then have "0 < m" "m < 5" "?S = []" using \<open>0 < n + m\<close> bound ls by simp_all
    then show ?thesis
      using True load_pure128 [OF _ _ load128] load16 [of "[]"]
      unfolding us_def [symmetric] arr by simp
  next
    case False
    let ?h = "if n = 0 \<or> m = 0 then 0 else head_byte 3 m"
    have "unat (?h AND 0x1F) = m" using False head_byte_fields(5) [OF bound(3)] by simp
    from load_mixed [OF _ bound(1) ls this bound(2) load16 load128]
    show ?thesis using False unfolding us_def [symmetric] arr by simp
  qed
qed

definition demo_device :: "bt_uuid_t list \<Rightarrow> bt_device" where
  "demo_device us = (br_device_create [1, 2, 3, 4, 5, 6])\<lparr>rd_uuids := us\<rparr>"

definition demo_uuid :: "u8 \<Rightarrow> bt_uuid_t" where
  "demo_uuid n = BT_UUID128 [7, 7, 7, 7, 7, 7, 7, 7, 7, 7, 7, 7, 7, 7, 7, n]"

lemma is16_expanded: "is16 (bt_uuid16_to_uuid128 w)" "full_uuid (bt_uuid16_to_uuid128 w)"
  by (simp_all add: is16_def bt_uuid16_to_uuid128_def memcpy_at_def bt_uuid128_base_def UINT16_TO_STREAM_def
      bt_uuid_compare_def bt_uuid128_cmp_def bt_uuid_to_uuid128_def)

lemma is128_demo: "is128 (demo_uuid n)" "full_uuid (demo_uuid n)" "\<not> is16 (demo_uuid n)" "\<not> is128 (bt_uuid16_to_uuid128 w)"
proof -
  show *: "is128 (demo_uuid n)" "full_uuid (demo_uuid n)"
    by (simp_all add: is128_def demo_uuid_def bt_uuid128_base_def bt_uuid_compare_def bt_uuid128_cmp_def
        bt_uuid_to_uuid128_def)
  then show "\<not> is16 (demo_uuid n)" using full_uuid_kind(1) by blast
  show "\<not> is128 (bt_uuid16_to_uuid128 w)" using full_uuid_kind(1) is16_expanded by blast
qed

theorem saved_uuids_roundtrip_witness:
  "load_remote_uuids (p_uuids (device_get_property (demo_device [demo_uuid 1, bt_uuid16_to_uuid128 0x110A]))) =
     Some (Some [bt_uuid16_to_uuid128 0x110A, demo_uuid 1])"
  using saved_uuids_roundtrip [of "demo_device [demo_uuid 1, bt_uuid16_to_uuid128 0x110A]"]
  by (simp add: demo_device_def is16_expanded is128_demo)

text \<open>Three lists of UUIDs that storing does not preserve. Next to 16-bit UUIDs the bound on
  the 128-bit ones is two bytes too wide: of eight 16-bit and four 128-bit UUIDs none is
  restored. The five bits of the counter overflow: of 32 16-bit UUIDs none is restored. A UUID
  kept in the 16-bit form is stored little-endian and read big-endian.\<close>

theorem saved_uuids_lost:
  "load_remote_uuids (p_uuids (device_get_property (demo_device
     (map (\<lambda>n. bt_uuid16_to_uuid128 (of_nat n)) [0..<8] @ map (\<lambda>n. demo_uuid (of_nat n)) [0..<4])))) = Some None \<and>
   load_remote_uuids (p_uuids (device_get_property (demo_device
     (map (\<lambda>n. bt_uuid16_to_uuid128 (of_nat n)) [0..<32])))) = Some None \<and>
   load_remote_uuids (p_uuids (device_get_property (demo_device [BT_UUID16 0x110A]))) =
     Some (Some [bt_uuid16_to_uuid128 0x0A11])"
  by (intro conjI; code_simp)

lemma set_uuids_inner_iff: "set_uuids_inner u vs \<longleftrightarrow> (\<forall>v \<in> set vs. bt_uuid_compare u v \<noteq> 0)"
  by (induction u vs rule: set_uuids_inner.induct) auto

lemma set_uuids_outer_last: "us \<noteq> [] \<Longrightarrow> set_uuids_outer b us vs = set_uuids_inner (last us) vs"
  by (induction b us vs rule: set_uuids_outer.induct) auto

text \<open>What setting the UUIDs of a device does: an equally long list is taken as unchanged, and
  dropped, as soon as its last UUID is known, whatever the others are.\<close>

theorem device_set_uuids_by_last:
  "device_set_uuids us d =
     (if rd_uuids d \<noteq> [] \<and> length us = length (rd_uuids d) \<and>
         (\<exists>v \<in> set (rd_uuids d). bt_uuid_compare (last us) v = 0)
      then (False, d) else (True, d\<lparr>rd_uuids := us\<rparr>))"
  by (cases "us = []") (auto simp: device_set_uuids_def set_uuids_outer_last set_uuids_inner_iff)

end
