(* ===== verification/Hsm.thy ===== *)
theory Hsm
  imports Prelude
begin

text \<open>
  framework/common/state_machine.c: the state machine every stateful component embeds. The
  states are values of a type \<open>'st\<close> (the addresses of the constant \<open>state_t\<close> objects); the
  function pointers of a \<open>state_t\<close> are the arguments \<open>enter\<close>, \<open>exit\<close> and \<open>process\<close>, indexed by the
  state. The embedding struct is an extension of the record. The locale \<open>state_table\<close> is the
  contract of a table of states: entering and leaving a state never moves the machine itself.
\<close>

record 'st state_machine =
  initial_state :: 'st
  previous_state :: "'st option"
  current_state :: "'st option"

text \<open>The constant fields of a \<open>state_t\<close>.\<close>

record 'v state_info =
  state_name :: string
  state_value :: 'v

definition hsm_transition_to ::
  "('st \<Rightarrow> ('st, 'z) state_machine_scheme \<Rightarrow> ('st, 'z) state_machine_scheme) \<Rightarrow>
   ('st \<Rightarrow> ('st, 'z) state_machine_scheme \<Rightarrow> ('st, 'z) state_machine_scheme) \<Rightarrow>
   'st \<Rightarrow> ('st, 'z) state_machine_scheme \<Rightarrow> ('st, 'z) state_machine_scheme" where
  "hsm_transition_to enter exit st sm =
     (let sm = (case current_state sm of
                  Some c \<Rightarrow> let sm = exit c sm in sm\<lparr>previous_state := current_state sm\<rparr>
                | None \<Rightarrow> sm)
      in enter st (sm\<lparr>current_state := Some st\<rparr>))"

definition hsm_ctor ::
  "('st \<Rightarrow> ('st, 'z) state_machine_scheme \<Rightarrow> ('st, 'z) state_machine_scheme) \<Rightarrow>
   ('st \<Rightarrow> ('st, 'z) state_machine_scheme \<Rightarrow> ('st, 'z) state_machine_scheme) \<Rightarrow>
   'st \<Rightarrow> ('st, 'z) state_machine_scheme \<Rightarrow> ('st, 'z) state_machine_scheme" where
  "hsm_ctor enter exit st sm =
     hsm_transition_to enter exit st (sm\<lparr>initial_state := st, current_state := None, previous_state := None\<rparr>)"

definition hsm_get_current_state :: "('st, 'z) state_machine_scheme option \<Rightarrow> 'st option" where
  "hsm_get_current_state sm = (case sm of None \<Rightarrow> None | Some s \<Rightarrow> current_state s)"

definition hsm_get_previous_state :: "('st, 'z) state_machine_scheme option \<Rightarrow> 'st option" where
  "hsm_get_previous_state sm = (case sm of None \<Rightarrow> None | Some s \<Rightarrow> previous_state s)"

definition hsm_get_state_name :: "('st \<Rightarrow> 'v state_info) \<Rightarrow> 'st option \<Rightarrow> string" where
  "hsm_get_state_name info st = (case st of None \<Rightarrow> ''None'' | Some s \<Rightarrow> state_name (info s))"

definition hsm_get_current_state_name :: "('st \<Rightarrow> 'v state_info) \<Rightarrow> ('st, 'z) state_machine_scheme option \<Rightarrow> string" where
  "hsm_get_current_state_name info sm = hsm_get_state_name info (hsm_get_current_state sm)"

text \<open>Dereferencing the null state is \<open>None\<close>.\<close>

definition hsm_get_state_value :: "('st \<Rightarrow> 'v state_info) \<Rightarrow> 'st option \<Rightarrow> 'v option" where
  "hsm_get_state_value info st = map_option (\<lambda>s. state_value (info s)) st"

definition hsm_get_current_state_value :: "('st \<Rightarrow> 'v state_info) \<Rightarrow> ('st, 'z) state_machine_scheme \<Rightarrow> 'v option" where
  "hsm_get_current_state_value info sm = map_option (\<lambda>s. state_value (info s)) (current_state sm)"

definition hsm_dispatch_event ::
  "('st \<Rightarrow> 'e \<Rightarrow> ('st, 'z) state_machine_scheme \<Rightarrow> bool \<times> ('st, 'z) state_machine_scheme) \<Rightarrow>
   'e \<Rightarrow> ('st, 'z) state_machine_scheme \<Rightarrow> bool \<times> ('st, 'z) state_machine_scheme" where
  "hsm_dispatch_event process ev sm =
     (case current_state sm of None \<Rightarrow> (False, sm) | Some c \<Rightarrow> process c ev sm)"

section \<open>The contract of a table of states\<close>

locale state_table =
  fixes enter exit :: "'st \<Rightarrow> ('st, 'z) state_machine_scheme \<Rightarrow> ('st, 'z) state_machine_scheme"
  assumes enter_current: "current_state (enter st sm) = current_state sm"
    and enter_previous: "previous_state (enter st sm) = previous_state sm"
    and exit_current: "current_state (exit st sm) = current_state sm"
begin

lemma transition_current [simp]:
  "current_state (hsm_transition_to enter exit st sm) = Some st"
  by (simp add: hsm_transition_to_def enter_current Let_def split: option.split)

lemma transition_previous:
  "current_state sm \<noteq> None \<Longrightarrow> previous_state (hsm_transition_to enter exit st sm) = current_state sm"
  by (auto simp: hsm_transition_to_def enter_previous exit_current)

lemma ctor_states:
  "current_state (hsm_ctor enter exit st sm) = Some st" "previous_state (hsm_ctor enter exit st sm) = None"
  by (simp_all add: hsm_ctor_def hsm_transition_to_def enter_current enter_previous)

end

end
