(* ===== verification/Adapter_Base.thy ===== *)
theory Adapter_Base
  imports Device Hsm
begin

text \<open>
  The state of service/src/adapter_service.c and adapter_state.c, and the lists of remote
  devices. One record holds the state machine struct and \<open>g_adapter_service\<close>. The calls into the
  stack abstraction layer (SAL), the profile services, the storage and the registered callbacks
  leave the component: they are appended to the log \<open>outs\<close>, and the status each SAL call returns
  is the function \<open>sal\<close> of the environment. Messages to the state machine are the queue
  \<open>stm_queue\<close>; \<open>timers\<close> are the handles of the timers that are armed.
\<close>

section \<open>Events, states, effects\<close>

datatype adapter_event =
    SYS_TURN_ON | SYS_TURN_OFF | SYS_TURN_OFF_SAFE | TURN_ON_BLE | TURN_OFF_BLE | SYS_TURN_OFF_SAFE_TIMEOUT
  | BREDR_ENABLED | BREDR_DISABLED | BREDR_PROFILE_ENABLED | BREDR_PROFILE_DISABLED | BREDR_ENABLE_TIMEOUT
  | BREDR_DISABLE_TIMEOUT | BREDR_ENABLE_PROFILE_TIMEOUT | BREDR_DISABLE_PROFILE_TIMEOUT | BREDR_ACL_ALL_DISCONNECTED
  | BLE_ENABLED | BLE_DISABLED | BLE_PROFILE_ENABLED | BLE_PROFILE_DISABLED | BLE_ENABLE_TIMEOUT
  | BLE_DISABLE_TIMEOUT | BLE_ENABLE_PROFILE_TIMEOUT | BLE_DISABLE_PROFILE_TIMEOUT | BLE_ACL_ALL_DISCONNECTED

datatype bt_adapter_state_t =
    BT_ADAPTER_STATE_OFF | BT_ADAPTER_STATE_BLE_TURNING_ON | BT_ADAPTER_STATE_BLE_ON | BT_ADAPTER_STATE_TURNING_ON
  | BT_ADAPTER_STATE_ON | BT_ADAPTER_STATE_TURNING_OFF | BT_ADAPTER_STATE_BLE_TURNING_OFF

datatype adapter_st =
  off_state | ble_turning_on_state | ble_on_state | turning_on_state | on_state | turning_off_state | ble_turning_off_state

fun adapter_info :: "adapter_st \<Rightarrow> bt_adapter_state_t state_info" where
  "adapter_info off_state = \<lparr>state_name = ''Off'', state_value = BT_ADAPTER_STATE_OFF\<rparr>"
| "adapter_info ble_turning_on_state = \<lparr>state_name = ''BleTurningOn'', state_value = BT_ADAPTER_STATE_BLE_TURNING_ON\<rparr>"
| "adapter_info ble_on_state = \<lparr>state_name = ''BleOn'', state_value = BT_ADAPTER_STATE_BLE_ON\<rparr>"
| "adapter_info turning_on_state = \<lparr>state_name = ''TurningOn'', state_value = BT_ADAPTER_STATE_TURNING_ON\<rparr>"
| "adapter_info on_state = \<lparr>state_name = ''On'', state_value = BT_ADAPTER_STATE_ON\<rparr>"
| "adapter_info turning_off_state = \<lparr>state_name = ''TurningOff'', state_value = BT_ADAPTER_STATE_TURNING_OFF\<rparr>"
| "adapter_info ble_turning_off_state = \<lparr>state_name = ''BleTurningOff'', state_value = BT_ADAPTER_STATE_BLE_TURNING_OFF\<rparr>"

datatype bt_pair_type_t =
    PAIR_TYPE_PASSKEY_CONFIRMATION | PAIR_TYPE_PASSKEY_ENTRY | PAIR_TYPE_CONSENT
  | PAIR_TYPE_PASSKEY_NOTIFICATION | PAIR_TYPE_PIN_CODE

text \<open>The calls of the SAL interface the adapter makes.\<close>

datatype sal_call =
    bt_sal_enable | bt_sal_disable | bt_sal_le_enable | bt_sal_le_disable
  | bt_sal_set_name string | bt_sal_set_io_capability u32 | bt_sal_set_scan_mode u8 bool | bt_sal_set_device_class u32
  | bt_sal_start_discovery u32 bool | bt_sal_stop_discovery
  | bt_sal_connect bt_address_t | bt_sal_disconnect bt_address_t
  | bt_sal_le_connect bt_address_t ble_addr_type_t | bt_sal_le_disconnect bt_address_t
  | bt_sal_acl_connection_reply bt_address_t bool | bt_sal_get_remote_name bt_address_t
  | bt_sal_set_bonded_devices bt_address_t | bt_sal_le_set_bonded_devices nat
  | bt_sal_le_add_white_list bt_address_t ble_addr_type_t | bt_sal_le_remove_white_list bt_address_t ble_addr_type_t
  | bt_sal_pair_reply bt_address_t bool | bt_sal_pin_reply bt_address_t bool string
  | bt_sal_ssp_reply bt_address_t bool bt_pair_type_t u32 | bt_sal_le_smp_reply bt_address_t bool bt_pair_type_t u32
  | bt_sal_create_bond bt_address_t ble_addr_type_t | bt_sal_le_create_bond bt_address_t ble_addr_type_t
  | bt_sal_cancel_bond bt_address_t | bt_sal_remove_bond bt_address_t | bt_sal_le_remove_bond bt_address_t
  | bt_sal_start_service_discovery bt_address_t | bt_sal_set_link_role bt_address_t bt_link_role_t
  | bt_sal_set_link_policy bt_address_t bt_link_policy_t | bt_sal_le_set_phy bt_address_t u8 u8
  | bt_sal_read_rssi bt_address_t bt_transport_t | bt_sal_le_set_legacy_tk bt_address_t "u8 list"
  | bt_sal_le_set_remote_oob_data bt_address_t "u8 list" "u8 list" | bt_sal_le_get_local_oob_data bt_address_t

text \<open>What the storage keeps of the adapter: \<open>adapter_storage_t\<close>.\<close>

record adapter_storage =
  st_name :: string
  st_class_of_device :: u32
  st_io_capability :: u32
  st_scan_mode :: u32
  st_bondable :: u32
  st_irk :: "u8 list"

datatype adapter_out =
    Sal sal_call
  | StateChanged bt_adapter_state_t
  | BondStateChanged bt_address_t bt_transport_t bond_state_t bond_state_t bool
  | ConnectionStateChanged bt_address_t bt_transport_t connection_state_t
  | PairRequest bt_address_t | PairDisplay bt_address_t bt_transport_t bt_pair_type_t u32 | ConnectRequest bt_address_t
  | DiscoveryStateChanged bool | DiscoveryResult bt_address_t | RemoteNameChanged bt_address_t string
  | RemoteAliasChanged bt_address_t string | RemoteUuidsChanged bt_address_t "bt_uuid_t list" | DeviceNameChanged string
  | ServiceStartup bt_transport_t | ServiceShutdown bt_transport_t
  | A2dpOffloading bool | HfpOffloading bool | LeaOffloading bool
  | MediaA2dpOffloading bool | MediaHfpOffloading bool | MediaLeaOffloading bool
  | AdvManagerInit | AdvManagerCleanup | ScanManagerInit | ScanManagerCleanup | L2capInit | L2capCleanup
  | SaveBonded "remote_device_properties list" | SaveLeBonded "remote_device_le_properties list"
  | SaveWhitelist "remote_device_le_properties list" | SaveProperties adapter_storage | ScanModeChanged u8
  | LeScLocalOobData bt_address_t "u8 list" "u8 list"
  | PmConnected bt_address_t | PmDisconnected bt_address_t | PmLinkModeChanged bt_address_t bt_link_mode_t u16
  | CmDisconnect bt_address_t bt_transport_t int u8

section \<open>State, configuration, environment\<close>

record adapter_properties =
  ap_name :: string
  ap_addr :: bt_address_t
  ap_class_of_device :: u32
  ap_io_capability :: u32
  ap_scan_mode :: u8
  ap_bondable :: bool
  ap_irk :: "u8 list"

record adapter = "adapter_st state_machine" +
  ble_enabled :: bool
  pending_turn_on :: bool
  a2dp_offloading :: bool
  hfp_offloading :: bool
  lea_offloading :: bool
  turning_off_safe :: bool
  ble_turning_off_safe :: bool
  disable_safe_timer :: "nat option"
  adapter_state :: bt_adapter_state_t
  properties :: adapter_properties
  devices :: "bt_device list"
  le_devices :: "bt_device list"
  le_addr :: bt_address_t
  le_addr_type :: ble_addr_type_t
  is_discovering :: bool
  max_acl_connections :: nat
  stm_queue :: "adapter_event list"
  timers :: "nat list"
  next_timer :: nat
  outs :: "adapter_out list"

text \<open>The \<open>CONFIG_\<close> switches and the persistent properties read once.\<close>

record adapter_config =
  cfg_bredr :: bool
  cfg_ble :: bool
  cfg_media :: bool
  cfg_adv :: bool
  cfg_scan :: bool
  cfg_l2cap :: bool
  cfg_cm :: bool
  prop_a2dp :: bool
  prop_hfp :: bool
  prop_lea :: bool

text \<open>What the outside answers during a step: the status of each SAL call, the address the SAL reports
  (\<open>None\<close> when it fails), and the devices the storage holds.\<close>

record adapter_env =
  sal :: "sal_call \<Rightarrow> bt_status_t"
  sal_address :: bt_address_t
  sal_le_address :: "bt_address_t option"
  sal_device_type :: u8
  sal_acl_handle :: u16
  stored_properties :: adapter_storage
  stored_bonded :: "remote_device_properties list"
  stored_le_bonded :: "remote_device_le_properties list"
  stored_whitelist :: "remote_device_le_properties list"

definition emit :: "adapter_out \<Rightarrow> adapter \<Rightarrow> adapter" where
  "emit x a = a\<lparr>outs := outs a @ [x]\<rparr>"

definition send_to_state_machine :: "adapter_event \<Rightarrow> adapter \<Rightarrow> adapter" where
  "send_to_state_machine ev a = a\<lparr>stm_queue := stm_queue a @ [ev]\<rparr>"

definition service_loop_timer :: "adapter \<Rightarrow> nat \<times> adapter" where
  "service_loop_timer a = (next_timer a, a\<lparr>timers := timers a @ [next_timer a], next_timer := Suc (next_timer a)\<rparr>)"

definition service_loop_cancel_timer :: "nat option \<Rightarrow> adapter \<Rightarrow> adapter" where
  "service_loop_cancel_timer t a =
     (case t of None \<Rightarrow> a | Some h \<Rightarrow> a\<lparr>timers := filter (\<lambda>x. x \<noteq> h) (timers a)\<rparr>)"

section \<open>The lists of remote devices\<close>

definition device_matches :: "bt_address_t \<Rightarrow> bt_transport_t \<Rightarrow> bt_device \<Rightarrow> bool" where
  "device_matches addr transport d \<longleftrightarrow>
     memcmp (device_get_address d) addr = 0 \<and> device_get_transport d = transport"

definition adapter_find_device :: "adapter_config \<Rightarrow> bt_address_t \<Rightarrow> bt_transport_t \<Rightarrow> adapter \<Rightarrow> bt_device option" where
  "adapter_find_device c addr transport a =
     (if cfg_bredr c \<and> transport = BT_TRANSPORT_BREDR then find (device_matches addr transport) (devices a)
      else if cfg_ble c \<and> transport = BT_TRANSPORT_BLE then find (device_matches addr transport) (le_devices a)
      else None)"

text \<open>A write through the pointer a lookup returned: to the device it found or, in a build without the
  transport, where no lookup finds anything, to the device that was appended just before.\<close>

definition update_device ::
  "adapter_config \<Rightarrow> bt_address_t \<Rightarrow> bt_transport_t \<Rightarrow> (bt_device \<Rightarrow> bt_device) \<Rightarrow> adapter \<Rightarrow> adapter" where
  "update_device c addr transport f a =
     (case transport of
        BT_TRANSPORT_BREDR \<Rightarrow>
          a\<lparr>devices := (if cfg_bredr c then update_first (device_matches addr transport) f (devices a)
                       else update_last f (devices a))\<rparr>
      | BT_TRANSPORT_BLE \<Rightarrow>
          a\<lparr>le_devices := (if cfg_ble c then update_first (device_matches addr transport) f (le_devices a)
                          else update_last f (le_devices a))\<rparr>)"

definition adapter_find_create_classic_device :: "adapter_config \<Rightarrow> bt_address_t \<Rightarrow> adapter \<Rightarrow> bt_device \<times> adapter" where
  "adapter_find_create_classic_device c addr a =
     (case adapter_find_device c addr BT_TRANSPORT_BREDR a of
        Some d \<Rightarrow> (d, a)
      | None \<Rightarrow> let d = br_device_create addr in (d, a\<lparr>devices := devices a @ [d]\<rparr>))"

definition adapter_find_create_le_device ::
  "adapter_config \<Rightarrow> bt_address_t \<Rightarrow> ble_addr_type_t \<Rightarrow> adapter \<Rightarrow> bt_device \<times> adapter" where
  "adapter_find_create_le_device c addr addr_type a =
     (case adapter_find_device c addr BT_TRANSPORT_BLE a of
        Some d \<Rightarrow> (d, a)
      | None \<Rightarrow> let d = le_device_create addr addr_type in (d, a\<lparr>le_devices := le_devices a @ [d]\<rparr>))"

text \<open>The destructor the lists run on a removed element, and \<open>bt_list_clear\<close> with it.\<close>

definition adapter_delete_device :: "bt_device \<Rightarrow> adapter \<Rightarrow> adapter" where
  "adapter_delete_device d a =
     (if device_get_connection_state d \<noteq> CONNECTION_STATE_DISCONNECTED
      then emit (ConnectionStateChanged (device_get_address d) (device_get_transport d) CONNECTION_STATE_DISCONNECTED) a
      else a)"

definition adapter_delete_devices :: "bt_device list \<Rightarrow> adapter \<Rightarrow> adapter" where
  "adapter_delete_devices ds a = foldl (\<lambda>a d. adapter_delete_device d a) a ds"

fun adapter_check_acl_all_disconnected :: "bt_device list \<Rightarrow> bool" where
  "adapter_check_acl_all_disconnected [] = True"
| "adapter_check_acl_all_disconnected (d # ds) =
     (if device_get_connection_state d \<noteq> CONNECTION_STATE_DISCONNECTED then False
      else adapter_check_acl_all_disconnected ds)"

definition adapter_disconnect :: "adapter_config \<Rightarrow> adapter_env \<Rightarrow> bt_address_t \<Rightarrow> adapter \<Rightarrow> bt_status_t \<times> adapter" where
  "adapter_disconnect c e addr a =
     (case adapter_find_device c addr BT_TRANSPORT_BREDR a of
        None \<Rightarrow> (BT_STATUS_DEVICE_NOT_FOUND, a)
      | Some d \<Rightarrow>
        if device_get_connection_state d = CONNECTION_STATE_DISCONNECTED \<or>
           device_get_connection_state d = CONNECTION_STATE_DISCONNECTING then (BT_STATUS_BUSY, a)
        else let a = emit (Sal (bt_sal_disconnect addr)) a
             in if sal e (bt_sal_disconnect addr) \<noteq> BT_STATUS_SUCCESS then (BT_STATUS_FAIL, a)
                else (BT_STATUS_SUCCESS,
                      update_device c addr BT_TRANSPORT_BREDR (device_set_connection_state CONNECTION_STATE_DISCONNECTING) a))"

definition adapter_le_disconnect :: "adapter_config \<Rightarrow> adapter_env \<Rightarrow> bt_address_t \<Rightarrow> adapter \<Rightarrow> bt_status_t \<times> adapter" where
  "adapter_le_disconnect c e addr a =
     (if \<not> cfg_ble c then (BT_STATUS_NOT_SUPPORTED, a)
      else case adapter_find_device c addr BT_TRANSPORT_BLE a of
        None \<Rightarrow> (BT_STATUS_DEVICE_NOT_FOUND, a)
      | Some d \<Rightarrow>
        if device_get_connection_state d = CONNECTION_STATE_DISCONNECTED \<or>
           device_get_connection_state d = CONNECTION_STATE_DISCONNECTING then (BT_STATUS_BUSY, a)
        else let a = emit (Sal (bt_sal_le_disconnect addr)) a
             in if sal e (bt_sal_le_disconnect addr) \<noteq> BT_STATUS_SUCCESS then (BT_STATUS_FAIL, a)
                else (BT_STATUS_SUCCESS,
                      update_device c addr BT_TRANSPORT_BLE (device_set_connection_state CONNECTION_STATE_DISCONNECTING) a))"

text \<open>The loops over the list as it is when they start: disconnecting changes no list member's place.\<close>

definition adapter_disconnect_safe :: "adapter_config \<Rightarrow> adapter_env \<Rightarrow> adapter \<Rightarrow> adapter" where
  "adapter_disconnect_safe c e a =
     (if adapter_check_acl_all_disconnected (devices a) then send_to_state_machine BREDR_ACL_ALL_DISCONNECTED a
      else foldl (\<lambda>a d. snd (adapter_disconnect c e (device_get_address d) a)) a (devices a))"

definition adapter_le_disconnect_safe :: "adapter_config \<Rightarrow> adapter_env \<Rightarrow> adapter \<Rightarrow> adapter" where
  "adapter_le_disconnect_safe c e a =
     (if \<not> cfg_ble c then a
      else if adapter_check_acl_all_disconnected (le_devices a) then send_to_state_machine BLE_ACL_ALL_DISCONNECTED a
      else foldl (\<lambda>a d. snd (adapter_le_disconnect c e (device_get_address d) a)) a (le_devices a))"

end
