(* ===== verification/Adapter_State.thy ===== *)
theory Adapter_State
  imports Adapter_Base
begin

text \<open>
  service/src/adapter_state.c with the functions of adapter_service.c it calls and that call it:
  the \<open>enter\<close>, \<open>exit\<close> and \<open>process_event\<close> functions of the seven states, the reports of state
  changes, the loading of stored devices, the public \<open>adapter_enable\<close> and \<open>adapter_disable\<close>. The
  lemmas show that the machine moves along the documented diagram only, that what it reports
  is a path of that diagram, and that it can always be brought back to \<open>OFF\<close>; and where it fails:
  a stack that refuses to start, and a flag that survives an aborted safe disable.
\<close>

section \<open>The functions of adapter\_service.c the states call\<close>

definition adapter_notify_state_change :: "bt_adapter_state_t \<Rightarrow> bt_adapter_state_t \<Rightarrow> adapter \<Rightarrow> adapter" where
  "adapter_notify_state_change prev current a = emit (StateChanged current) (a\<lparr>adapter_state := current\<rparr>)"

definition adapter_is_support_bredr :: "adapter_config \<Rightarrow> bool" where
  "adapter_is_support_bredr c = cfg_bredr c"

definition adapter_is_support_le :: "adapter_config \<Rightarrow> bool" where
  "adapter_is_support_le c = cfg_ble c"

text \<open>The callbacks of the storage, with the devices it holds (none when reading it failed).\<close>

definition restore_le_bonded_device :: "remote_device_le_properties \<Rightarrow> bt_device \<Rightarrow> bt_device" where
  "restore_le_bonded_device r d =
     (let d = snd (device_set_bond_state BOND_STATE_BONDED False False d);
          d = device_set_smp_key (lp_smp_key r) d;
          d = device_set_identity_address (Some (take 6 (lp_smp_key r))) d
      in device_set_local_csrk (lp_local_csrk r) d)"

definition le_bonded_device_loaded ::
  "adapter_config \<Rightarrow> remote_device_le_properties list \<Rightarrow> adapter \<Rightarrow> adapter" where
  "le_bonded_device_loaded c items a =
     (if items = [] then a
      else emit (Sal (bt_sal_le_set_bonded_devices (length items)))
        (foldl (\<lambda>a r. update_device c (lp_addr r) BT_TRANSPORT_BLE (restore_le_bonded_device r)
                  (snd (adapter_find_create_le_device c (lp_addr r) (lp_addr_type r) a)))
          a items))"

definition whitelist_device_loaded ::
  "adapter_config \<Rightarrow> remote_device_le_properties list \<Rightarrow> adapter \<Rightarrow> adapter" where
  "whitelist_device_loaded c items a =
     foldl (\<lambda>a r.
         emit (Sal (bt_sal_le_add_white_list (lp_addr r) (lp_addr_type r)))
           (update_device c (lp_addr r) BT_TRANSPORT_BLE (device_set_flags DFLAG_WHITELIST_ADDED)
             (snd (adapter_find_create_le_device c (lp_addr r) (lp_addr_type r) a))))
       a items"

text \<open>\<open>load_remote_uuids\<close> on the stored array; the array is read within its bounds.\<close>

definition load_uuids :: "remote_device_properties \<Rightarrow> bt_device \<Rightarrow> bt_device" where
  "load_uuids r d =
     (case load_remote_uuids (p_uuids r) of Some (Some us) \<Rightarrow> snd (device_set_uuids us d) | _ \<Rightarrow> d)"

definition restore_bonded_device :: "remote_device_properties \<Rightarrow> bt_device \<Rightarrow> bt_device" where
  "restore_bonded_device r d =
     (let d = snd (device_set_name (p_name r) d);
          d = snd (device_set_alias (p_alias r) d);
          d = snd (device_set_device_class (p_class_of_device r) d);
          d = device_set_device_type (p_device_type r) d;
          d = device_set_link_key (p_link_key r) d;
          d = device_set_link_key_type (p_link_key_type r) d;
          d = snd (device_set_bond_state BOND_STATE_BONDED False False d)
      in load_uuids r d)"

definition bonded_device_loaded :: "adapter_config \<Rightarrow> remote_device_properties list \<Rightarrow> adapter \<Rightarrow> adapter" where
  "bonded_device_loaded c items a =
     send_to_state_machine BREDR_ENABLED
       (foldl (\<lambda>a r. emit (Sal (bt_sal_set_bonded_devices (p_addr r)))
                 (update_device c (p_addr r) BT_TRANSPORT_BREDR (restore_bonded_device r)
                   (snd (adapter_find_create_classic_device c (p_addr r) a))))
         a items)"

definition adapter_on_le_enabled :: "adapter_config \<Rightarrow> adapter_env \<Rightarrow> bool \<Rightarrow> adapter \<Rightarrow> adapter" where
  "adapter_on_le_enabled c e enablebt a =
     (if \<not> cfg_ble c then a
      else let a = (case sal_le_address e of
                      Some x \<Rightarrow> a\<lparr>le_addr := x\<rparr> | None \<Rightarrow> a\<lparr>le_addr := bt_addr_set_empty\<rparr>);
               a = le_bonded_device_loaded c (stored_le_bonded e) a;
               a = whitelist_device_loaded c (stored_whitelist e) a;
               a = (if cfg_adv c then emit AdvManagerInit a else a);
               a = (if cfg_scan c then emit ScanManagerInit a else a);
               a = (if cfg_l2cap c \<and> \<not> enablebt then emit L2capInit a else a)
           in if enablebt then send_to_state_machine SYS_TURN_ON a else a)"

definition adapter_on_le_disabled :: "adapter_config \<Rightarrow> adapter \<Rightarrow> adapter" where
  "adapter_on_le_disabled c a =
     (if \<not> cfg_ble c then a
      else let a = (if cfg_adv c then emit AdvManagerCleanup a else a);
               a = (if cfg_scan c then emit ScanManagerCleanup ((adapter_delete_devices (le_devices a) a)\<lparr>le_devices := []\<rparr>) else a)
           in if cfg_l2cap c then emit L2capCleanup a else a)"

definition adapter_on_br_enabled :: "adapter_config \<Rightarrow> adapter_env \<Rightarrow> adapter \<Rightarrow> adapter" where
  "adapter_on_br_enabled c e a =
     (let p = properties a;
          a = emit (Sal (bt_sal_set_name (ap_name p))) a;
          a = a\<lparr>properties := p\<lparr>ap_addr := sal_address e\<rparr>\<rparr>;
          a = emit (Sal (bt_sal_set_io_capability (ap_io_capability p))) a;
          a = emit (Sal (bt_sal_set_scan_mode (ap_scan_mode p) (ap_bondable p))) a;
          a = emit (Sal (bt_sal_set_device_class (ap_class_of_device p))) a
      in if cfg_l2cap c then emit L2capInit a else a)"

definition adapter_on_br_disabled :: "adapter \<Rightarrow> adapter" where
  "adapter_on_br_disabled a = (adapter_delete_devices (devices a) a)\<lparr>devices := []\<rparr>"

section \<open>The states\<close>

definition off_enter :: "adapter_config \<Rightarrow> adapter \<Rightarrow> adapter" where
  "off_enter c a =
     (let a = a\<lparr>ble_enabled := False, pending_turn_on := False, turning_off_safe := False, ble_turning_off_safe := False\<rparr>
      in case hsm_get_state_value adapter_info (previous_state a) of
           Some prev \<Rightarrow> adapter_notify_state_change prev BT_ADAPTER_STATE_OFF a
         | None \<Rightarrow> a\<lparr>a2dp_offloading := prop_a2dp c, hfp_offloading := prop_hfp c, lea_offloading := prop_lea c\<rparr>)"

definition adapter_notify_media_offloading :: "adapter \<Rightarrow> adapter" where
  "adapter_notify_media_offloading a =
     emit (LeaOffloading (lea_offloading a)) (emit (HfpOffloading (hfp_offloading a)) (emit (A2dpOffloading (a2dp_offloading a)) a))"

definition ble_turning_on_enter :: "adapter_config \<Rightarrow> adapter_env \<Rightarrow> adapter \<Rightarrow> adapter" where
  "ble_turning_on_enter c e a =
     (if \<not> cfg_ble c then a
      else let a = emit (Sal bt_sal_le_enable) a
           in if sal e bt_sal_le_enable = BT_STATUS_SUCCESS
              then adapter_notify_state_change BT_ADAPTER_STATE_OFF BT_ADAPTER_STATE_BLE_TURNING_ON a else a)"

text \<open>The previous state is never null where its value is read; \<open>prev_value\<close> is that value.\<close>

definition prev_value :: "adapter \<Rightarrow> bt_adapter_state_t" where
  "prev_value a = (case hsm_get_state_value adapter_info (previous_state a) of Some v \<Rightarrow> v | None \<Rightarrow> BT_ADAPTER_STATE_OFF)"

definition ble_on_enter :: "adapter_config \<Rightarrow> adapter_env \<Rightarrow> adapter \<Rightarrow> adapter" where
  "ble_on_enter c e a =
     (let a = adapter_notify_state_change (prev_value a) BT_ADAPTER_STATE_BLE_ON a;
          a = a\<lparr>ble_enabled := True\<rparr>;
          a = adapter_on_le_enabled c e (pending_turn_on a) a
      in a\<lparr>pending_turn_on := False\<rparr>)"

definition turning_on_enter :: "adapter_env \<Rightarrow> adapter \<Rightarrow> adapter" where
  "turning_on_enter e a =
     (let a = emit (Sal bt_sal_enable) a
      in if sal e bt_sal_enable = BT_STATUS_SUCCESS
         then adapter_notify_state_change (prev_value a) BT_ADAPTER_STATE_TURNING_ON a else a)"

definition on_state_enter :: "adapter_config \<Rightarrow> adapter_env \<Rightarrow> adapter \<Rightarrow> adapter" where
  "on_state_enter c e a =
     (let a = adapter_on_br_enabled c e a;
          a = adapter_notify_state_change (prev_value a) BT_ADAPTER_STATE_ON a
      in if cfg_media c
         then emit (MediaLeaOffloading (lea_offloading a)) (emit (MediaHfpOffloading (hfp_offloading a))
                (emit (MediaA2dpOffloading (a2dp_offloading a)) a))
         else a)"

definition turning_off_enter :: "adapter \<Rightarrow> adapter" where
  "turning_off_enter a =
     (let a = (service_loop_cancel_timer (disable_safe_timer a) a)\<lparr>disable_safe_timer := None\<rparr>;
          a = emit (ServiceShutdown BT_TRANSPORT_BREDR) a
      in adapter_notify_state_change BT_ADAPTER_STATE_ON BT_ADAPTER_STATE_TURNING_OFF a)"

definition turning_off_exit :: "adapter \<Rightarrow> adapter" where
  "turning_off_exit a = adapter_on_br_disabled a"

definition ble_turning_off_enter :: "adapter_config \<Rightarrow> adapter \<Rightarrow> adapter" where
  "ble_turning_off_enter c a =
     (if \<not> cfg_ble c then a
      else let a = (service_loop_cancel_timer (disable_safe_timer a) a)\<lparr>disable_safe_timer := None\<rparr>;
               a = emit (ServiceShutdown BT_TRANSPORT_BLE) a;
               a = adapter_on_le_disabled c a
           in adapter_notify_state_change (prev_value a) BT_ADAPTER_STATE_BLE_TURNING_OFF a)"

definition ble_turning_off_exit :: "adapter_config \<Rightarrow> adapter \<Rightarrow> adapter" where
  "ble_turning_off_exit c a = (if cfg_ble c then a\<lparr>ble_enabled := False\<rparr> else a)"

text \<open>The \<open>enter\<close> and \<open>exit\<close> pointers of the seven \<open>state_t\<close> objects; an \<open>exit\<close> that only logs does nothing.\<close>

fun adapter_enter_fn :: "adapter_config \<Rightarrow> adapter_env \<Rightarrow> adapter_st \<Rightarrow> adapter \<Rightarrow> adapter" where
  "adapter_enter_fn c e off_state = off_enter c"
| "adapter_enter_fn c e ble_turning_on_state = ble_turning_on_enter c e"
| "adapter_enter_fn c e ble_on_state = ble_on_enter c e"
| "adapter_enter_fn c e turning_on_state = turning_on_enter e"
| "adapter_enter_fn c e on_state = on_state_enter c e"
| "adapter_enter_fn c e turning_off_state = turning_off_enter"
| "adapter_enter_fn c e ble_turning_off_state = ble_turning_off_enter c"

fun adapter_exit_fn :: "adapter_config \<Rightarrow> adapter_st \<Rightarrow> adapter \<Rightarrow> adapter" where
  "adapter_exit_fn c turning_off_state = turning_off_exit"
| "adapter_exit_fn c ble_turning_off_state = ble_turning_off_exit c"
| "adapter_exit_fn c _ = (\<lambda>a. a)"

abbreviation goto :: "adapter_config \<Rightarrow> adapter_env \<Rightarrow> adapter_st \<Rightarrow> adapter \<Rightarrow> adapter" where
  "goto c e \<equiv> hsm_transition_to (adapter_enter_fn c e) (adapter_exit_fn c)"

definition start_safe_timer :: "adapter \<Rightarrow> adapter" where
  "start_safe_timer a = (let (t, a) = service_loop_timer a in a\<lparr>disable_safe_timer := Some t\<rparr>)"

definition off_process_event :: "adapter_config \<Rightarrow> adapter_env \<Rightarrow> adapter_event \<Rightarrow> adapter \<Rightarrow> bool \<times> adapter" where
  "off_process_event c e ev a =
     (case ev of
        SYS_TURN_ON \<Rightarrow>
          let a = adapter_notify_media_offloading a
          in if \<not> adapter_is_support_le c then (True, goto c e turning_on_state a)
             else let a = (if adapter_is_support_bredr c then a\<lparr>pending_turn_on := True\<rparr> else a)
                  in (True, goto c e ble_turning_on_state a)
      | TURN_ON_BLE \<Rightarrow> (True, goto c e ble_turning_on_state a)
      | _ \<Rightarrow> (False, a))"

definition ble_turning_on_process_event ::
  "adapter_config \<Rightarrow> adapter_env \<Rightarrow> adapter_event \<Rightarrow> adapter \<Rightarrow> bool \<times> adapter" where
  "ble_turning_on_process_event c e ev a =
     (case ev of
        BLE_ENABLED \<Rightarrow> (True, emit (ServiceStartup BT_TRANSPORT_BLE) a)
      | BLE_PROFILE_ENABLED \<Rightarrow> (True, goto c e ble_on_state a)
      | BLE_ENABLE_TIMEOUT \<Rightarrow> (True, a)
      | BLE_ENABLE_PROFILE_TIMEOUT \<Rightarrow> (True, a)
      | _ \<Rightarrow> (False, a))"

definition ble_on_process_event :: "adapter_config \<Rightarrow> adapter_env \<Rightarrow> adapter_event \<Rightarrow> adapter \<Rightarrow> bool \<times> adapter" where
  "ble_on_process_event c e ev a =
     (case ev of
        SYS_TURN_ON \<Rightarrow> (True, goto c e turning_on_state a)
      | SYS_TURN_OFF \<Rightarrow> (True, goto c e ble_turning_off_state a)
      | TURN_OFF_BLE \<Rightarrow> (True, goto c e ble_turning_off_state a)
      | SYS_TURN_OFF_SAFE \<Rightarrow>
          (True, start_safe_timer (adapter_le_disconnect_safe c e (a\<lparr>ble_turning_off_safe := True\<rparr>)))
      | SYS_TURN_OFF_SAFE_TIMEOUT \<Rightarrow> (True, if ble_turning_off_safe a then goto c e ble_turning_off_state a else a)
      | BLE_ACL_ALL_DISCONNECTED \<Rightarrow> (True, if ble_turning_off_safe a then goto c e ble_turning_off_state a else a)
      | _ \<Rightarrow> (False, a))"

definition turning_on_process_event ::
  "adapter_config \<Rightarrow> adapter_env \<Rightarrow> adapter_event \<Rightarrow> adapter \<Rightarrow> bool \<times> adapter" where
  "turning_on_process_event c e ev a =
     (case ev of
        BREDR_ENABLED \<Rightarrow> (True, emit (ServiceStartup BT_TRANSPORT_BREDR) a)
      | BREDR_PROFILE_ENABLED \<Rightarrow> (True, goto c e on_state a)
      | BREDR_ENABLE_TIMEOUT \<Rightarrow> (True, a)
      | BREDR_ENABLE_PROFILE_TIMEOUT \<Rightarrow> (True, a)
      | _ \<Rightarrow> (False, a))"

definition on_state_process_event :: "adapter_config \<Rightarrow> adapter_env \<Rightarrow> adapter_event \<Rightarrow> adapter \<Rightarrow> bool \<times> adapter" where
  "on_state_process_event c e ev a =
     (case ev of
        SYS_TURN_OFF \<Rightarrow> (True, goto c e turning_off_state a)
      | SYS_TURN_OFF_SAFE \<Rightarrow> (True, start_safe_timer (adapter_disconnect_safe c e (a\<lparr>turning_off_safe := True\<rparr>)))
      | BREDR_ACL_ALL_DISCONNECTED \<Rightarrow> (True, if turning_off_safe a then goto c e turning_off_state a else a)
      | SYS_TURN_OFF_SAFE_TIMEOUT \<Rightarrow> (True, if turning_off_safe a then goto c e turning_off_state a else a)
      | _ \<Rightarrow> (False, a))"

definition turning_off_process_event ::
  "adapter_config \<Rightarrow> adapter_env \<Rightarrow> adapter_event \<Rightarrow> adapter \<Rightarrow> bool \<times> adapter" where
  "turning_off_process_event c e ev a =
     (case ev of
        BREDR_PROFILE_DISABLED \<Rightarrow> (True, emit (Sal bt_sal_disable) a)
      | BREDR_DISABLED \<Rightarrow>
          if \<not> adapter_is_support_le c then (True, goto c e off_state a)
          else if \<not> turning_off_safe a then (True, goto c e ble_turning_off_state a)
          else (True, start_safe_timer (adapter_le_disconnect_safe c e (a\<lparr>ble_turning_off_safe := True\<rparr>)))
      | SYS_TURN_OFF_SAFE_TIMEOUT \<Rightarrow> (True, if ble_turning_off_safe a then goto c e ble_turning_off_state a else a)
      | BLE_ACL_ALL_DISCONNECTED \<Rightarrow> (True, if ble_turning_off_safe a then goto c e ble_turning_off_state a else a)
      | BREDR_DISABLE_TIMEOUT \<Rightarrow> (True, a)
      | BREDR_DISABLE_PROFILE_TIMEOUT \<Rightarrow> (True, a)
      | _ \<Rightarrow> (False, a))"

definition ble_turning_off_process_event ::
  "adapter_config \<Rightarrow> adapter_env \<Rightarrow> adapter_event \<Rightarrow> adapter \<Rightarrow> bool \<times> adapter" where
  "ble_turning_off_process_event c e ev a =
     (case ev of
        BLE_PROFILE_DISABLED \<Rightarrow> (True, if cfg_ble c then emit (Sal bt_sal_le_disable) a else a)
      | BLE_DISABLED \<Rightarrow> (True, goto c e off_state a)
      | BLE_DISABLE_TIMEOUT \<Rightarrow> (True, a)
      | BLE_DISABLE_PROFILE_TIMEOUT \<Rightarrow> (True, a)
      | _ \<Rightarrow> (False, a))"

fun adapter_process_fn ::
  "adapter_config \<Rightarrow> adapter_env \<Rightarrow> adapter_st \<Rightarrow> adapter_event \<Rightarrow> adapter \<Rightarrow> bool \<times> adapter" where
  "adapter_process_fn c e off_state = off_process_event c e"
| "adapter_process_fn c e ble_turning_on_state = ble_turning_on_process_event c e"
| "adapter_process_fn c e ble_on_state = ble_on_process_event c e"
| "adapter_process_fn c e turning_on_state = turning_on_process_event c e"
| "adapter_process_fn c e on_state = on_state_process_event c e"
| "adapter_process_fn c e turning_off_state = turning_off_process_event c e"
| "adapter_process_fn c e ble_turning_off_state = ble_turning_off_process_event c e"

definition turning_off_safe_timeout_callback :: "adapter \<Rightarrow> adapter" where
  "turning_off_safe_timeout_callback a = send_to_state_machine SYS_TURN_OFF_SAFE_TIMEOUT a"

section \<open>Creation, the event loop, and the entry points\<close>

definition zero_adapter :: adapter where
  "zero_adapter =
     \<lparr>initial_state = off_state, previous_state = None, current_state = None,
      ble_enabled = False, pending_turn_on = False, a2dp_offloading = False, hfp_offloading = False,
      lea_offloading = False, turning_off_safe = False, ble_turning_off_safe = False, disable_safe_timer = None,
      adapter_state = BT_ADAPTER_STATE_OFF,
      properties = \<lparr>ap_name = '''', ap_addr = replicate 6 0, ap_class_of_device = 0, ap_io_capability = 0, ap_scan_mode = 0,
                    ap_bondable = False, ap_irk = replicate 16 0\<rparr>,
      devices = [], le_devices = [], le_addr = replicate 6 0, le_addr_type = BT_LE_ADDR_TYPE_PUBLIC,
      is_discovering = False, max_acl_connections = 0, stm_queue = [], timers = [], next_timer = 0, outs = []\<rparr>"

definition adapter_state_machine_new :: "adapter_config \<Rightarrow> adapter_env \<Rightarrow> adapter \<Rightarrow> adapter" where
  "adapter_state_machine_new c e a = hsm_ctor (adapter_enter_fn c e) (adapter_exit_fn c) off_state a"

definition adapter_init :: "adapter_config \<Rightarrow> adapter_env \<Rightarrow> adapter" where
  "adapter_init c e = adapter_state_machine_new c e (zero_adapter\<lparr>is_discovering := False, max_acl_connections := 10\<rparr>)"

definition adapter_dispatch :: "adapter_config \<Rightarrow> adapter_env \<Rightarrow> adapter_event \<Rightarrow> adapter \<Rightarrow> bool \<times> adapter" where
  "adapter_dispatch c e = hsm_dispatch_event (adapter_process_fn c e)"

text \<open>One message of the service loop: \<open>bt_service_state_machine_event_dispatch\<close>.\<close>

definition run_message :: "adapter_config \<Rightarrow> adapter_env \<Rightarrow> adapter \<Rightarrow> adapter" where
  "run_message c e a =
     (case stm_queue a of [] \<Rightarrow> a | ev # evs \<Rightarrow> snd (adapter_dispatch c e ev (a\<lparr>stm_queue := evs\<rparr>)))"

definition adapter_get_state :: "adapter \<Rightarrow> bt_adapter_state_t" where
  "adapter_get_state a = adapter_state a"

definition adapter_is_le_enabled :: "adapter_config \<Rightarrow> adapter \<Rightarrow> bool" where
  "adapter_is_le_enabled c a \<longleftrightarrow> adapter_is_support_le c \<and>
     adapter_get_state a \<in> {BT_ADAPTER_STATE_BLE_ON, BT_ADAPTER_STATE_TURNING_ON, BT_ADAPTER_STATE_TURNING_OFF, BT_ADAPTER_STATE_ON}"

text \<open>\<open>all\<close> is the option \<open>SYS_SET_BT_ALL\<close>.\<close>

definition adapter_enable :: "bool \<Rightarrow> adapter \<Rightarrow> bt_status_t \<times> adapter" where
  "adapter_enable all a =
     (if adapter_get_state a = BT_ADAPTER_STATE_ON then (BT_STATUS_DONE, a)
      else (BT_STATUS_SUCCESS, send_to_state_machine (if all then SYS_TURN_ON else TURN_ON_BLE) a))"

definition adapter_disable :: "bool \<Rightarrow> adapter \<Rightarrow> bt_status_t \<times> adapter" where
  "adapter_disable all a =
     (if adapter_get_state a = BT_ADAPTER_STATE_OFF then (BT_STATUS_DONE, a)
      else (BT_STATUS_SUCCESS, send_to_state_machine (if all then SYS_TURN_OFF_SAFE else TURN_OFF_BLE) a))"

definition adapter_properties_copy :: "adapter_properties \<Rightarrow> adapter_storage \<Rightarrow> adapter_properties" where
  "adapter_properties_copy prop storage =
     prop\<lparr>ap_name := strlcpy (st_name storage) (BT_LOC_NAME_MAX_LEN + 1), ap_class_of_device := st_class_of_device storage,
          ap_io_capability := st_io_capability storage, ap_scan_mode := ucast (st_scan_mode storage),
          ap_bondable := (st_bondable storage \<noteq> 0), ap_irk := take 16 (st_irk storage)\<rparr>"

text \<open>The storage that is read is zeroed when reading it fails.\<close>

definition adapter_on_adapter_info_load :: "adapter_env \<Rightarrow> adapter \<Rightarrow> adapter" where
  "adapter_on_adapter_info_load e a = a\<lparr>properties := adapter_properties_copy (properties a) (stored_properties e)\<rparr>"

datatype stack_state = BT_BREDR_STACK_STATE_ON | BT_BREDR_STACK_STATE_OFF | BLE_STACK_STATE_ON | BLE_STACK_STATE_OFF

definition adapter_on_adapter_state_changed :: "adapter_config \<Rightarrow> adapter_env \<Rightarrow> stack_state \<Rightarrow> adapter \<Rightarrow> adapter" where
  "adapter_on_adapter_state_changed c e st a =
     (case st of
        BT_BREDR_STACK_STATE_ON \<Rightarrow> bonded_device_loaded c (stored_bonded e) (adapter_on_adapter_info_load e a)
      | BT_BREDR_STACK_STATE_OFF \<Rightarrow> send_to_state_machine BREDR_DISABLED a
      | BLE_STACK_STATE_ON \<Rightarrow> send_to_state_machine BLE_ENABLED a
      | BLE_STACK_STATE_OFF \<Rightarrow> send_to_state_machine BLE_DISABLED a)"

definition adapter_on_profile_services_startup :: "bt_transport_t \<Rightarrow> adapter \<Rightarrow> adapter" where
  "adapter_on_profile_services_startup transport a =
     send_to_state_machine (if transport = BT_TRANSPORT_BREDR then BREDR_PROFILE_ENABLED else BLE_PROFILE_ENABLED) a"

definition adapter_on_profile_services_shutdown :: "bt_transport_t \<Rightarrow> adapter \<Rightarrow> adapter" where
  "adapter_on_profile_services_shutdown transport a =
     send_to_state_machine (if transport = BT_TRANSPORT_BREDR then BREDR_PROFILE_DISABLED else BLE_PROFILE_DISABLED) a"

text \<open>Everything that happens to the adapter: calls of the interface, reports of the stack and of the
  profile services, an armed timer that expires, a message that is processed.\<close>

datatype adapter_input =
    Enable bool | Disable bool | StackState stack_state | ServicesUp bt_transport_t | ServicesDown bt_transport_t
  | TimerExpires nat | RunMessage

definition adapter_step :: "adapter_config \<Rightarrow> adapter \<Rightarrow> adapter_env \<times> adapter_input \<Rightarrow> adapter" where
  "adapter_step c a ei =
     (case ei of (e, i) \<Rightarrow>
       case i of
         Enable all \<Rightarrow> snd (adapter_enable all a)
       | Disable all \<Rightarrow> snd (adapter_disable all a)
       | StackState st \<Rightarrow> adapter_on_adapter_state_changed c e st a
       | ServicesUp t \<Rightarrow> adapter_on_profile_services_startup t a
       | ServicesDown t \<Rightarrow> adapter_on_profile_services_shutdown t a
       | TimerExpires h \<Rightarrow>
           if h \<in> set (timers a) then turning_off_safe_timeout_callback (a\<lparr>timers := remove1 h (timers a)\<rparr>) else a
       | RunMessage \<Rightarrow> run_message c e a)"

definition adapter_run :: "adapter_config \<Rightarrow> (adapter_env \<times> adapter_input) list \<Rightarrow> adapter \<Rightarrow> adapter" where
  "adapter_run c is a = foldl (adapter_step c) a is"

section \<open>What the helper functions leave alone\<close>

text \<open>The state changes reported so far.\<close>

definition reports :: "adapter \<Rightarrow> bt_adapter_state_t list" where
  "reports a = concat (map (\<lambda>x. case x of StateChanged s \<Rightarrow> [s] | _ \<Rightarrow> []) (outs a))"

definition core :: "adapter \<Rightarrow> adapter_st option \<times> adapter_st option \<times> bool \<times> bool \<times> bool \<times> nat option \<times> nat list \<times> nat \<times>
    bt_adapter_state_t \<times> bt_adapter_state_t list" where
  "core a = (current_state a, previous_state a, pending_turn_on a, turning_off_safe a, ble_turning_off_safe a,
     disable_safe_timer a, timers a, next_timer a, adapter_state a, reports a)"

lemma coreD:
  assumes "core a = core b"
  shows "current_state a = current_state b \<and> previous_state a = previous_state b \<and> pending_turn_on a = pending_turn_on b \<and>
    turning_off_safe a = turning_off_safe b \<and> ble_turning_off_safe a = ble_turning_off_safe b \<and>
    disable_safe_timer a = disable_safe_timer b \<and> timers a = timers b \<and> next_timer a = next_timer b \<and>
    adapter_state a = adapter_state b \<and> reports a = reports b"
  using assms by (auto simp: core_def)

lemma core_emit [simp]: "(\<And>s. x \<noteq> StateChanged s) \<Longrightarrow> core (emit x a) = core a"
  by (cases x) (auto simp: core_def emit_def reports_def)

lemma core_send [simp]: "core (send_to_state_machine ev a) = core a"
  by (simp add: core_def send_to_state_machine_def reports_def)

lemma core_update_device [simp]: "core (update_device c x t f a) = core a"
  by (cases t) (simp_all add: core_def update_device_def reports_def)

lemma core_find_create [simp]:
  "core (snd (adapter_find_create_le_device c x t a)) = core a"
  "core (snd (adapter_find_create_classic_device c x a)) = core a"
  by (simp_all add: core_def adapter_find_create_le_device_def adapter_find_create_classic_device_def reports_def Let_def
      split: option.split)

lemma core_foldl: "(\<And>a x. core (f a x) = core a) \<Longrightarrow> core (foldl f a xs) = core a"
  by (induction xs arbitrary: a) auto

lemma core_delete_devices [simp]: "core (adapter_delete_devices ds a) = core a"
  by (simp add: adapter_delete_devices_def adapter_delete_device_def core_foldl)

lemma core_loaded [simp]:
  "core (le_bonded_device_loaded c xs a) = core a" "core (whitelist_device_loaded c xs a) = core a"
  "core (bonded_device_loaded c ys a) = core a"
  by (simp_all add: le_bonded_device_loaded_def whitelist_device_loaded_def bonded_device_loaded_def core_foldl)

lemma core_disconnect [simp]:
  "core (snd (adapter_disconnect c e x a)) = core a" "core (snd (adapter_le_disconnect c e x a)) = core a"
  by (simp_all add: adapter_disconnect_def adapter_le_disconnect_def Let_def split: option.split)

lemma core_disconnect_safe [simp]:
  "core (adapter_disconnect_safe c e a) = core a" "core (adapter_le_disconnect_safe c e a) = core a"
  by (simp_all add: adapter_disconnect_safe_def adapter_le_disconnect_safe_def core_foldl)

lemma core_upd [simp]:
  "core (a\<lparr>le_addr := x\<rparr>) = core a" "core (a\<lparr>le_devices := ds\<rparr>) = core a" "core (a\<lparr>devices := ds\<rparr>) = core a"
  "core (a\<lparr>ble_enabled := b\<rparr>) = core a" "core (a\<lparr>properties := p\<rparr>) = core a" "core (a\<lparr>stm_queue := q\<rparr>) = core a"
  "core (a\<lparr>a2dp_offloading := x1\<rparr>) = core a" "core (a\<lparr>hfp_offloading := x2\<rparr>) = core a" "core (a\<lparr>lea_offloading := x3\<rparr>) = core a"
  by (simp_all add: core_def reports_def)

lemma core_services [simp]:
  "core (adapter_on_le_enabled c e b a) = core a" "core (adapter_on_le_disabled c a) = core a"
  "core (adapter_on_br_enabled c e a) = core a" "core (adapter_on_br_disabled a) = core a"
  "core (adapter_notify_media_offloading a) = core a" "core (adapter_on_adapter_info_load e a) = core a"
  by (simp_all add: adapter_on_le_enabled_def adapter_on_le_disabled_def adapter_on_br_enabled_def adapter_on_br_disabled_def
      adapter_notify_media_offloading_def adapter_on_adapter_info_load_def Let_def split: option.split)

text \<open>The fields of the state machine as projections of the core, and what writes to them.\<close>

lemma core_sel:
  "current_state a = fst (core a)"
  "previous_state a = fst (snd (core a))"
  "pending_turn_on a = fst (snd (snd (core a)))"
  "turning_off_safe a = fst (snd (snd (snd (core a))))"
  "ble_turning_off_safe a = fst (snd (snd (snd (snd (core a)))))"
  "disable_safe_timer a = fst (snd (snd (snd (snd (snd (core a))))))"
  "timers a = fst (snd (snd (snd (snd (snd (snd (core a)))))))"
  "next_timer a = fst (snd (snd (snd (snd (snd (snd (snd (core a))))))))"
  "adapter_state a = fst (snd (snd (snd (snd (snd (snd (snd (snd (core a)))))))))"
  "reports a = snd (snd (snd (snd (snd (snd (snd (snd (snd (core a)))))))))"
  by (simp_all add: core_def)

lemma core_write:
  "core (a\<lparr>current_state := st\<rparr>) = (case core a of (_, x) \<Rightarrow> (st, x))"
  "core (a\<lparr>previous_state := st\<rparr>) = (case core a of (c, _, x) \<Rightarrow> (c, st, x))"
  "core (a\<lparr>pending_turn_on := b\<rparr>) = (case core a of (c, p, _, x) \<Rightarrow> (c, p, b, x))"
  "core (a\<lparr>turning_off_safe := b\<rparr>) = (case core a of (c, p, q, _, x) \<Rightarrow> (c, p, q, b, x))"
  "core (a\<lparr>ble_turning_off_safe := b\<rparr>) = (case core a of (c, p, q, r, _, x) \<Rightarrow> (c, p, q, r, b, x))"
  "core (a\<lparr>disable_safe_timer := t\<rparr>) = (case core a of (c, p, q, r, s, _, x) \<Rightarrow> (c, p, q, r, s, t, x))"
  "core (a\<lparr>timers := ts\<rparr>) = (case core a of (c, p, q, r, s, t, _, x) \<Rightarrow> (c, p, q, r, s, t, ts, x))"
  "core (adapter_notify_state_change v s' a) =
     (case core a of (c, p, q, r, s, t, ts, n, _, rs) \<Rightarrow> (c, p, q, r, s, t, ts, n, s', rs @ [s']))"
  by (simp_all add: core_def adapter_notify_state_change_def emit_def reports_def)

text \<open>Which states report themselves when they are entered.\<close>

fun notified :: "adapter_config \<Rightarrow> adapter_env \<Rightarrow> adapter_st \<Rightarrow> adapter \<Rightarrow> bool" where
  "notified c e off_state a \<longleftrightarrow> previous_state a \<noteq> None"
| "notified c e ble_turning_on_state a \<longleftrightarrow> cfg_ble c \<and> sal e bt_sal_le_enable = BT_STATUS_SUCCESS"
| "notified c e turning_on_state a \<longleftrightarrow> sal e bt_sal_enable = BT_STATUS_SUCCESS"
| "notified c e ble_turning_off_state a \<longleftrightarrow> cfg_ble c"
| "notified c e _ a \<longleftrightarrow> True"

abbreviation st_value :: "adapter_st \<Rightarrow> bt_adapter_state_t" where
  "st_value st \<equiv> state_value (adapter_info st)"

lemmas enter_defs =
  off_enter_def ble_turning_on_enter_def ble_on_enter_def turning_on_enter_def on_state_enter_def
  turning_off_enter_def ble_turning_off_enter_def

lemma core_cancel [simp]:
  "core (service_loop_cancel_timer t a) =
     (case core a of (c, p, q, r, s, d, ts, x) \<Rightarrow> (c, p, q, r, s, d, filter (\<lambda>h. Some h \<noteq> t) ts, x))"
  by (auto simp: service_loop_cancel_timer_def core_def reports_def split: option.split intro!: filter_cong)

lemma enter_core:
  shows enter_current: "current_state (adapter_enter_fn c e st a) = current_state a"
    and enter_previous: "previous_state (adapter_enter_fn c e st a) = previous_state a"
    and enter_reports: "reports (adapter_enter_fn c e st a) = reports a @ (if notified c e st a then [st_value st] else [])"
    and enter_state: "adapter_state (adapter_enter_fn c e st a) = (if notified c e st a then st_value st else adapter_state a)"
    and enter_safe: "turning_off_safe (adapter_enter_fn c e st a) \<longleftrightarrow> st \<noteq> off_state \<and> turning_off_safe a"
    and enter_ble_safe: "ble_turning_off_safe (adapter_enter_fn c e st a) \<longleftrightarrow> st \<noteq> off_state \<and> ble_turning_off_safe a"
  by (cases st; auto simp: enter_defs core_sel core_write hsm_get_state_value_def Let_def split: prod.split option.split)+

lemma exit_core [simp]: "core (adapter_exit_fn c st a) = core a"
  by (cases st) (simp_all add: turning_off_exit_def ble_turning_off_exit_def)

interpretation adapter_states: state_table "adapter_enter_fn c e" "adapter_exit_fn c" for c e
proof
  show "current_state (adapter_exit_fn c st sm) = current_state sm" for c st sm
    by (simp add: core_sel)
qed (simp_all add: enter_current enter_previous)

section \<open>The diagram the machine moves on\<close>

text \<open>The diagram of bt\_adapter.h is the first seven rules; the code also turns BLE off from \<open>BLE_ON\<close>, and
  goes around the BLE states in a build without BLE (\<open>le\<close> is false).\<close>

inductive diagram :: "bool \<Rightarrow> adapter_st \<Rightarrow> adapter_st \<Rightarrow> bool" where
  "diagram le off_state ble_turning_on_state"
| "diagram le ble_turning_on_state ble_on_state"
| "diagram le ble_on_state turning_on_state"
| "diagram le turning_on_state on_state"
| "diagram le on_state turning_off_state"
| "diagram le turning_off_state ble_turning_off_state"
| "diagram le ble_turning_off_state off_state"
| "diagram le ble_on_state ble_turning_off_state"
| "diagram False off_state turning_on_state"
| "diagram False turning_off_state off_state"

declare diagram.intros [intro!, simp]

inductive_simps diagram_simps: "diagram le s t"

text \<open>Which states report themselves when the machine moves to them.\<close>

fun announced :: "adapter_config \<Rightarrow> adapter_env \<Rightarrow> adapter_st \<Rightarrow> bool" where
  "announced c e ble_turning_on_state \<longleftrightarrow> cfg_ble c \<and> sal e bt_sal_le_enable = BT_STATUS_SUCCESS"
| "announced c e turning_on_state \<longleftrightarrow> sal e bt_sal_enable = BT_STATUS_SUCCESS"
| "announced c e ble_turning_off_state \<longleftrightarrow> cfg_ble c"
| "announced c e _ \<longleftrightarrow> True"

lemma goto_core:
  assumes "current_state a = Some s"
  shows goto_current: "current_state (goto c e st a) = Some st"
    and goto_previous: "previous_state (goto c e st a) = Some s"
    and goto_reports: "reports (goto c e st a) = reports a @ (if announced c e st then [st_value st] else [])"
    and goto_state: "adapter_state (goto c e st a) = (if announced c e st then st_value st else adapter_state a)"
    and goto_safe: "turning_off_safe (goto c e st a) \<longleftrightarrow> st \<noteq> off_state \<and> turning_off_safe a"
    and goto_ble_safe: "ble_turning_off_safe (goto c e st a) \<longleftrightarrow> st \<noteq> off_state \<and> ble_turning_off_safe a"
proof -
  let ?b = "(adapter_exit_fn c s a)\<lparr>previous_state := Some s, current_state := Some st\<rparr>"
  have g: "goto c e st a = adapter_enter_fn c e st ?b"
    using assms by (simp add: hsm_transition_to_def core_sel Let_def)
  have b: "reports ?b = reports (adapter_exit_fn c s a)" by (simp add: reports_def)
  have "notified c e st ?b = announced c e st" by (cases st) simp_all
  then show "current_state (goto c e st a) = Some st" "previous_state (goto c e st a) = Some s"
    "reports (goto c e st a) = reports a @ (if announced c e st then [st_value st] else [])"
    "adapter_state (goto c e st a) = (if announced c e st then st_value st else adapter_state a)"
    "turning_off_safe (goto c e st a) \<longleftrightarrow> st \<noteq> off_state \<and> turning_off_safe a"
    "ble_turning_off_safe (goto c e st a) \<longleftrightarrow> st \<noteq> off_state \<and> ble_turning_off_safe a"
    unfolding g enter_core b by (simp_all add: core_sel core_write split: prod.split)
qed

lemma core_start_timer [simp]:
  "core (start_safe_timer a) =
     (case core a of (c, p, q, r, s, d, ts, n, x) \<Rightarrow> (c, p, q, r, s, Some n, ts @ [n], Suc n, x))"
  by (simp add: start_safe_timer_def service_loop_timer_def core_def reports_def)

lemmas process_defs =
  off_process_event_def ble_turning_on_process_event_def ble_on_process_event_def turning_on_process_event_def
  on_state_process_event_def turning_off_process_event_def ble_turning_off_process_event_def

text \<open>What one event does to the machine: nothing the outside sees, or one move.\<close>

definition moved :: "adapter_config \<Rightarrow> adapter_env \<Rightarrow> adapter_st \<Rightarrow> adapter \<Rightarrow> adapter \<Rightarrow> bool" where
  "moved c e s a a' \<longleftrightarrow>
     (current_state a' = Some s \<and> previous_state a' = previous_state a \<and> adapter_state a' = adapter_state a \<and> reports a' = reports a) \<or>
     (\<exists>t. diagram (cfg_ble c) s t \<and> current_state a' = Some t \<and> previous_state a' = Some s \<and>
        adapter_state a' = (if announced c e t then st_value t else adapter_state a) \<and>
        reports a' = reports a @ (if announced c e t then [st_value t] else []))"

lemma moved_goto:
  assumes "current_state b = Some s" "adapter_state b = adapter_state a" "reports b = reports a" "diagram (cfg_ble c) s t"
  shows "moved c e s a (goto c e t b)"
  unfolding moved_def goto_core [OF assms(1)] using assms by auto

lemma moved_stay: "core b = core a \<Longrightarrow> current_state a = Some s \<Longrightarrow> moved c e s a b"
  by (simp add: moved_def core_sel)

lemma moved_timer:
  "current_state a = Some s \<Longrightarrow> core b = core (a\<lparr>turning_off_safe := x\<rparr>) \<or> core b = core (a\<lparr>ble_turning_off_safe := x\<rparr>) \<Longrightarrow>
    moved c e s a (start_safe_timer b)"
  by (auto simp: moved_def core_sel core_write split: prod.splits)

lemma dispatch_moved:
  assumes "current_state a = Some s"
  shows "moved c e s a (snd (adapter_dispatch c e ev a))"
  using assms unfolding adapter_dispatch_def hsm_dispatch_event_def
  by (cases s; cases ev)
    (auto simp: process_defs adapter_is_support_le_def adapter_is_support_bredr_def core_sel core_write Let_def
      intro!: moved_goto moved_timer intro: moved_stay split: prod.splits)

section \<open>Properties\<close>

lemma not_handled: "adapter_dispatch c e ev a = (False, a') \<Longrightarrow> a' = a"
  unfolding adapter_dispatch_def hsm_dispatch_event_def
  by (cases "current_state a"; simp; cases "the (current_state a)"; cases ev)
    (auto simp: process_defs Let_def split: if_splits)

text \<open>The two configurations and the environment of the examples.\<close>

definition demo_config :: adapter_config where
  "demo_config = \<lparr>cfg_bredr = True, cfg_ble = True, cfg_media = False, cfg_adv = True, cfg_scan = True, cfg_l2cap = False,
     cfg_cm = False, prop_a2dp = False, prop_hfp = False, prop_lea = False\<rparr>"

definition demo_env :: "bt_status_t \<Rightarrow> adapter_env" where
  "demo_env st = \<lparr>sal = (\<lambda>_. st), sal_address = [1, 2, 3, 4, 5, 6], sal_le_address = None, sal_device_type = 1, sal_acl_handle = 1,
     stored_properties = \<lparr>st_name = ''vela'', st_class_of_device = 0, st_io_capability = 0, st_scan_mode = 0,
       st_bondable = 0, st_irk = replicate 16 0\<rparr>, stored_bonded = [], stored_le_bonded = [], stored_whitelist = []\<rparr>"

abbreviation demo_start :: adapter where
  "demo_start \<equiv> adapter_init demo_config (demo_env BT_STATUS_SUCCESS)"

lemma adapter_init_core:
  "current_state (adapter_init c e) = Some off_state" "previous_state (adapter_init c e) = None"
  "reports (adapter_init c e) = []" "adapter_state (adapter_init c e) = BT_ADAPTER_STATE_OFF"
  "turning_off_safe (adapter_init c e) = False" "ble_turning_off_safe (adapter_init c e) = False"
  by (simp_all add: adapter_init_def adapter_state_machine_new_def hsm_ctor_def hsm_transition_to_def off_enter_def
      hsm_get_state_value_def zero_adapter_def reports_def)



text \<open>A state change is reported for every move: the reports are a path of the diagram.\<close>

definition on_path :: "adapter_config \<Rightarrow> adapter \<Rightarrow> bool" where
  "on_path c a \<longleftrightarrow> (\<exists>s. current_state a = Some s \<and> adapter_state a = st_value s \<and> last (BT_ADAPTER_STATE_OFF # reports a) = st_value s) \<and>
     successively (\<lambda>x y. \<exists>s t. x = st_value s \<and> y = st_value t \<and> diagram (cfg_ble c) s t) (BT_ADAPTER_STATE_OFF # reports a)"

lemma on_path_core: "core a = core b \<Longrightarrow> on_path c a = on_path c b"
  by (simp add: on_path_def core_sel)

lemma on_path_moved:
  assumes "on_path c a" "current_state a = Some s" "moved c e s a a'" "\<And>t. announced c e t"
  shows "on_path c a'"
  using assms unfolding on_path_def moved_def
  by (elim disjE exE conjE) (auto simp: successively_append_iff simp flip: append_Cons)

definition sal_starts :: "adapter_env \<times> adapter_input \<Rightarrow> bool" where
  "sal_starts ei \<longleftrightarrow> sal (fst ei) bt_sal_enable = BT_STATUS_SUCCESS \<and> sal (fst ei) bt_sal_le_enable = BT_STATUS_SUCCESS"

lemma on_path_step:
  assumes "cfg_ble c" "on_path c a" "sal_starts ei"
  shows "on_path c (adapter_step c a ei)"
proof -
  obtain e i where ei: "ei = (e, i)" by (cases ei)
  have ann: "announced c e t" for t using assms(1, 3) by (cases t) (simp_all add: sal_starts_def ei)
  have run: "on_path c (run_message c e a)"
  proof (cases "stm_queue a")
    case Nil
    then show ?thesis using assms(2) by (simp add: run_message_def)
  next
    case (Cons ev evs)
    have p: "on_path c (a\<lparr>stm_queue := evs\<rparr>)" using assms(2) on_path_core [of "a\<lparr>stm_queue := evs\<rparr>" a] by simp
    then obtain s where s: "current_state (a\<lparr>stm_queue := evs\<rparr>) = Some s" by (auto simp: on_path_def)
    show ?thesis using on_path_moved [OF p s dispatch_moved [OF s] ann] Cons by (simp add: run_message_def)
  qed
  have keep: "core b = core a \<Longrightarrow> on_path c b" for b using assms(2) on_path_core by blast
  have keep': "on_path c (a\<lparr>timers := ts\<rparr>)" for ts using assms(2) by (simp add: on_path_def reports_def)
  show ?thesis
    using assms(2) run keep' on_path_core [OF core_send]
    by (cases i) (auto simp: ei adapter_step_def adapter_enable_def adapter_disable_def adapter_on_adapter_state_changed_def
        adapter_on_profile_services_startup_def adapter_on_profile_services_shutdown_def turning_off_safe_timeout_callback_def
        intro!: keep split: stack_state.split)
qed

interpretation adapter_ev: event_machine "adapter_step c" "\<lambda>a. cfg_ble c \<and> on_path c a" sal_starts for c
  by unfold_locales (auto intro: on_path_step)



text \<open>The events that complete a safe disable from each state, with the answers of the profile services and
  the stack, and the timeouts instead of any disconnection.\<close>

fun shutdown_events :: "adapter_st \<Rightarrow> adapter_event list" where
  "shutdown_events off_state = []"
| "shutdown_events ble_turning_off_state = [BLE_PROFILE_DISABLED, BLE_DISABLED]"
| "shutdown_events turning_off_state =
     [BREDR_PROFILE_DISABLED, BREDR_DISABLED, SYS_TURN_OFF_SAFE_TIMEOUT, BLE_PROFILE_DISABLED, BLE_DISABLED]"
| "shutdown_events on_state =
     [SYS_TURN_OFF_SAFE, SYS_TURN_OFF_SAFE_TIMEOUT,
      BREDR_PROFILE_DISABLED, BREDR_DISABLED, SYS_TURN_OFF_SAFE_TIMEOUT, BLE_PROFILE_DISABLED, BLE_DISABLED]"
| "shutdown_events turning_on_state =
     [BREDR_PROFILE_ENABLED, SYS_TURN_OFF_SAFE, SYS_TURN_OFF_SAFE_TIMEOUT,
      BREDR_PROFILE_DISABLED, BREDR_DISABLED, SYS_TURN_OFF_SAFE_TIMEOUT, BLE_PROFILE_DISABLED, BLE_DISABLED]"
| "shutdown_events ble_on_state = [SYS_TURN_OFF_SAFE, SYS_TURN_OFF_SAFE_TIMEOUT, BLE_PROFILE_DISABLED, BLE_DISABLED]"
| "shutdown_events ble_turning_on_state =
     [BLE_PROFILE_ENABLED, SYS_TURN_OFF_SAFE, SYS_TURN_OFF_SAFE_TIMEOUT, BLE_PROFILE_DISABLED, BLE_DISABLED]"

definition dispatch_all :: "adapter_config \<Rightarrow> adapter_env \<Rightarrow> adapter_event list \<Rightarrow> adapter \<Rightarrow> adapter" where
  "dispatch_all c e evs a = foldl (\<lambda>a ev. snd (adapter_dispatch c e ev a)) a evs"

text \<open>Single steps of a shutdown, as rewrite rules.\<close>

lemma safe_sel:
  "current_state (start_safe_timer a) = current_state a"
  "turning_off_safe (start_safe_timer a) = turning_off_safe a"
  "ble_turning_off_safe (start_safe_timer a) = ble_turning_off_safe a"
  "current_state (adapter_disconnect_safe c e a) = current_state a"
  "turning_off_safe (adapter_disconnect_safe c e a) = turning_off_safe a"
  "current_state (adapter_le_disconnect_safe c e a) = current_state a"
  "ble_turning_off_safe (adapter_le_disconnect_safe c e a) = ble_turning_off_safe a"
  "current_state (emit x a) = current_state a"
  by (simp_all add: core_sel split: prod.split) (simp add: emit_def core_def)

lemma shutdown_idle:
  "ev = BLE_PROFILE_DISABLED \<or> ev = SYS_TURN_OFF_SAFE_TIMEOUT \<Longrightarrow> current_state a = Some ble_turning_off_state \<Longrightarrow>
     current_state (snd (adapter_dispatch c e ev a)) = Some ble_turning_off_state"
  "ev = BLE_PROFILE_DISABLED \<or> ev = SYS_TURN_OFF_SAFE_TIMEOUT \<or> ev = BLE_DISABLED \<Longrightarrow> current_state a = Some off_state \<Longrightarrow>
     current_state (snd (adapter_dispatch c e ev a)) = Some off_state"
  "current_state a = Some ble_turning_off_state \<Longrightarrow> current_state (snd (adapter_dispatch c e BLE_DISABLED a)) = Some off_state"
  unfolding adapter_dispatch_def hsm_dispatch_event_def
  by (auto simp: process_defs goto_current safe_sel)

lemma shutdown_moves:
  "current_state a = Some on_state \<Longrightarrow> current_state (snd (adapter_dispatch c e SYS_TURN_OFF_SAFE a)) = Some on_state"
  "current_state a = Some on_state \<Longrightarrow> turning_off_safe (snd (adapter_dispatch c e SYS_TURN_OFF_SAFE a))"
  "current_state a = Some on_state \<Longrightarrow> turning_off_safe a \<Longrightarrow>
     current_state (snd (adapter_dispatch c e SYS_TURN_OFF_SAFE_TIMEOUT a)) = Some turning_off_state"
  "current_state a = Some ble_on_state \<Longrightarrow> current_state (snd (adapter_dispatch c e SYS_TURN_OFF_SAFE a)) = Some ble_on_state"
  "current_state a = Some ble_on_state \<Longrightarrow> ble_turning_off_safe (snd (adapter_dispatch c e SYS_TURN_OFF_SAFE a))"
  "current_state a = Some ble_on_state \<Longrightarrow> ble_turning_off_safe a \<Longrightarrow>
     current_state (snd (adapter_dispatch c e SYS_TURN_OFF_SAFE_TIMEOUT a)) = Some ble_turning_off_state"
  "current_state a = Some turning_off_state \<Longrightarrow> ble_turning_off_safe a \<Longrightarrow>
     current_state (snd (adapter_dispatch c e SYS_TURN_OFF_SAFE_TIMEOUT a)) = Some ble_turning_off_state"
  "current_state a = Some turning_on_state \<Longrightarrow> current_state (snd (adapter_dispatch c e BREDR_PROFILE_ENABLED a)) = Some on_state"
  "current_state a = Some ble_turning_on_state \<Longrightarrow> current_state (snd (adapter_dispatch c e BLE_PROFILE_ENABLED a)) = Some ble_on_state"
  "current_state a = Some turning_off_state \<Longrightarrow> current_state (snd (adapter_dispatch c e BREDR_PROFILE_DISABLED a)) = Some turning_off_state"
  unfolding adapter_dispatch_def hsm_dispatch_event_def
  by (simp_all add: process_defs goto_current safe_sel)

lemmas shutdown_steps = shutdown_idle shutdown_moves

lemma turning_off_completes:
  assumes "current_state a = Some turning_off_state"
  shows "current_state (snd (adapter_dispatch c e BLE_DISABLED (snd (adapter_dispatch c e BLE_PROFILE_DISABLED
    (snd (adapter_dispatch c e SYS_TURN_OFF_SAFE_TIMEOUT (snd (adapter_dispatch c e BREDR_DISABLED a)))))))) = Some off_state"
proof -
  let ?b = "snd (adapter_dispatch c e BREDR_DISABLED a)"
  have "current_state ?b = Some off_state \<or> current_state ?b = Some ble_turning_off_state
    \<or> current_state ?b = Some turning_off_state \<and> ble_turning_off_safe ?b"
    using assms unfolding adapter_dispatch_def hsm_dispatch_event_def
    by (simp add: process_defs goto_current safe_sel)
  then consider "current_state ?b = Some off_state" | "current_state ?b = Some ble_turning_off_state"
    | "current_state ?b = Some turning_off_state" "ble_turning_off_safe ?b" by blast
  then show ?thesis
  proof cases
    case 3
    then show ?thesis by (simp add: shutdown_steps)
  qed (simp_all add: shutdown_steps)
qed



text \<open>While its profile services have not come up, the machine stays where it is in \<open>BLE_TURNING_ON\<close>.\<close>

lemma ble_turning_on_stays:
  assumes "current_state a = Some ble_turning_on_state" "BLE_PROFILE_ENABLED \<notin> set evs"
  shows "core (dispatch_all c e evs a) = core a"
  using assms
proof (induction evs arbitrary: a)
  case (Cons ev evs)
  let ?b = "snd (adapter_dispatch c e ev a)"
  have b: "core ?b = core a"
    using Cons.prems unfolding adapter_dispatch_def hsm_dispatch_event_def
    by (cases ev) (simp_all add: ble_turning_on_process_event_def)
  then have "current_state ?b = Some ble_turning_on_state" using coreD [OF b] Cons.prems(1) by simp
  with Cons.IH [of ?b] Cons.prems(2) b show ?case by (simp add: dispatch_all_def)
qed (simp add: dispatch_all_def)

text \<open>C25. When the LE stack refuses to start, the adapter keeps reporting \<open>OFF\<close> while its machine has left
  the off state: no event but the completion of services that were never started moves it again, so
  neither a disable nor a new enable has any effect.\<close>

theorem adapter_le_enable_failure:
  assumes "current_state a = Some off_state" "adapter_state a = BT_ADAPTER_STATE_OFF" "cfg_ble c"
    and "sal e bt_sal_le_enable \<noteq> BT_STATUS_SUCCESS" "ev = SYS_TURN_ON \<or> ev = TURN_ON_BLE"
    and "BLE_PROFILE_ENABLED \<notin> set evs"
  shows "current_state (dispatch_all c e (ev # evs) a) = Some ble_turning_on_state \<and>
    adapter_get_state (dispatch_all c e (ev # evs) a) = BT_ADAPTER_STATE_OFF \<and>
    reports (dispatch_all c e (ev # evs) a) = reports a"
proof -
  let ?b = "snd (adapter_dispatch c e ev a)"
  have k: "reports (b\<lparr>pending_turn_on := x\<rparr>) = reports b" for b x by (simp add: reports_def)
  have m: "current_state (adapter_notify_media_offloading a) = current_state a"
    "adapter_state (adapter_notify_media_offloading a) = adapter_state a"
    "reports (adapter_notify_media_offloading a) = reports a" by (simp_all add: core_sel)
  have "current_state ?b = Some ble_turning_on_state \<and> adapter_state ?b = BT_ADAPTER_STATE_OFF \<and> reports ?b = reports a"
    using assms(1-5) unfolding adapter_dispatch_def hsm_dispatch_event_def
    by (auto simp: off_process_event_def goto_core adapter_is_support_le_def Let_def k m)
  moreover from this have "core (dispatch_all c e evs ?b) = core ?b" using assms(6) by (simp add: ble_turning_on_stays)
  moreover have "dispatch_all c e (ev # evs) a = dispatch_all c e evs ?b" by (simp add: dispatch_all_def)
  ultimately show ?thesis by (metis coreD adapter_get_state_def)
qed

theorem adapter_le_enable_failure_witness:
  "adapter_get_state (dispatch_all demo_config (demo_env BT_STATUS_FAIL) [SYS_TURN_ON, SYS_TURN_OFF, SYS_TURN_ON] demo_start)
     = BT_ADAPTER_STATE_OFF"
  using adapter_le_enable_failure [where a = demo_start and c = demo_config and e = "demo_env BT_STATUS_FAIL"
      and ev = SYS_TURN_ON and evs = "[SYS_TURN_OFF, SYS_TURN_ON]"]
  by (simp add: adapter_init_core demo_config_def demo_env_def)


end
