(* ===== verification/Adapter_Remote.thy ===== *)
theory Adapter_Remote
  imports Adapter_State
begin

text \<open>
  The messages about remote devices of service/src/adapter_service.c: what the stack reports
  (\<open>adapter_on_...\<close>) is posted to the service loop as an event, and the loop runs the handler of
  the event on the lists of known devices. A handler that would read through a null pointer has no
  result (\<open>None\<close>). Allocating an event succeeds, and the diagnostics (\<open>bt_dfx_...\<close>) are left out.
\<close>

unbundle bit_operations_syntax

section \<open>Devices and their lists\<close>

text \<open>Writing back a device that a lookup returned: its address and transport never change.\<close>

definition put_device :: "adapter_config \<Rightarrow> bt_device \<Rightarrow> adapter \<Rightarrow> adapter" where
  "put_device c d a = update_device c (device_get_address d) (device_get_transport d) (\<lambda>_. d) a"

definition adapter_notify_bond_state :: "bt_device \<Rightarrow> bond_state_t \<times> bool \<Rightarrow> adapter \<Rightarrow> adapter" where
  "adapter_notify_bond_state d msg a =
     (case msg of (prev, is_ctkd) \<Rightarrow>
       let current = device_get_bond_state d
       in if prev = BOND_STATE_CANCELING
          then if current \<noteq> BOND_STATE_NONE then a
               else emit (BondStateChanged (device_get_address d) (device_get_transport d) BOND_STATE_BONDING current is_ctkd) a
          else emit (BondStateChanged (device_get_address d) (device_get_transport d) prev current is_ctkd) a)"

text \<open>\<open>device_set_bond_state (device, state, is_ctkd, adapter_notify_bond_state)\<close>.\<close>

definition set_bond_state :: "adapter_config \<Rightarrow> bond_state_t \<Rightarrow> bool \<Rightarrow> bt_device \<Rightarrow> adapter \<Rightarrow> bt_device \<times> adapter" where
  "set_bond_state c state is_ctkd d a =
     (case device_set_bond_state state is_ctkd True d of (msg, d') \<Rightarrow>
       let a = put_device c d' a
       in (d', case msg of None \<Rightarrow> a | Some m \<Rightarrow> adapter_notify_bond_state d' m a))"

definition adapter_campare_id_addr :: "bt_address_t \<Rightarrow> ble_addr_type_t \<Rightarrow> bt_address_t \<Rightarrow> bool" where
  "adapter_campare_id_addr addr addr_type id_addr \<longleftrightarrow>
     \<not> bt_addr_is_empty id_addr \<and> bt_addr_compare addr id_addr = 0 \<and>
     (addr_type = BT_LE_ADDR_TYPE_PUBLIC \<or> addr_type = BT_LE_ADDR_TYPE_RANDOM)"

definition adapter_find_le_device :: "bt_address_t \<Rightarrow> ble_addr_type_t \<Rightarrow> adapter \<Rightarrow> bt_device option" where
  "adapter_find_le_device addr addr_type a =
     find (\<lambda>d. if device_is_bonded d then adapter_campare_id_addr addr addr_type (device_get_identity_address d)
               else if \<not> device_is_bonded d then adapter_campare_id_addr addr addr_type (device_get_identity_address d)
               else bt_addr_compare addr (device_get_address d) = 0) (le_devices a)"

definition adapter_get_le_remote_address :: "bt_address_t \<Rightarrow> ble_addr_type_t \<Rightarrow> adapter \<Rightarrow> bt_address_t option" where
  "adapter_get_le_remote_address addr addr_type a = map_option device_get_address (adapter_find_le_device addr addr_type a)"

definition adapter_get_smp_data :: "adapter_config \<Rightarrow> bt_address_t \<Rightarrow> adapter \<Rightarrow> u8 list option" where
  "adapter_get_smp_data c addr a = map_option rd_smp_data (adapter_find_device c addr BT_TRANSPORT_BLE a)"

definition adapter_get_local_csrk :: "adapter_config \<Rightarrow> bt_address_t \<Rightarrow> adapter \<Rightarrow> u8 list option" where
  "adapter_get_local_csrk c addr a = map_option rd_local_csrk (adapter_find_device c addr BT_TRANSPORT_BLE a)"

definition adapter_get_local_irk :: "adapter \<Rightarrow> u8 list" where
  "adapter_get_local_irk a = ap_irk (properties a)"

definition adapter_get_le_remote_address_type :: "adapter_config \<Rightarrow> bt_address_t \<Rightarrow> adapter \<Rightarrow> ble_addr_type_t" where
  "adapter_get_le_remote_address_type c addr a =
     (case adapter_find_device c addr BT_TRANSPORT_BLE a of
        None \<Rightarrow> BT_LE_ADDR_TYPE_UNKNOWN | Some d \<Rightarrow> device_get_address_type d)"

definition adapter_get_link_key :: "adapter_config \<Rightarrow> bt_address_t \<Rightarrow> adapter \<Rightarrow> u8 list option" where
  "adapter_get_link_key c addr a = map_option rd_link_key (adapter_find_device c addr BT_TRANSPORT_BREDR a)"

definition adapter_get_link_key_type :: "adapter_config \<Rightarrow> bt_address_t \<Rightarrow> adapter \<Rightarrow> u8" where
  "adapter_get_link_key_type c addr a =
     (case adapter_find_device c addr BT_TRANSPORT_BREDR a of None \<Rightarrow> 0 | Some d \<Rightarrow> rd_link_key_type d)"

text \<open>The list of a transport, where the build has it.\<close>

definition transport_list :: "adapter_config \<Rightarrow> bt_transport_t \<Rightarrow> adapter \<Rightarrow> bt_device list option" where
  "transport_list c transport a =
     (if cfg_ble c \<and> transport = BT_TRANSPORT_BLE then Some (le_devices a)
      else if cfg_bredr c \<and> transport = BT_TRANSPORT_BREDR then Some (devices a) else None)"

definition device_has :: "u32 \<Rightarrow> bt_device \<Rightarrow> bool" where
  "device_has flag d \<longleftrightarrow>
     flag = DFLAG_BONDED \<and> device_is_bonded d \<or> flag = DFLAG_CONNECTED \<and> device_is_connected d \<or> device_check_flag flag d"

definition get_devices_cnt :: "adapter_config \<Rightarrow> u32 \<Rightarrow> bt_transport_t \<Rightarrow> adapter \<Rightarrow> nat" where
  "get_devices_cnt c flag transport a =
     (case transport_list c transport a of None \<Rightarrow> 0 | Some ds \<Rightarrow> length (filter (device_has flag) ds))"

section \<open>What is stored\<close>

definition adapter_update_bonded_device :: "adapter_config \<Rightarrow> adapter \<Rightarrow> adapter" where
  "adapter_update_bonded_device c a =
     (if get_devices_cnt c DFLAG_BONDED BT_TRANSPORT_BREDR a = 0 then emit (SaveBonded []) a
      else emit (SaveBonded (map device_get_property (filter device_is_bonded (devices a)))) a)"

definition adapter_update_le_bonded_device :: "adapter_config \<Rightarrow> adapter \<Rightarrow> adapter" where
  "adapter_update_le_bonded_device c a =
     (if get_devices_cnt c DFLAG_BONDED BT_TRANSPORT_BLE a = 0 then emit (SaveLeBonded []) a
      else emit (SaveLeBonded (map device_get_le_property (filter device_is_bonded (le_devices a)))) a)"

definition adapter_update_whitelist :: "adapter_config \<Rightarrow> adapter \<Rightarrow> adapter" where
  "adapter_update_whitelist c a =
     (if get_devices_cnt c DFLAG_WHITELIST_ADDED BT_TRANSPORT_BLE a = 0 then emit (SaveWhitelist []) a
      else emit (SaveWhitelist (map device_get_le_property (filter (device_check_flag DFLAG_WHITELIST_ADDED) (le_devices a)))) a)"

definition adapter_save_properties :: "adapter \<Rightarrow> adapter" where
  "adapter_save_properties a =
     (let p = properties a
      in emit (SaveProperties
           \<lparr>st_name = strlcpy (ap_name p) BT_LOC_NAME_MAX_LEN, st_class_of_device = ap_class_of_device p,
            st_io_capability = ap_io_capability p, st_scan_mode = ucast (ap_scan_mode p),
            st_bondable = (if ap_bondable p then 1 else 0), st_irk = take 16 (ap_irk p)\<rparr>) a)"

section \<open>Pairing and security\<close>

text \<open>Asking once for the name of a device that has none.\<close>

definition request_remote_name :: "adapter_config \<Rightarrow> bt_address_t \<Rightarrow> bt_device \<Rightarrow> adapter \<Rightarrow> bt_device \<times> adapter" where
  "request_remote_name c addr d a =
     (if \<not> device_check_flag (DFLAG_NAME_SET OR DFLAG_GET_RMT_NAME) d
      then let d = device_set_flags DFLAG_GET_RMT_NAME d
           in (d, put_device c d (emit (Sal (bt_sal_get_remote_name addr)) a))
      else (d, a))"

definition send_pair_display_notification ::
  "bt_address_t \<Rightarrow> bt_transport_t \<Rightarrow> bt_pair_type_t \<Rightarrow> u32 \<Rightarrow> adapter \<Rightarrow> adapter" where
  "send_pair_display_notification addr transport type passkey a = emit (PairDisplay addr transport type passkey) a"

text \<open>The second argument of \<open>bt_sal_pair_reply\<close> is whether the reason is 0, not \<open>HCI_ERR_PAIRING_NOT_ALLOWED\<close>.\<close>

definition process_pair_request_evt :: "adapter_config \<Rightarrow> bt_address_t \<Rightarrow> bool \<Rightarrow> bool \<Rightarrow> adapter \<Rightarrow> adapter" where
  "process_pair_request_evt c addr local_initiate is_bondable a =
     (if \<not> is_bondable then emit (Sal (bt_sal_pair_reply addr False)) a
      else case adapter_find_create_classic_device c addr a of (d, a) \<Rightarrow>
        emit (PairRequest addr) (put_device c (device_set_bond_initiate_local local_initiate d) a))"

definition process_pin_request_evt :: "adapter_config \<Rightarrow> bt_address_t \<Rightarrow> adapter \<Rightarrow> adapter" where
  "process_pin_request_evt c addr a =
     (case adapter_find_create_classic_device c addr a of (d, a) \<Rightarrow>
        if device_get_bond_state d = BOND_STATE_CANCELING then emit (Sal (bt_sal_pin_reply addr False '''')) a
        else case request_remote_name c addr d a of (d, a) \<Rightarrow>
          let a = (if device_get_bond_state d \<noteq> BOND_STATE_BONDING
                   then snd (set_bond_state c BOND_STATE_BONDING False d a) else a)
          in send_pair_display_notification addr BT_TRANSPORT_BREDR PAIR_TYPE_PIN_CODE 0 a)"

definition process_ssp_request_evt ::
  "adapter_config \<Rightarrow> bt_address_t \<Rightarrow> bt_transport_t \<Rightarrow> bt_pair_type_t \<Rightarrow> u32 \<Rightarrow> adapter \<Rightarrow> adapter option" where
  "process_ssp_request_evt c addr transport ssp_type pass_key a =
     (case adapter_find_device c addr transport a of
        None \<Rightarrow> None
      | Some d \<Rightarrow> Some (
          if device_get_bond_state d = BOND_STATE_CANCELING
          then if transport = BT_TRANSPORT_BREDR
               then (if cfg_bredr c then emit (Sal (bt_sal_ssp_reply addr False ssp_type 0)) a else a)
               else (if cfg_ble c then emit (Sal (bt_sal_le_smp_reply addr False ssp_type 0)) a else a)
          else case (if transport = BT_TRANSPORT_BREDR then request_remote_name c addr d a else (d, a)) of (d, a) \<Rightarrow>
            let a = (if device_get_bond_state d \<noteq> BOND_STATE_BONDING
                     then snd (set_bond_state c BOND_STATE_BONDING False d a) else a)
            in send_pair_display_notification addr transport ssp_type pass_key a))"

text \<open>\<open>sal_device_type\<close> is what \<open>bt_sal_get_remote_device_info\<close> gives; the build is without the zblue stack.\<close>

definition process_bond_state_change_evt ::
  "adapter_config \<Rightarrow> adapter_env \<Rightarrow> bt_address_t \<Rightarrow> bond_state_t \<Rightarrow> bt_transport_t \<Rightarrow> bool \<Rightarrow> adapter \<Rightarrow> adapter" where
  "process_bond_state_change_evt c e addr state transport is_ctkd a =
     (if transport = BT_TRANSPORT_BREDR
      then case adapter_find_create_classic_device c addr a of (d, a) \<Rightarrow>
        if state = BOND_STATE_BONDED
        then case set_bond_state c BOND_STATE_BONDED is_ctkd d a of (d, a) \<Rightarrow>
          let d = device_set_device_type (sal_device_type e) d;
              a = put_device c d a;
              a = adapter_update_bonded_device c a;
              a = (if device_is_connected d then emit (Sal (bt_sal_start_service_discovery addr)) a else a)
          in snd (set_bond_state c state is_ctkd d a)
        else snd (set_bond_state c state is_ctkd d a)
      else if cfg_ble c
      then case adapter_find_create_le_device c addr BT_LE_ADDR_TYPE_PUBLIC a of (d, a) \<Rightarrow>
        let d = (if state = BOND_STATE_BONDED then device_set_device_type 2 d
                 else if state = BOND_STATE_NONE then device_delete_smp_key d else d)
        in snd (set_bond_state c state is_ctkd d (put_device c d a))
      else a)"

definition process_service_search_done_evt :: "adapter_config \<Rightarrow> bt_address_t \<Rightarrow> bt_uuid_t list \<Rightarrow> adapter \<Rightarrow> adapter" where
  "process_service_search_done_evt c addr uuids a =
     (case adapter_find_create_classic_device c addr a of (d, a) \<Rightarrow>
        emit (RemoteUuidsChanged addr uuids)
          (adapter_update_bonded_device c (put_device c (snd (device_set_uuids uuids d)) a)))"

definition process_enc_state_change_evt ::
  "adapter_config \<Rightarrow> bt_address_t \<Rightarrow> bool \<Rightarrow> bt_transport_t \<Rightarrow> adapter \<Rightarrow> adapter option" where
  "process_enc_state_change_evt c addr encrypted transport a =
     (let set_state = (\<lambda>d a.
            if encrypted
            then if transport = BT_TRANSPORT_BREDR
                 then put_device c (device_set_connection_state CONNECTION_STATE_ENCRYPTED_BREDR d) a
                 else put_device c (device_set_connection_state CONNECTION_STATE_ENCRYPTED_LE d) a
            else put_device c (device_set_connection_state CONNECTION_STATE_CONNECTED d) a)
      in case transport of
           BT_TRANSPORT_BREDR \<Rightarrow> (case adapter_find_create_classic_device c addr a of (d, a) \<Rightarrow> Some (set_state d a))
         | BT_TRANSPORT_BLE \<Rightarrow> (case adapter_find_device c addr BT_TRANSPORT_BLE a of
                                 None \<Rightarrow> None | Some d \<Rightarrow> Some (set_state d a)))"

definition process_link_key_update_evt ::
  "adapter_config \<Rightarrow> bt_address_t \<Rightarrow> u8 list \<Rightarrow> u8 \<Rightarrow> bool \<Rightarrow> adapter \<Rightarrow> adapter" where
  "process_link_key_update_evt c addr link_key type is_ctkd a =
     (case adapter_find_create_classic_device c addr a of (d, a) \<Rightarrow>
      case (if \<not> is_ctkd then request_remote_name c addr d a else (d, a)) of (d, a) \<Rightarrow>
        adapter_update_bonded_device c (put_device c (device_set_link_key_type type (device_set_link_key link_key d)) a))"

definition process_link_key_removed_evt :: "adapter_config \<Rightarrow> bt_address_t \<Rightarrow> adapter \<Rightarrow> adapter" where
  "process_link_key_removed_evt c addr a =
     (case adapter_find_create_classic_device c addr a of (d, a) \<Rightarrow>
        let d = device_delete_link_key d;
            a = put_device c d a;
            a = (if device_get_bond_state d = BOND_STATE_BONDED
                 then snd (set_bond_state c BOND_STATE_NONE False d a) else a)
        in adapter_update_bonded_device c a)"

section \<open>Connections\<close>

definition process_connect_request_evt :: "adapter_config \<Rightarrow> bt_address_t \<Rightarrow> u32 \<Rightarrow> adapter \<Rightarrow> adapter" where
  "process_connect_request_evt c addr cod a =
     (case adapter_find_create_classic_device c addr a of (d, a) \<Rightarrow>
        let a = put_device c (snd (device_set_device_class cod d)) a
        in if max_acl_connections a \<le> get_devices_cnt c DFLAG_CONNECTED BT_TRANSPORT_BREDR a
           then emit (Sal (bt_sal_acl_connection_reply addr False)) a
           else emit (ConnectRequest addr) a)"

record acl_state_param =
  acl_addr :: bt_address_t
  acl_addr_type :: ble_addr_type_t
  acl_transport :: bt_transport_t
  acl_status :: bt_status_t
  acl_connection_state :: connection_state_t
  acl_hci_reason_code :: u8

definition process_connection_state_changed_evt ::
  "adapter_config \<Rightarrow> adapter_env \<Rightarrow> bt_address_t \<Rightarrow> acl_state_param \<Rightarrow> adapter \<Rightarrow> adapter" where
  "process_connection_state_changed_evt c e addr p a =
     (let transport = acl_transport p; state = acl_connection_state p;
          found = (if cfg_bredr c \<and> transport = BT_TRANSPORT_BREDR
                   then case adapter_find_create_classic_device c addr a of (d, a) \<Rightarrow>
                     Some (if device_get_bond_state d = BOND_STATE_BONDING then request_remote_name c addr d a else (d, a))
                   else if cfg_ble c \<and> transport = BT_TRANSPORT_BLE
                   then Some (adapter_find_create_le_device c addr (acl_addr_type p) a)
                   else None)
      in case found of
           None \<Rightarrow> a
         | Some (d, a) \<Rightarrow>
           let d = device_set_connection_state state d;
               d = (if state = CONNECTION_STATE_CONNECTED then device_set_acl_handle (sal_acl_handle e) d else d);
               a = put_device c d a;
               a = (if cfg_bredr c \<and> transport = BT_TRANSPORT_BREDR
                    then if state = CONNECTION_STATE_CONNECTED then emit (PmConnected addr) a
                         else if state = CONNECTION_STATE_DISCONNECTED then emit (PmDisconnected addr) a else a
                    else a);
               a = (if cfg_cm c \<and> state = CONNECTION_STATE_DISCONNECTED
                    then emit (CmDisconnect addr transport (device_get_rssi d) (acl_hci_reason_code p)) a else a);
               a = emit (ConnectionStateChanged addr transport state) a
           in if state = CONNECTION_STATE_DISCONNECTED
              then if cfg_bredr c \<and> transport = BT_TRANSPORT_BREDR
                   then if adapter_check_acl_all_disconnected (devices a)
                        then send_to_state_machine BREDR_ACL_ALL_DISCONNECTED a else a
                   else if cfg_ble c \<and> transport = BT_TRANSPORT_BLE
                   then if adapter_check_acl_all_disconnected (le_devices a)
                        then send_to_state_machine BLE_ACL_ALL_DISCONNECTED a else a
                   else a
              else a)"

section \<open>Discovery\<close>

definition process_discovery_state_changed_evt :: "bool \<Rightarrow> adapter \<Rightarrow> adapter" where
  "process_discovery_state_changed_evt started a = emit (DiscoveryStateChanged started) (a\<lparr>is_discovering := started\<rparr>)"

record bt_discovery_result =
  dr_addr :: bt_address_t
  dr_rssi :: int
  dr_cod :: u32
  dr_name :: string

definition process_device_found_evt :: "adapter_config \<Rightarrow> bt_discovery_result \<Rightarrow> adapter \<Rightarrow> adapter" where
  "process_device_found_evt c remote a =
     (if \<not> is_discovering a then a
      else case adapter_find_create_classic_device c (dr_addr remote) a of (d, a) \<Rightarrow>
        let d = snd (device_set_name (dr_name remote) d);
            d = snd (device_set_device_class (dr_cod remote) d);
            d = device_set_rssi (dr_rssi remote) d;
            d = device_set_device_type 1 d
        in emit (DiscoveryResult (dr_addr remote)) (put_device c d a))"

definition process_remote_name_recieved_evt :: "adapter_config \<Rightarrow> bt_address_t \<Rightarrow> string \<Rightarrow> adapter \<Rightarrow> adapter" where
  "process_remote_name_recieved_evt c addr name a =
     (case adapter_find_create_classic_device c addr a of (d, a) \<Rightarrow>
      case device_set_name name d of (notify, d) \<Rightarrow>
        let a = put_device c (device_clear_flag DFLAG_GET_RMT_NAME d) a
        in if notify then emit (RemoteNameChanged addr name) a else a)"

section \<open>Low energy\<close>

definition process_le_address_update_evt :: "bt_address_t \<Rightarrow> ble_addr_type_t \<Rightarrow> adapter \<Rightarrow> adapter" where
  "process_le_address_update_evt addr type a = a\<lparr>le_addr := addr, le_addr_type := type\<rparr>"

definition process_le_phy_update_evt ::
  "adapter_config \<Rightarrow> bt_address_t \<Rightarrow> u8 \<Rightarrow> u8 \<Rightarrow> bt_status_t \<Rightarrow> adapter \<Rightarrow> adapter" where
  "process_le_phy_update_evt c addr tx_phy rx_phy status a =
     (case adapter_find_device c addr BT_TRANSPORT_BLE a of
        None \<Rightarrow> a
      | Some d \<Rightarrow> if status \<noteq> BT_STATUS_SUCCESS then a else put_device c (device_set_le_phy tx_phy rx_phy d) a)"

definition process_le_whitelist_update_evt ::
  "adapter_config \<Rightarrow> bt_address_t \<Rightarrow> bool \<Rightarrow> bt_status_t \<Rightarrow> adapter \<Rightarrow> adapter option" where
  "process_le_whitelist_update_evt c addr is_add status a =
     (if status \<noteq> BT_STATUS_SUCCESS then Some a
      else case adapter_find_device c addr BT_TRANSPORT_BLE a of
        None \<Rightarrow> None
      | Some d \<Rightarrow>
        if is_add = device_check_flag DFLAG_WHITELIST_ADDED d then Some a
        else let d = (if is_add then device_set_flags DFLAG_WHITELIST_ADDED d else device_clear_flag DFLAG_WHITELIST_ADDED d)
             in Some (adapter_update_whitelist c (put_device c d a)))"

definition store_le_keys :: "remote_device_le_properties \<Rightarrow> bt_device \<Rightarrow> bt_device" where
  "store_le_keys prop d =
     (let d = (if device_check_flag DFLAG_LE_KEY_SET d then device_delete_smp_key d else d);
          d = device_set_address_type (lp_addr_type prop) d;
          d = device_set_smp_key (lp_smp_key prop) d;
          d = device_set_identity_address (Some (take 6 (lp_smp_key prop))) d
      in device_set_local_csrk (lp_local_csrk prop) d)"

text \<open>The loop counts \<open>i\<close> up on every turn, but moves \<open>prop\<close> on only when the device is known.\<close>

fun le_bonded_loop :: "adapter_config \<Rightarrow> nat \<Rightarrow> remote_device_le_properties list \<Rightarrow> adapter \<Rightarrow> adapter" where
  "le_bonded_loop c (Suc n) (prop # props) a =
     (case adapter_find_device c (lp_addr prop) BT_TRANSPORT_BLE a of
        None \<Rightarrow> le_bonded_loop c n (prop # props) a
      | Some d \<Rightarrow> le_bonded_loop c n props (put_device c (store_le_keys prop d) a))"
| "le_bonded_loop c _ _ a = a"

definition process_le_bonded_device_update_evt ::
  "adapter_config \<Rightarrow> remote_device_le_properties list \<Rightarrow> adapter \<Rightarrow> adapter" where
  "process_le_bonded_device_update_evt c props a =
     adapter_update_le_bonded_device c (le_bonded_loop c (length props) props a)"

definition process_le_sc_local_oob_data_got_evt ::
  "adapter_config \<Rightarrow> bt_address_t \<Rightarrow> u8 list \<Rightarrow> u8 list \<Rightarrow> adapter \<Rightarrow> adapter" where
  "process_le_sc_local_oob_data_got_evt c addr c_val r_val a =
     (case adapter_find_device c addr BT_TRANSPORT_BLE a of None \<Rightarrow> a | Some d \<Rightarrow> emit (LeScLocalOobData addr c_val r_val) a)"

section \<open>Links\<close>

definition COD_SERVICE_BITS :: "u32 \<Rightarrow> u32" where
  "COD_SERVICE_BITS cod = cod AND 0xFFE000"

definition COD_DEVICE_MAJOR_BITS :: "u32 \<Rightarrow> u32" where
  "COD_DEVICE_MAJOR_BITS cod = cod AND 0x001F00"

definition IS_HEADSET :: "u32 \<Rightarrow> bool" where
  "IS_HEADSET cod \<longleftrightarrow> COD_SERVICE_BITS cod AND 0x200000 \<noteq> 0 \<and> COD_DEVICE_MAJOR_BITS cod = 0x000400"

text \<open>\<open>policy &= ~BT_BR_LINK_POLICY_ENABLE_ROLE_SWITCH\<close>: the policies are the two bits role switch (1) and sniff (2).\<close>

fun without_role_switch :: "bt_link_policy_t \<Rightarrow> bt_link_policy_t" where
  "without_role_switch BT_BR_LINK_POLICY_DISABLE_ALL = BT_BR_LINK_POLICY_DISABLE_ALL"
| "without_role_switch BT_BR_LINK_POLICY_ENABLE_ROLE_SWITCH = BT_BR_LINK_POLICY_DISABLE_ALL"
| "without_role_switch BT_BR_LINK_POLICY_ENABLE_SNIFF = BT_BR_LINK_POLICY_ENABLE_SNIFF"
| "without_role_switch BT_BR_LINK_POLICY_ENABLE_ROLE_SWITCH_AND_SNIFF = BT_BR_LINK_POLICY_ENABLE_SNIFF"

definition process_link_role_changed_evt :: "adapter_config \<Rightarrow> bt_address_t \<Rightarrow> bt_link_role_t \<Rightarrow> adapter \<Rightarrow> adapter" where
  "process_link_role_changed_evt c addr role a =
     (case adapter_find_device c addr BT_TRANSPORT_BREDR a of
        None \<Rightarrow> a
      | Some d \<Rightarrow>
        let a = put_device c (device_set_local_role role d) a
        in if IS_HEADSET (rd_device_class d) \<and> role = BT_LINK_ROLE_MASTER
           then emit (Sal (bt_sal_set_link_policy addr (without_role_switch (rd_link_policy d)))) a else a)"

definition process_link_policy_changed_evt :: "adapter_config \<Rightarrow> bt_address_t \<Rightarrow> bt_link_policy_t \<Rightarrow> adapter \<Rightarrow> adapter" where
  "process_link_policy_changed_evt c addr policy a =
     (case adapter_find_device c addr BT_TRANSPORT_BREDR a of
        None \<Rightarrow> a | Some d \<Rightarrow> put_device c (device_set_link_policy policy d) a)"

definition process_rssi_update_evt :: "adapter_config \<Rightarrow> bt_address_t \<Rightarrow> int \<Rightarrow> bt_transport_t \<Rightarrow> adapter \<Rightarrow> adapter" where
  "process_rssi_update_evt c addr rssi transport a =
     (case adapter_find_device c addr transport a of None \<Rightarrow> a | Some d \<Rightarrow> put_device c (device_set_rssi rssi d) a)"

section \<open>Local properties\<close>

definition handle_scan_mode_changed :: "u8 \<Rightarrow> adapter \<Rightarrow> adapter" where
  "handle_scan_mode_changed scan_mode a = emit (ScanModeChanged scan_mode) (adapter_save_properties a)"

text \<open>The handler copies 16 bytes out of the buffer, whatever its size.\<close>

definition handle_irk_changed :: "u8 list \<Rightarrow> adapter \<Rightarrow> adapter option" where
  "handle_irk_changed irk a =
     (if length irk < 16 then None
      else Some (adapter_save_properties (a\<lparr>properties := (properties a)\<lparr>ap_irk := take 16 irk\<rparr>\<rparr>)))"

section \<open>Events and their dispatch\<close>

datatype adapter_evt =
    DISCOVER_STATE_CHANGE_EVT bool | DEVICE_FOUND_EVT bt_discovery_result | REMOTE_NAME_RECIEVED_EVT bt_address_t string
  | CONNECT_REQUEST_EVT bt_address_t u32 | CONNECTION_STATE_CHANGE_EVT bt_address_t acl_state_param
  | PAIR_REQUEST_EVT bt_address_t bool bool | PIN_REQUEST_EVT bt_address_t u32 bool
  | SSP_REQUEST_EVT bt_address_t bt_transport_t u32 bt_pair_type_t u32
  | BOND_STATE_CHANGE_EVT bt_address_t bond_state_t bt_transport_t bool bt_status_t
  | ENC_STATE_CHANGE_EVT bt_address_t bool bt_transport_t
  | LINK_KEY_UPDATE_EVT bt_address_t "u8 list" u8 bool | LINK_KEY_REMOVED_EVT bt_address_t bt_status_t
  | LINK_ROLE_CHANGED_EVT bt_address_t bt_link_role_t | LINK_MODE_CHANGED_EVT bt_address_t bt_link_mode_t u16
  | LINK_POLICY_CHANGED_EVT bt_address_t bt_link_policy_t | SDP_SEARCH_DONE_EVT bt_address_t "bt_uuid_t list"
  | LE_ADDR_UPDATE_EVT bt_address_t ble_addr_type_t | LE_PHY_UPDATE_EVT bt_address_t u8 u8 bt_status_t
  | LE_WHITELIST_UPDATE_EVT bt_address_t bool bt_status_t | LE_BONDED_DEVICE_UPDATE_EVT "remote_device_le_properties list"
  | LE_SC_LOCAL_OOB_DATA_GOT_EVT bt_address_t "u8 list" "u8 list" | RSSI_UPDATE_EVT bt_address_t int bt_transport_t

definition handle_security_event :: "adapter_config \<Rightarrow> adapter_env \<Rightarrow> adapter_evt \<Rightarrow> adapter \<Rightarrow> adapter option" where
  "handle_security_event c e evt a =
     (case evt of
        PAIR_REQUEST_EVT addr local_initiate is_bondable \<Rightarrow> Some (process_pair_request_evt c addr local_initiate is_bondable a)
      | PIN_REQUEST_EVT addr cod min_16_digit \<Rightarrow> Some (process_pin_request_evt c addr a)
      | SSP_REQUEST_EVT addr transport cod ssp_type pass_key \<Rightarrow> process_ssp_request_evt c addr transport ssp_type pass_key a
      | BOND_STATE_CHANGE_EVT addr state transport is_ctkd status \<Rightarrow>
          Some (process_bond_state_change_evt c e addr state transport is_ctkd a)
      | SDP_SEARCH_DONE_EVT addr uuids \<Rightarrow> Some (process_service_search_done_evt c addr uuids a)
      | ENC_STATE_CHANGE_EVT addr encrypted transport \<Rightarrow> process_enc_state_change_evt c addr encrypted transport a
      | LINK_KEY_UPDATE_EVT addr key type is_ctkd \<Rightarrow> Some (process_link_key_update_evt c addr key type is_ctkd a)
      | LINK_KEY_REMOVED_EVT addr status \<Rightarrow> Some (process_link_key_removed_evt c addr a)
      | _ \<Rightarrow> Some a)"

definition handle_connection_event :: "adapter_config \<Rightarrow> adapter_env \<Rightarrow> adapter_evt \<Rightarrow> adapter \<Rightarrow> adapter" where
  "handle_connection_event c e evt a =
     (case evt of
        CONNECT_REQUEST_EVT addr cod \<Rightarrow> process_connect_request_evt c addr cod a
      | CONNECTION_STATE_CHANGE_EVT addr acl_params \<Rightarrow> process_connection_state_changed_evt c e addr acl_params a
      | _ \<Rightarrow> a)"

definition handle_discovery_event :: "adapter_config \<Rightarrow> adapter_evt \<Rightarrow> adapter \<Rightarrow> adapter" where
  "handle_discovery_event c evt a =
     (case evt of
        DISCOVER_STATE_CHANGE_EVT state \<Rightarrow> process_discovery_state_changed_evt state a
      | DEVICE_FOUND_EVT result \<Rightarrow> process_device_found_evt c result a
      | REMOTE_NAME_RECIEVED_EVT addr name \<Rightarrow> process_remote_name_recieved_evt c addr name a
      | _ \<Rightarrow> a)"

definition handle_ble_event :: "adapter_config \<Rightarrow> adapter_evt \<Rightarrow> adapter \<Rightarrow> adapter option" where
  "handle_ble_event c evt a =
     (case evt of
        LE_ADDR_UPDATE_EVT local_addr type \<Rightarrow> Some (process_le_address_update_evt local_addr type a)
      | LE_PHY_UPDATE_EVT addr tx_phy rx_phy status \<Rightarrow> Some (process_le_phy_update_evt c addr tx_phy rx_phy status a)
      | LE_WHITELIST_UPDATE_EVT addr is_add status \<Rightarrow> process_le_whitelist_update_evt c addr is_add status a
      | LE_BONDED_DEVICE_UPDATE_EVT props \<Rightarrow> Some (process_le_bonded_device_update_evt c props a)
      | LE_SC_LOCAL_OOB_DATA_GOT_EVT addr c_val r_val \<Rightarrow> Some (process_le_sc_local_oob_data_got_evt c addr c_val r_val a)
      | _ \<Rightarrow> Some a)"

definition handle_link_event :: "adapter_config \<Rightarrow> adapter_evt \<Rightarrow> adapter \<Rightarrow> adapter" where
  "handle_link_event c evt a =
     (case evt of
        LINK_MODE_CHANGED_EVT addr mode sniff_interval \<Rightarrow> emit (PmLinkModeChanged addr mode sniff_interval) a
      | LINK_ROLE_CHANGED_EVT addr role \<Rightarrow> process_link_role_changed_evt c addr role a
      | LINK_POLICY_CHANGED_EVT addr policy \<Rightarrow> process_link_policy_changed_evt c addr policy a
      | RSSI_UPDATE_EVT addr rssi transport \<Rightarrow> process_rssi_update_evt c addr rssi transport a
      | _ \<Rightarrow> a)"

text \<open>A message of the service loop: the handler and its argument. The BLE handlers are compiled with BLE.\<close>

datatype loop_msg =
    SecurityMsg adapter_evt | ConnectionMsg adapter_evt | DiscoveryMsg adapter_evt | BleMsg adapter_evt | LinkMsg adapter_evt
  | ScanModeMsg u8 | IrkMsg "u8 list"

fun handle_message :: "adapter_config \<Rightarrow> adapter_env \<Rightarrow> loop_msg \<Rightarrow> adapter \<Rightarrow> adapter option" where
  "handle_message c e (SecurityMsg evt) a = handle_security_event c e evt a"
| "handle_message c e (ConnectionMsg evt) a = Some (handle_connection_event c e evt a)"
| "handle_message c e (DiscoveryMsg evt) a = Some (handle_discovery_event c evt a)"
| "handle_message c e (BleMsg evt) a = (if cfg_ble c then handle_ble_event c evt a else Some a)"
| "handle_message c e (LinkMsg evt) a = Some (handle_link_event c evt a)"
| "handle_message c e (ScanModeMsg scan_mode) a = Some (handle_scan_mode_changed scan_mode a)"
| "handle_message c e (IrkMsg irk) a = handle_irk_changed irk a"

section \<open>What the stack reports\<close>

definition adapter_on_scan_mode_changed :: "u8 \<Rightarrow> loop_msg" where
  "adapter_on_scan_mode_changed mode = ScanModeMsg mode"

definition adapter_on_irk_changed :: "u8 list \<Rightarrow> nat \<Rightarrow> loop_msg" where
  "adapter_on_irk_changed irk sz = IrkMsg (take sz irk)"

definition adapter_on_discovery_state_changed :: "bool \<Rightarrow> loop_msg" where
  "adapter_on_discovery_state_changed state = DiscoveryMsg (DISCOVER_STATE_CHANGE_EVT state)"

definition adapter_on_device_found :: "bt_discovery_result \<Rightarrow> loop_msg" where
  "adapter_on_device_found result = DiscoveryMsg (DEVICE_FOUND_EVT result)"

text \<open>\<open>strncpy\<close> of \<open>BT_REM_NAME_MAX_LEN\<close> bytes into an array one longer that is not initialised: a name that
  is not shorter leaves the string in the event without its end.\<close>

definition adapter_on_remote_name_recieved :: "bt_address_t \<Rightarrow> string option \<Rightarrow> loop_msg option" where
  "adapter_on_remote_name_recieved addr name =
     (case name of
        None \<Rightarrow> Some (DiscoveryMsg (REMOTE_NAME_RECIEVED_EVT addr ''''))
      | Some n \<Rightarrow> if BT_REM_NAME_MAX_LEN \<le> length n then None else Some (DiscoveryMsg (REMOTE_NAME_RECIEVED_EVT addr n)))"

definition adapter_on_connect_request :: "bt_address_t \<Rightarrow> u32 \<Rightarrow> loop_msg" where
  "adapter_on_connect_request addr cod = ConnectionMsg (CONNECT_REQUEST_EVT addr cod)"

definition adapter_on_connection_state_changed :: "acl_state_param \<Rightarrow> loop_msg" where
  "adapter_on_connection_state_changed param = ConnectionMsg (CONNECTION_STATE_CHANGE_EVT (acl_addr param) param)"

definition adapter_on_pairing_request :: "bt_address_t \<Rightarrow> bool \<Rightarrow> bool \<Rightarrow> loop_msg" where
  "adapter_on_pairing_request addr local_initiate is_bondable = SecurityMsg (PAIR_REQUEST_EVT addr local_initiate is_bondable)"

text \<open>The name in a pin or SSP request is copied into the event and never read.\<close>

definition adapter_on_pin_request :: "bt_address_t \<Rightarrow> u32 \<Rightarrow> bool \<Rightarrow> loop_msg" where
  "adapter_on_pin_request addr cod min_16_digit = SecurityMsg (PIN_REQUEST_EVT addr cod min_16_digit)"

definition adapter_on_ssp_request :: "bt_address_t \<Rightarrow> bt_transport_t \<Rightarrow> u32 \<Rightarrow> bt_pair_type_t \<Rightarrow> u32 \<Rightarrow> loop_msg" where
  "adapter_on_ssp_request addr transport cod ssp_type pass_key = SecurityMsg (SSP_REQUEST_EVT addr transport cod ssp_type pass_key)"

definition adapter_on_bond_state_changed ::
  "bt_address_t \<Rightarrow> bond_state_t \<Rightarrow> bt_transport_t \<Rightarrow> bt_status_t \<Rightarrow> bool \<Rightarrow> loop_msg" where
  "adapter_on_bond_state_changed addr state transport status is_ctkd =
     SecurityMsg (BOND_STATE_CHANGE_EVT addr state transport is_ctkd status)"

definition adapter_on_service_search_done :: "bt_address_t \<Rightarrow> bt_uuid_t list \<Rightarrow> loop_msg" where
  "adapter_on_service_search_done addr uuids = SecurityMsg (SDP_SEARCH_DONE_EVT addr uuids)"

definition adapter_on_encryption_state_changed :: "bt_address_t \<Rightarrow> bool \<Rightarrow> bt_transport_t \<Rightarrow> loop_msg" where
  "adapter_on_encryption_state_changed addr encrypted transport = SecurityMsg (ENC_STATE_CHANGE_EVT addr encrypted transport)"

definition adapter_on_link_key_update :: "bt_address_t \<Rightarrow> u8 list \<Rightarrow> u8 \<Rightarrow> bool \<Rightarrow> loop_msg" where
  "adapter_on_link_key_update addr link_key type is_ctkd = SecurityMsg (LINK_KEY_UPDATE_EVT addr (take 16 link_key) type is_ctkd)"

definition adapter_on_link_key_removed :: "bt_address_t \<Rightarrow> bt_status_t \<Rightarrow> loop_msg" where
  "adapter_on_link_key_removed addr status = SecurityMsg (LINK_KEY_REMOVED_EVT addr status)"

definition adapter_on_link_role_changed :: "bt_address_t \<Rightarrow> bt_link_role_t \<Rightarrow> loop_msg" where
  "adapter_on_link_role_changed addr role = LinkMsg (LINK_ROLE_CHANGED_EVT addr role)"

definition adapter_on_link_mode_changed :: "bt_address_t \<Rightarrow> bt_link_mode_t \<Rightarrow> u16 \<Rightarrow> loop_msg" where
  "adapter_on_link_mode_changed addr mode sniff_interval = LinkMsg (LINK_MODE_CHANGED_EVT addr mode sniff_interval)"

definition adapter_on_link_policy_changed :: "bt_address_t \<Rightarrow> bt_link_policy_t \<Rightarrow> loop_msg" where
  "adapter_on_link_policy_changed addr policy = LinkMsg (LINK_POLICY_CHANGED_EVT addr policy)"

definition adapter_on_rssi_read :: "bt_address_t \<Rightarrow> int \<Rightarrow> bt_transport_t \<Rightarrow> loop_msg" where
  "adapter_on_rssi_read addr rssi transport = LinkMsg (RSSI_UPDATE_EVT addr rssi transport)"

definition adapter_on_le_addr_update :: "bt_address_t \<Rightarrow> ble_addr_type_t \<Rightarrow> loop_msg" where
  "adapter_on_le_addr_update addr type = BleMsg (LE_ADDR_UPDATE_EVT addr type)"

definition adapter_on_le_phy_update :: "bt_address_t \<Rightarrow> u8 \<Rightarrow> u8 \<Rightarrow> bt_status_t \<Rightarrow> loop_msg" where
  "adapter_on_le_phy_update addr tx_phy rx_phy status = BleMsg (LE_PHY_UPDATE_EVT addr tx_phy rx_phy status)"

definition adapter_on_whitelist_update :: "bt_address_t \<Rightarrow> bool \<Rightarrow> bt_status_t \<Rightarrow> loop_msg" where
  "adapter_on_whitelist_update addr is_add status = BleMsg (LE_WHITELIST_UPDATE_EVT addr is_add status)"

definition adapter_on_le_bonded_device_update :: "remote_device_le_properties list \<Rightarrow> nat \<Rightarrow> loop_msg" where
  "adapter_on_le_bonded_device_update props bonded_devices_cnt = BleMsg (LE_BONDED_DEVICE_UPDATE_EVT (take bonded_devices_cnt props))"

definition adapter_on_le_local_oob_data_got :: "bt_address_t \<Rightarrow> u8 list \<Rightarrow> u8 list \<Rightarrow> loop_msg" where
  "adapter_on_le_local_oob_data_got addr c_val r_val =
     BleMsg (LE_SC_LOCAL_OOB_DATA_GOT_EVT addr (take 16 c_val) (take 16 r_val))"

end
