(* ===== verification/Adapter_Api.thy ===== *)
theory Adapter_Api
  imports Adapter_Remote
begin

text \<open>
  The requests of service/src/adapter_service.c: discovery, the local properties, what is known of
  remote devices, connecting, and bonding. A request runs under the adapter lock, so it is one step
  here; each gives its status (or value) and the adapter after it.
\<close>

section \<open>Discovery\<close>

text \<open>The loop fetches the next node before it removes one, so it visits every device.\<close>

fun remove_found :: "bt_device list \<Rightarrow> bt_device list \<times> bt_device list" where
  "remove_found [] = ([], [])"
| "remove_found (d # ds) =
     (case remove_found ds of (kept, removed) \<Rightarrow>
        if device_is_bonded d then (d # kept, removed)
        else if device_get_connection_state d \<noteq> CONNECTION_STATE_DISCONNECTED then (d # kept, removed)
        else (kept, d # removed))"

definition adapter_remove_found_devices :: "adapter \<Rightarrow> adapter" where
  "adapter_remove_found_devices a =
     (case remove_found (devices a) of (kept, removed) \<Rightarrow> adapter_delete_devices removed (a\<lparr>devices := kept\<rparr>))"

definition adapter_start_discovery :: "adapter_env \<Rightarrow> u32 \<Rightarrow> bool \<Rightarrow> adapter \<Rightarrow> bt_status_t \<times> adapter" where
  "adapter_start_discovery e timeout is_limited a =
     (if adapter_state a \<noteq> BT_ADAPTER_STATE_ON then (BT_STATUS_NOT_ENABLED, a)
      else if is_discovering a then (BT_STATUS_FAIL, a)
      else let a = adapter_remove_found_devices a;
               a = emit (Sal (bt_sal_start_discovery timeout is_limited)) a;
               status = sal e (bt_sal_start_discovery timeout is_limited)
           in if status \<noteq> BT_STATUS_SUCCESS then (status, a) else (status, a\<lparr>is_discovering := True\<rparr>))"

definition adapter_cancel_discovery :: "adapter_env \<Rightarrow> adapter \<Rightarrow> bt_status_t \<times> adapter" where
  "adapter_cancel_discovery e a =
     (if adapter_state a \<noteq> BT_ADAPTER_STATE_ON then (BT_STATUS_NOT_ENABLED, a)
      else if \<not> is_discovering a then (BT_STATUS_FAIL, a)
      else (sal e bt_sal_stop_discovery, (emit (Sal bt_sal_stop_discovery) a)\<lparr>is_discovering := False\<rparr>))"

definition adapter_is_discovering :: "adapter \<Rightarrow> bool" where
  "adapter_is_discovering a = is_discovering a"

section \<open>Local properties\<close>

definition adapter_get_address :: "adapter \<Rightarrow> bt_address_t" where
  "adapter_get_address a = ap_addr (properties a)"

definition adapter_set_name :: "adapter_env \<Rightarrow> string \<Rightarrow> adapter \<Rightarrow> bt_status_t \<times> adapter" where
  "adapter_set_name e name a =
     (if BT_LOC_NAME_MAX_LEN < length name then (BT_STATUS_PARM_INVALID, a)
      else if adapter_state a \<noteq> BT_ADAPTER_STATE_ON then (BT_STATUS_NOT_ENABLED, a)
      else if strncmp_eq (ap_name (properties a)) name BT_LOC_NAME_MAX_LEN then (BT_STATUS_SUCCESS, a)
      else let a = emit (Sal (bt_sal_set_name name)) a; status = sal e (bt_sal_set_name name)
           in if status \<noteq> BT_STATUS_SUCCESS then (status, a)
              else (status, emit (DeviceNameChanged name)
                     (adapter_save_properties (a\<lparr>properties := (properties a)\<lparr>ap_name := take BT_LOC_NAME_MAX_LEN name\<rparr>\<rparr>))))"

definition adapter_get_name :: "nat \<Rightarrow> adapter \<Rightarrow> string" where
  "adapter_get_name sz a = strlcpy (ap_name (properties a)) sz"

definition adapter_set_scan_mode :: "adapter_env \<Rightarrow> u8 \<Rightarrow> bool \<Rightarrow> adapter \<Rightarrow> bt_status_t \<times> adapter" where
  "adapter_set_scan_mode e mode bondable a =
     (if adapter_state a \<noteq> BT_ADAPTER_STATE_ON then (BT_STATUS_NOT_ENABLED, a)
      else if ap_scan_mode (properties a) = mode \<and> ap_bondable (properties a) = bondable then (BT_STATUS_SUCCESS, a)
      else let a = emit (Sal (bt_sal_set_scan_mode mode bondable)) a; status = sal e (bt_sal_set_scan_mode mode bondable)
           in if status \<noteq> BT_STATUS_SUCCESS then (status, a)
              else (status, a\<lparr>properties := (properties a)\<lparr>ap_scan_mode := mode, ap_bondable := bondable\<rparr>\<rparr>))"

definition adapter_get_scan_mode :: "adapter \<Rightarrow> u8" where
  "adapter_get_scan_mode a = ap_scan_mode (properties a)"

definition adapter_set_device_class :: "adapter_env \<Rightarrow> u32 \<Rightarrow> adapter \<Rightarrow> bt_status_t \<times> adapter" where
  "adapter_set_device_class e cod a =
     (if adapter_state a \<noteq> BT_ADAPTER_STATE_ON then (BT_STATUS_NOT_ENABLED, a)
      else if ap_class_of_device (properties a) = cod then (BT_STATUS_SUCCESS, a)
      else let a = emit (Sal (bt_sal_set_device_class cod)) a; status = sal e (bt_sal_set_device_class cod)
           in if status \<noteq> BT_STATUS_SUCCESS then (status, a)
              else (status, adapter_save_properties (a\<lparr>properties := (properties a)\<lparr>ap_class_of_device := cod\<rparr>\<rparr>)))"

definition adapter_get_device_class :: "adapter \<Rightarrow> u32" where
  "adapter_get_device_class a = ap_class_of_device (properties a)"

definition adapter_set_io_capability :: "adapter_env \<Rightarrow> u32 \<Rightarrow> adapter \<Rightarrow> bt_status_t \<times> adapter" where
  "adapter_set_io_capability e cap a =
     (if adapter_state a \<noteq> BT_ADAPTER_STATE_ON then (BT_STATUS_NOT_ENABLED, a)
      else if ap_io_capability (properties a) = cap then (BT_STATUS_SUCCESS, a)
      else let a = emit (Sal (bt_sal_set_io_capability cap)) a; status = sal e (bt_sal_set_io_capability cap)
           in if status \<noteq> BT_STATUS_SUCCESS then (status, a)
              else (status, adapter_save_properties (a\<lparr>properties := (properties a)\<lparr>ap_io_capability := cap\<rparr>\<rparr>)))"

definition adapter_get_io_capability :: "adapter \<Rightarrow> u32" where
  "adapter_get_io_capability a = ap_io_capability (properties a)"

definition adapter_get_le_address :: "adapter_config \<Rightarrow> adapter \<Rightarrow> bt_status_t \<times> (bt_address_t \<times> ble_addr_type_t) option" where
  "adapter_get_le_address c a =
     (if cfg_ble c then (BT_STATUS_SUCCESS, Some (le_addr a, le_addr_type a)) else (BT_STATUS_NOT_SUPPORTED, None))"

section \<open>What is known of remote devices\<close>

text \<open>\<open>alloc\<close> says whether the allocator of the caller delivers; the result is the status, the size
  of the array that is reported, and the addresses that are written into it.\<close>

definition adapter_get_devices ::
  "adapter_config \<Rightarrow> bool \<Rightarrow> u32 \<Rightarrow> bt_transport_t \<Rightarrow> adapter \<Rightarrow> bt_status_t \<times> nat \<times> bt_address_t list" where
  "adapter_get_devices c alloc flag transport a =
     (case transport_list c transport a of
        None \<Rightarrow> (BT_STATUS_PARM_INVALID, 0, [])
      | Some ds \<Rightarrow>
        if get_devices_cnt c flag transport a = 0 then (BT_STATUS_SUCCESS, 0, [])
        else if \<not> alloc then (BT_STATUS_NOMEM, 0, [])
        else (BT_STATUS_SUCCESS, get_devices_cnt c flag transport a,
              map device_get_address (filter (\<lambda>d. flag = DFLAG_BONDED \<and> device_is_bonded d \<or>
                                                  flag = DFLAG_CONNECTED \<and> device_is_connected d) ds)))"

definition adapter_get_bonded_devices ::
  "adapter_config \<Rightarrow> bool \<Rightarrow> bt_transport_t \<Rightarrow> adapter \<Rightarrow> bt_status_t \<times> nat \<times> bt_address_t list" where
  "adapter_get_bonded_devices c alloc transport a = adapter_get_devices c alloc DFLAG_BONDED transport a"

definition adapter_get_connected_devices ::
  "adapter_config \<Rightarrow> bool \<Rightarrow> bt_transport_t \<Rightarrow> adapter \<Rightarrow> bt_status_t \<times> nat \<times> bt_address_t list" where
  "adapter_get_connected_devices c alloc transport a = adapter_get_devices c alloc DFLAG_CONNECTED transport a"

definition adapter_get_remote_identity_address ::
  "adapter_config \<Rightarrow> bt_address_t \<Rightarrow> adapter \<Rightarrow> bt_status_t \<times> bt_address_t option" where
  "adapter_get_remote_identity_address c bd_addr a =
     (case adapter_find_device c bd_addr BT_TRANSPORT_BLE a of
        None \<Rightarrow> (BT_STATUS_DEVICE_NOT_FOUND, None)
      | Some d \<Rightarrow> if bt_addr_is_empty (device_get_identity_address d) then (BT_STATUS_NOT_FOUND, None)
                  else (BT_STATUS_SUCCESS, Some (device_get_identity_address d)))"

definition adapter_get_remote_device_type :: "adapter_config \<Rightarrow> bt_address_t \<Rightarrow> adapter \<Rightarrow> u8" where
  "adapter_get_remote_device_type c addr a =
     (let t = (case adapter_find_device c addr BT_TRANSPORT_BREDR a of None \<Rightarrow> 0 | Some d \<Rightarrow> or (or 0 (rd_device_type d)) 1)
      in case adapter_find_device c addr BT_TRANSPORT_BLE a of None \<Rightarrow> t | Some d \<Rightarrow> or (or t (rd_device_type d)) 2)"

definition adapter_get_remote_name :: "adapter_config \<Rightarrow> bt_address_t \<Rightarrow> adapter \<Rightarrow> string option" where
  "adapter_get_remote_name c addr a =
     map_option (\<lambda>d. take BT_REM_NAME_MAX_LEN (rd_name d)) (adapter_find_device c addr BT_TRANSPORT_BREDR a)"

definition adapter_get_remote_device_class :: "adapter_config \<Rightarrow> bt_address_t \<Rightarrow> adapter \<Rightarrow> u32" where
  "adapter_get_remote_device_class c addr a =
     (case adapter_find_device c addr BT_TRANSPORT_BREDR a of None \<Rightarrow> 0 | Some d \<Rightarrow> rd_device_class d)"

definition adapter_get_remote_uuids :: "adapter_config \<Rightarrow> bool \<Rightarrow> bt_address_t \<Rightarrow> adapter \<Rightarrow> bt_status_t \<times> bt_uuid_t list" where
  "adapter_get_remote_uuids c alloc addr a =
     (case adapter_find_device c addr BT_TRANSPORT_BREDR a of
        None \<Rightarrow> (BT_STATUS_DEVICE_NOT_FOUND, [])
      | Some d \<Rightarrow> if device_get_uuids_size d = 0 then (BT_STATUS_SUCCESS, [])
                  else if \<not> alloc then (BT_STATUS_NOMEM, [])
                  else (BT_STATUS_SUCCESS, device_get_uuids d (device_get_uuids_size d)))"

definition adapter_get_remote_rssi :: "adapter_config \<Rightarrow> bt_address_t \<Rightarrow> adapter \<Rightarrow> int" where
  "adapter_get_remote_rssi c addr a =
     (case adapter_find_device c addr BT_TRANSPORT_BREDR a of None \<Rightarrow> 0 | Some d \<Rightarrow> device_get_rssi d)"

definition adapter_get_remote_alias :: "adapter_config \<Rightarrow> bt_address_t \<Rightarrow> adapter \<Rightarrow> string option" where
  "adapter_get_remote_alias c addr a =
     map_option (\<lambda>d. take BT_REM_NAME_MAX_LEN (rd_alias d)) (adapter_find_device c addr BT_TRANSPORT_BREDR a)"

definition adapter_set_remote_alias :: "adapter_config \<Rightarrow> bt_address_t \<Rightarrow> string \<Rightarrow> adapter \<Rightarrow> bt_status_t \<times> adapter" where
  "adapter_set_remote_alias c addr alias a =
     (case adapter_find_device c addr BT_TRANSPORT_BREDR a of
        None \<Rightarrow> (BT_STATUS_DEVICE_NOT_FOUND, a)
      | Some d \<Rightarrow> (BT_STATUS_SUCCESS, emit (RemoteAliasChanged addr alias) (put_device c (snd (device_set_alias alias d)) a)))"

definition adapter_is_remote_connected :: "adapter_config \<Rightarrow> bt_address_t \<Rightarrow> bt_transport_t \<Rightarrow> adapter \<Rightarrow> bool" where
  "adapter_is_remote_connected c addr transport a =
     (case adapter_find_device c addr transport a of None \<Rightarrow> False | Some d \<Rightarrow> device_is_connected d)"

definition adapter_is_remote_encrypted :: "adapter_config \<Rightarrow> bt_address_t \<Rightarrow> bt_transport_t \<Rightarrow> adapter \<Rightarrow> bool" where
  "adapter_is_remote_encrypted c addr transport a =
     (case adapter_find_device c addr transport a of None \<Rightarrow> False | Some d \<Rightarrow> device_is_encrypted d)"

definition adapter_is_bond_initiate_local :: "adapter_config \<Rightarrow> bt_address_t \<Rightarrow> bt_transport_t \<Rightarrow> adapter \<Rightarrow> bool" where
  "adapter_is_bond_initiate_local c addr transport a =
     (case adapter_find_device c addr transport a of None \<Rightarrow> False | Some d \<Rightarrow> device_is_bond_initiate_local d)"

definition adapter_get_remote_bond_state :: "adapter_config \<Rightarrow> bt_address_t \<Rightarrow> bt_transport_t \<Rightarrow> adapter \<Rightarrow> bond_state_t" where
  "adapter_get_remote_bond_state c addr transport a =
     (case adapter_find_device c addr transport a of None \<Rightarrow> BOND_STATE_NONE | Some d \<Rightarrow> device_get_bond_state d)"

definition adapter_is_remote_bonded :: "adapter_config \<Rightarrow> bt_address_t \<Rightarrow> bt_transport_t \<Rightarrow> adapter \<Rightarrow> bool" where
  "adapter_is_remote_bonded c addr transport a =
     (case adapter_find_device c addr transport a of None \<Rightarrow> False | Some d \<Rightarrow> device_is_bonded d)"

section \<open>Connecting\<close>

definition adapter_connect :: "adapter_config \<Rightarrow> adapter_env \<Rightarrow> bt_address_t \<Rightarrow> adapter \<Rightarrow> bt_status_t \<times> adapter" where
  "adapter_connect c e addr a =
     (case adapter_find_create_classic_device c addr a of (d, a) \<Rightarrow>
        let a = emit (Sal (bt_sal_connect addr)) a
        in if sal e (bt_sal_connect addr) \<noteq> BT_STATUS_SUCCESS then (BT_STATUS_FAIL, a)
           else (BT_STATUS_SUCCESS, put_device c (device_set_connection_state CONNECTION_STATE_CONNECTING d) a))"

definition adapter_le_connect ::
  "adapter_config \<Rightarrow> adapter_env \<Rightarrow> bt_address_t \<Rightarrow> ble_addr_type_t \<Rightarrow> adapter \<Rightarrow> bt_status_t \<times> adapter" where
  "adapter_le_connect c e addr type a =
     (if \<not> cfg_ble c then (BT_STATUS_NOT_SUPPORTED, a)
      else case adapter_find_create_le_device c addr type a of (d, a) \<Rightarrow>
        let a = emit (Sal (bt_sal_le_connect addr type)) a
        in if sal e (bt_sal_le_connect addr type) \<noteq> BT_STATUS_SUCCESS then (BT_STATUS_FAIL, a)
           else (BT_STATUS_SUCCESS, put_device c (device_set_connection_state CONNECTION_STATE_CONNECTING d) a))"

definition adapter_connect_request_reply ::
  "adapter_config \<Rightarrow> adapter_env \<Rightarrow> bt_address_t \<Rightarrow> bool \<Rightarrow> adapter \<Rightarrow> bt_status_t \<times> adapter" where
  "adapter_connect_request_reply c e addr accept a =
     (case adapter_find_device c addr BT_TRANSPORT_BREDR a of
        None \<Rightarrow> (BT_STATUS_DEVICE_NOT_FOUND, a)
      | Some d \<Rightarrow>
        let a = emit (Sal (bt_sal_acl_connection_reply addr accept)) a; status = sal e (bt_sal_acl_connection_reply addr accept)
        in (status, if status = BT_STATUS_SUCCESS \<and> accept
                    then put_device c (device_set_connection_state CONNECTION_STATE_CONNECTING d) a else a))"

definition adapter_le_set_phy ::
  "adapter_config \<Rightarrow> adapter_env \<Rightarrow> bt_address_t \<Rightarrow> u8 \<Rightarrow> u8 \<Rightarrow> adapter \<Rightarrow> bt_status_t \<times> adapter" where
  "adapter_le_set_phy c e addr tx_phy rx_phy a =
     (if \<not> cfg_ble c then (BT_STATUS_NOT_SUPPORTED, a)
      else case adapter_find_device c addr BT_TRANSPORT_BLE a of
        None \<Rightarrow> (BT_STATUS_DEVICE_NOT_FOUND, a)
      | Some d \<Rightarrow> (sal e (bt_sal_le_set_phy addr tx_phy rx_phy), emit (Sal (bt_sal_le_set_phy addr tx_phy rx_phy)) a))"

definition adapter_read_remote_rssi ::
  "adapter_env \<Rightarrow> bt_address_t \<Rightarrow> bt_transport_t \<Rightarrow> adapter \<Rightarrow> bt_status_t \<times> adapter" where
  "adapter_read_remote_rssi e addr transport a =
     (sal e (bt_sal_read_rssi addr transport), emit (Sal (bt_sal_read_rssi addr transport)) a)"

definition adapter_switch_role ::
  "adapter_config \<Rightarrow> adapter_env \<Rightarrow> bt_address_t \<Rightarrow> bt_link_role_t \<Rightarrow> adapter \<Rightarrow> bt_status_t \<times> adapter" where
  "adapter_switch_role c e addr role a =
     (if role \<noteq> BT_LINK_ROLE_MASTER \<and> role \<noteq> BT_LINK_ROLE_SLAVE then (BT_STATUS_PARM_INVALID, a)
      else case adapter_find_device c addr BT_TRANSPORT_BREDR a of
        None \<Rightarrow> (BT_STATUS_DEVICE_NOT_FOUND, a)
      | Some d \<Rightarrow> if device_get_local_role d \<noteq> role
                  then (sal e (bt_sal_set_link_role addr role), emit (Sal (bt_sal_set_link_role addr role)) a)
                  else (BT_STATUS_SUCCESS, a))"

definition adapter_le_add_whitelist :: "adapter_config \<Rightarrow> adapter_env \<Rightarrow> bt_address_t \<Rightarrow> adapter \<Rightarrow> bt_status_t \<times> adapter" where
  "adapter_le_add_whitelist c e addr a =
     (if \<not> cfg_ble c then (BT_STATUS_NOT_SUPPORTED, a)
      else if adapter_state a \<noteq> BT_ADAPTER_STATE_ON then (BT_STATUS_NOT_ENABLED, a)
      else case adapter_find_create_le_device c addr BT_LE_ADDR_TYPE_PUBLIC a of (d, a) \<Rightarrow>
        if device_check_flag DFLAG_WHITELIST_ADDED d then (BT_STATUS_SUCCESS, a)
        else let call = bt_sal_le_add_white_list addr (device_get_address_type d) in (sal e call, emit (Sal call) a))"

definition adapter_le_remove_whitelist :: "adapter_config \<Rightarrow> adapter_env \<Rightarrow> bt_address_t \<Rightarrow> adapter \<Rightarrow> bt_status_t \<times> adapter" where
  "adapter_le_remove_whitelist c e addr a =
     (if \<not> cfg_ble c then (BT_STATUS_NOT_SUPPORTED, a)
      else if adapter_state a \<noteq> BT_ADAPTER_STATE_ON then (BT_STATUS_NOT_ENABLED, a)
      else case adapter_find_device c addr BT_TRANSPORT_BLE a of
        None \<Rightarrow> (BT_STATUS_DEVICE_NOT_FOUND, a)
      | Some d \<Rightarrow>
        if \<not> device_check_flag DFLAG_WHITELIST_ADDED d then (BT_STATUS_SUCCESS, a)
        else let call = bt_sal_le_remove_white_list addr (device_get_address_type d) in (sal e call, emit (Sal call) a))"

section \<open>Bonding\<close>

definition adapter_create_bond ::
  "adapter_config \<Rightarrow> adapter_env \<Rightarrow> bt_address_t \<Rightarrow> bt_transport_t \<Rightarrow> adapter \<Rightarrow> bt_status_t \<times> adapter" where
  "adapter_create_bond c e addr transport a =
     (if adapter_state a \<noteq> BT_ADAPTER_STATE_ON then (BT_STATUS_NOT_ENABLED, a)
      else let a = (if is_discovering a then emit (Sal bt_sal_stop_discovery) a else a)
           in if cfg_bredr c \<and> transport = BT_TRANSPORT_BREDR
              then case adapter_find_create_classic_device c addr a of (d, a) \<Rightarrow>
                if device_get_bond_state d \<noteq> BOND_STATE_NONE then (BT_STATUS_FAIL, a)
                else let call = bt_sal_create_bond addr (device_get_address_type d) in (sal e call, emit (Sal call) a)
              else if cfg_ble c \<and> transport = BT_TRANSPORT_BLE
              then case adapter_find_device c addr BT_TRANSPORT_BLE a of
                None \<Rightarrow> (BT_STATUS_DEVICE_NOT_FOUND, a)
              | Some d \<Rightarrow>
                if device_get_bond_state d \<noteq> BOND_STATE_NONE then (BT_STATUS_FAIL, a)
                else let call = bt_sal_le_create_bond addr (device_get_address_type d) in (sal e call, emit (Sal call) a)
              else (BT_STATUS_PARM_INVALID, a))"

definition adapter_remove_bond :: "adapter_config \<Rightarrow> bt_address_t \<Rightarrow> bt_transport_t \<Rightarrow> adapter \<Rightarrow> bt_status_t \<times> adapter" where
  "adapter_remove_bond c addr transport a =
     (case adapter_find_device c addr transport a of
        None \<Rightarrow> (BT_STATUS_FAIL, a)
      | Some d \<Rightarrow>
        if device_get_bond_state d \<noteq> BOND_STATE_BONDED then (BT_STATUS_FAIL, a)
        else case set_bond_state c BOND_STATE_NONE False d a of (d, a) \<Rightarrow>
          (BT_STATUS_SUCCESS,
           if cfg_bredr c \<and> transport = BT_TRANSPORT_BREDR
           then adapter_update_bonded_device c (emit (Sal (bt_sal_remove_bond addr)) (put_device c (device_delete_link_key d) a))
           else if cfg_ble c \<and> transport = BT_TRANSPORT_BLE then emit (Sal (bt_sal_le_remove_bond addr)) a else a))"

definition adapter_cancel_bond :: "adapter_config \<Rightarrow> adapter_env \<Rightarrow> bt_address_t \<Rightarrow> adapter \<Rightarrow> bt_status_t \<times> adapter" where
  "adapter_cancel_bond c e addr a =
     (case adapter_find_device c addr BT_TRANSPORT_BREDR a of
        None \<Rightarrow> (BT_STATUS_FAIL, a)
      | Some d \<Rightarrow>
        if device_get_bond_state d \<noteq> BOND_STATE_BONDING then (BT_STATUS_FAIL, a)
        else let a = emit (Sal (bt_sal_cancel_bond addr)) a; status = sal e (bt_sal_cancel_bond addr)
             in (status, if status = BT_STATUS_SUCCESS
                         then put_device c (snd (device_set_bond_state BOND_STATE_CANCELING False False d)) a else a))"

definition adapter_pair_request_reply ::
  "adapter_config \<Rightarrow> adapter_env \<Rightarrow> bt_address_t \<Rightarrow> bool \<Rightarrow> adapter \<Rightarrow> bt_status_t \<times> adapter" where
  "adapter_pair_request_reply c e addr accept a =
     (case adapter_find_device c addr BT_TRANSPORT_BREDR a of
        None \<Rightarrow> (BT_STATUS_DEVICE_NOT_FOUND, a)
      | Some d \<Rightarrow>
        let a = emit (Sal (bt_sal_pair_reply addr accept)) a; status = sal e (bt_sal_pair_reply addr accept)
        in (status, if status = BT_STATUS_SUCCESS \<and> accept then snd (set_bond_state c BOND_STATE_BONDING False d a) else a))"

text \<open>The replies to a pairing request in progress: refused unless the device is bonding.\<close>

definition pairing_reply ::
  "adapter_config \<Rightarrow> adapter_env \<Rightarrow> bt_address_t \<Rightarrow> bt_transport_t \<Rightarrow> sal_call \<Rightarrow> adapter \<Rightarrow> bt_status_t \<times> adapter" where
  "pairing_reply c e addr transport call a =
     (case adapter_find_device c addr transport a of
        None \<Rightarrow> (BT_STATUS_FAIL, a)
      | Some d \<Rightarrow> if device_get_bond_state d \<noteq> BOND_STATE_BONDING then (BT_STATUS_FAIL, a)
                  else (sal e call, emit (Sal call) a))"

definition adapter_set_pin_code ::
  "adapter_config \<Rightarrow> adapter_env \<Rightarrow> bt_address_t \<Rightarrow> bool \<Rightarrow> string \<Rightarrow> adapter \<Rightarrow> bt_status_t \<times> adapter" where
  "adapter_set_pin_code c e addr accept pincode a =
     pairing_reply c e addr BT_TRANSPORT_BREDR (bt_sal_pin_reply addr accept pincode) a"

definition adapter_set_pairing_confirmation ::
  "adapter_config \<Rightarrow> adapter_env \<Rightarrow> bt_address_t \<Rightarrow> bt_transport_t \<Rightarrow> bool \<Rightarrow> adapter \<Rightarrow> bt_status_t \<times> adapter" where
  "adapter_set_pairing_confirmation c e addr transport accept a =
     pairing_reply c e addr transport
       (case transport of
          BT_TRANSPORT_BREDR \<Rightarrow> bt_sal_ssp_reply addr accept PAIR_TYPE_PASSKEY_CONFIRMATION 0
        | BT_TRANSPORT_BLE \<Rightarrow> bt_sal_le_smp_reply addr accept PAIR_TYPE_PASSKEY_CONFIRMATION 0) a"

definition adapter_set_pass_key ::
  "adapter_config \<Rightarrow> adapter_env \<Rightarrow> bt_address_t \<Rightarrow> bt_transport_t \<Rightarrow> bool \<Rightarrow> u32 \<Rightarrow> adapter \<Rightarrow> bt_status_t \<times> adapter" where
  "adapter_set_pass_key c e addr transport accept passkey a =
     pairing_reply c e addr transport
       (case transport of
          BT_TRANSPORT_BREDR \<Rightarrow> bt_sal_ssp_reply addr accept PAIR_TYPE_PASSKEY_ENTRY passkey
        | BT_TRANSPORT_BLE \<Rightarrow> bt_sal_le_smp_reply addr accept PAIR_TYPE_PASSKEY_ENTRY passkey) a"

text \<open>The three requests that only pass keys of a known LE device on to the stack.\<close>

definition le_device_call :: "adapter_config \<Rightarrow> adapter_env \<Rightarrow> bt_address_t \<Rightarrow> sal_call \<Rightarrow> adapter \<Rightarrow> bt_status_t \<times> adapter" where
  "le_device_call c e addr call a =
     (if \<not> cfg_ble c then (BT_STATUS_NOT_SUPPORTED, a)
      else case adapter_find_device c addr BT_TRANSPORT_BLE a of
        None \<Rightarrow> (BT_STATUS_DEVICE_NOT_FOUND, a) | Some d \<Rightarrow> (sal e call, emit (Sal call) a))"

definition adapter_le_set_legacy_tk ::
  "adapter_config \<Rightarrow> adapter_env \<Rightarrow> bt_address_t \<Rightarrow> u8 list \<Rightarrow> adapter \<Rightarrow> bt_status_t \<times> adapter" where
  "adapter_le_set_legacy_tk c e addr tk_val a = le_device_call c e addr (bt_sal_le_set_legacy_tk addr tk_val) a"

definition adapter_le_set_remote_oob_data ::
  "adapter_config \<Rightarrow> adapter_env \<Rightarrow> bt_address_t \<Rightarrow> u8 list \<Rightarrow> u8 list \<Rightarrow> adapter \<Rightarrow> bt_status_t \<times> adapter" where
  "adapter_le_set_remote_oob_data c e addr c_val r_val a = le_device_call c e addr (bt_sal_le_set_remote_oob_data addr c_val r_val) a"

definition adapter_le_get_local_oob_data ::
  "adapter_config \<Rightarrow> adapter_env \<Rightarrow> bt_address_t \<Rightarrow> adapter \<Rightarrow> bt_status_t \<times> adapter" where
  "adapter_le_get_local_oob_data c e addr a = le_device_call c e addr (bt_sal_le_get_local_oob_data addr) a"

section \<open>Histories of the whole adapter\<close>

text \<open>The requests that change the adapter, as data.\<close>

datatype adapter_request =
    StartDiscovery u32 bool | CancelDiscovery | SetName string | SetScanMode u8 bool | SetDeviceClass u32 | SetIoCapability u32
  | SetRemoteAlias bt_address_t string | Connect bt_address_t | Disconnect bt_address_t
  | LeConnect bt_address_t ble_addr_type_t | LeDisconnect bt_address_t | ConnectRequestReply bt_address_t bool
  | LeSetPhy bt_address_t u8 u8 | ReadRemoteRssi bt_address_t bt_transport_t | SwitchRole bt_address_t bt_link_role_t
  | LeAddWhitelist bt_address_t | LeRemoveWhitelist bt_address_t | CreateBond bt_address_t bt_transport_t
  | RemoveBond bt_address_t bt_transport_t | CancelBond bt_address_t | PairRequestReply bt_address_t bool
  | SetPinCode bt_address_t bool string | SetPairingConfirmation bt_address_t bt_transport_t bool
  | SetPassKey bt_address_t bt_transport_t bool u32 | LeSetLegacyTk bt_address_t "u8 list"
  | LeSetRemoteOobData bt_address_t "u8 list" "u8 list" | LeGetLocalOobData bt_address_t

fun run_request :: "adapter_config \<Rightarrow> adapter_env \<Rightarrow> adapter_request \<Rightarrow> adapter \<Rightarrow> bt_status_t \<times> adapter" where
  "run_request c e (StartDiscovery timeout is_limited) a = adapter_start_discovery e timeout is_limited a"
| "run_request c e CancelDiscovery a = adapter_cancel_discovery e a"
| "run_request c e (SetName name) a = adapter_set_name e name a"
| "run_request c e (SetScanMode mode bondable) a = adapter_set_scan_mode e mode bondable a"
| "run_request c e (SetDeviceClass cod) a = adapter_set_device_class e cod a"
| "run_request c e (SetIoCapability cap) a = adapter_set_io_capability e cap a"
| "run_request c e (SetRemoteAlias addr alias) a = adapter_set_remote_alias c addr alias a"
| "run_request c e (Connect addr) a = adapter_connect c e addr a"
| "run_request c e (Disconnect addr) a = adapter_disconnect c e addr a"
| "run_request c e (LeConnect addr type) a = adapter_le_connect c e addr type a"
| "run_request c e (LeDisconnect addr) a = adapter_le_disconnect c e addr a"
| "run_request c e (ConnectRequestReply addr accept) a = adapter_connect_request_reply c e addr accept a"
| "run_request c e (LeSetPhy addr tx_phy rx_phy) a = adapter_le_set_phy c e addr tx_phy rx_phy a"
| "run_request c e (ReadRemoteRssi addr transport) a = adapter_read_remote_rssi e addr transport a"
| "run_request c e (SwitchRole addr role) a = adapter_switch_role c e addr role a"
| "run_request c e (LeAddWhitelist addr) a = adapter_le_add_whitelist c e addr a"
| "run_request c e (LeRemoveWhitelist addr) a = adapter_le_remove_whitelist c e addr a"
| "run_request c e (CreateBond addr transport) a = adapter_create_bond c e addr transport a"
| "run_request c e (RemoveBond addr transport) a = adapter_remove_bond c addr transport a"
| "run_request c e (CancelBond addr) a = adapter_cancel_bond c e addr a"
| "run_request c e (PairRequestReply addr accept) a = adapter_pair_request_reply c e addr accept a"
| "run_request c e (SetPinCode addr accept pincode) a = adapter_set_pin_code c e addr accept pincode a"
| "run_request c e (SetPairingConfirmation addr transport accept) a = adapter_set_pairing_confirmation c e addr transport accept a"
| "run_request c e (SetPassKey addr transport accept passkey) a = adapter_set_pass_key c e addr transport accept passkey a"
| "run_request c e (LeSetLegacyTk addr tk_val) a = adapter_le_set_legacy_tk c e addr tk_val a"
| "run_request c e (LeSetRemoteOobData addr c_val r_val) a = adapter_le_set_remote_oob_data c e addr c_val r_val a"
| "run_request c e (LeGetLocalOobData addr) a = adapter_le_get_local_oob_data c e addr a"

text \<open>One step of the service: the lifecycle, a message of the loop, or a request. A fault ends the history.\<close>

datatype service_input = Lifecycle adapter_input | Message loop_msg | Request adapter_request

fun service_step :: "adapter_config \<Rightarrow> adapter option \<Rightarrow> adapter_env \<times> service_input \<Rightarrow> adapter option" where
  "service_step c None ei = None"
| "service_step c (Some a) (e, Lifecycle i) = Some (adapter_step c a (e, i))"
| "service_step c (Some a) (e, Message m) = handle_message c e m a"
| "service_step c (Some a) (e, Request r) = Some (snd (run_request c e r a))"

definition service_run :: "adapter_config \<Rightarrow> (adapter_env \<times> service_input) list \<Rightarrow> adapter \<Rightarrow> adapter option" where
  "service_run c is a = foldl (service_step c) (Some a) is"

end
