(* ===== verification/Adapter_Devices.thy ===== *)
theory Adapter_Devices
  imports Adapter_Api
begin

text \<open>
  What holds of the lists of remote devices and of the reports about them in every history of the
  adapter service, and what single messages and requests do: pairing, connections, the safe
  disable, discovery, the storage of the local properties.
\<close>

unbundle bit_operations_syntax

section \<open>The invariant\<close>

text \<open>A device has an address of six bytes, and the two flags that only name a condition are never set.\<close>

definition dev_wf :: "bt_device \<Rightarrow> bool" where
  "dev_wf d \<longleftrightarrow> length (rd_addr d) = 6 \<and> flags d AND (DFLAG_CONNECTED OR DFLAG_BONDED) = 0"

definition list_ok :: "bt_transport_t \<Rightarrow> bt_device list \<Rightarrow> bool" where
  "list_ok t ds \<longleftrightarrow> distinct (map rd_addr ds) \<and> (\<forall>d\<in>set ds. dev_wf d \<and> rd_transport d = t)"

text \<open>A report that does not show the internal state of a bond that is being cancelled.\<close>

fun clean :: "adapter_out \<Rightarrow> bool" where
  "clean (BondStateChanged addr t prev cur ctkd) \<longleftrightarrow> prev \<noteq> BOND_STATE_CANCELING \<and> cur \<noteq> BOND_STATE_CANCELING"
| "clean _ \<longleftrightarrow> True"

definition good :: "adapter \<Rightarrow> bool" where
  "good a \<longleftrightarrow> list_ok BT_TRANSPORT_BREDR (devices a) \<and> list_ok BT_TRANSPORT_BLE (le_devices a) \<and> list_all clean (outs a)"

text \<open>What the setters of a device leave alone.\<close>

lemmas device_setters =
  device_set_identity_address_def device_set_local_csrk_def device_set_address_type_def device_set_device_type_def
  device_set_name_def device_set_alias_def device_set_device_class_def device_set_uuids_def device_set_rssi_def
  device_set_connection_state_def device_set_acl_handle_def device_set_local_role_def device_set_bond_initiate_local_def
  device_set_bond_state_def device_set_link_key_def device_delete_link_key_def device_set_link_key_type_def
  device_set_link_policy_def device_set_le_phy_def device_set_smp_key_def device_delete_smp_key_def
  device_set_flags_def device_clear_flag_def

definition same_device :: "bt_device \<Rightarrow> bt_device \<Rightarrow> bool" where
  "same_device d d' \<longleftrightarrow> rd_addr d' = rd_addr d \<and> rd_transport d' = rd_transport d \<and> (dev_wf d \<longrightarrow> dev_wf d')"



lemma flags_or: "f AND 96 = (0 :: u32) \<Longrightarrow> g AND 96 = 0 \<Longrightarrow> (f OR g) AND 96 = 0"
  by (simp add: bit.conj_disj_distrib2)

lemma flags_clear: "f AND 96 = (0 :: u32) \<Longrightarrow> (f AND g) AND 96 = 0"
  by (metis and.assoc and.commute and_zero_eq)

lemma same_set_flags: "g AND 96 = 0 \<Longrightarrow> same_device d (device_set_flags g d)"
  by (simp add: same_device_def device_set_flags_def dev_wf_def flags_or)

lemma same_clear_flag: "same_device d (device_clear_flag g d)"
  by (simp add: same_device_def device_clear_flag_def dev_wf_def flags_clear)

lemma same_setters:
  "same_device d (device_set_identity_address ao d)" "same_device d (device_set_local_csrk k d)"
  "same_device d (device_set_address_type at d)" "same_device d (device_set_device_type dt d)"
  "same_device d (snd (device_set_name n d))" "same_device d (snd (device_set_alias n d))"
  "same_device d (snd (device_set_device_class cod d))" "same_device d (snd (device_set_uuids us d))"
  "same_device d (device_set_rssi r d)" "same_device d (device_set_connection_state cs d)"
  "same_device d (device_set_acl_handle h d)" "same_device d (device_set_local_role lr d)"
  "same_device d (device_set_bond_initiate_local b d)" "same_device d (snd (device_set_bond_state bs x y d))"
  "same_device d (device_set_link_key k d)" "same_device d (device_delete_link_key d)" "same_device d (device_set_link_key_type kt d)"
  "same_device d (device_set_link_policy lp d)" "same_device d (device_set_le_phy t1 t2 d)"
  "same_device d (device_set_smp_key k d)" "same_device d (device_delete_smp_key d)"
  by (auto simp: same_device_def dev_wf_def device_setters flags_or flags_clear Let_def split: option.split)

lemmas same_simps [simp] =
  same_setters [unfolded same_device_def] same_clear_flag [unfolded same_device_def] same_set_flags [unfolded same_device_def]

lemma store_le_keys_simps [simp]:
  "rd_addr (store_le_keys p d) = rd_addr d" "rd_transport (store_le_keys p d) = rd_transport d"
  "dev_wf d \<Longrightarrow> dev_wf (store_le_keys p d)"
  by (simp_all add: store_le_keys_def Let_def)

lemma created_wf [simp]:
  "length addr = 6 \<Longrightarrow> dev_wf (br_device_create addr)" "length addr = 6 \<Longrightarrow> dev_wf (le_device_create addr at)"
  "rd_addr (br_device_create addr) = addr" "rd_addr (le_device_create addr at) = addr"
  "rd_transport (br_device_create addr) = BT_TRANSPORT_BREDR" "rd_transport (le_device_create addr at) = BT_TRANSPORT_BLE"
  by (simp_all add: br_device_create_def le_device_create_def device_create_def dev_wf_def)

section \<open>Lookups and writes\<close>

lemma matches_wf:
  "dev_wf d \<Longrightarrow> length addr = 6 \<Longrightarrow> device_matches addr t d \<longleftrightarrow> rd_addr d = addr \<and> rd_transport d = t"
  by (simp add: device_matches_def device_get_address_def device_get_transport_def memcmp_eq_0 dev_wf_def)

lemma find_list_ok:
  assumes "list_ok t ds" "length addr = 6" "find (device_matches addr t) ds = Some d"
  shows "d \<in> set ds \<and> dev_wf d \<and> rd_addr d = addr \<and> rd_transport d = t"
  using assms by (auto simp: find_Some_iff list_ok_def matches_wf)

lemma find_list_none:
  assumes "list_ok t ds" "length addr = 6" "find (device_matches addr t) ds = None"
  shows "addr \<notin> rd_addr ` set ds"
  using assms by (auto simp: find_None_iff list_ok_def matches_wf)

lemma list_ok_append: "list_ok t ds \<Longrightarrow> dev_wf d \<Longrightarrow> rd_transport d = t \<Longrightarrow> rd_addr d \<notin> rd_addr ` set ds \<Longrightarrow> list_ok t (ds @ [d])"
  by (auto simp: list_ok_def)

lemma list_ok_update:
  assumes "list_ok t ds" "dev_wf d" "rd_transport d = t"
  shows "list_ok t (update_first (device_matches (rd_addr d) t) (\<lambda>_. d) ds)"
proof -
  have "map rd_addr (update_first (device_matches (rd_addr d) t) (\<lambda>_. d) ds) = map rd_addr ds"
    using assms by (intro map_update_first) (auto simp: list_ok_def matches_wf dev_wf_def)
  moreover have "\<forall>x\<in>set (update_first (device_matches (rd_addr d) t) (\<lambda>_. d) ds). dev_wf x \<and> rd_transport x = t"
    using assms by (auto simp: list_ok_def dest!: set_update_firstD)
  ultimately show ?thesis using assms(1) by (simp add: list_ok_def)
qed

text \<open>The build has both transports.\<close>

definition dual :: "adapter_config \<Rightarrow> bool" where
  "dual c \<longleftrightarrow> cfg_bredr c \<and> cfg_ble c"

lemma good_find:
  assumes "good a" "length addr = 6" "adapter_find_device c addr t a = Some d"
  shows "dev_wf d \<and> rd_addr d = addr \<and> rd_transport d = t"
  using assms find_list_ok by (auto simp: adapter_find_device_def good_def split: if_splits)

lemma good_put: "dual c \<Longrightarrow> good a \<Longrightarrow> dev_wf d \<Longrightarrow> good (put_device c d a)"
  by (auto simp: put_device_def update_device_def good_def dual_def device_get_address_def device_get_transport_def
      split: bt_transport_t.split intro: list_ok_update)

lemma good_create:
  assumes "dual c" "good a" "length addr = 6"
  shows good_create_classic: "case adapter_find_create_classic_device c addr a of (d, a') \<Rightarrow>
      good a' \<and> dev_wf d \<and> rd_addr d = addr \<and> rd_transport d = BT_TRANSPORT_BREDR"
    and good_create_le: "case adapter_find_create_le_device c addr at a of (d, a') \<Rightarrow>
      good a' \<and> dev_wf d \<and> rd_addr d = addr \<and> rd_transport d = BT_TRANSPORT_BLE"
proof -
  have ok: "list_ok BT_TRANSPORT_BREDR (devices a)" "list_ok BT_TRANSPORT_BLE (le_devices a)" "list_all clean (outs a)"
    using assms(2) by (simp_all add: good_def)
  note new = find_list_none [OF ok(1) assms(3)] find_list_none [OF ok(2) assms(3)]
  show "case adapter_find_create_classic_device c addr a of (d, a') \<Rightarrow>
      good a' \<and> dev_wf d \<and> rd_addr d = addr \<and> rd_transport d = BT_TRANSPORT_BREDR"
    using find_list_ok [OF ok(1) assms(3)] new(1) assms ok
    by (cases "adapter_find_device c addr BT_TRANSPORT_BREDR a")
      (simp_all add: adapter_find_create_classic_device_def Let_def good_def list_ok_append dual_def adapter_find_device_def)
  show "case adapter_find_create_le_device c addr at a of (d, a') \<Rightarrow>
      good a' \<and> dev_wf d \<and> rd_addr d = addr \<and> rd_transport d = BT_TRANSPORT_BLE"
    using find_list_ok [OF ok(2) assms(3)] new(2) assms ok
    by (cases "adapter_find_device c addr BT_TRANSPORT_BLE a")
      (simp_all add: adapter_find_create_le_device_def Let_def good_def list_ok_append dual_def adapter_find_device_def)
qed

lemma good_emit [simp]: "good (emit x a) \<longleftrightarrow> good a \<and> clean x"
  by (auto simp: good_def emit_def)

lemma good_upd [simp]:
  "good (send_to_state_machine ev a) = good a" "good (a\<lparr>is_discovering := b\<rparr>) = good a" "good (a\<lparr>properties := p\<rparr>) = good a"
  "good (a\<lparr>le_addr := x\<rparr>) = good a" "good (a\<lparr>le_addr_type := at\<rparr>) = good a" "good (a\<lparr>stm_queue := q\<rparr>) = good a"
  "good (a\<lparr>ble_enabled := b\<rparr>) = good a" "good (a\<lparr>pending_turn_on := b\<rparr>) = good a" "good (a\<lparr>timers := ts\<rparr>) = good a"
  "good (a\<lparr>turning_off_safe := b\<rparr>) = good a" "good (a\<lparr>ble_turning_off_safe := b\<rparr>) = good a" "good (a\<lparr>disable_safe_timer := t\<rparr>) = good a"
  "good (a\<lparr>current_state := st\<rparr>) = good a" "good (a\<lparr>previous_state := st\<rparr>) = good a" "good (a\<lparr>adapter_state := s\<rparr>) = good a"
  "good (a\<lparr>a2dp_offloading := x1\<rparr>) = good a" "good (a\<lparr>hfp_offloading := x2\<rparr>) = good a" "good (a\<lparr>lea_offloading := x3\<rparr>) = good a"
  "good (a\<lparr>next_timer := n\<rparr>) = good a"
  by (simp_all add: good_def send_to_state_machine_def)

lemma good_saves [simp]:
  "good (adapter_update_bonded_device c a) = good a" "good (adapter_update_le_bonded_device c a) = good a"
  "good (adapter_update_whitelist c a) = good a" "good (adapter_save_properties a) = good a"
  by (simp_all add: adapter_update_bonded_device_def adapter_update_le_bonded_device_def adapter_update_whitelist_def
      adapter_save_properties_def Let_def)

lemma good_set_bond:
  assumes "dual c" "good a" "dev_wf d" "st \<noteq> BOND_STATE_CANCELING"
  shows "case set_bond_state c st k d a of (d', a') \<Rightarrow>
    good a' \<and> dev_wf d' \<and> rd_addr d' = rd_addr d \<and> rd_transport d' = rd_transport d"
  using assms same_setters(14) [where d = d and bs = st and x = k and y = True]
  by (auto simp: set_bond_state_def device_set_bond_state_def same_device_def Let_def adapter_notify_bond_state_def
      device_get_bond_state_def good_put)

lemma good_request_name:
  assumes "dual c" "good a" "dev_wf d"
  shows "case request_remote_name c addr d a of (d', a') \<Rightarrow>
    good a' \<and> dev_wf d' \<and> rd_addr d' = rd_addr d \<and> rd_transport d' = rd_transport d"
  using assms by (simp add: request_remote_name_def Let_def good_put)

text \<open>The same facts as rewrite rules on the components of the pairs.\<close>

lemma good_steps:
  assumes "dual c" "good a"
  shows "length addr = 6 \<Longrightarrow> good (snd (adapter_find_create_classic_device c addr a))"
    "length addr = 6 \<Longrightarrow> dev_wf (fst (adapter_find_create_classic_device c addr a))"
    "length addr = 6 \<Longrightarrow> good (snd (adapter_find_create_le_device c addr at a))"
    "length addr = 6 \<Longrightarrow> dev_wf (fst (adapter_find_create_le_device c addr at a))"
    "dev_wf d \<Longrightarrow> good (snd (request_remote_name c addr d a))"
    "dev_wf d \<Longrightarrow> dev_wf (fst (request_remote_name c addr d a))"
    "dev_wf d \<Longrightarrow> st \<noteq> BOND_STATE_CANCELING \<Longrightarrow> good (snd (set_bond_state c st k d a))"
    "dev_wf d \<Longrightarrow> st \<noteq> BOND_STATE_CANCELING \<Longrightarrow> dev_wf (fst (set_bond_state c st k d a))"
    "dev_wf d \<Longrightarrow> good (put_device c d a)"
  using good_create_classic [OF assms, of addr] good_create_le [OF assms, of addr at] good_request_name [OF assms, of d addr]
    good_set_bond [OF assms, of d st k] good_put [OF assms, of d]
  by (simp_all add: case_prod_beta)

text \<open>What a message must satisfy: addresses of six bytes, and the stack never reports a bond as being cancelled.\<close>

fun evt_ok :: "adapter_evt \<Rightarrow> bool" where
  "evt_ok (DISCOVER_STATE_CHANGE_EVT _) = True"
| "evt_ok (DEVICE_FOUND_EVT r) = (length (dr_addr r) = 6)"
| "evt_ok (REMOTE_NAME_RECIEVED_EVT addr _) = (length addr = 6)"
| "evt_ok (CONNECT_REQUEST_EVT addr _) = (length addr = 6)"
| "evt_ok (CONNECTION_STATE_CHANGE_EVT addr _) = (length addr = 6)"
| "evt_ok (PAIR_REQUEST_EVT addr _ _) = (length addr = 6)"
| "evt_ok (PIN_REQUEST_EVT addr _ _) = (length addr = 6)"
| "evt_ok (SSP_REQUEST_EVT addr _ _ _ _) = (length addr = 6)"
| "evt_ok (BOND_STATE_CHANGE_EVT addr state _ _ _) = (length addr = 6 \<and> state \<noteq> BOND_STATE_CANCELING)"
| "evt_ok (ENC_STATE_CHANGE_EVT addr _ _) = (length addr = 6)"
| "evt_ok (LINK_KEY_UPDATE_EVT addr _ _ _) = (length addr = 6)"
| "evt_ok (LINK_KEY_REMOVED_EVT addr _) = (length addr = 6)"
| "evt_ok (LINK_ROLE_CHANGED_EVT addr _) = (length addr = 6)"
| "evt_ok (LINK_MODE_CHANGED_EVT addr _ _) = (length addr = 6)"
| "evt_ok (LINK_POLICY_CHANGED_EVT addr _) = (length addr = 6)"
| "evt_ok (SDP_SEARCH_DONE_EVT addr _) = (length addr = 6)"
| "evt_ok (LE_ADDR_UPDATE_EVT addr _) = (length addr = 6)"
| "evt_ok (LE_PHY_UPDATE_EVT addr _ _ _) = (length addr = 6)"
| "evt_ok (LE_WHITELIST_UPDATE_EVT addr _ _) = (length addr = 6)"
| "evt_ok (LE_BONDED_DEVICE_UPDATE_EVT props) = list_all (\<lambda>p. length (lp_addr p) = 6) props"
| "evt_ok (LE_SC_LOCAL_OOB_DATA_GOT_EVT addr _ _) = (length addr = 6)"
| "evt_ok (RSSI_UPDATE_EVT addr _ _) = (length addr = 6)"

lemma find_wf: "good a \<Longrightarrow> length addr = 6 \<Longrightarrow> adapter_find_device c addr t a = Some d \<Longrightarrow> dev_wf d"
  using good_find by blast

lemma good_security:
  assumes "dual c" "good a" "evt_ok evt" "handle_security_event c e evt a = Some a'"
  shows "good a'"
  using assms find_wf [OF assms(2)]
  by (cases evt)
    (auto simp: handle_security_event_def process_pair_request_evt_def process_pin_request_evt_def process_ssp_request_evt_def
      process_bond_state_change_evt_def process_service_search_done_evt_def process_enc_state_change_evt_def
      process_link_key_update_evt_def process_link_key_removed_evt_def send_pair_display_notification_def
      case_prod_beta Let_def good_steps split: option.splits bt_transport_t.splits)

lemma good_connection: "dual c \<Longrightarrow> good a \<Longrightarrow> evt_ok evt \<Longrightarrow> good (handle_connection_event c e evt a)"
  by (cases evt)
    (auto simp: handle_connection_event_def process_connect_request_evt_def process_connection_state_changed_evt_def
      case_prod_beta Let_def good_steps split: option.splits)

lemma good_discovery: "dual c \<Longrightarrow> good a \<Longrightarrow> evt_ok evt \<Longrightarrow> good (handle_discovery_event c evt a)"
  by (cases evt)
    (auto simp: handle_discovery_event_def process_discovery_state_changed_evt_def process_device_found_evt_def
      process_remote_name_recieved_evt_def case_prod_beta Let_def good_steps)

lemma good_le_bonded_loop:
  "dual c \<Longrightarrow> good a \<Longrightarrow> list_all (\<lambda>p. length (lp_addr p) = 6) props \<Longrightarrow> good (le_bonded_loop c n props a)"
proof (induction c n props a rule: le_bonded_loop.induct)
  case (1 c n p ps a)
  have "dev_wf d" if "adapter_find_device c (lp_addr p) BT_TRANSPORT_BLE a = Some d" for d
    using that 1 by (auto intro: find_wf [of a "lp_addr p" c])
  with 1 show ?case by (auto simp: good_put split: option.split)
qed auto

lemma good_ble:
  assumes "dual c" "good a" "evt_ok evt" "handle_ble_event c evt a = Some a'"
  shows "good a'"
  using assms find_wf [OF assms(2)]
  by (cases evt)
    (auto simp: handle_ble_event_def process_le_address_update_evt_def process_le_phy_update_evt_def
      process_le_whitelist_update_evt_def process_le_bonded_device_update_evt_def good_le_bonded_loop
      process_le_sc_local_oob_data_got_evt_def Let_def good_steps split: option.splits if_splits)

lemma good_link:
  assumes "dual c" "good a" "evt_ok evt"
  shows "good (handle_link_event c evt a)"
  using assms find_wf [OF assms(2)]
  by (cases evt)
    (auto simp: handle_link_event_def process_link_role_changed_evt_def process_link_policy_changed_evt_def
      process_rssi_update_evt_def Let_def good_steps split: option.splits)

section \<open>Requests\<close>

fun req_ok :: "adapter_request \<Rightarrow> bool" where
  "req_ok (SetRemoteAlias addr _) = (length addr = 6)"
| "req_ok (Connect addr) = (length addr = 6)"
| "req_ok (LeConnect addr _) = (length addr = 6)"
| "req_ok (ConnectRequestReply addr _) = (length addr = 6)"
| "req_ok (LeAddWhitelist addr) = (length addr = 6)"
| "req_ok (CreateBond addr _) = (length addr = 6)"
| "req_ok (RemoveBond addr _) = (length addr = 6)"
| "req_ok (CancelBond addr) = (length addr = 6)"
| "req_ok (PairRequestReply addr _) = (length addr = 6)"
| "req_ok _ = True"

lemma list_ok_update_same:
  assumes "list_ok t ds" "\<And>d. same_device d (f d)"
  shows "list_ok t (update_first P f ds)"
proof -
  have "map rd_addr (update_first P f ds) = map rd_addr ds"
    using assms(2) by (intro map_update_first) (simp add: same_device_def)
  then show ?thesis using assms by (auto simp: list_ok_def same_device_def dest!: set_update_firstD)
qed

lemma good_update: "dual c \<Longrightarrow> good a \<Longrightarrow> (\<And>d. same_device d (f d)) \<Longrightarrow> good (update_device c addr t f a)"
  by (auto simp: update_device_def good_def dual_def list_ok_update_same split: bt_transport_t.split)

lemma good_delete_devices [simp]: "good (adapter_delete_devices ds a) = good a"
  unfolding adapter_delete_devices_def by (induction ds arbitrary: a) (simp_all add: adapter_delete_device_def)

lemma remove_found_filter:
  "remove_found ds = (filter (\<lambda>d. device_is_bonded d \<or> device_get_connection_state d \<noteq> CONNECTION_STATE_DISCONNECTED) ds,
     filter (\<lambda>d. \<not> device_is_bonded d \<and> device_get_connection_state d = CONNECTION_STATE_DISCONNECTED) ds)"
  by (induction ds) auto

lemma good_filter: "good a \<Longrightarrow> good (a\<lparr>devices := filter P (devices a)\<rparr>)"
  by (auto simp: good_def list_ok_def distinct_map_filter)

lemma good_disconnect:
  "dual c \<Longrightarrow> good a \<Longrightarrow> good (snd (adapter_disconnect c e addr a))"
  "dual c \<Longrightarrow> good a \<Longrightarrow> good (snd (adapter_le_disconnect c e addr a))"
  by (auto simp: adapter_disconnect_def adapter_le_disconnect_def Let_def same_setters intro!: good_update split: option.split)

lemma good_request:
  assumes "dual c" "good a" "req_ok r"
  shows "good (snd (run_request c e r a))"
  using assms find_wf [OF assms(2)]
  by (cases r)
    (auto simp: adapter_start_discovery_def adapter_remove_found_devices_def remove_found_filter adapter_cancel_discovery_def
      adapter_set_name_def adapter_set_scan_mode_def adapter_set_device_class_def adapter_set_io_capability_def
      adapter_set_remote_alias_def adapter_connect_def adapter_le_connect_def adapter_connect_request_reply_def
      adapter_le_set_phy_def adapter_read_remote_rssi_def adapter_switch_role_def adapter_le_add_whitelist_def
      adapter_le_remove_whitelist_def adapter_create_bond_def adapter_remove_bond_def adapter_cancel_bond_def
      adapter_pair_request_reply_def pairing_reply_def adapter_set_pin_code_def adapter_set_pairing_confirmation_def
      adapter_set_pass_key_def le_device_call_def adapter_le_set_legacy_tk_def adapter_le_set_remote_oob_data_def
      adapter_le_get_local_oob_data_def good_disconnect good_filter case_prod_beta Let_def good_steps split: option.splits)

section \<open>The lifecycle\<close>

definition env_ok :: "adapter_env \<Rightarrow> bool" where
  "env_ok e \<longleftrightarrow> list_all (\<lambda>r. length (p_addr r) = 6) (stored_bonded e) \<and>
     list_all (\<lambda>r. length (lp_addr r) = 6) (stored_le_bonded e) \<and> list_all (\<lambda>r. length (lp_addr r) = 6) (stored_whitelist e)"

lemma same_restore:
  "same_device d (restore_le_bonded_device r d)" "same_device d (restore_bonded_device r' d)"
  by (auto simp: restore_le_bonded_device_def restore_bonded_device_def load_uuids_def same_device_def Let_def split: option.split)

lemma good_foldl: "(\<And>a x. good a \<Longrightarrow> x \<in> set xs \<Longrightarrow> good (f a x)) \<Longrightarrow> good a \<Longrightarrow> good (foldl f a xs)"
  by (induction xs arbitrary: a) auto

lemma good_loaded:
  assumes "dual c" "env_ok e" "good a"
  shows "good (le_bonded_device_loaded c (stored_le_bonded e) a)" "good (whitelist_device_loaded c (stored_whitelist e) a)"
    "good (bonded_device_loaded c (stored_bonded e) a)"
  using assms
  by (auto simp: le_bonded_device_loaded_def whitelist_device_loaded_def bonded_device_loaded_def env_ok_def list_all_iff
      good_steps same_restore same_set_flags intro!: good_foldl good_update)

lemma good_clear [simp]: "good a \<Longrightarrow> good (a\<lparr>devices := []\<rparr>)" "good a \<Longrightarrow> good (a\<lparr>le_devices := []\<rparr>)"
  by (simp_all add: good_def list_ok_def)

lemma good_services:
  assumes "dual c" "env_ok e" "good a"
  shows "good (adapter_on_le_enabled c e b a)" "good (adapter_on_le_disabled c a)" "good (adapter_on_br_enabled c e a)"
    "good (adapter_on_br_disabled a)" "good (adapter_notify_media_offloading a)" "good (service_loop_cancel_timer t a)"
    "good (adapter_notify_state_change p s a)" "good (start_safe_timer a)"
  using assms
  by (auto simp: adapter_on_le_enabled_def adapter_on_le_disabled_def adapter_on_br_enabled_def adapter_on_br_disabled_def
      adapter_notify_media_offloading_def service_loop_cancel_timer_def adapter_notify_state_change_def start_safe_timer_def
      service_loop_timer_def good_loaded Let_def split: option.split)

lemma good_enter: "dual c \<Longrightarrow> env_ok e \<Longrightarrow> good a \<Longrightarrow> good (adapter_enter_fn c e st a)"
  by (cases st) (auto simp: enter_defs Let_def good_services split: option.split)

lemma good_exit: "good a \<Longrightarrow> good (adapter_exit_fn c st a)"
  by (cases st) (auto simp: turning_off_exit_def ble_turning_off_exit_def adapter_on_br_disabled_def)

lemma good_goto: "dual c \<Longrightarrow> env_ok e \<Longrightarrow> good a \<Longrightarrow> good (goto c e st a)"
  by (auto simp: hsm_transition_to_def Let_def good_enter good_exit split: option.split)

lemma good_disconnect_safe:
  "dual c \<Longrightarrow> good a \<Longrightarrow> good (adapter_disconnect_safe c e a)" "dual c \<Longrightarrow> good a \<Longrightarrow> good (adapter_le_disconnect_safe c e a)"
  by (auto simp: adapter_disconnect_safe_def adapter_le_disconnect_safe_def good_disconnect intro!: good_foldl)

lemma good_dispatch:
  assumes "dual c" "env_ok e" "good a"
  shows "good (snd (adapter_dispatch c e ev a))"
proof (cases "current_state a")
  case (Some s)
  show ?thesis
    unfolding adapter_dispatch_def hsm_dispatch_event_def Some
    using assms by (cases s; cases ev) (simp_all add: process_defs Let_def good_goto good_services good_disconnect_safe)
qed (simp add: adapter_dispatch_def hsm_dispatch_event_def assms)

lemma good_step:
  assumes "dual c" "env_ok e" "good a"
  shows "good (adapter_step c a (e, i))"
  using assms
  by (cases i)
    (auto simp: adapter_step_def adapter_enable_def adapter_disable_def adapter_on_adapter_state_changed_def
      adapter_on_adapter_info_load_def adapter_on_profile_services_startup_def adapter_on_profile_services_shutdown_def
      turning_off_safe_timeout_callback_def run_message_def good_loaded good_dispatch split: stack_state.split list.split)

lemma good_init: "good (adapter_init c e)"
  by (simp add: adapter_init_def adapter_state_machine_new_def hsm_ctor_def hsm_transition_to_def off_enter_def
      hsm_get_state_value_def zero_adapter_def good_def list_ok_def)

section \<open>Histories\<close>

fun msg_ok :: "loop_msg \<Rightarrow> bool" where
  "msg_ok (SecurityMsg evt) = evt_ok evt"
| "msg_ok (ConnectionMsg evt) = evt_ok evt"
| "msg_ok (DiscoveryMsg evt) = evt_ok evt"
| "msg_ok (BleMsg evt) = evt_ok evt"
| "msg_ok (LinkMsg evt) = evt_ok evt"
| "msg_ok _ = True"

fun input_ok :: "adapter_env \<times> service_input \<Rightarrow> bool" where
  "input_ok (e, Lifecycle i) = env_ok e"
| "input_ok (e, Message m) = msg_ok m"
| "input_ok (e, Request r) = req_ok r"

lemma good_message:
  assumes "dual c" "good a" "msg_ok m" "handle_message c e m a = Some a'"
  shows "good a'"
  using assms
  by (cases m)
    (auto simp: good_connection good_discovery good_link handle_scan_mode_changed_def handle_irk_changed_def
      intro: good_security good_ble split: if_splits)

definition good_opt :: "adapter_config \<Rightarrow> adapter option \<Rightarrow> bool" where
  "good_opt c s \<longleftrightarrow> (dual c \<longrightarrow> (case s of None \<Rightarrow> True | Some a \<Rightarrow> good a))"

interpretation service_ev: event_machine "service_step c" "good_opt c" input_ok for c
proof
  fix s :: "adapter option" and i :: "adapter_env \<times> service_input"
  assume "good_opt c s" "input_ok i"
  then show "good_opt c (service_step c s i)"
    by (cases s; cases i; cases "snd i")
      (auto simp: good_opt_def good_step good_request good_message split: option.split)
qed

lemma run_good:
  assumes "dual c" "list_all input_ok is" "service_run c is (adapter_init c e) = Some a"
  shows "good a"
  using service_ev.inv_run [of c "Some (adapter_init c e)" "is"] assms
  by (auto simp: service_run_def good_opt_def good_init list_all_iff)

section \<open>Properties\<close>

abbreviation demo_addr :: bt_address_t where
  "demo_addr \<equiv> [1, 2, 3, 4, 5, 6]"

text \<open>A device that is discovered, pairs, and connects.\<close>

definition demo_history :: "(adapter_env \<times> service_input) list" where
  "demo_history = map (Pair (demo_env BT_STATUS_SUCCESS))
     [Message (adapter_on_discovery_state_changed True),
      Message (adapter_on_device_found \<lparr>dr_addr = demo_addr, dr_rssi = -40, dr_cod = 0, dr_name = ''watch''\<rparr>),
      Request (PairRequestReply demo_addr True), Request (CancelBond demo_addr),
      Message (adapter_on_bond_state_changed demo_addr BOND_STATE_NONE BT_TRANSPORT_BREDR BT_STATUS_SUCCESS False),
      Request (LeConnect demo_addr BT_LE_ADDR_TYPE_PUBLIC)]"

lemma demo_ok: "dual demo_config" "list_all input_ok demo_history"
  by (simp_all add: dual_def demo_config_def demo_history_def adapter_on_discovery_state_changed_def
      adapter_on_device_found_def adapter_on_bond_state_changed_def)

text \<open>C2. In every history of a build with both transports, no two entries of a device list have the same
  address, and looking up an address finds exactly the entry of that list with that address.\<close>

theorem device_lists_unique:
  assumes "dual c" "list_all input_ok is" "service_run c is (adapter_init c e) = Some a" "length addr = 6"
  shows "distinct (map rd_addr (devices a)) \<and> distinct (map rd_addr (le_devices a)) \<and>
    (adapter_find_device c addr BT_TRANSPORT_BREDR a = Some d \<longleftrightarrow> d \<in> set (devices a) \<and> rd_addr d = addr) \<and>
    (adapter_find_device c addr BT_TRANSPORT_BLE a = Some d \<longleftrightarrow> d \<in> set (le_devices a) \<and> rd_addr d = addr)"
proof -
  have ok: "list_ok BT_TRANSPORT_BREDR (devices a)" "list_ok BT_TRANSPORT_BLE (le_devices a)"
    using run_good [OF assms(1-3)] by (simp_all add: good_def)
  have iff: "find (device_matches addr t) ds = Some d \<longleftrightarrow> d \<in> set ds \<and> rd_addr d = addr" if "list_ok t ds" for t ds
  proof
    assume d: "d \<in> set ds \<and> rd_addr d = addr"
    show "find (device_matches addr t) ds = Some d"
    proof (cases "find (device_matches addr t) ds")
      case None
      then show ?thesis using find_list_none [OF that assms(4)] d by blast
    next
      case (Some d')
      then show ?thesis using find_list_ok [OF that assms(4) Some] d that
        by (auto simp: list_ok_def distinct_map inj_on_def)
    qed
  qed (use find_list_ok [OF that assms(4)] in blast)
  show ?thesis using ok assms(1) iff [OF ok(1)] iff [OF ok(2)]
    by (simp add: list_ok_def adapter_find_device_def dual_def)
qed

theorem device_lists_unique_witness:
  "\<exists>a. service_run demo_config demo_history demo_start = Some a \<and> length (devices a) = 1 \<and> length (le_devices a) = 1 \<and>
     distinct (map rd_addr (devices a))"
proof -
  have "case service_run demo_config demo_history demo_start of None \<Rightarrow> False
    | Some a \<Rightarrow> length (devices a) = 1 \<and> length (le_devices a) = 1" by code_simp
  then obtain a where a: "service_run demo_config demo_history demo_start = Some a" "length (devices a) = 1 \<and> length (le_devices a) = 1"
    by (auto split: option.splits)
  with device_lists_unique [OF demo_ok a(1), of demo_addr] show ?thesis by simp
qed

text \<open>C27. A bond that is being cancelled is internal to the service: in every history, no client is ever told
  that a bond is, or was, being cancelled.\<close>

theorem bond_reports_clean:
  assumes "dual c" "list_all input_ok is" "service_run c is (adapter_init c e) = Some a"
    and "BondStateChanged addr t prev cur ctkd \<in> set (outs a)"
  shows "prev \<noteq> BOND_STATE_CANCELING \<and> cur \<noteq> BOND_STATE_CANCELING"
  using run_good [OF assms(1-3)] assms(4) by (auto simp: good_def list_all_iff)

theorem bond_reports_clean_witness:
  "\<exists>a. service_run demo_config demo_history demo_start = Some a \<and>
     (BOND_STATE_BONDING \<noteq> BOND_STATE_CANCELING \<and> BOND_STATE_NONE \<noteq> BOND_STATE_CANCELING) \<and>
     BondStateChanged demo_addr BT_TRANSPORT_BREDR BOND_STATE_BONDING BOND_STATE_NONE False \<in> set (outs a)"
proof -
  have "case service_run demo_config demo_history demo_start of None \<Rightarrow> False
    | Some a \<Rightarrow> BondStateChanged demo_addr BT_TRANSPORT_BREDR BOND_STATE_BONDING BOND_STATE_NONE False \<in> set (outs a)" by code_simp
  then obtain a where a: "service_run demo_config demo_history demo_start = Some a"
    "BondStateChanged demo_addr BT_TRANSPORT_BREDR BOND_STATE_BONDING BOND_STATE_NONE False \<in> set (outs a)"
    by (auto split: option.splits)
  with bond_reports_clean [OF demo_ok a] show ?thesis by blast
qed


text \<open>The bond changes reported so far.\<close>

definition bond_reports :: "adapter \<Rightarrow> (bt_address_t \<times> bond_state_t \<times> bond_state_t) list" where
  "bond_reports a = concat (map (\<lambda>x. case x of BondStateChanged addr _ prev cur _ \<Rightarrow> [(addr, prev, cur)] | _ \<Rightarrow> []) (outs a))"

lemma bond_reports_emit:
  "bond_reports (emit x a) = bond_reports a @ (case x of BondStateChanged addr _ prev cur _ \<Rightarrow> [(addr, prev, cur)] | _ \<Rightarrow> [])"
  by (simp add: bond_reports_def emit_def)

lemma bond_reports_frame [simp]:
  "bond_reports (put_device c d a) = bond_reports a" "bond_reports (adapter_update_bonded_device c a) = bond_reports a"
  "bond_reports (snd (adapter_find_create_classic_device c addr a)) = bond_reports a"
  by (auto simp: bond_reports_def put_device_def update_device_def adapter_update_bonded_device_def emit_def
      adapter_find_create_classic_device_def Let_def split: bt_transport_t.split option.split)

lemma set_bond_reports:
  "bond_reports (snd (set_bond_state c st k d a)) = bond_reports a @
     (if rd_bond_state d \<noteq> BOND_STATE_CANCELING then [(rd_addr d, rd_bond_state d, st)]
      else if st = BOND_STATE_NONE then [(rd_addr d, BOND_STATE_BONDING, st)] else [])"
  "fst (set_bond_state c st k d a) = d\<lparr>rd_bond_state := st\<rparr>"
  by (auto simp: set_bond_state_def device_set_bond_state_def Let_def adapter_notify_bond_state_def bond_reports_emit
      device_get_bond_state_def device_get_address_def)

text \<open>What clients see of a BR/EDR bond change: the change from the known state; a completed bond is
  reported a second time, from bonded to bonded; and when the bond was being cancelled only the
  final report of the two, or the change to none as from bonding.\<close>

theorem bredr_bond_reports:
  assumes "dual c" "good a" "length addr = 6" "adapter_find_device c addr BT_TRANSPORT_BREDR a = Some d"
  shows "bond_reports (process_bond_state_change_evt c e addr state BT_TRANSPORT_BREDR k a) = bond_reports a @
    (if rd_bond_state d \<noteq> BOND_STATE_CANCELING then [(addr, rd_bond_state d, state)]
     else if state = BOND_STATE_NONE then [(addr, BOND_STATE_BONDING, BOND_STATE_NONE)] else []) @
    (if state = BOND_STATE_BONDED then [(addr, BOND_STATE_BONDED, BOND_STATE_BONDED)] else [])"
proof -
  have d: "rd_addr d = addr" using good_find [OF assms(2-4)] by simp
  have f: "adapter_find_create_classic_device c addr a = (d, a)"
    by (simp add: adapter_find_create_classic_device_def assms(4))
  show ?thesis
    by (auto simp: process_bond_state_change_evt_def f case_prod_beta Let_def set_bond_reports bond_reports_emit d
        device_set_device_type_def)
qed

lemma demo_found:
  "good (demo_start\<lparr>devices := [br_device_create demo_addr]\<rparr>)"
  "adapter_find_device demo_config demo_addr BT_TRANSPORT_BREDR (demo_start\<lparr>devices := [br_device_create demo_addr]\<rparr>)
     = Some (br_device_create demo_addr)"
proof -
  show "good (demo_start\<lparr>devices := [br_device_create demo_addr]\<rparr>)"
    using good_init [of demo_config "demo_env BT_STATUS_SUCCESS"] by (simp add: good_def list_ok_def)
  show "adapter_find_device demo_config demo_addr BT_TRANSPORT_BREDR (demo_start\<lparr>devices := [br_device_create demo_addr]\<rparr>)
     = Some (br_device_create demo_addr)"
    by (simp add: adapter_find_device_def demo_config_def matches_wf)
qed

theorem bredr_bond_reports_witness:
  "bond_reports (process_bond_state_change_evt demo_config (demo_env BT_STATUS_SUCCESS) demo_addr BOND_STATE_BONDED
     BT_TRANSPORT_BREDR False (demo_start\<lparr>devices := [br_device_create demo_addr]\<rparr>))
   = [(demo_addr, BOND_STATE_NONE, BOND_STATE_BONDED), (demo_addr, BOND_STATE_BONDED, BOND_STATE_BONDED)]"
proof -
  have "bond_reports (demo_start\<lparr>devices := [br_device_create demo_addr]\<rparr>) = []" by code_simp
  then show ?thesis
    using bredr_bond_reports [OF demo_ok(1) demo_found(1) _ demo_found(2), of "demo_env BT_STATUS_SUCCESS" BOND_STATE_BONDED False]
    by (simp add: br_device_create_def device_create_def)
qed

lemma map_update_found: "find P xs = Some x \<Longrightarrow> g y = g x \<Longrightarrow> map g (update_first P (\<lambda>_. y) xs) = map g xs"
  by (induction xs) (auto split: if_splits)

text \<open>A lookup that creates the device makes it the one that is found.\<close>

lemma find_created:
  assumes "dual c" "good a" "length addr = 6" "adapter_find_create_classic_device c addr a = (d, b)"
  shows "find (device_matches addr BT_TRANSPORT_BREDR) (devices b) = Some d"
    and "filter device_is_connected (devices b) = filter device_is_connected (devices a)"
    and "outs b = outs a" and "max_acl_connections b = max_acl_connections a"
proof -
  have ok: "list_ok BT_TRANSPORT_BREDR (devices a)" using assms(2) by (simp add: good_def)
  have "find (device_matches addr BT_TRANSPORT_BREDR) (devices b) = Some d \<and>
    filter device_is_connected (devices b) = filter device_is_connected (devices a) \<and>
    outs b = outs a \<and> max_acl_connections b = max_acl_connections a"
  proof (cases "find (device_matches addr BT_TRANSPORT_BREDR) (devices a)")
    case None
    then have "find (device_matches addr BT_TRANSPORT_BREDR) (devices a @ [br_device_create addr]) = Some (br_device_create addr)"
      using assms(3) by (simp add: find_append matches_wf)
    moreover have "\<not> device_is_connected (br_device_create addr)"
      by (simp add: br_device_create_def device_create_def device_is_connected_def connection_order)
    ultimately show ?thesis using assms(1,4) None
      by (auto simp: adapter_find_create_classic_device_def adapter_find_device_def dual_def Let_def)
  qed (use assms in \<open>auto simp: adapter_find_create_classic_device_def adapter_find_device_def dual_def\<close>)
  then show "find (device_matches addr BT_TRANSPORT_BREDR) (devices b) = Some d"
    "filter device_is_connected (devices b) = filter device_is_connected (devices a)" "outs b = outs a"
    "max_acl_connections b = max_acl_connections a" by auto
qed

lemma length_filter_map: "map g xs = map g ys \<Longrightarrow> length (filter g xs) = length (filter g ys)"
proof -
  have "length (filter g zs) = length (filter id (map g zs))" for zs by (induction zs) auto
  then show "map g xs = map g ys \<Longrightarrow> length (filter g xs) = length (filter g ys)" by metis
qed

lemma connected_count:
  assumes "dual c" "good a"
  shows "get_devices_cnt c DFLAG_CONNECTED BT_TRANSPORT_BREDR a = length (filter device_is_connected (devices a))"
proof -
  have "device_has DFLAG_CONNECTED d = device_is_connected d" if "d \<in> set (devices a)" for d
  proof -
    have "flags d AND 96 = 0" using assms(2) that by (auto simp: good_def list_ok_def dev_wf_def)
    moreover have "flags d AND 32 = (flags d AND 96) AND 32" by (simp add: and.assoc)
    ultimately have "flags d AND 32 = 0" by simp
    then show ?thesis by (simp add: device_has_def device_check_flag_def)
  qed
  then show ?thesis using assms(1) by (simp add: get_devices_cnt_def transport_list_def dual_def cong: filter_cong)
qed

text \<open>An incoming connection is offered to the clients exactly when fewer BR/EDR devices are connected
  than the limit, and refused otherwise; nothing else is sent out.\<close>

theorem connection_limit:
  assumes "dual c" "good a" "length addr = 6"
  shows "outs (process_connect_request_evt c addr cod a) = outs a @
    [if length (filter device_is_connected (devices a)) < max_acl_connections a then ConnectRequest addr
     else Sal (bt_sal_acl_connection_reply addr False)]"
proof -
  obtain d b where fc: "adapter_find_create_classic_device c addr a = (d, b)" by fastforce
  note f = find_created [OF assms fc]
  have g: "good b" "dev_wf d" "rd_addr d = addr" "rd_transport d = BT_TRANSPORT_BREDR"
    using good_create_classic [OF assms] fc by auto
  let ?d = "snd (device_set_device_class cod d)" and ?b = "put_device c (snd (device_set_device_class cod d)) b"
  have "devices ?b = update_first (device_matches addr BT_TRANSPORT_BREDR) (\<lambda>_. ?d) (devices b)"
    using g assms(1) by (simp add: put_device_def update_device_def device_get_address_def device_get_transport_def dual_def)
  then have "map device_is_connected (devices ?b) = map device_is_connected (devices b)"
    using map_update_found [OF f(1), of device_is_connected ?d] by (simp add: device_set_device_class_def device_is_connected_def)
  then have "length (filter device_is_connected (devices ?b)) = length (filter device_is_connected (devices a))"
    using length_filter_map f(2) by metis
  moreover have "get_devices_cnt c DFLAG_CONNECTED BT_TRANSPORT_BREDR ?b = length (filter device_is_connected (devices ?b))"
    using g by (intro connected_count) (simp_all add: assms(1) good_put)
  moreover have "outs ?b = outs b" "max_acl_connections ?b = max_acl_connections b"
    by (auto simp: put_device_def update_device_def split: bt_transport_t.split)
  ultimately show ?thesis
    by (auto simp: process_connect_request_evt_def fc Let_def f emit_def)
qed

theorem connection_limit_witness:
  "outs (process_connect_request_evt demo_config demo_addr 0 demo_start) = [ConnectRequest demo_addr]"
proof -
  have "outs demo_start = [] \<and> devices demo_start = [] \<and> max_acl_connections demo_start = 10" by code_simp
  then show ?thesis
    using connection_limit [OF demo_ok(1) good_init, where addr = demo_addr and cod = 0] by simp
qed

text \<open>The other BR/EDR devices, which a handler for one address leaves alone.\<close>

definition others :: "bt_address_t \<Rightarrow> adapter \<Rightarrow> bt_device list" where
  "others addr a = filter (\<lambda>d. rd_addr d \<noteq> addr) (devices a)"

abbreviation classic_at :: "bt_address_t \<Rightarrow> adapter \<Rightarrow> bt_device option" where
  "classic_at addr a \<equiv> find (device_matches addr BT_TRANSPORT_BREDR) (devices a)"

lemma check_all_iff:
  "adapter_check_acl_all_disconnected ds \<longleftrightarrow> (\<forall>d\<in>set ds. device_get_connection_state d = CONNECTION_STATE_DISCONNECTED)"
  by (induction ds) auto

lemma split_others:
  assumes "good a" "length addr = 6" "classic_at addr a = Some d"
  shows "(\<forall>x\<in>set (devices a). P x) \<longleftrightarrow> P d \<and> (\<forall>x\<in>set (others addr a). P x)"
proof -
  have ok: "list_ok BT_TRANSPORT_BREDR (devices a)" using assms(1) by (simp add: good_def)
  note d = find_list_ok [OF ok assms(2,3)]
  have "x = d" if "x \<in> set (devices a)" "rd_addr x = addr" for x
    using ok that d by (auto simp: list_ok_def distinct_map inj_on_def)
  then show ?thesis using d by (auto simp: others_def)
qed

lemma filter_update_matching:
  "\<forall>x\<in>set ds. dev_wf x \<Longrightarrow> length addr = 6 \<Longrightarrow> rd_addr d = addr \<Longrightarrow>
    filter (\<lambda>d. rd_addr d \<noteq> addr) (update_first (device_matches addr t) (\<lambda>_. d) ds) = filter (\<lambda>d. rd_addr d \<noteq> addr) ds"
  by (induction ds) (auto simp: matches_wf)

lemma put_frame:
  assumes "dual c" "good a" "dev_wf d" "rd_addr d = addr" "rd_transport d = BT_TRANSPORT_BREDR" "classic_at addr a = Some d0"
  shows "others addr (put_device c d a) = others addr a" "classic_at addr (put_device c d a) = Some d"
    "stm_queue (put_device c d a) = stm_queue a"
proof -
  have l: "length addr = 6" using assms(3,4) by (simp add: dev_wf_def)
  have eq: "put_device c d a = a\<lparr>devices := update_first (device_matches addr BT_TRANSPORT_BREDR) (\<lambda>_. d) (devices a)\<rparr>"
    using assms by (simp add: put_device_def update_device_def device_get_address_def device_get_transport_def dual_def)
  have "\<forall>x\<in>set (devices a). dev_wf x" using assms(2) by (simp add: good_def list_ok_def)
  then show "others addr (put_device c d a) = others addr a"
    using assms(4) l by (simp add: eq others_def filter_update_matching)
  have m: "device_matches addr BT_TRANSPORT_BREDR d" using matches_wf [OF assms(3) l] assms(4,5) by simp
  show "classic_at addr (put_device c d a) = Some d" "stm_queue (put_device c d a) = stm_queue a"
    using m assms(6) by (simp_all add: eq find_update_first)
qed

lemma create_frame:
  assumes "dual c" "good a" "length addr = 6" "adapter_find_create_classic_device c addr a = (d, b)"
  shows "others addr b = others addr a" "stm_queue b = stm_queue a"
  using assms by (auto simp: adapter_find_create_classic_device_def others_def Let_def split: option.splits)

lemma emit_frame [simp]: "others addr (emit x a) = others addr a" "devices (emit x a) = devices a" "stm_queue (emit x a) = stm_queue a"
  by (simp_all add: others_def emit_def)

lemma name_frame:
  assumes "dual c" "good a" "dev_wf d" "rd_addr d = addr" "rd_transport d = BT_TRANSPORT_BREDR" "classic_at addr a = Some d"
    "request_remote_name c addr d a = (d', b)"
  shows "others addr b = others addr a" "classic_at addr b = Some d'" "stm_queue b = stm_queue a"
proof -
  let ?d = "device_set_flags DFLAG_GET_RMT_NAME d" and ?a = "emit (Sal (bt_sal_get_remote_name addr)) a"
  have "others addr (put_device c ?d ?a) = others addr a \<and> classic_at addr (put_device c ?d ?a) = Some ?d \<and>
    stm_queue (put_device c ?d ?a) = stm_queue a"
    using put_frame [of c ?a ?d addr d] assms(1-6) by simp
  then show "others addr b = others addr a" "classic_at addr b = Some d'" "stm_queue b = stm_queue a"
    using assms(6,7) by (auto simp: request_remote_name_def Let_def split: if_splits)
qed

text \<open>The handler for a BR/EDR disconnection announces it when no other device is left.\<close>

lemma disconnected_queue:
  assumes "dual c" "good a" "length addr = 6" "acl_transport p = BT_TRANSPORT_BREDR"
    "acl_connection_state p = CONNECTION_STATE_DISCONNECTED"
  shows "stm_queue (process_connection_state_changed_evt c e addr p a) = stm_queue a @
    (if \<forall>x\<in>set (others addr a). device_get_connection_state x = CONNECTION_STATE_DISCONNECTED
     then [BREDR_ACL_ALL_DISCONNECTED] else [])"
proof -
  obtain d b where fc: "adapter_find_create_classic_device c addr a = (d, b)" by fastforce
  have g: "good b" "dev_wf d" "rd_addr d = addr" "rd_transport d = BT_TRANSPORT_BREDR"
    using good_create_classic [OF assms(1-3)] fc by auto
  note f = find_created(1) [OF assms(1-3) fc] create_frame [OF assms(1-3) fc]
  obtain d1 b1 where rn: "(if device_get_bond_state d = BOND_STATE_BONDING then request_remote_name c addr d b else (d, b)) = (d1, b1)"
    by fastforce
  have g1: "good b1" "dev_wf d1" "rd_addr d1 = addr" "rd_transport d1 = BT_TRANSPORT_BREDR"
    using rn g good_request_name [OF assms(1) g(1,2), of addr] by (auto split: if_splits)
  have f1: "classic_at addr b1 = Some d1" "others addr b1 = others addr a" "stm_queue b1 = stm_queue a"
    using rn f name_frame [OF assms(1) g(1,2,3,4) f(1)] by (auto split: if_splits)
  let ?d = "device_set_connection_state CONNECTION_STATE_DISCONNECTED d1"
  let ?b = "put_device c ?d b1"
  have p: "good ?b" "others addr ?b = others addr a" "classic_at addr ?b = Some ?d" "stm_queue ?b = stm_queue a"
    using put_frame [of c b1 ?d addr d1] good_put [OF assms(1) g1(1), of ?d] assms(1) g1 f1 by simp_all
  have "adapter_check_acl_all_disconnected (devices ?b) \<longleftrightarrow>
    (\<forall>x\<in>set (others addr a). device_get_connection_state x = CONNECTION_STATE_DISCONNECTED)"
    using split_others [OF p(1) assms(3) p(3)] p(2)
    by (simp add: check_all_iff device_get_connection_state_def device_set_connection_state_def)
  then show ?thesis
    using assms(1,4,5) fc rn p(4)
    by (simp add: process_connection_state_changed_evt_def dual_def Let_def send_to_state_machine_def)
qed

lemma core_connection:
  "core (process_connection_state_changed_evt c e addr p a) = core a"
  by (auto simp: process_connection_state_changed_evt_def Let_def case_prod_beta put_device_def request_remote_name_def
      split: option.splits if_splits)

text \<open>C28. The end of a safe disable: while the adapter waits for its BR/EDR links to go, the report that a
  device has disconnected moves the machine to turning off when no other device is left, and
  otherwise leaves it waiting.\<close>

theorem last_disconnect_turns_off:
  assumes "dual c" "good a" "length addr = 6" "acl_transport p = BT_TRANSPORT_BREDR"
    and "acl_connection_state p = CONNECTION_STATE_DISCONNECTED"
    and "current_state a = Some on_state" "turning_off_safe a" "stm_queue a = []"
  shows "current_state (run_message c e (process_connection_state_changed_evt c e addr p a)) =
    Some (if \<forall>d\<in>set (devices a). rd_addr d \<noteq> addr \<longrightarrow> rd_connection_state d = CONNECTION_STATE_DISCONNECTED
          then turning_off_state else on_state)"
proof -
  let ?b = "process_connection_state_changed_evt c e addr p a"
  have b: "current_state ?b = Some on_state" "turning_off_safe ?b"
    using coreD [OF core_connection [of c e addr p a]] assms(6,7) by auto
  have q: "stm_queue ?b = (if \<forall>x\<in>set (others addr a). device_get_connection_state x = CONNECTION_STATE_DISCONNECTED
     then [BREDR_ACL_ALL_DISCONNECTED] else [])" using disconnected_queue [OF assms(1-5)] assms(8) by simp
  have o: "(\<forall>x\<in>set (others addr a). device_get_connection_state x = CONNECTION_STATE_DISCONNECTED) \<longleftrightarrow>
    (\<forall>d\<in>set (devices a). rd_addr d \<noteq> addr \<longrightarrow> rd_connection_state d = CONNECTION_STATE_DISCONNECTED)"
    by (auto simp: others_def device_get_connection_state_def)
  show ?thesis
    using b q unfolding o by (auto simp: run_message_def adapter_dispatch_def hsm_dispatch_event_def on_state_process_event_def goto_current)
qed

theorem last_disconnect_turns_off_witness:
  "let p = \<lparr>acl_addr = demo_addr, acl_addr_type = BT_LE_ADDR_TYPE_UNKNOWN, acl_transport = BT_TRANSPORT_BREDR,
         acl_status = BT_STATUS_SUCCESS, acl_connection_state = CONNECTION_STATE_DISCONNECTED, acl_hci_reason_code = 0x13\<rparr>;
       a = demo_start\<lparr>current_state := Some on_state, turning_off_safe := True,
         devices := [device_set_connection_state CONNECTION_STATE_CONNECTED (br_device_create demo_addr)]\<rparr>
   in current_state (run_message demo_config (demo_env BT_STATUS_SUCCESS)
        (process_connection_state_changed_evt demo_config (demo_env BT_STATUS_SUCCESS) demo_addr p a)) = Some turning_off_state"
proof -
  let ?a = "demo_start\<lparr>current_state := Some on_state, turning_off_safe := True,
         devices := [device_set_connection_state CONNECTION_STATE_CONNECTED (br_device_create demo_addr)]\<rparr>"
  have "good ?a" using good_init [of demo_config "demo_env BT_STATUS_SUCCESS"] by (simp add: good_def list_ok_def)
  moreover have "stm_queue demo_start = []" by code_simp
  ultimately show ?thesis
    using last_disconnect_turns_off [OF demo_ok(1), where a = ?a and addr = demo_addr and e = "demo_env BT_STATUS_SUCCESS"
        and p = "\<lparr>acl_addr = demo_addr, acl_addr_type = BT_LE_ADDR_TYPE_UNKNOWN, acl_transport = BT_TRANSPORT_BREDR,
         acl_status = BT_STATUS_SUCCESS, acl_connection_state = CONNECTION_STATE_DISCONNECTED, acl_hci_reason_code = 0x13\<rparr>"]
    by (simp add: Let_def)
qed

lemma ucast_u8_u32: "ucast (ucast x :: u32) = (x :: u8)"
  by transfer simp



lemma le_known_iff:
  "dual c \<Longrightarrow> good a \<Longrightarrow> length addr = 6 \<Longrightarrow>
    adapter_find_device c addr BT_TRANSPORT_BLE a = None \<longleftrightarrow> addr \<notin> rd_addr ` set (le_devices a)"
  by (auto simp: adapter_find_device_def dual_def good_def find_None_iff list_ok_def matches_wf)

lemma le_addrs_put:
  assumes "dual c" "good a" "dev_wf d" "rd_transport d = BT_TRANSPORT_BLE"
  shows "map rd_addr (le_devices (put_device c d a)) = map rd_addr (le_devices a)"
  using assms
  by (auto simp: put_device_def update_device_def dual_def device_get_address_def device_get_transport_def good_def list_ok_def
      matches_wf dev_wf_def intro!: map_update_first)

lemma le_loop_stuck: "adapter_find_device c (lp_addr p) BT_TRANSPORT_BLE a = None \<Longrightarrow> le_bonded_loop c n (p # ps) a = a"
  by (induction n) auto

lemma le_loop_known:
  assumes "dual c" "good a" "list_all (\<lambda>p. length (lp_addr p) = 6) (known @ stray # rest)" "length known \<le> n"
    and "lp_addr ` set known \<subseteq> rd_addr ` set (le_devices a)" "lp_addr stray \<notin> rd_addr ` set (le_devices a)"
  shows "le_bonded_loop c n (known @ stray # rest) a = le_bonded_loop c (length known) known a"
  using assms(2-)
proof (induction known arbitrary: a n)
  case Nil
  then show ?case using le_known_iff [OF assms(1) Nil(1)] by (simp add: le_loop_stuck)
next
  case (Cons p known)
  then obtain d where d: "adapter_find_device c (lp_addr p) BT_TRANSPORT_BLE a = Some d"
    using le_known_iff [OF assms(1) Cons.prems(1), of "lp_addr p"] by auto
  let ?d = "store_le_keys p d" and ?a = "put_device c (store_le_keys p d) a"
  have w: "dev_wf ?d" "rd_transport ?d = BT_TRANSPORT_BLE"
    using good_find [OF Cons.prems(1) _ d] Cons.prems(2) by simp_all
  have "rd_addr ` set (le_devices ?a) = rd_addr ` set (le_devices a)"
    using arg_cong [OF le_addrs_put [OF assms(1) Cons.prems(1) w], of set] by simp
  moreover obtain m where "n = Suc m" using Cons.prems(3) by (cases n) auto
  ultimately show ?case
    using Cons.IH [of ?a m] Cons.prems d good_put [OF assms(1) Cons.prems(1) w(1)] by simp
qed

text \<open>An update of the LE bonds reaches the devices only up to the first one that is not known: the entries
  after it are dropped, since the loop then looks at the same entry until its count is used up.\<close>

theorem le_bonded_update_stops:
  assumes "dual c" "good a" "list_all (\<lambda>p. length (lp_addr p) = 6) (known @ stray # rest)"
    and "lp_addr ` set known \<subseteq> rd_addr ` set (le_devices a)" "lp_addr stray \<notin> rd_addr ` set (le_devices a)"
  shows "process_le_bonded_device_update_evt c (known @ stray # rest) a = process_le_bonded_device_update_evt c known a"
  using le_loop_known [OF assms(1-3) _ assms(4,5)] by (simp add: process_le_bonded_device_update_evt_def)

theorem le_bonded_update_stops_witness:
  "let p = \<lparr>lp_addr = demo_addr, lp_addr_type = BT_LE_ADDR_TYPE_PUBLIC, lp_device_type = 2, lp_smp_key = replicate 80 7,
         lp_local_csrk = replicate 16 9\<rparr>;
       a = demo_start\<lparr>le_devices := [le_device_create demo_addr BT_LE_ADDR_TYPE_PUBLIC]\<rparr>
   in process_le_bonded_device_update_evt demo_config ([] @ p\<lparr>lp_addr := [9, 9, 9, 9, 9, 9]\<rparr> # [p]) a =
      process_le_bonded_device_update_evt demo_config [] a"
proof -
  have "good (demo_start\<lparr>le_devices := [le_device_create demo_addr BT_LE_ADDR_TYPE_PUBLIC]\<rparr>)"
    using good_init [of demo_config "demo_env BT_STATUS_SUCCESS"] by (simp add: good_def list_ok_def)
  then show ?thesis unfolding Let_def by (intro le_bonded_update_stops) (simp_all add: demo_ok)
qed

end
