(* ===== verification/Power_Manager.thy ===== *)
theory Power_Manager
  imports Bt_Types
begin

text \<open>
  service/src/power_manager.c: which power mode a BR/EDR link should have, from the states of the
  profile services on it. A device and a service are allocated objects on two lists; the lists are
  absent (\<open>None\<close>) before \<open>bt_pm_init\<close> and after \<open>bt_pm_cleanup\<close>, when their heads hold null links. A timer
  is a handle of the service loop: it is allocated until it is cancelled and armed until it
  expires, and it carries the slot or the device it was started for. Cancelling a handle that is
  not allocated, walking an absent list, and a timer whose device is gone are faults (\<open>None\<close>).
\<close>

unbundle bit_operations_syntax

section \<open>Modes, states, tables\<close>

datatype profile_id =
    PROFILE_A2DP | PROFILE_A2DP_SINK | PROFILE_AVRCP_CT | PROFILE_AVRCP_TG | PROFILE_HFP_HF | PROFILE_HFP_AG | PROFILE_SPP
  | PROFILE_HID_DEV | PROFILE_PANU | PROFILE_GATTC | PROFILE_GATTS | PROFILE_LEAUDIO_SERVER | PROFILE_LEAUDIO_MCP
  | PROFILE_LEAUDIO_CCP | PROFILE_LEAUDIO_VMICS | PROFILE_LEAUDIO_CLIENT | PROFILE_LEAUDIO_MCS | PROFILE_LEAUDIO_TBS
  | PROFILE_LEAUDIO_VMICP | PROFILE_CS | PROFILE_UNKOWN

datatype bt_pm_request_t = BT_PM_RESTART | BT_PM_NEW_REQ | BT_PM_EXECUTE

datatype bt_pm_state_t =
    BT_PM_STATE_CONN_OPEN | BT_PM_STATE_CONN_CLOSE | BT_PM_STATE_APP_OPEN | BT_PM_STATE_APP_CLOSE
  | BT_PM_STATE_SCO_OPEN | BT_PM_STATE_SCO_CLOSE | BT_PM_STATE_CONN_IDLE | BT_PM_STATE_CONN_BUSY

text \<open>\<open>bt_pm_prefer_mode_t\<close> by its values, which the code compares and masks.\<close>

type_synonym bt_pm_prefer_mode_t = u8

abbreviation (input) BT_PM_NO_ACTION :: bt_pm_prefer_mode_t where "BT_PM_NO_ACTION \<equiv> 0"
abbreviation (input) BT_PM_NO_PREF :: bt_pm_prefer_mode_t where "BT_PM_NO_PREF \<equiv> 1"
abbreviation (input) BT_PM_SNIFF :: bt_pm_prefer_mode_t where "BT_PM_SNIFF \<equiv> 0x10"
abbreviation (input) BT_PM_SNIFF2 :: bt_pm_prefer_mode_t where "BT_PM_SNIFF2 \<equiv> 0x12"
abbreviation (input) BT_PM_SNIFF4 :: bt_pm_prefer_mode_t where "BT_PM_SNIFF4 \<equiv> 0x14"
abbreviation (input) BT_PM_ACTIVE :: bt_pm_prefer_mode_t where "BT_PM_ACTIVE \<equiv> 0x20"
abbreviation (input) BT_PM_PREF_MODE_MASK :: bt_pm_prefer_mode_t where "BT_PM_PREF_MODE_MASK \<equiv> 0x0f"

record bt_pm_mode =
  m_max :: u16
  m_min :: u16
  m_attempt :: u16
  m_timeout :: u16
  m_mode :: bt_link_mode_t

definition g_pm_mode :: "bt_pm_mode list" where
  "g_pm_mode =
     [\<lparr>m_max = 800, m_min = 400, m_attempt = 4, m_timeout = 1, m_mode = BT_LINK_MODE_SNIFF\<rparr>,
      \<lparr>m_max = 400, m_min = 200, m_attempt = 4, m_timeout = 1, m_mode = BT_LINK_MODE_SNIFF\<rparr>,
      \<lparr>m_max = 54, m_min = 30, m_attempt = 4, m_timeout = 1, m_mode = BT_LINK_MODE_SNIFF\<rparr>,
      \<lparr>m_max = 150, m_min = 50, m_attempt = 4, m_timeout = 1, m_mode = BT_LINK_MODE_SNIFF\<rparr>,
      \<lparr>m_max = 18, m_min = 10, m_attempt = 4, m_timeout = 1, m_mode = BT_LINK_MODE_SNIFF\<rparr>,
      \<lparr>m_max = 36, m_min = 30, m_attempt = 2, m_timeout = 0, m_mode = BT_LINK_MODE_SNIFF\<rparr>,
      \<lparr>m_max = 18, m_min = 14, m_attempt = 1, m_timeout = 0, m_mode = BT_LINK_MODE_SNIFF\<rparr>]"

definition g_pm_cfg :: "(profile_id \<times> nat) list" where
  "g_pm_cfg =
     [(PROFILE_HFP_HF, 0), (PROFILE_HFP_AG, 0), (PROFILE_A2DP, 1), (PROFILE_AVRCP_CT, 1), (PROFILE_AVRCP_TG, 1),
      (PROFILE_SPP, 2), (PROFILE_PANU, 3), (PROFILE_HID_DEV, 4)]"

text \<open>A row of \<open>g_pm_spec\<close>: the mask of allowed modes, and the action for each state: mode and timeout.\<close>

record bt_pm_spec_table =
  allow_mask :: u8
  actn_tbl :: "bt_pm_state_t \<Rightarrow> bt_pm_prefer_mode_t \<times> nat"

fun pm_actions :: "(bt_pm_prefer_mode_t \<times> nat) list \<Rightarrow> bt_pm_state_t \<Rightarrow> bt_pm_prefer_mode_t \<times> nat" where
  "pm_actions t BT_PM_STATE_CONN_OPEN = t ! 0"
| "pm_actions t BT_PM_STATE_CONN_CLOSE = t ! 1"
| "pm_actions t BT_PM_STATE_APP_OPEN = t ! 2"
| "pm_actions t BT_PM_STATE_APP_CLOSE = t ! 3"
| "pm_actions t BT_PM_STATE_SCO_OPEN = t ! 4"
| "pm_actions t BT_PM_STATE_SCO_CLOSE = t ! 5"
| "pm_actions t BT_PM_STATE_CONN_IDLE = t ! 6"
| "pm_actions t BT_PM_STATE_CONN_BUSY = t ! 7"

definition g_pm_spec :: "bt_pm_spec_table list" where
  "g_pm_spec =
     [\<lparr>allow_mask = BT_PM_SNIFF, actn_tbl = pm_actions
        [(BT_PM_SNIFF, 7000), (BT_PM_NO_PREF, 0), (BT_PM_NO_ACTION, 0), (BT_PM_NO_ACTION, 0),
         (BT_PM_ACTIVE, 0), (BT_PM_SNIFF, 7000), (BT_PM_SNIFF, 7000), (BT_PM_ACTIVE, 0)]\<rparr>,
      \<lparr>allow_mask = BT_PM_SNIFF, actn_tbl = pm_actions
        [(BT_PM_SNIFF, 7000), (BT_PM_NO_PREF, 0), (BT_PM_NO_ACTION, 0), (BT_PM_NO_ACTION, 0),
         (BT_PM_NO_ACTION, 0), (BT_PM_NO_ACTION, 0), (BT_PM_SNIFF, 7000), (BT_PM_ACTIVE, 0)]\<rparr>,
      \<lparr>allow_mask = BT_PM_SNIFF, actn_tbl = pm_actions
        [(BT_PM_NO_ACTION, 0), (BT_PM_NO_PREF, 0), (BT_PM_ACTIVE, 0), (BT_PM_NO_ACTION, 0),
         (BT_PM_NO_ACTION, 0), (BT_PM_NO_ACTION, 0), (BT_PM_SNIFF, 1000), (BT_PM_ACTIVE, 0)]\<rparr>,
      \<lparr>allow_mask = BT_PM_SNIFF, actn_tbl = pm_actions
        [(BT_PM_ACTIVE, 0), (BT_PM_NO_PREF, 0), (BT_PM_ACTIVE, 0), (BT_PM_NO_ACTION, 0),
         (BT_PM_NO_ACTION, 0), (BT_PM_NO_ACTION, 0), (BT_PM_SNIFF, 5000), (BT_PM_ACTIVE, 0)]\<rparr>,
      \<lparr>allow_mask = BT_PM_SNIFF, actn_tbl = pm_actions
        [(BT_PM_SNIFF, 5000), (BT_PM_NO_PREF, 0), (BT_PM_NO_ACTION, 0), (BT_PM_NO_ACTION, 0),
         (BT_PM_NO_ACTION, 0), (BT_PM_NO_ACTION, 0), (BT_PM_SNIFF2, 5000), (BT_PM_SNIFF4, 200)]\<rparr>]"

section \<open>State\<close>

record bt_pm_service =
  s_profile :: profile_id
  s_state :: bt_pm_state_t
  s_addr :: bt_address_t

text \<open>\<open>pd_id\<close> is the address of the object, \<open>pd_pending\<close> is \<open>hci_status == BT_PM_STATUS_PENDING_ACTIVE\<close>.\<close>

record bt_pm_device =
  pd_id :: nat
  pd_addr :: bt_address_t
  pd_mode :: bt_link_mode_t
  pd_pending :: bool
  pd_interval :: u16
  pd_request_timer :: "nat option"
  pd_app_sniff :: bt_pm_mode
  pd_immediate :: bool

record bt_pm_timer =
  pt_timer :: "nat option"
  pt_addr :: bt_address_t
  pt_active :: bool
  pt_action :: bt_pm_prefer_mode_t
  pt_profile :: profile_id

datatype pm_userdata = Slot nat | Dev nat

record bt_pm_manager =
  pm_services :: "bt_pm_service list option"
  pm_devices :: "bt_pm_device list option"
  pm_inited :: bool
  last_profile_id :: profile_id
  pm_timer :: "bt_pm_timer list"
  pm_callback :: bool
  handles :: "nat list"
  armed :: "(nat \<times> pm_userdata) list"
  next_id :: nat
  pm_outs :: "(bt_address_t \<times> bt_pm_mode) list"

text \<open>What the manager asks of the outside: whether the adapter sees the device connected, and the status
  of \<open>bt_sal_set_power_mode\<close>.\<close>

record pm_env =
  is_remote_connected :: "bt_address_t \<Rightarrow> bool"
  sal_power_mode :: "bt_address_t \<Rightarrow> bt_pm_mode \<Rightarrow> bt_status_t"

definition loop_timer :: "pm_userdata \<Rightarrow> bt_pm_manager \<Rightarrow> nat \<times> bt_pm_manager" where
  "loop_timer u m = (next_id m, m\<lparr>handles := handles m @ [next_id m], armed := armed m @ [(next_id m, u)], next_id := Suc (next_id m)\<rparr>)"

definition loop_cancel :: "nat option \<Rightarrow> bt_pm_manager \<Rightarrow> bt_pm_manager option" where
  "loop_cancel t m =
     (case t of
        None \<Rightarrow> Some m
      | Some h \<Rightarrow> if h \<in> set (handles m)
                  then Some (m\<lparr>handles := filter (\<lambda>x. x \<noteq> h) (handles m), armed := filter (\<lambda>x. fst x \<noteq> h) (armed m)\<rparr>)
                  else None)"

text \<open>A write through the pointer to a device.\<close>

definition put_pm_device :: "bt_pm_device \<Rightarrow> bt_pm_manager \<Rightarrow> bt_pm_manager" where
  "put_pm_device d m = m\<lparr>pm_devices := map_option (map (\<lambda>x. if pd_id x = pd_id d then d else x)) (pm_devices m)\<rparr>"

section \<open>Lists and request timers\<close>

definition pm_request_start_timer :: "bt_pm_device \<Rightarrow> bt_pm_manager \<Rightarrow> bt_pm_manager option" where
  "pm_request_start_timer d m =
     do { m \<leftarrow> loop_cancel (pd_request_timer d) m;
          let (t, m) = loop_timer (Dev (pd_id d)) m;
          Some (put_pm_device (d\<lparr>pd_request_timer := Some t\<rparr>) m) }"

definition pm_request_stop_timer :: "bt_pm_device \<Rightarrow> bt_pm_manager \<Rightarrow> bt_pm_manager option" where
  "pm_request_stop_timer d m =
     do { m \<leftarrow> loop_cancel (pd_request_timer d) m;
          Some (put_pm_device (d\<lparr>pd_request_timer := None\<rparr>) m) }"

definition pm_conn_service_find :: "profile_id \<Rightarrow> bt_address_t \<Rightarrow> bt_pm_manager \<Rightarrow> bt_pm_service option option" where
  "pm_conn_service_find pid addr m =
     do { ss \<leftarrow> pm_services m; Some (find (\<lambda>s. s_profile s = pid \<and> bt_addr_compare (s_addr s) addr = 0) ss) }"

definition pm_conn_service_add :: "profile_id \<Rightarrow> bt_pm_state_t \<Rightarrow> bt_address_t \<Rightarrow> bt_pm_manager \<Rightarrow> bt_pm_manager option" where
  "pm_conn_service_add pid state addr m =
     do { ss \<leftarrow> pm_services m; Some (m\<lparr>pm_services := Some (ss @ [\<lparr>s_profile = pid, s_state = state, s_addr = addr\<rparr>])\<rparr>) }"

definition pm_conn_device_find :: "bt_address_t \<Rightarrow> bt_pm_manager \<Rightarrow> bt_pm_device option option" where
  "pm_conn_device_find addr m = do { ds \<leftarrow> pm_devices m; Some (find (\<lambda>d. bt_addr_compare (pd_addr d) addr = 0) ds) }"

definition pm_conn_device_add :: "bt_address_t \<Rightarrow> bt_pm_manager \<Rightarrow> bt_pm_manager option" where
  "pm_conn_device_add addr m =
     do { ds \<leftarrow> pm_devices m;
          Some (m\<lparr>pm_devices := Some (ds @ [\<lparr>pd_id = next_id m, pd_addr = addr, pd_mode = BT_LINK_MODE_ACTIVE, pd_pending = False,
                    pd_interval = 0, pd_request_timer = None, pd_app_sniff = g_pm_mode ! 0, pd_immediate = False\<rparr>]),
                  next_id := Suc (next_id m)\<rparr>) }"

definition pm_conn_device_remove :: "bt_pm_device \<Rightarrow> bt_pm_manager \<Rightarrow> bt_pm_manager option" where
  "pm_conn_device_remove d m =
     do { m \<leftarrow> pm_request_stop_timer d m;
          Some (m\<lparr>pm_devices := map_option (filter (\<lambda>x. pd_id x \<noteq> pd_id d)) (pm_devices m)\<rparr>) }"

section \<open>Requests to the link\<close>

definition pm_request_sniff ::
  "pm_env \<Rightarrow> bt_address_t \<Rightarrow> nat \<Rightarrow> profile_id \<Rightarrow> bt_pm_manager \<Rightarrow> (bt_status_t \<times> bt_pm_manager) option" where
  "pm_request_sniff e addr index pid m =
     (if 6 < index then Some (BT_STATUS_PARM_INVALID, m)
      else do { dev \<leftarrow> pm_conn_device_find addr m;
                case dev of
                  None \<Rightarrow> Some (BT_STATUS_FAIL, m)
                | Some d \<Rightarrow>
                  let mode = (if pid = PROFILE_SPP then pd_app_sniff d else g_pm_mode ! index)
                  in if pd_mode d = BT_LINK_MODE_SNIFF \<and> pd_interval d \<le> m_max mode \<and> m_min mode \<le> pd_interval d
                     then Some (BT_STATUS_SUCCESS, m)
                     else Some (sal_power_mode e addr mode, m\<lparr>pm_outs := pm_outs m @ [(addr, mode)]\<rparr>) })"

definition active_mode :: bt_pm_mode where
  "active_mode = \<lparr>m_max = 0, m_min = 0, m_attempt = 0, m_timeout = 0, m_mode = BT_LINK_MODE_ACTIVE\<rparr>"

definition pm_request_active :: "pm_env \<Rightarrow> bt_address_t \<Rightarrow> bt_pm_manager \<Rightarrow> (bt_status_t \<times> bt_pm_manager) option" where
  "pm_request_active e addr m =
     do { dev \<leftarrow> pm_conn_device_find addr m;
          case dev of
            None \<Rightarrow> Some (BT_STATUS_FAIL, m)
          | Some d \<Rightarrow>
            if pd_mode d = BT_LINK_MODE_ACTIVE \<or> pd_pending d then Some (BT_STATUS_SUCCESS, m)
            else let m = m\<lparr>pm_outs := pm_outs m @ [(addr, active_mode)]\<rparr>; ret = sal_power_mode e addr active_mode
                 in if ret \<noteq> BT_STATUS_SUCCESS then Some (ret, m)
                    else do { m \<leftarrow> pm_request_start_timer (d\<lparr>pd_pending := True\<rparr>) m; Some (ret, m) } }"

section \<open>The preferred mode of a link\<close>

definition pm_spec_of :: "profile_id \<Rightarrow> bt_pm_spec_table option" where
  "pm_spec_of pid = map_option (\<lambda>cfg. g_pm_spec ! snd cfg) (find (\<lambda>cfg. fst cfg = pid) g_pm_cfg)"

text \<open>The loop, with the result so far: mode, timeout, profile, mask, and whether any was taken. It gives up
  (\<open>None\<close>) on a service whose profile has no table.\<close>

record pm_preference =
  pf_mode :: bt_pm_prefer_mode_t
  pf_timeout :: nat
  pf_profile :: profile_id
  pf_mask :: u8
  pf_taken :: bool

fun pm_prefer_loop ::
  "bt_address_t \<Rightarrow> profile_id \<Rightarrow> bt_pm_service list \<Rightarrow> pm_preference \<Rightarrow> profile_id \<Rightarrow> pm_preference option \<times> profile_id" where
  "pm_prefer_loop addr pid [] acc last_id = (Some acc, last_id)"
| "pm_prefer_loop addr pid (s # ss) acc last_id =
     (if bt_addr_compare (s_addr s) addr \<noteq> 0 then pm_prefer_loop addr pid ss acc last_id
      else case pm_spec_of (s_profile s) of
             None \<Rightarrow> (None, last_id)
           | Some tbl \<Rightarrow>
             case actn_tbl tbl (s_state s) of (mode, timeout) \<Rightarrow>
               if pf_mode acc < mode \<or> mode = pf_mode acc \<and> s_profile s = pid
               then pm_prefer_loop addr pid ss
                      \<lparr>pf_mode = mode, pf_timeout = timeout, pf_profile = s_profile s, pf_mask = allow_mask tbl, pf_taken = True\<rparr>
                      (s_profile s)
               else pm_prefer_loop addr pid ss acc last_id)"

definition no_preference :: pm_preference where
  "no_preference = \<lparr>pf_mode = BT_PM_NO_ACTION, pf_timeout = 0, pf_profile = PROFILE_A2DP, pf_mask = 0, pf_taken = False\<rparr>"

definition pm_prefer_config ::
  "bt_address_t \<Rightarrow> profile_id \<Rightarrow> bt_pm_manager \<Rightarrow> (pm_preference option \<times> bt_pm_manager) option" where
  "pm_prefer_config addr pid m =
     do { ss \<leftarrow> pm_services m;
          let (acc, last_id) = pm_prefer_loop addr pid ss no_preference (last_profile_id m);
          Some (case acc of Some p \<Rightarrow> (if pf_taken p then Some p else None) | None \<Rightarrow> None, m\<lparr>last_profile_id := last_id\<rparr>) }"

section \<open>Timers of a link\<close>

text \<open>The loop over the slots from \<open>i\<close> on.\<close>

fun free_slot :: "nat \<Rightarrow> bt_pm_timer list \<Rightarrow> nat option" where
  "free_slot i [] = None"
| "free_slot i (t # ts) = (if \<not> pt_active t then Some i else free_slot (Suc i) ts)"

definition pm_start_timer ::
  "bt_address_t \<Rightarrow> profile_id \<Rightarrow> bt_pm_prefer_mode_t \<Rightarrow> bt_pm_manager \<Rightarrow> (bool \<times> bt_pm_manager) option" where
  "pm_start_timer addr pid action m =
     (case free_slot 0 (pm_timer m) of
        None \<Rightarrow> Some (False, m)
      | Some i \<Rightarrow>
        do { m \<leftarrow> loop_cancel (pt_timer (pm_timer m ! i)) m;
             let (h, m) = loop_timer (Slot i) m;
             Some (True, m\<lparr>pm_timer := (pm_timer m)[i := \<lparr>pt_timer = Some h, pt_addr = addr, pt_active = True,
                                                        pt_action = action, pt_profile = pid\<rparr>]\<rparr>) })"

text \<open>The loop of \<open>pm_stop_timer\<close>, from slot \<open>i\<close> on with \<open>n\<close> slots to go. A slot that is active holds its timer.\<close>

fun pm_stop_loop :: "bt_address_t \<Rightarrow> nat \<Rightarrow> nat \<Rightarrow> bt_pm_manager \<Rightarrow> bt_pm_manager option" where
  "pm_stop_loop addr i 0 m = Some m"
| "pm_stop_loop addr i (Suc n) m =
     (let t = pm_timer m ! i
      in if pt_active t \<and> bt_addr_compare (pt_addr t) addr = 0
         then do { m \<leftarrow> loop_cancel (pt_timer t) m;
                   pm_stop_loop addr (Suc i) n (m\<lparr>pm_timer := (pm_timer m)[i := t\<lparr>pt_active := False, pt_timer := None\<rparr>]\<rparr>) }
         else pm_stop_loop addr (Suc i) n m)"

definition pm_stop_timer :: "bt_address_t \<Rightarrow> bt_pm_manager \<Rightarrow> bt_pm_manager option" where
  "pm_stop_timer addr m = pm_stop_loop addr 0 (length (pm_timer m)) m"

definition pm_mode_request ::
  "pm_env \<Rightarrow> bt_address_t \<Rightarrow> bt_pm_request_t \<Rightarrow> profile_id \<Rightarrow> bt_pm_manager \<Rightarrow> bt_pm_manager option" where
  "pm_mode_request e addr req pid m =
     (if \<not> is_remote_connected e addr then pm_stop_timer addr m
      else do { (pref, m) \<leftarrow> pm_prefer_config addr pid m;
                case pref of
                  None \<Rightarrow> Some m
                | Some p \<Rightarrow>
                  if pf_mask p AND BT_PM_SNIFF = 0 then Some m
                  else case req of
                    BT_PM_EXECUTE \<Rightarrow>
                      if pf_mode p AND BT_PM_ACTIVE \<noteq> 0 then map_option snd (pm_request_active e addr m)
                      else if pf_mode p AND BT_PM_SNIFF \<noteq> 0
                      then map_option snd (pm_request_sniff e addr (unat (pf_mode p AND BT_PM_PREF_MODE_MASK)) (pf_profile p) m)
                      else Some m
                  | BT_PM_RESTART \<Rightarrow>
                      if pf_mode p AND BT_PM_ACTIVE \<noteq> 0 then map_option snd (pm_request_active e addr m)
                      else if 0 < pf_timeout p
                      then do { m \<leftarrow> pm_stop_timer addr m; map_option snd (pm_start_timer addr (pf_profile p) (pf_mode p) m) }
                      else Some m
                  | BT_PM_NEW_REQ \<Rightarrow> Some m })"

section \<open>Callbacks of the timers\<close>

definition pm_timeout_callback :: "pm_env \<Rightarrow> nat \<Rightarrow> bt_pm_manager \<Rightarrow> bt_pm_manager option" where
  "pm_timeout_callback e i m =
     (let t = pm_timer m ! i
      in pm_mode_request e (pt_addr t) BT_PM_EXECUTE (pt_profile t)
           (if pt_active t then m\<lparr>pm_timer := (pm_timer m)[i := t\<lparr>pt_active := False\<rparr>]\<rparr> else m))"

text \<open>The device is read through the pointer the timer was given.\<close>

definition pm_request_timeout_callback :: "nat \<Rightarrow> bt_pm_manager \<Rightarrow> bt_pm_manager option" where
  "pm_request_timeout_callback k m =
     do { ds \<leftarrow> pm_devices m;
          d \<leftarrow> find (\<lambda>d. pd_id d = k) ds;
          Some (put_pm_device (d\<lparr>pd_pending := False\<rparr>) m) }"

text \<open>An armed timer that expires: it is no longer armed, and its callback runs.\<close>

definition pm_expire :: "pm_env \<Rightarrow> nat \<Rightarrow> bt_pm_manager \<Rightarrow> bt_pm_manager option" where
  "pm_expire e h m =
     (case map_of (armed m) h of
        None \<Rightarrow> Some m
      | Some u \<Rightarrow>
        let m = m\<lparr>armed := filter (\<lambda>x. fst x \<noteq> h) (armed m)\<rparr>
        in case u of Slot i \<Rightarrow> pm_timeout_callback e i m | Dev k \<Rightarrow> pm_request_timeout_callback k m)"

section \<open>The interface\<close>

text \<open>The action read is the first of the table, whatever the state of the service.\<close>

definition pm_check_prefer_action :: "profile_id \<Rightarrow> bool" where
  "pm_check_prefer_action pid =
     (case pm_spec_of pid of
        None \<Rightarrow> False
      | Some tbl \<Rightarrow> if fst (actn_tbl tbl BT_PM_STATE_CONN_OPEN) = BT_PM_NO_PREF then False else True)"

text \<open>The first service with the profile and the address gets the state, or a new one is appended; it is
  unlinked again when the profile has no preference.\<close>

definition bt_pm_hanlde_callback :: "pm_env \<Rightarrow> bt_pm_state_t \<Rightarrow> profile_id \<Rightarrow> bt_address_t \<Rightarrow> bt_pm_manager \<Rightarrow> bt_pm_manager option" where
  "bt_pm_hanlde_callback e state pid addr m =
     do { found \<leftarrow> pm_conn_service_find pid addr m;
          m \<leftarrow> (case found of
                  None \<Rightarrow> pm_conn_service_add pid state addr m
                | Some s \<Rightarrow> Some (m\<lparr>pm_services := map_option
                    (update_first (\<lambda>s. s_profile s = pid \<and> bt_addr_compare (s_addr s) addr = 0) (\<lambda>s. s\<lparr>s_state := state\<rparr>)) (pm_services m)\<rparr>));
          let m = (if \<not> pm_check_prefer_action pid
                   then m\<lparr>pm_services := map_option
                     (remove_first (\<lambda>s. s_profile s = pid \<and> bt_addr_compare (s_addr s) addr = 0)) (pm_services m)\<rparr>
                   else m);
          pm_mode_request e addr BT_PM_RESTART pid m }"

definition bt_pm_register :: "bt_pm_manager \<Rightarrow> bt_pm_manager" where
  "bt_pm_register m = m\<lparr>pm_callback := True\<rparr>"

definition bt_pm_unregister :: "bt_pm_manager \<Rightarrow> bt_pm_manager" where
  "bt_pm_unregister m = m\<lparr>pm_callback := False\<rparr>"

definition pm_notify :: "pm_env \<Rightarrow> bt_pm_state_t \<Rightarrow> profile_id \<Rightarrow> bt_address_t \<Rightarrow> bt_pm_manager \<Rightarrow> bt_pm_manager option" where
  "pm_notify e state pid addr m = (if \<not> pm_callback m then Some m else bt_pm_hanlde_callback e state pid addr m)"

definition bt_pm_conn_open :: "pm_env \<Rightarrow> profile_id \<Rightarrow> bt_address_t \<Rightarrow> bt_pm_manager \<Rightarrow> bt_pm_manager option" where
  "bt_pm_conn_open e = pm_notify e BT_PM_STATE_CONN_OPEN"

definition bt_pm_conn_close :: "pm_env \<Rightarrow> profile_id \<Rightarrow> bt_address_t \<Rightarrow> bt_pm_manager \<Rightarrow> bt_pm_manager option" where
  "bt_pm_conn_close e = pm_notify e BT_PM_STATE_CONN_CLOSE"

definition bt_pm_app_open :: "pm_env \<Rightarrow> profile_id \<Rightarrow> bt_address_t \<Rightarrow> bt_pm_manager \<Rightarrow> bt_pm_manager option" where
  "bt_pm_app_open e = pm_notify e BT_PM_STATE_APP_OPEN"

definition bt_pm_app_close :: "pm_env \<Rightarrow> profile_id \<Rightarrow> bt_address_t \<Rightarrow> bt_pm_manager \<Rightarrow> bt_pm_manager option" where
  "bt_pm_app_close e = pm_notify e BT_PM_STATE_APP_CLOSE"

definition bt_pm_sco_open :: "pm_env \<Rightarrow> profile_id \<Rightarrow> bt_address_t \<Rightarrow> bt_pm_manager \<Rightarrow> bt_pm_manager option" where
  "bt_pm_sco_open e = pm_notify e BT_PM_STATE_SCO_OPEN"

definition bt_pm_sco_close :: "pm_env \<Rightarrow> profile_id \<Rightarrow> bt_address_t \<Rightarrow> bt_pm_manager \<Rightarrow> bt_pm_manager option" where
  "bt_pm_sco_close e = pm_notify e BT_PM_STATE_SCO_CLOSE"

definition bt_pm_idle :: "pm_env \<Rightarrow> profile_id \<Rightarrow> bt_address_t \<Rightarrow> bt_pm_manager \<Rightarrow> bt_pm_manager option" where
  "bt_pm_idle e = pm_notify e BT_PM_STATE_CONN_IDLE"

definition bt_pm_busy :: "pm_env \<Rightarrow> profile_id \<Rightarrow> bt_address_t \<Rightarrow> bt_pm_manager \<Rightarrow> bt_pm_manager option" where
  "bt_pm_busy e = pm_notify e BT_PM_STATE_CONN_BUSY"

text \<open>The zeroed global, with its slots.\<close>

definition zero_manager :: "nat \<Rightarrow> bt_pm_manager" where
  "zero_manager slots =
     \<lparr>pm_services = None, pm_devices = None, pm_inited = False, last_profile_id = PROFILE_A2DP,
      pm_timer = replicate slots \<lparr>pt_timer = None, pt_addr = replicate 6 0, pt_active = False, pt_action = 0, pt_profile = PROFILE_A2DP\<rparr>,
      pm_callback = False, handles = [], armed = [], next_id = 1, pm_outs = []\<rparr>"

definition bt_pm_init :: "bt_pm_manager \<Rightarrow> bt_pm_manager" where
  "bt_pm_init m =
     (if pm_inited m then m
      else (bt_pm_register (m\<lparr>pm_inited := True, last_profile_id := PROFILE_UNKOWN\<rparr>))\<lparr>pm_services := Some [], pm_devices := Some []\<rparr>)"

definition bt_pm_cleanup :: "bt_pm_manager \<Rightarrow> bt_pm_manager" where
  "bt_pm_cleanup m =
     (if \<not> pm_inited m then m
      else (bt_pm_unregister (m\<lparr>pm_inited := False\<rparr>))\<lparr>pm_services := None, pm_devices := None\<rparr>)"

definition bt_pm_remote_link_mode_changed ::
  "pm_env \<Rightarrow> bt_address_t \<Rightarrow> bt_link_mode_t \<Rightarrow> u16 \<Rightarrow> bt_pm_manager \<Rightarrow> bt_pm_manager option" where
  "bt_pm_remote_link_mode_changed e addr mode sniff_interval m =
     do { dev \<leftarrow> pm_conn_device_find addr m;
          case dev of
            None \<Rightarrow> Some m
          | Some d \<Rightarrow>
            let d = d\<lparr>pd_interval := sniff_interval, pd_mode := mode, pd_pending := False\<rparr>; m = put_pm_device d m
            in case mode of
                 BT_LINK_MODE_ACTIVE \<Rightarrow>
                   do { m \<leftarrow> pm_stop_timer addr m;
                        m \<leftarrow> pm_request_stop_timer d m;
                        if pd_immediate d
                        then map_option snd (pm_request_sniff e addr 0 PROFILE_SPP
                               (put_pm_device (d\<lparr>pd_request_timer := None, pd_immediate := False\<rparr>) m))
                        else pm_mode_request e addr BT_PM_RESTART (last_profile_id m) m }
               | BT_LINK_MODE_SNIFF \<Rightarrow> pm_stop_timer addr m
               | _ \<Rightarrow> Some m }"

definition bt_pm_remote_device_connected :: "bt_address_t \<Rightarrow> bt_pm_manager \<Rightarrow> bt_pm_manager option" where
  "bt_pm_remote_device_connected addr m = pm_conn_device_add addr m"

definition bt_pm_remote_device_disconnected :: "bt_address_t \<Rightarrow> bt_pm_manager \<Rightarrow> bt_pm_manager option" where
  "bt_pm_remote_device_disconnected addr m =
     do { dev \<leftarrow> pm_conn_device_find addr m;
          case dev of
            None \<Rightarrow> Some m
          | Some d \<Rightarrow> do { m \<leftarrow> pm_stop_timer addr m; pm_conn_device_remove d m } }"

definition bt_pm_set_app_profile_sniff ::
  "pm_env \<Rightarrow> bt_address_t \<Rightarrow> bt_pm_mode option \<Rightarrow> bt_pm_manager \<Rightarrow> (bt_status_t \<times> bt_pm_manager) option" where
  "bt_pm_set_app_profile_sniff e addr sniff_params m =
     do { dev \<leftarrow> pm_conn_device_find addr m;
          case dev of
            None \<Rightarrow> Some (BT_STATUS_FAIL, m)
          | Some d \<Rightarrow>
            let d = d\<lparr>pd_app_sniff := (case sniff_params of None \<Rightarrow> g_pm_mode ! 0 | Some p \<Rightarrow> p)\<rparr>
            in if pd_mode d = BT_LINK_MODE_ACTIVE
               then Some (BT_STATUS_SUCCESS, put_pm_device (d\<lparr>pd_immediate := False\<rparr>) m)
               else do { (ret, m) \<leftarrow> pm_request_active e addr (put_pm_device (d\<lparr>pd_immediate := True\<rparr>) m);
                         Some (BT_STATUS_SUCCESS, m) } }"

section \<open>Histories\<close>

datatype pm_input =
    Notify bt_pm_state_t profile_id bt_address_t | LinkModeChanged bt_address_t bt_link_mode_t u16
  | DeviceConnected bt_address_t | DeviceDisconnected bt_address_t | SetAppSniff bt_address_t "bt_pm_mode option" | Expires nat

fun pm_step :: "bt_pm_manager option \<Rightarrow> pm_env \<times> pm_input \<Rightarrow> bt_pm_manager option" where
  "pm_step None ei = None"
| "pm_step (Some m) (e, Notify state pid addr) = pm_notify e state pid addr m"
| "pm_step (Some m) (e, LinkModeChanged addr mode i) = bt_pm_remote_link_mode_changed e addr mode i m"
| "pm_step (Some m) (e, DeviceConnected addr) = bt_pm_remote_device_connected addr m"
| "pm_step (Some m) (e, DeviceDisconnected addr) = bt_pm_remote_device_disconnected addr m"
| "pm_step (Some m) (e, SetAppSniff addr p) = map_option snd (bt_pm_set_app_profile_sniff e addr p m)"
| "pm_step (Some m) (e, Expires h) = pm_expire e h m"

end
