(* ===== verification/Power_Timers.thy ===== *)
theory Power_Timers
  imports Power_Manager
begin

text \<open>
  Properties of the power manager: who holds which timer, in every history; which mode is chosen
  for a link; and what closing a service and cleaning up leave behind.
\<close>

unbundle bit_operations_syntax

section \<open>The ledger of timers\<close>

text \<open>\<open>H\<close> are the allocated timers, \<open>W\<close> who holds which, \<open>A\<close> the armed ones with their argument.\<close>

definition ledger :: "nat set \<Rightarrow> (nat \<times> pm_userdata) set \<Rightarrow> (nat \<times> pm_userdata) set \<Rightarrow> nat \<Rightarrow> bool" where
  "ledger H W A n \<longleftrightarrow> (\<forall>h. h \<in> H \<longleftrightarrow> (\<exists>x. (h, x) \<in> W)) \<and> (\<forall>h x y. (h, x) \<in> W \<longrightarrow> (h, y) \<in> W \<longrightarrow> x = y) \<and>
     A \<subseteq> W \<and> (\<forall>h\<in>H. h < n)"

text \<open>The holder \<open>k\<close> gets another timer, or none.\<close>

definition set_owner :: "(nat \<times> pm_userdata) set \<Rightarrow> pm_userdata \<Rightarrow> nat option \<Rightarrow> (nat \<times> pm_userdata) set" where
  "set_owner W k t = {(h, x). if x = k then t = Some h else (h, x) \<in> W}"

lemma mem_set_owner: "(h, x) \<in> set_owner W k t \<longleftrightarrow> (if x = k then t = Some h else (h, x) \<in> W)"
  by (simp add: set_owner_def)

lemma ledger_cancel:
  assumes "ledger H W A n" "(h, k) \<in> W" "\<And>h'. (h', k) \<in> W \<Longrightarrow> h' = h"
  shows "ledger {x \<in> H. x \<noteq> h} (set_owner W k None) {p \<in> A. fst p \<noteq> h} n"
proof -
  have "h' \<in> H \<and> h' \<noteq> h \<longleftrightarrow> (\<exists>x. x \<noteq> k \<and> (h', x) \<in> W)" for h'
    using assms unfolding ledger_def by metis
  then show ?thesis using assms(1,3) by (fastforce simp: ledger_def mem_set_owner)
qed

lemma ledger_new:
  assumes "ledger H W A n" "\<And>h. (h, k) \<notin> W"
  shows "ledger (insert n H) (set_owner W k (Some n)) (insert (n, k) A) (Suc n)"
proof -
  have o: "set_owner W k (Some n) = insert (n, k) W" using assms(2) by (auto simp: set_owner_def)
  have "(n, x) \<notin> W" for x using assms(1) by (auto simp: ledger_def)
  then show ?thesis using assms(1) unfolding o by (auto simp: ledger_def less_Suc_eq)
qed

lemma set_owner_same: "(\<And>h. (h, k) \<in> W \<longleftrightarrow> t = Some h) \<Longrightarrow> set_owner W k t = W"
  by (auto simp: set_owner_def)

lemma set_owner_twice: "set_owner (set_owner W k t) k t' = set_owner W k t'"
  by (auto simp: set_owner_def)

lemma ledger_shrink: "ledger H W A n \<Longrightarrow> A' \<subseteq> A \<Longrightarrow> n \<le> n' \<Longrightarrow> ledger H W A' n'"
  by (fastforce simp: ledger_def)

section \<open>Who holds a timer\<close>

definition slot_owned :: "bt_pm_timer list \<Rightarrow> (nat \<times> pm_userdata) set" where
  "slot_owned ts = {(h, x). case x of Slot i \<Rightarrow> i < length ts \<and> pt_timer (ts ! i) = Some h | Dev k \<Rightarrow> False}"

definition dev_owned :: "bt_pm_device list \<Rightarrow> (nat \<times> pm_userdata) set" where
  "dev_owned ds = {(h, x). case x of Slot i \<Rightarrow> False | Dev k \<Rightarrow> \<exists>d\<in>set ds. pd_id d = k \<and> pd_request_timer d = Some h}"

definition owned :: "bt_pm_manager \<Rightarrow> (nat \<times> pm_userdata) set" where
  "owned m = slot_owned (pm_timer m) \<union> (case pm_devices m of None \<Rightarrow> {} | Some ds \<Rightarrow> dev_owned ds)"

lemma slot_owned_update:
  "i < length ts \<Longrightarrow> slot_owned (ts[i := t]) = set_owner (slot_owned ts) (Slot i) (pt_timer t)"
  by (auto simp: slot_owned_def set_owner_def nth_list_update split: pm_userdata.splits if_splits)

lemma set_written: "pd_id d \<in> pd_id ` set ds \<Longrightarrow>
    set (map (\<lambda>x. if pd_id x = pd_id d then d else x) ds) = insert d {x \<in> set ds. pd_id x \<noteq> pd_id d}"
  by auto

lemma dev_owned_update:
  "pd_id d \<in> pd_id ` set ds \<Longrightarrow>
    dev_owned (map (\<lambda>x. if pd_id x = pd_id d then d else x) ds) = set_owner (dev_owned ds) (Dev (pd_id d)) (pd_request_timer d)"
  unfolding dev_owned_def set_written by (auto simp: set_owner_def split: pm_userdata.splits if_splits) metis

lemma set_owner_Un:
  "set_owner (slot_owned ts) (Slot i) t \<union> dev_owned ds = set_owner (slot_owned ts \<union> dev_owned ds) (Slot i) t"
  "slot_owned ts \<union> set_owner (dev_owned ds) (Dev k) t = set_owner (slot_owned ts \<union> dev_owned ds) (Dev k) t"
  by (auto simp: set_owner_def slot_owned_def dev_owned_def split: pm_userdata.splits if_splits)

section \<open>The invariant\<close>

text \<open>At most one active slot per device.\<close>

definition slots_ok :: "bt_pm_timer list \<Rightarrow> bool" where
  "slots_ok ts \<longleftrightarrow> (\<forall>t\<in>set ts. length (pt_addr t) = 6) \<and>
     (\<forall>i j. i < length ts \<and> j < length ts \<and> pt_active (ts ! i) \<and> pt_active (ts ! j) \<and> pt_addr (ts ! i) = pt_addr (ts ! j) \<longrightarrow> i = j)"

definition pm_inv :: "bt_pm_manager \<Rightarrow> bool" where
  "pm_inv m \<longleftrightarrow> pm_services m \<noteq> None \<and> slots_ok (pm_timer m) \<and>
     (\<exists>ds. pm_devices m = Some ds \<and> distinct (map pd_id ds) \<and> (\<forall>d\<in>set ds. pd_id d < next_id m)) \<and>
     ledger (set (handles m)) (owned m) (set (armed m)) (next_id m)"

lemma owned_slot: "(h, Slot i) \<in> owned m \<longleftrightarrow> i < length (pm_timer m) \<and> pt_timer (pm_timer m ! i) = Some h"
  by (auto simp: owned_def slot_owned_def dev_owned_def split: option.splits)

lemma owned_dev:
  assumes "pm_devices m = Some ds" "distinct (map pd_id ds)" "d \<in> set ds"
  shows "(h, Dev (pd_id d)) \<in> owned m \<longleftrightarrow> pd_request_timer d = Some h"
proof -
  have "x = d" if "x \<in> set ds" "pd_id x = pd_id d" for x
    using assms(2,3) that by (auto simp: distinct_map inj_on_def)
  then show ?thesis using assms(1,3) by (auto simp: owned_def slot_owned_def dev_owned_def)
qed

section \<open>Timers of slots\<close>

text \<open>Cancelling what a holder has and taking its timer away.\<close>

lemma cancel_ledger:
  assumes "ledger (set (handles m)) W (set (armed m)) (next_id m)" "\<And>h. (h, k) \<in> W \<longleftrightarrow> t = Some h"
  shows "\<exists>H A. loop_cancel t m = Some (m\<lparr>handles := H, armed := A\<rparr>) \<and> ledger (set H) (set_owner W k None) (set A) (next_id m)"
proof (cases t)
  case None
  then have "set_owner W k None = W" using assms(2) by (intro set_owner_same) simp
  then show ?thesis using assms(1) None by (intro exI [of _ "handles m"] exI [of _ "armed m"]) (simp add: loop_cancel_def)
next
  case (Some h)
  then have "(h, k) \<in> W" "\<And>h'. (h', k) \<in> W \<Longrightarrow> h' = h" using assms(2) by auto
  note c = ledger_cancel [OF assms(1) this]
  have "h \<in> set (handles m)" using assms(1) \<open>(h, k) \<in> W\<close> by (auto simp: ledger_def)
  with c Some show ?thesis
    by (intro exI [of _ "filter (\<lambda>x. x \<noteq> h) (handles m)"] exI [of _ "filter (\<lambda>x. fst x \<noteq> h) (armed m)"])
      (simp add: loop_cancel_def)
qed

lemma pm_invD:
  assumes "pm_inv m"
  obtains ds ss where "pm_devices m = Some ds" "pm_services m = Some ss" "distinct (map pd_id ds)" "\<forall>d\<in>set ds. pd_id d < next_id m"
    "ledger (set (handles m)) (owned m) (set (armed m)) (next_id m)" "slots_ok (pm_timer m)"
  using assms by (auto simp: pm_inv_def)

lemma slots_ok_update:
  assumes "slots_ok ts" "length (pt_addr t) = 6" "pt_active t \<Longrightarrow> \<forall>u\<in>set ts. pt_active u \<longrightarrow> pt_addr u \<noteq> pt_addr t"
  shows "slots_ok (ts[i := t])"
proof -
  have "\<forall>u\<in>set (ts[i := t]). length (pt_addr u) = 6"
    using assms(1,2) set_update_subset_insert [of ts i t] by (auto simp: slots_ok_def)
  moreover have "a = b" if "a < length ts" "b < length ts" "pt_active (ts[i := t] ! a)" "pt_active (ts[i := t] ! b)"
    "pt_addr (ts[i := t] ! a) = pt_addr (ts[i := t] ! b)" for a b
  proof -
    have "pt_active t \<Longrightarrow> j < length ts \<Longrightarrow> pt_active (ts ! j) \<Longrightarrow> pt_addr (ts ! j) \<noteq> pt_addr t" for j
      using assms(3) nth_mem by blast
    then show ?thesis using that assms(1) by (cases "a = i"; cases "b = i") (force simp: slots_ok_def)+
  qed
  ultimately show ?thesis by (simp add: slots_ok_def)
qed

text \<open>A slot whose timer is cancelled.\<close>

lemma slot_cancel:
  assumes "pm_inv m" "i < length (pm_timer m)" "t = pm_timer m ! i"
  shows "\<exists>m'. loop_cancel (pt_timer t) m = Some m' \<and> pm_timer m' = pm_timer m \<and> pm_devices m' = pm_devices m \<and>
    pm_services m' = pm_services m \<and> pm_callback m' = pm_callback m \<and> last_profile_id m' = last_profile_id m \<and>
    pm_inv (m'\<lparr>pm_timer := (pm_timer m)[i := t\<lparr>pt_active := False, pt_timer := None\<rparr>]\<rparr>)"
proof -
  obtain ds ss where i: "pm_devices m = Some ds" "pm_services m = Some ss" "distinct (map pd_id ds)" "\<forall>d\<in>set ds. pd_id d < next_id m"
    "ledger (set (handles m)) (owned m) (set (armed m)) (next_id m)" "slots_ok (pm_timer m)" using assms(1) by (rule pm_invD)
  have "(h, Slot i) \<in> owned m \<longleftrightarrow> pt_timer t = Some h" for h using assms(2,3) by (simp add: owned_slot)
  from cancel_ledger [OF i(5) this] obtain H A where
    c: "loop_cancel (pt_timer t) m = Some (m\<lparr>handles := H, armed := A\<rparr>)"
      "ledger (set H) (set_owner (owned m) (Slot i) None) (set A) (next_id m)" by blast
  let ?ts = "(pm_timer m)[i := t\<lparr>pt_active := False, pt_timer := None\<rparr>]"
  have "slots_ok ?ts" using i(6) assms(2,3) by (intro slots_ok_update) (auto simp: slots_ok_def)
  moreover have "owned (m\<lparr>handles := H, armed := A, pm_timer := ?ts\<rparr>) = set_owner (owned m) (Slot i) None"
    using i(1) assms(2) by (simp add: owned_def slot_owned_update set_owner_Un)
  ultimately show ?thesis using c i by (auto simp: pm_inv_def)
qed

lemma free_slotD: "free_slot k ts = Some i \<Longrightarrow> k \<le> i \<and> i - k < length ts \<and> \<not> pt_active (ts ! (i - k))"
proof (induction k ts rule: free_slot.induct)
  case (2 k t ts)
  show ?case
  proof (cases "pt_active t")
    case True
    then have "Suc k \<le> i \<and> i - Suc k < length ts \<and> \<not> pt_active (ts ! (i - Suc k))" using 2 by simp
    moreover from this have "i - k = Suc (i - Suc k)" by linarith
    ultimately show ?thesis by simp
  qed (use 2 in auto)
qed simp

lemma pm_start_ok:
  assumes "pm_inv m" "length addr = 6" "\<forall>t\<in>set (pm_timer m). pt_active t \<longrightarrow> pt_addr t \<noteq> addr"
  shows "\<exists>r m'. pm_start_timer addr pid act m = Some (r, m') \<and> pm_inv m'"
proof (cases "free_slot 0 (pm_timer m)")
  case (Some i)
  then have i: "i < length (pm_timer m)" using free_slotD by fastforce
  let ?t = "pm_timer m ! i"
  let ?cleared = "(pm_timer m)[i := ?t\<lparr>pt_active := False, pt_timer := None\<rparr>]"
  obtain m1 where c: "loop_cancel (pt_timer ?t) m = Some m1" "pm_timer m1 = pm_timer m" "pm_devices m1 = pm_devices m"
    "pm_services m1 = pm_services m" "pm_inv (m1\<lparr>pm_timer := ?cleared\<rparr>)"
    using slot_cancel [OF assms(1) i refl] by blast
  let ?new = "\<lparr>pt_timer = Some (next_id m1), pt_addr = addr, pt_active = True, pt_action = act, pt_profile = pid\<rparr>"
  let ?m2 = "m1\<lparr>handles := handles m1 @ [next_id m1], armed := armed m1 @ [(next_id m1, Slot i)], next_id := Suc (next_id m1),
    pm_timer := (pm_timer m)[i := ?new]\<rparr>"
  obtain ds ss where v: "pm_devices m1 = Some ds" "pm_services m1 = Some ss" "distinct (map pd_id ds)" "\<forall>d\<in>set ds. pd_id d < next_id m1"
    "ledger (set (handles m1)) (owned (m1\<lparr>pm_timer := ?cleared\<rparr>)) (set (armed m1)) (next_id m1)"
    using c(5) by (auto elim!: pm_invD)
  have "(h, Slot i) \<notin> owned (m1\<lparr>pm_timer := ?cleared\<rparr>)" for h using i by (simp add: owned_slot)
  note n = ledger_new [OF v(5) this]
  have "owned ?m2 = set_owner (owned (m1\<lparr>pm_timer := ?cleared\<rparr>)) (Slot i) (Some (next_id m1))"
    using i v(1) by (simp add: owned_def slot_owned_update set_owner_Un set_owner_twice)
  moreover have "slots_ok ((pm_timer m)[i := ?new])"
    using assms by (intro slots_ok_update) (auto elim!: pm_invD)
  ultimately have "pm_inv ?m2" using n v by (simp add: pm_inv_def) (meson less_SucI)
  then show ?thesis using Some c by (auto simp: pm_start_timer_def loop_timer_def)
qed (use assms in \<open>auto simp: pm_start_timer_def\<close>)

text \<open>What stopping the slots of an address leaves alone.\<close>

definition same_lists :: "bt_pm_manager \<Rightarrow> bt_pm_manager \<Rightarrow> bool" where
  "same_lists m m' \<longleftrightarrow> pm_devices m' = pm_devices m \<and> pm_services m' = pm_services m \<and> pm_callback m' = pm_callback m \<and>
     length (pm_timer m') = length (pm_timer m) \<and> last_profile_id m' = last_profile_id m"

lemma slot_compare: "pm_inv m \<Longrightarrow> t \<in> set (pm_timer m) \<Longrightarrow> length addr = 6 \<Longrightarrow> bt_addr_compare (pt_addr t) addr = 0 \<longleftrightarrow> pt_addr t = addr"
  by (auto simp: pm_inv_def slots_ok_def bt_addr_compare_def memcmp_eq_0)

lemma pm_stop_loop_ok:
  assumes "pm_inv m" "length addr = 6" "i + n = length (pm_timer m)"
    and "\<forall>j<i. pt_active (pm_timer m ! j) \<longrightarrow> pt_addr (pm_timer m ! j) \<noteq> addr"
  shows "\<exists>m'. pm_stop_loop addr i n m = Some m' \<and> pm_inv m' \<and> same_lists m m' \<and>
    (\<forall>j<length (pm_timer m). pt_active (pm_timer m' ! j) \<longrightarrow> pt_addr (pm_timer m' ! j) \<noteq> addr)"
  using assms
proof (induction n arbitrary: i m)
  case 0
  then show ?case by (simp add: same_lists_def)
next
  case (Suc n)
  let ?t = "pm_timer m ! i"
  have i: "i < length (pm_timer m)" "?t \<in> set (pm_timer m)" using Suc.prems(3) by auto
  note cmp = slot_compare [OF Suc.prems(1) i(2) Suc.prems(2)]
  show ?case
  proof (cases "pt_active ?t \<and> pt_addr ?t = addr")
    case True
    let ?ts = "(pm_timer m)[i := ?t\<lparr>pt_active := False, pt_timer := None\<rparr>]"
    obtain m1 where c: "loop_cancel (pt_timer ?t) m = Some m1" "pm_timer m1 = pm_timer m" "pm_devices m1 = pm_devices m"
      "pm_services m1 = pm_services m" "pm_callback m1 = pm_callback m" "last_profile_id m1 = last_profile_id m"
      "pm_inv (m1\<lparr>pm_timer := ?ts\<rparr>)" using slot_cancel [OF Suc.prems(1) i(1) refl] by blast
    have "\<forall>j<Suc i. pt_active (?ts ! j) \<longrightarrow> pt_addr (?ts ! j) \<noteq> addr"
      using Suc.prems(4) i by (auto simp: nth_list_update less_Suc_eq)
    then show ?thesis
      using Suc.IH [of "m1\<lparr>pm_timer := ?ts\<rparr>" "Suc i"] c Suc.prems(2,3) True cmp by (auto simp: Let_def same_lists_def)
  next
    case False
    then have "\<forall>j<Suc i. pt_active (pm_timer m ! j) \<longrightarrow> pt_addr (pm_timer m ! j) \<noteq> addr"
      using Suc.prems(4) by (auto simp: less_Suc_eq)
    then show ?thesis using Suc.IH [of m "Suc i"] Suc.prems False cmp by (auto simp: Let_def)
  qed
qed

lemma pm_stop_ok:
  assumes "pm_inv m" "length addr = 6"
  shows "\<exists>m'. pm_stop_timer addr m = Some m' \<and> pm_inv m' \<and> same_lists m m' \<and> (\<forall>t\<in>set (pm_timer m'). pt_active t \<longrightarrow> pt_addr t \<noteq> addr)"
proof -
  obtain m' where "pm_stop_timer addr m = Some m'" "pm_inv m'" "same_lists m m'"
    "\<forall>j<length (pm_timer m). pt_active (pm_timer m' ! j) \<longrightarrow> pt_addr (pm_timer m' ! j) \<noteq> addr"
    using pm_stop_loop_ok [OF assms, of 0 "length (pm_timer m)"] by (auto simp: pm_stop_timer_def)
  then show ?thesis by (auto simp: same_lists_def in_set_conv_nth)
qed

section \<open>Timers of devices\<close>

abbreviation written :: "bt_pm_device \<Rightarrow> bt_pm_device list \<Rightarrow> bt_pm_device list" where
  "written d ds \<equiv> map (\<lambda>x. if pd_id x = pd_id d then d else x) ds"

lemma ids_written: "map pd_id (written d ds) = map pd_id ds"
  by simp

text \<open>A write that keeps the timer of the device.\<close>

lemma put_inv:
  assumes "pm_inv m" "pm_devices m = Some ds" "x \<in> set ds" "pd_id d = pd_id x" "pd_request_timer d = pd_request_timer x"
  shows "pm_inv (put_pm_device d m)"
proof -
  obtain ss where v: "pm_services m = Some ss" "distinct (map pd_id ds)" "\<forall>d\<in>set ds. pd_id d < next_id m"
    "ledger (set (handles m)) (owned m) (set (armed m)) (next_id m)" "slots_ok (pm_timer m)"
    using assms(1,2) by (auto elim!: pm_invD)
  have "owned (put_pm_device d m) = set_owner (owned m) (Dev (pd_id d)) (pd_request_timer d)"
    using assms(2,3,4) dev_owned_update [of d ds] by (auto simp: owned_def put_pm_device_def set_owner_Un)
  also have "\<dots> = owned m"
    using owned_dev [OF assms(2) v(2) assms(3)] assms(4,5) by (intro set_owner_same) simp
  finally show ?thesis using v assms(2,3,4) ids_written [of d ds]
    by (auto simp: pm_inv_def put_pm_device_def simp del: map_map)
qed

lemma device_cancel:
  assumes "pm_inv m" "pm_devices m = Some ds" "x \<in> set ds" "pd_id d = pd_id x" "pd_request_timer d = pd_request_timer x"
  shows "\<exists>H A. loop_cancel (pd_request_timer d) m = Some (m\<lparr>handles := H, armed := A\<rparr>) \<and>
    pm_inv (put_pm_device (d\<lparr>pd_request_timer := None\<rparr>) (m\<lparr>handles := H, armed := A\<rparr>)) \<and>
    ledger (set H) (set_owner (owned m) (Dev (pd_id d)) None) (set A) (next_id m)"
proof -
  obtain ss where v: "pm_services m = Some ss" "distinct (map pd_id ds)" "\<forall>d\<in>set ds. pd_id d < next_id m"
    "ledger (set (handles m)) (owned m) (set (armed m)) (next_id m)" "slots_ok (pm_timer m)"
    using assms(1,2) by (auto elim!: pm_invD)
  have "(h, Dev (pd_id d)) \<in> owned m \<longleftrightarrow> pd_request_timer d = Some h" for h
    using owned_dev [OF assms(2) v(2) assms(3)] assms(4,5) by simp
  from cancel_ledger [OF v(4) this] obtain H A where
    c: "loop_cancel (pd_request_timer d) m = Some (m\<lparr>handles := H, armed := A\<rparr>)"
      "ledger (set H) (set_owner (owned m) (Dev (pd_id d)) None) (set A) (next_id m)" by blast
  let ?d = "d\<lparr>pd_request_timer := None\<rparr>"
  have "owned (put_pm_device ?d (m\<lparr>handles := H, armed := A\<rparr>)) = set_owner (owned m) (Dev (pd_id d)) None"
    using assms(2,3,4) dev_owned_update [of ?d ds] by (auto simp: owned_def put_pm_device_def set_owner_Un)
  then have "pm_inv (put_pm_device ?d (m\<lparr>handles := H, armed := A\<rparr>))"
    using c(2) v assms(2,3,4) ids_written [of ?d ds] by (auto simp: pm_inv_def put_pm_device_def simp del: map_map)
  with c show ?thesis by blast
qed

lemma request_stop_ok:
  assumes "pm_inv m" "pm_devices m = Some ds" "x \<in> set ds" "pd_id d = pd_id x" "pd_request_timer d = pd_request_timer x"
  shows "\<exists>m'. pm_request_stop_timer d m = Some m' \<and> pm_inv m' \<and> pm_devices m' = Some (written (d\<lparr>pd_request_timer := None\<rparr>) ds) \<and>
    pm_services m' = pm_services m \<and> pm_timer m' = pm_timer m \<and> last_profile_id m' = last_profile_id m"
  using device_cancel [OF assms] assms(2) by (auto simp: pm_request_stop_timer_def put_pm_device_def)

lemma request_start_ok:
  assumes "pm_inv m" "pm_devices m = Some ds" "x \<in> set ds" "pd_id d = pd_id x" "pd_request_timer d = pd_request_timer x"
  shows "\<exists>m'. pm_request_start_timer d m = Some m' \<and> pm_inv m'"
proof -
  obtain ss where v: "pm_services m = Some ss" "distinct (map pd_id ds)" "\<forall>d\<in>set ds. pd_id d < next_id m" "slots_ok (pm_timer m)"
    using assms(1,2) by (auto elim!: pm_invD)
  obtain H A where c: "loop_cancel (pd_request_timer d) m = Some (m\<lparr>handles := H, armed := A\<rparr>)"
    "ledger (set H) (set_owner (owned m) (Dev (pd_id d)) None) (set A) (next_id m)" using device_cancel [OF assms] by blast
  have "(h, Dev (pd_id d)) \<notin> set_owner (owned m) (Dev (pd_id d)) None" for h by (simp add: mem_set_owner)
  note n = ledger_new [OF c(2) this, unfolded set_owner_twice]
  let ?d = "d\<lparr>pd_request_timer := Some (next_id m)\<rparr>"
  let ?m = "m\<lparr>handles := H @ [next_id m], armed := A @ [(next_id m, Dev (pd_id d))], next_id := Suc (next_id m)\<rparr>"
  have "owned (put_pm_device ?d ?m) = set_owner (owned m) (Dev (pd_id d)) (Some (next_id m))"
    using assms(2,3,4) dev_owned_update [of ?d ds] by (auto simp: owned_def put_pm_device_def set_owner_Un)
  moreover have "\<forall>y\<in>set (written ?d ds). pd_id y < Suc (next_id m)"
    using v(3) assms(3,4) by (auto simp: less_Suc_eq)
  ultimately have "pm_inv (put_pm_device ?d ?m)"
    using n v assms(2) ids_written [of ?d ds] by (simp add: pm_inv_def put_pm_device_def del: map_map)
  then show ?thesis using c(1) by (simp add: pm_request_start_timer_def loop_timer_def)
qed

lemma find_dev:
  assumes "pm_inv m" "pm_conn_device_find addr m = Some (Some d)"
  obtains ds where "pm_devices m = Some ds" "d \<in> set ds"
  using assms by (auto simp: pm_conn_device_find_def pm_inv_def find_Some_iff)

lemma find_total: "pm_inv m \<Longrightarrow> \<exists>r. pm_conn_device_find addr m = Some r"
  by (auto simp: pm_conn_device_find_def pm_inv_def)

lemma inv_outs [simp]: "pm_inv (m\<lparr>pm_outs := os\<rparr>) = pm_inv m" "pm_inv (m\<lparr>last_profile_id := l\<rparr>) = pm_inv m"
  by (simp_all add: pm_inv_def owned_def)

lemma request_active_ok:
  assumes "pm_inv m"
  shows "\<exists>r m'. pm_request_active e addr m = Some (r, m') \<and> pm_inv m'"
proof -
  obtain dev where f: "pm_conn_device_find addr m = Some dev" using find_total [OF assms] by blast
  show ?thesis
  proof (cases dev)
    case (Some d)
    then obtain ds where ds: "pm_devices m = Some ds" "d \<in> set ds" using find_dev [OF assms] f by blast
    let ?m = "m\<lparr>pm_outs := pm_outs m @ [(addr, active_mode)]\<rparr>"
    obtain m' where "pm_request_start_timer (d\<lparr>pd_pending := True\<rparr>) ?m = Some m' \<and> pm_inv m'"
      using request_start_ok [of ?m ds d "d\<lparr>pd_pending := True\<rparr>"] ds assms by auto
    then show ?thesis using Some f assms by (auto simp: pm_request_active_def Let_def)
  qed (use f assms in \<open>auto simp: pm_request_active_def\<close>)
qed

lemma request_sniff_ok:
  assumes "pm_inv m"
  shows "\<exists>r m'. pm_request_sniff e addr i pid m = Some (r, m') \<and> pm_inv m'"
  using find_total [OF assms, of addr] assms by (auto simp: pm_request_sniff_def Let_def split: option.split)

lemma mode_request_ok:
  assumes "pm_inv m" "length addr = 6"
  shows "\<exists>m'. pm_mode_request e addr req pid m = Some m' \<and> pm_inv m'"
proof (cases "is_remote_connected e addr")
  case True
  obtain pref l where p: "pm_prefer_config addr pid m = Some (pref, m\<lparr>last_profile_id := l\<rparr>)"
    using assms(1) by (auto simp: pm_prefer_config_def pm_inv_def case_prod_beta)
  let ?m = "m\<lparr>last_profile_id := l\<rparr>"
  have i: "pm_inv ?m" using assms(1) by simp
  obtain r m1 where a: "pm_request_active e addr ?m = Some (r, m1)" "pm_inv m1" using request_active_ok [OF i] by blast
  obtain m2 where s: "pm_stop_timer addr ?m = Some m2" "pm_inv m2" "\<forall>t\<in>set (pm_timer m2). pt_active t \<longrightarrow> pt_addr t \<noteq> addr"
    using pm_stop_ok [OF i assms(2)] by blast
  have st: "\<exists>r m'. pm_start_timer addr x y m2 = Some (r, m') \<and> pm_inv m'" for x y using pm_start_ok [OF s(2) assms(2) s(3)] .
  have sn: "\<exists>r m'. pm_request_sniff e addr x y ?m = Some (r, m') \<and> pm_inv m'" for x y using request_sniff_ok [OF i] .
  show ?thesis
  proof (cases pref)
    case (Some q)
    show ?thesis
      using st [of "pf_profile q" "pf_mode q"] sn [of "unat (pf_mode q AND BT_PM_PREF_MODE_MASK)" "pf_profile q"] True p a s(1) i Some
      by (cases req) (auto simp: pm_mode_request_def)
  qed (use True p i in \<open>simp add: pm_mode_request_def\<close>)
qed (use pm_stop_ok [OF assms] in \<open>auto simp: pm_mode_request_def\<close>)

section \<open>Every operation keeps the invariant\<close>

lemma inv_services: "pm_inv m \<Longrightarrow> pm_inv (m\<lparr>pm_services := Some ss\<rparr>)"
  by (auto simp: pm_inv_def owned_def)

lemma notify_ok:
  assumes "pm_inv m" "length addr = 6"
  shows "\<exists>m'. pm_notify e state pid addr m = Some m' \<and> pm_inv m'"
proof -
  obtain ss where ss: "pm_services m = Some ss" using assms(1) by (auto elim!: pm_invD)
  have "\<exists>m'. pm_mode_request e addr BT_PM_RESTART pid (m\<lparr>pm_services := Some xs\<rparr>) = Some m' \<and> pm_inv m'" for xs
    using mode_request_ok [OF inv_services [OF assms(1)] assms(2)] by blast
  then show ?thesis using ss assms(1)
    by (auto simp: pm_notify_def bt_pm_hanlde_callback_def pm_conn_service_find_def pm_conn_service_add_def Let_def
        split: option.split)
qed

lemma link_mode_ok:
  assumes "pm_inv m" "length addr = 6"
  shows "\<exists>m'. bt_pm_remote_link_mode_changed e addr mode i m = Some m' \<and> pm_inv m'"
proof -
  obtain dev where f: "pm_conn_device_find addr m = Some dev" using find_total [OF assms(1)] by blast
  show ?thesis
  proof (cases dev)
    case (Some d)
    then obtain ds where ds: "pm_devices m = Some ds" "d \<in> set ds" using find_dev [OF assms(1)] f by blast
    let ?d = "d\<lparr>pd_interval := i, pd_mode := mode, pd_pending := False\<rparr>" and ?m = "put_pm_device (d\<lparr>pd_interval := i, pd_mode := mode, pd_pending := False\<rparr>) m"
    have iv: "pm_inv ?m" using put_inv [OF assms(1) ds, of ?d] by simp
    have dm: "pm_devices ?m = Some (written ?d ds)" using ds(1) by (simp add: put_pm_device_def)
    obtain m1 where s: "pm_stop_timer addr ?m = Some m1" "pm_inv m1" "pm_devices m1 = Some (written ?d ds)"
      using pm_stop_ok [OF iv assms(2)] dm by (auto simp: same_lists_def)
    have dw: "?d \<in> set (written ?d ds)" using ds(2) by force
    obtain m2 xs where r: "pm_request_stop_timer ?d m1 = Some m2" "pm_inv m2" "pm_devices m2 = Some xs"
      "?d\<lparr>pd_request_timer := None\<rparr> \<in> set xs"
      using request_stop_ok [OF s(2,3) dw refl refl] ds(2) by force
    have "pm_inv (put_pm_device (?d\<lparr>pd_request_timer := None, pd_immediate := False\<rparr>) m2)"
      by (rule put_inv [OF r(2-4)]) simp_all
    note sn = request_sniff_ok [OF this, of e addr 0 PROFILE_SPP]
    show ?thesis
      using mode_request_ok [OF r(2) assms(2), of e BT_PM_RESTART "last_profile_id m2"] sn s r iv f Some
      by (cases mode) (auto simp: bt_pm_remote_link_mode_changed_def Let_def)
  qed (use f assms in \<open>simp add: bt_pm_remote_link_mode_changed_def\<close>)
qed

lemma connected_ok: "pm_inv m \<Longrightarrow> \<exists>m'. bt_pm_remote_device_connected addr m = Some m' \<and> pm_inv m'"
proof -
  assume "pm_inv m"
  then obtain ds ss where v: "pm_devices m = Some ds" "pm_services m = Some ss" "distinct (map pd_id ds)" "\<forall>d\<in>set ds. pd_id d < next_id m"
    "ledger (set (handles m)) (owned m) (set (armed m)) (next_id m)" "slots_ok (pm_timer m)" by (rule pm_invD)
  let ?d = "\<lparr>pd_id = next_id m, pd_addr = addr, pd_mode = BT_LINK_MODE_ACTIVE, pd_pending = False,
    pd_interval = 0, pd_request_timer = None, pd_app_sniff = g_pm_mode ! 0, pd_immediate = False\<rparr>"
  let ?m = "m\<lparr>pm_devices := Some (ds @ [?d]), next_id := Suc (next_id m)\<rparr>"
  have "dev_owned (ds @ [?d]) = dev_owned ds" by (auto simp: dev_owned_def split: pm_userdata.splits)
  then have "owned ?m = owned m" using v(1) by (simp add: owned_def)
  then have "pm_inv ?m" using v ledger_shrink [OF v(5) order_refl, of "Suc (next_id m)"] by (auto simp: pm_inv_def less_Suc_eq)
  then show ?thesis using v(1) by (simp add: bt_pm_remote_device_connected_def pm_conn_device_add_def)
qed

lemma dev_owned_filter: "dev_owned (filter (\<lambda>x. pd_id x \<noteq> k) ds) = set_owner (dev_owned ds) (Dev k) None"
  by (auto simp: dev_owned_def set_owner_def split: pm_userdata.splits if_splits)

lemma device_remove_ok:
  assumes "pm_inv m" "pm_devices m = Some ds" "d \<in> set ds"
  shows "\<exists>m'. pm_conn_device_remove d m = Some m' \<and> pm_inv m'"
proof -
  let ?d = "d\<lparr>pd_request_timer := None\<rparr>"
  obtain m1 xs where r: "pm_request_stop_timer d m = Some m1" "pm_inv m1" "pm_devices m1 = Some xs" "?d \<in> set xs"
    using request_stop_ok [OF assms refl refl] assms(3) by force
  obtain ss where v: "pm_services m1 = Some ss" "distinct (map pd_id xs)" "\<forall>d\<in>set xs. pd_id d < next_id m1"
    "ledger (set (handles m1)) (owned m1) (set (armed m1)) (next_id m1)" "slots_ok (pm_timer m1)"
    using r(2,3) by (auto elim!: pm_invD)
  let ?ds = "filter (\<lambda>x. pd_id x \<noteq> pd_id d) xs"
  have "(h, Dev (pd_id d)) \<notin> owned m1" for h
    using owned_dev [OF r(3) v(2) r(4)] by simp
  then have "owned (m1\<lparr>pm_devices := Some ?ds\<rparr>) = owned m1"
    using r(3) set_owner_same [of "Dev (pd_id d)" "owned m1" None]
    by (simp add: owned_def dev_owned_filter set_owner_Un)
  then have "pm_inv (m1\<lparr>pm_devices := Some ?ds\<rparr>)" using v by (simp add: pm_inv_def distinct_map_filter)
  then show ?thesis using r by (simp add: pm_conn_device_remove_def)
qed

lemma disconnected_ok:
  assumes "pm_inv m" "length addr = 6"
  shows "\<exists>m'. bt_pm_remote_device_disconnected addr m = Some m' \<and> pm_inv m'"
proof -
  obtain dev where f: "pm_conn_device_find addr m = Some dev" using find_total [OF assms(1)] by blast
  show ?thesis
  proof (cases dev)
    case (Some d)
    then obtain ds where ds: "pm_devices m = Some ds" "d \<in> set ds" using find_dev [OF assms(1)] f by blast
    obtain m1 where s: "pm_stop_timer addr m = Some m1" "pm_inv m1" "pm_devices m1 = Some ds"
      using pm_stop_ok [OF assms] ds by (auto simp: same_lists_def)
    then show ?thesis using device_remove_ok [OF s(2,3) ds(2)] f Some by (simp add: bt_pm_remote_device_disconnected_def)
  qed (use f assms in \<open>simp add: bt_pm_remote_device_disconnected_def\<close>)
qed

lemma set_sniff_ok:
  assumes "pm_inv m"
  shows "\<exists>r m'. bt_pm_set_app_profile_sniff e addr p m = Some (r, m') \<and> pm_inv m'"
proof -
  obtain dev where f: "pm_conn_device_find addr m = Some dev" using find_total [OF assms(1)] by blast
  show ?thesis
  proof (cases dev)
    case (Some d)
    then obtain ds where ds: "pm_devices m = Some ds" "d \<in> set ds" using find_dev [OF assms(1)] f by blast
    let ?d = "d\<lparr>pd_app_sniff := (case p of None \<Rightarrow> g_pm_mode ! 0 | Some p \<Rightarrow> p)\<rparr>"
    have i: "pm_inv (put_pm_device (?d\<lparr>pd_immediate := b\<rparr>) m)" for b using put_inv [OF assms ds] by simp
    obtain r m' where "pm_request_active e addr (put_pm_device (?d\<lparr>pd_immediate := True\<rparr>) m) = Some (r, m') \<and> pm_inv m'"
      using request_active_ok [OF i] by blast
    then show ?thesis using f Some i by (auto simp: bt_pm_set_app_profile_sniff_def Let_def)
  qed (use f assms in \<open>auto simp: bt_pm_set_app_profile_sniff_def\<close>)
qed

lemma expire_ok:
  assumes "pm_inv m"
  shows "\<exists>m'. pm_expire e h m = Some m' \<and> pm_inv m'"
proof (cases "map_of (armed m) h")
  case (Some u)
  obtain ds ss where v: "pm_devices m = Some ds" "pm_services m = Some ss" "distinct (map pd_id ds)" "\<forall>d\<in>set ds. pd_id d < next_id m"
    "ledger (set (handles m)) (owned m) (set (armed m)) (next_id m)" "slots_ok (pm_timer m)" using assms by (rule pm_invD)
  have o: "(h, u) \<in> owned m" using map_of_SomeD [OF Some] v(5) by (auto simp: ledger_def)
  let ?m = "m\<lparr>armed := filter (\<lambda>x. fst x \<noteq> h) (armed m)\<rparr>"
  have i: "pm_inv ?m" using v ledger_shrink [OF v(5), of "{p \<in> set (armed m). fst p \<noteq> h}" "next_id m"] by (auto simp: pm_inv_def owned_def)
  show ?thesis
  proof (cases u)
    case (Slot k)
    let ?t = "pm_timer m ! k" and ?ts = "(pm_timer m)[k := (pm_timer m ! k)\<lparr>pt_active := False\<rparr>]"
    have k: "k < length (pm_timer m)" using o Slot by (simp add: owned_slot)
    then have a: "length (pt_addr ?t) = 6" using v(6) by (simp add: slots_ok_def)
    have "owned (?m\<lparr>pm_timer := ?ts\<rparr>) = set_owner (owned m) (Slot k) (pt_timer ?t)"
      using k v(1) by (simp add: owned_def slot_owned_update set_owner_Un)
    also have "\<dots> = owned m" using k by (intro set_owner_same) (simp add: owned_slot)
    finally have "owned (?m\<lparr>pm_timer := ?ts\<rparr>) = owned ?m" by (simp add: owned_def)
    then have "pm_inv (?m\<lparr>pm_timer := ?ts\<rparr>)"
      using i slots_ok_update [OF v(6), of "?t\<lparr>pt_active := False\<rparr>" k] a by (auto simp: pm_inv_def)
    from mode_request_ok [OF this a, of e BT_PM_EXECUTE "pt_profile ?t"] mode_request_ok [OF i a, of e BT_PM_EXECUTE "pt_profile ?t"]
    show ?thesis using Some Slot by (simp add: pm_expire_def pm_timeout_callback_def Let_def)
  next
    case (Dev k)
    then obtain d where d: "d \<in> set ds" "pd_id d = k" using o v(1) by (auto simp: owned_def slot_owned_def dev_owned_def)
    then obtain d' where f: "find (\<lambda>d. pd_id d = k) ds = Some d'" using find_None_iff [of "\<lambda>d. pd_id d = k" ds] by fastforce
    then have "d' \<in> set ds" by (auto simp: find_Some_iff)
    then have "pm_inv (put_pm_device (d'\<lparr>pd_pending := False\<rparr>) ?m)" using put_inv [OF i, of ds d'] v(1) by simp
    then show ?thesis using Some Dev v(1) f by (simp add: pm_expire_def pm_request_timeout_callback_def)
  qed
qed (use assms in \<open>simp add: pm_expire_def\<close>)

section \<open>Histories\<close>

fun pm_input_ok :: "pm_env \<times> pm_input \<Rightarrow> bool" where
  "pm_input_ok (e, Notify state pid addr) = (length addr = 6)"
| "pm_input_ok (e, LinkModeChanged addr mode i) = (length addr = 6)"
| "pm_input_ok (e, DeviceConnected addr) = (length addr = 6)"
| "pm_input_ok (e, DeviceDisconnected addr) = (length addr = 6)"
| "pm_input_ok (e, SetAppSniff addr p) = (length addr = 6)"
| "pm_input_ok (e, Expires h) = True"

definition pm_ok :: "bt_pm_manager option \<Rightarrow> bool" where
  "pm_ok s \<longleftrightarrow> (\<exists>m. s = Some m \<and> pm_inv m)"

lemma pm_step_ok: "pm_inv m \<Longrightarrow> pm_input_ok i \<Longrightarrow> pm_ok (pm_step (Some m) i)"
proof (cases i)
  case (Pair e x)
  assume "pm_inv m" "pm_input_ok i"
  then show ?thesis
    using Pair notify_ok link_mode_ok connected_ok disconnected_ok expire_ok set_sniff_ok [of m e]
    by (cases x) (fastforce simp: pm_ok_def)+
qed

interpretation pm_ev: event_machine pm_step pm_ok pm_input_ok
  by unfold_locales (auto simp: pm_ok_def [of "Some _"] intro: pm_step_ok dest: pm_ok_def [THEN iffD1])

lemma pm_init_inv: "pm_inv (bt_pm_init (zero_manager n))"
  by (auto simp: bt_pm_init_def zero_manager_def bt_pm_register_def pm_inv_def slots_ok_def owned_def slot_owned_def dev_owned_def
      ledger_def split: pm_userdata.splits)

section \<open>Properties\<close>

text \<open>C10. Between initialisation and cleanup no history of profile states, link reports, connections and
  expired timers makes the manager fault; the timers that are allocated are exactly those a slot or
  a device holds, so none leaks and none is cancelled twice; and no device has two active slots.\<close>

theorem pm_timers_safe:
  assumes "list_all pm_input_ok evs"
  shows "\<exists>m ds. foldl pm_step (Some (bt_pm_init (zero_manager n))) evs = Some m \<and> pm_devices m = Some ds \<and>
    (\<forall>h. h \<in> set (handles m) \<longleftrightarrow> (\<exists>t\<in>set (pm_timer m). pt_timer t = Some h) \<or> (\<exists>d\<in>set ds. pd_request_timer d = Some h)) \<and>
    (\<forall>i<length (pm_timer m). \<forall>j<length (pm_timer m).
       pt_active (pm_timer m ! i) \<and> pt_active (pm_timer m ! j) \<and> pt_addr (pm_timer m ! i) = pt_addr (pm_timer m ! j) \<longrightarrow> i = j)"
proof -
  have "pm_ok (foldl pm_step (Some (bt_pm_init (zero_manager n))) evs)"
    using assms pm_init_inv by (intro pm_ev.inv_run) (auto simp: pm_ok_def list_all_iff)
  then obtain m where m: "foldl pm_step (Some (bt_pm_init (zero_manager n))) evs = Some m" "pm_inv m" by (auto simp: pm_ok_def)
  obtain ds ss where v: "pm_devices m = Some ds" "pm_services m = Some ss" "distinct (map pd_id ds)" "\<forall>d\<in>set ds. pd_id d < next_id m"
    "ledger (set (handles m)) (owned m) (set (armed m)) (next_id m)" "slots_ok (pm_timer m)" using m(2) by (rule pm_invD)
  have "h \<in> set (handles m) \<longleftrightarrow> (\<exists>x. (h, x) \<in> owned m)" for h using v(5) by (simp add: ledger_def)
  moreover have "(\<exists>x. (h, x) \<in> owned m) \<longleftrightarrow> (\<exists>t\<in>set (pm_timer m). pt_timer t = Some h) \<or> (\<exists>d\<in>set ds. pd_request_timer d = Some h)" for h
  proof -
    have "(\<exists>x. (h, x) \<in> owned m) \<longleftrightarrow> (\<exists>i. (h, Slot i) \<in> owned m) \<or> (\<exists>k. (h, Dev k) \<in> owned m)" by (metis pm_userdata.exhaust)
    moreover have "(\<exists>i. (h, Slot i) \<in> owned m) \<longleftrightarrow> (\<exists>t\<in>set (pm_timer m). pt_timer t = Some h)"
      unfolding owned_slot by (metis in_set_conv_nth)
    moreover have "(\<exists>k. (h, Dev k) \<in> owned m) \<longleftrightarrow> (\<exists>d\<in>set ds. pd_request_timer d = Some h)"
      using v(1) by (auto simp: owned_def slot_owned_def dev_owned_def)
    ultimately show ?thesis by simp
  qed
  ultimately show ?thesis using m(1) v(1,6) by (auto simp: slots_ok_def)
qed

text \<open>What a service wishes for the link, with the table of its profile.\<close>

definition pm_wish :: "bt_pm_service \<Rightarrow> bt_pm_prefer_mode_t \<times> nat" where
  "pm_wish s = actn_tbl (the (pm_spec_of (s_profile s))) (s_state s)"

definition on_link :: "bt_address_t \<Rightarrow> bt_pm_service \<Rightarrow> bool" where
  "on_link addr s \<longleftrightarrow> bt_addr_compare (s_addr s) addr = 0"

lemma prefer_loop_spec:
  assumes "\<forall>s\<in>set ss. on_link addr s \<longrightarrow> pm_spec_of (s_profile s) \<noteq> None"
  shows "\<exists>p l. pm_prefer_loop addr pid ss acc l0 = (Some p, l) \<and>
    pf_mode p = fold max (map (\<lambda>s. fst (pm_wish s)) (filter (on_link addr) ss)) (pf_mode acc) \<and>
    (p = acc \<or> pf_taken p \<and> (\<exists>s\<in>set ss. on_link addr s \<and> s_profile s = pf_profile p \<and> pm_wish s = (pf_mode p, pf_timeout p)))"
  using assms
proof (induction ss arbitrary: acc l0)
  case (Cons s ss)
  have known: "\<forall>s\<in>set ss. on_link addr s \<longrightarrow> pm_spec_of (s_profile s) \<noteq> None" using Cons.prems by simp
  show ?case
  proof (cases "on_link addr s")
    case True
    then obtain tbl where tbl: "pm_spec_of (s_profile s) = Some tbl" using Cons.prems by auto
    obtain mode t where a: "actn_tbl tbl (s_state s) = (mode, t)" by fastforce
    then have w: "pm_wish s = (mode, t)" using tbl by (simp add: pm_wish_def)
    let ?take = "pf_mode acc < mode \<or> mode = pf_mode acc \<and> s_profile s = pid"
    let ?p = "\<lparr>pf_mode = mode, pf_timeout = t, pf_profile = s_profile s, pf_mask = allow_mask tbl, pf_taken = True\<rparr>"
    have step: "pm_prefer_loop addr pid (s # ss) acc l0 =
      (if ?take then pm_prefer_loop addr pid ss ?p (s_profile s) else pm_prefer_loop addr pid ss acc l0)"
      using True tbl a by (simp add: on_link_def)
    have m: "?take \<Longrightarrow> max mode (pf_mode acc) = mode" "\<not> ?take \<Longrightarrow> max mode (pf_mode acc) = pf_mode acc" by (auto simp: max_def)
    show ?thesis
    proof (cases ?take)
      case t: True
      obtain p l where "pm_prefer_loop addr pid ss ?p (s_profile s) = (Some p, l)"
        "pf_mode p = fold max (map (\<lambda>s. fst (pm_wish s)) (filter (on_link addr) ss)) mode"
        "p = ?p \<or> pf_taken p \<and> (\<exists>s\<in>set ss. on_link addr s \<and> s_profile s = pf_profile p \<and> pm_wish s = (pf_mode p, pf_timeout p))"
        using Cons.IH [of ?p "s_profile s"] known by fastforce
      then show ?thesis using step t m(1) w True by auto
    next
      case f: False
      obtain p l where "pm_prefer_loop addr pid ss acc l0 = (Some p, l)"
        "pf_mode p = fold max (map (\<lambda>s. fst (pm_wish s)) (filter (on_link addr) ss)) (pf_mode acc)"
        "p = acc \<or> pf_taken p \<and> (\<exists>s\<in>set ss. on_link addr s \<and> s_profile s = pf_profile p \<and> pm_wish s = (pf_mode p, pf_timeout p))"
        using Cons.IH [of acc l0] known by fastforce
      then show ?thesis using step f m(2) w True by auto
    qed
  next
    case False
    then have "pm_prefer_loop addr pid (s # ss) acc l0 = pm_prefer_loop addr pid ss acc l0" by (simp add: on_link_def)
    then show ?thesis using Cons.IH [of acc l0] Cons.prems False by auto
  qed
qed simp

lemma fold_max_zero:
  assumes "xs \<noteq> []"
  shows "fold max xs (0 :: u8) = Max (set xs)"
proof -
  obtain y ys where "xs = y # ys" using assms by (cases xs) auto
  moreover have "max y 0 = y" by (simp add: max_def)
  ultimately show ?thesis by (simp only: fold_simps comp_apply Max.set_eq_fold)
qed

abbreviation demo_peer :: bt_address_t where
  "demo_peer \<equiv> [1, 2, 3, 4, 5, 6]"

definition demo_pm_env :: pm_env where
  "demo_pm_env = \<lparr>is_remote_connected = (\<lambda>_. True), sal_power_mode = (\<lambda>_ _. BT_STATUS_SUCCESS)\<rparr>"

definition demo_pm :: "bt_pm_manager option" where
  "demo_pm = foldl pm_step (Some (bt_pm_init (zero_manager 2)))
     (map (Pair demo_pm_env) [DeviceConnected demo_peer, Notify BT_PM_STATE_CONN_OPEN PROFILE_A2DP demo_peer,
        Notify BT_PM_STATE_CONN_OPEN PROFILE_HFP_AG demo_peer])"

theorem pm_timers_safe_witness:
  "\<exists>m ds. demo_pm = Some m \<and> pm_devices m = Some ds \<and>
    (\<forall>h. h \<in> set (handles m) \<longleftrightarrow> (\<exists>t\<in>set (pm_timer m). pt_timer t = Some h) \<or> (\<exists>d\<in>set ds. pd_request_timer d = Some h))"
  using pm_timers_safe [where n = 2 and evs = "map (Pair demo_pm_env) [DeviceConnected demo_peer,
    Notify BT_PM_STATE_CONN_OPEN PROFILE_A2DP demo_peer, Notify BT_PM_STATE_CONN_OPEN PROFILE_HFP_AG demo_peer]"]
  unfolding demo_pm_def by force

text \<open>C31. The mode that is chosen for a link is the strongest any of its services wishes, in the order no
  action, no preference, sniff modes, active; and the timeout and profile it comes with are those of
  a service that wishes it.\<close>

theorem pm_prefers_strongest:
  assumes "pm_services m = Some ss" "\<forall>s\<in>set ss. on_link addr s \<longrightarrow> pm_spec_of (s_profile s) \<noteq> None"
    and "pm_prefer_config addr pid m = Some (Some p, m')"
  shows "pf_mode p = Max ((fst \<circ> pm_wish) ` {s \<in> set ss. on_link addr s}) \<and>
    (\<exists>s\<in>set ss. on_link addr s \<and> s_profile s = pf_profile p \<and> pm_wish s = (pf_mode p, pf_timeout p))"
proof -
  have none: "pf_mode no_preference = 0" by (simp add: no_preference_def)
  obtain q l where q: "pm_prefer_loop addr pid ss no_preference (last_profile_id m) = (Some q, l)"
    "pf_mode q = fold max (map (\<lambda>s. fst (pm_wish s)) (filter (on_link addr) ss)) 0"
    "q = no_preference \<or> pf_taken q \<and> (\<exists>s\<in>set ss. on_link addr s \<and> s_profile s = pf_profile q \<and> pm_wish s = (pf_mode q, pf_timeout q))"
    using prefer_loop_spec [OF assms(2), of pid no_preference "last_profile_id m"] unfolding none by blast
  have p: "p = q" "pf_taken q" using assms(1,3) q(1) by (auto simp: pm_prefer_config_def split: if_splits)
  then have s: "\<exists>s\<in>set ss. on_link addr s \<and> s_profile s = pf_profile q \<and> pm_wish s = (pf_mode q, pf_timeout q)"
    using q(3) by (auto simp: no_preference_def)
  then have "map (\<lambda>s. fst (pm_wish s)) (filter (on_link addr) ss) \<noteq> []" by (auto simp: filter_empty_conv)
  then have "pf_mode q = Max (set (map (\<lambda>s. fst (pm_wish s)) (filter (on_link addr) ss)))" using q(2) fold_max_zero by simp
  then show ?thesis using s p by (simp add: image_comp comp_def)
qed

theorem pm_prefers_strongest_witness:
  "let ss = [\<lparr>s_profile = PROFILE_A2DP, s_state = BT_PM_STATE_CONN_BUSY, s_addr = demo_peer\<rparr>,
             \<lparr>s_profile = PROFILE_SPP, s_state = BT_PM_STATE_CONN_IDLE, s_addr = demo_peer\<rparr>]
   in case pm_prefer_config demo_peer PROFILE_SPP ((zero_manager 2)\<lparr>pm_services := Some ss\<rparr>) of
        Some (Some p, _) \<Rightarrow> pf_mode p = BT_PM_ACTIVE \<and> pf_mode p = Max ((fst \<circ> pm_wish) ` {s \<in> set ss. on_link demo_peer s})
      | _ \<Rightarrow> False"
proof -
  let ?ss = "[\<lparr>s_profile = PROFILE_A2DP, s_state = BT_PM_STATE_CONN_BUSY, s_addr = demo_peer\<rparr>,
             \<lparr>s_profile = PROFILE_SPP, s_state = BT_PM_STATE_CONN_IDLE, s_addr = demo_peer\<rparr>]"
  let ?m = "(zero_manager 2)\<lparr>pm_services := Some ?ss\<rparr>"
  have "case pm_prefer_config demo_peer PROFILE_SPP ?m of Some (Some p, _) \<Rightarrow> pf_mode p = BT_PM_ACTIVE | _ \<Rightarrow> False" by code_simp
  then obtain p m' where p: "pm_prefer_config demo_peer PROFILE_SPP ?m = Some (Some p, m')" "pf_mode p = BT_PM_ACTIVE"
    by (auto split: option.splits)
  have "\<forall>s\<in>set ?ss. on_link demo_peer s \<longrightarrow> pm_spec_of (s_profile s) \<noteq> None" by (simp add: pm_spec_of_def g_pm_cfg_def)
  from pm_prefers_strongest [OF _ this p(1)] p show ?thesis by (simp add: Let_def)
qed

text \<open>What a mode request leaves alone: the services.\<close>

lemma cancel_services: "loop_cancel t m = Some m' \<Longrightarrow> pm_services m' = pm_services m"
  by (auto simp: loop_cancel_def split: option.splits if_splits)

lemma stop_services: "pm_stop_loop addr i n m = Some m' \<Longrightarrow> pm_services m' = pm_services m"
proof (induction addr i n m rule: pm_stop_loop.induct)
  case (2 addr i n m)
  then show ?case
    by (auto simp: Let_def split: if_splits bind_splits dest!: cancel_services)
qed simp

lemma request_services:
  "pm_request_active e addr m = Some (r, m') \<Longrightarrow> pm_services m' = pm_services m"
  "pm_request_sniff e addr i pid m = Some (r, m') \<Longrightarrow> pm_services m' = pm_services m"
  "pm_start_timer addr pid act m = Some (b, m') \<Longrightarrow> pm_services m' = pm_services m"
  by (auto simp: pm_request_active_def pm_request_sniff_def pm_start_timer_def pm_request_start_timer_def loop_timer_def
      put_pm_device_def Let_def split: option.splits if_splits bind_splits dest!: cancel_services)

lemma mode_request_services: "pm_mode_request e addr req pid m = Some m' \<Longrightarrow> pm_services m' = pm_services m"
  by (cases req)
    (auto simp: pm_mode_request_def pm_stop_timer_def pm_prefer_config_def Let_def
      split: if_splits option.splits bind_splits prod.splits dest!: stop_services request_services)

lemma check_known: "pm_spec_of pid \<noteq> None \<Longrightarrow> pm_check_prefer_action pid"
  by (auto simp: pm_check_prefer_action_def pm_spec_of_def g_pm_cfg_def g_pm_spec_def split: if_splits)

text \<open>Closing a service does not take it off the list: the check reads the action of the open state,
  which is a preference in every table, so the closed service stays registered for its device.\<close>

theorem pm_close_keeps_service:
  assumes "pm_inv m" "pm_callback m" "length addr = 6" "pm_spec_of pid \<noteq> None"
  shows "\<exists>m' ss. bt_pm_conn_close e pid addr m = Some m' \<and> pm_services m' = Some ss \<and>
    (\<exists>s\<in>set ss. s_profile s = pid \<and> on_link addr s \<and> s_state s = BT_PM_STATE_CONN_CLOSE)"
proof -
  obtain ss where ss: "pm_services m = Some ss" using assms(1) by (auto elim!: pm_invD)
  let ?P = "\<lambda>s. s_profile s = pid \<and> bt_addr_compare (s_addr s) addr = 0"
  let ?ss = "case find ?P ss of None \<Rightarrow> ss @ [\<lparr>s_profile = pid, s_state = BT_PM_STATE_CONN_CLOSE, s_addr = addr\<rparr>]
    | Some _ \<Rightarrow> update_first ?P (\<lambda>s. s\<lparr>s_state := BT_PM_STATE_CONN_CLOSE\<rparr>) ss"
  have eq: "bt_pm_conn_close e pid addr m = pm_mode_request e addr BT_PM_RESTART pid (m\<lparr>pm_services := Some ?ss\<rparr>)"
    using ss assms(2) check_known [OF assms(4)]
    by (auto simp: bt_pm_conn_close_def pm_notify_def bt_pm_hanlde_callback_def pm_conn_service_find_def pm_conn_service_add_def
        split: option.split)
  obtain m' where m': "bt_pm_conn_close e pid addr m = Some m'" using notify_ok [OF assms(1,3), of e BT_PM_STATE_CONN_CLOSE pid] by (auto simp: bt_pm_conn_close_def)
  then have "pm_services m' = Some ?ss" using eq mode_request_services by fastforce
  moreover have "\<exists>s\<in>set ?ss. s_profile s = pid \<and> on_link addr s \<and> s_state s = BT_PM_STATE_CONN_CLOSE"
  proof (cases "find ?P ss")
    case None
    then show ?thesis by (simp add: on_link_def bt_addr_compare_def memcmp_eq_0)
  next
    case (Some s)
    have "find ?P (update_first ?P (\<lambda>s. s\<lparr>s_state := BT_PM_STATE_CONN_CLOSE\<rparr>) ss) = Some (s\<lparr>s_state := BT_PM_STATE_CONN_CLOSE\<rparr>)"
      using Some by (simp add: find_update_first)
    then have "s\<lparr>s_state := BT_PM_STATE_CONN_CLOSE\<rparr> \<in> set (update_first ?P (\<lambda>s. s\<lparr>s_state := BT_PM_STATE_CONN_CLOSE\<rparr>) ss)"
      "?P (s\<lparr>s_state := BT_PM_STATE_CONN_CLOSE\<rparr>)" using find_Some_in by fast+
    then show ?thesis using Some by (auto simp: on_link_def intro!: bexI [of _ "s\<lparr>s_state := BT_PM_STATE_CONN_CLOSE\<rparr>"])
  qed
  ultimately show ?thesis using m' by blast
qed

theorem pm_close_keeps_service_witness:
  "\<exists>m' ss. bt_pm_conn_close demo_pm_env PROFILE_SPP demo_peer (bt_pm_init (zero_manager 2)) = Some m' \<and> pm_services m' = Some ss \<and>
    (\<exists>s\<in>set ss. s_profile s = PROFILE_SPP \<and> on_link demo_peer s \<and> s_state s = BT_PM_STATE_CONN_CLOSE)"
  by (rule pm_close_keeps_service [OF pm_init_inv])
    (simp_all add: bt_pm_init_def zero_manager_def bt_pm_register_def pm_spec_of_def g_pm_cfg_def)

text \<open>C32. Cleaning up leaves the timers running: a slot timer that expires afterwards, while its device is
  still connected, walks the list whose head has been unlinked, and a device that connects then is
  added to such a list.\<close>

theorem pm_cleanup_leaves_timers:
  assumes "pm_inited m" "map_of (armed m) h = Some (Slot i)" "is_remote_connected e (pt_addr (pm_timer m ! i))"
  shows "pm_expire e h (bt_pm_cleanup m) = None \<and> bt_pm_remote_device_connected addr (bt_pm_cleanup m) = None"
  using assms
  by (simp add: pm_expire_def bt_pm_cleanup_def bt_pm_unregister_def pm_timeout_callback_def pm_mode_request_def
      pm_prefer_config_def bt_pm_remote_device_connected_def pm_conn_device_add_def Let_def)

theorem pm_cleanup_leaves_timers_witness:
  "\<exists>m h. demo_pm = Some m \<and> h \<in> set (handles m) \<and> pm_expire demo_pm_env h (bt_pm_cleanup m) = None"
proof -
  have "case demo_pm of None \<Rightarrow> False
    | Some m \<Rightarrow> pm_inited m \<and> handles m = [3] \<and> map_of (armed m) 3 = Some (Slot 0)" by code_simp
  then obtain m where m: "demo_pm = Some m" "pm_inited m" "handles m = [3]" "map_of (armed m) 3 = Some (Slot 0)"
    by (auto split: option.splits)
  then show ?thesis using pm_cleanup_leaves_timers [OF m(2,4), of demo_pm_env demo_peer] by (auto simp: demo_pm_env_def)
qed

end
