(* ===== verification/Adv_Data.thy ===== *)
theory Adv_Data
  imports Bt_Types
begin

text \<open>
  Advertising data in both directions. framework/common/advertiser_data.c builds the payload of an
  advertisement from AD structures (length, type, bytes) and advertiser_data_helper.c walks such a
  payload; service/src/scan_record.c and scan_filter.c read the payload of a received report and
  match it with the filter of a scanner; framework/common/bt_hash.c is the hash by which the scan
  manager recognises a report it has already passed on.
  A list element is the block that was allocated for it, and an access outside a block or a buffer
  is the result \<open>None\<close>, as is a write through the result of a failed \<open>malloc\<close> (the flag \<open>mem\<close> says
  that the allocations of a call succeed). The lemmas relate what is built to what a reader finds.
\<close>

unbundle bit_operations_syntax

section \<open>AD structures\<close>

abbreviation (input) BT_AD_FLAGS :: u8 where "BT_AD_FLAGS \<equiv> 0x01"
abbreviation (input) BT_AD_UUID16_ALL :: u8 where "BT_AD_UUID16_ALL \<equiv> 0x03"
abbreviation (input) BT_AD_UUID32_ALL :: u8 where "BT_AD_UUID32_ALL \<equiv> 0x05"
abbreviation (input) BT_AD_UUID128_ALL :: u8 where "BT_AD_UUID128_ALL \<equiv> 0x07"
abbreviation (input) BT_AD_NAME_SHORT :: u8 where "BT_AD_NAME_SHORT \<equiv> 0x08"
abbreviation (input) BT_AD_NAME_COMPLETE :: u8 where "BT_AD_NAME_COMPLETE \<equiv> 0x09"
abbreviation (input) BT_AD_SERVICE_DATA16 :: u8 where "BT_AD_SERVICE_DATA16 \<equiv> 0x16"
abbreviation (input) BT_AD_GAP_APPEARANCE :: u8 where "BT_AD_GAP_APPEARANCE \<equiv> 0x19"
abbreviation (input) BT_AD_SERVICE_DATA32 :: u8 where "BT_AD_SERVICE_DATA32 \<equiv> 0x20"
abbreviation (input) BT_AD_SERVICE_DATA128 :: u8 where "BT_AD_SERVICE_DATA128 \<equiv> 0x21"
abbreviation (input) BT_AD_MANUFACTURER_DATA :: u8 where "BT_AD_MANUFACTURER_DATA \<equiv> 0xff"
abbreviation (input) BT_LE_AD_NAME_LEN :: u8 where "BT_LE_AD_NAME_LEN \<equiv> 29"

text \<open>\<open>ad_data\<close> is all the memory the block has behind its two header bytes.\<close>

record adv_data =
  ad_len :: u8
  ad_type :: u8
  ad_data :: "u8 list"

definition ad_block :: "adv_data \<Rightarrow> u8 list" where
  "ad_block d = ad_len d # ad_type d # ad_data d"

text \<open>The pointer \<open>buffer\<close>: null, a live block, or a block that has been freed.\<close>

datatype ad_buffer = No_buffer | Live "u8 list" | Freed

record advertiser_data =
  ad_list :: "adv_data list"
  ad_buffer :: ad_buffer

definition free_buffer :: "advertiser_data \<Rightarrow> advertiser_data option" where
  "free_buffer ad =
     (case ad_buffer ad of No_buffer \<Rightarrow> Some ad | Live _ \<Rightarrow> Some (ad\<lparr>ad_buffer := Freed\<rparr>) | Freed \<Rightarrow> None)"

definition advertiser_data_calc_len :: "adv_data \<Rightarrow> u16 \<Rightarrow> u16" where
  "advertiser_data_calc_len d n = n + (ucast (ad_len d) + 1)"

definition advertiser_data_new :: "bool \<Rightarrow> advertiser_data option" where
  "advertiser_data_new mem = (if mem then Some \<lparr>ad_list = [], ad_buffer = No_buffer\<rparr> else None)"

definition advertiser_data_free :: "advertiser_data \<Rightarrow> unit option" where
  "advertiser_data_free ad = do { _ \<leftarrow> free_buffer ad; Some () }"

text \<open>The copying loop into a buffer of \<open>room\<close> bytes, of which \<open>out\<close> are written.\<close>

fun build_copy :: "nat \<Rightarrow> adv_data list \<Rightarrow> u8 list \<Rightarrow> u8 list option" where
  "build_copy room [] out = Some out"
| "build_copy room (d # ds) out =
     (let n = unat (ad_len d) + 1
      in if length (ad_block d) < n \<or> room < length out + n then None
         else build_copy room ds (out @ take n (ad_block d)))"

text \<open>The result is the returned buffer (\<open>None\<close> for the null pointer) with the reported length.\<close>

definition advertiser_data_build :: "bool \<Rightarrow> advertiser_data \<Rightarrow> ((u8 list \<times> u16) option \<times> advertiser_data) option" where
  "advertiser_data_build mem ad =
     do { ad \<leftarrow> free_buffer ad;
          if ad_list ad = [] then Some (None, ad)
          else let total_len = fold advertiser_data_calc_len (ad_list ad) 0
               in if \<not> mem then None
                  else do { out \<leftarrow> build_copy (unat total_len) (ad_list ad) [];
                            Some (Some (out, total_len), ad\<lparr>ad_buffer := Live out\<rparr>) } }"

definition add_structure :: "bool \<Rightarrow> advertiser_data \<Rightarrow> u8 \<Rightarrow> u8 \<Rightarrow> u8 list \<Rightarrow> advertiser_data option" where
  "add_structure mem ad l t bytes =
     (if mem then Some (ad\<lparr>ad_list := ad_list ad @ [\<lparr>ad_len = l, ad_type = t, ad_data = bytes\<rparr>]\<rparr>) else None)"

text \<open>The length of the name is kept in a \<open>uint8_t\<close>; the block is zeroed and sized by the length before it
  is cut.\<close>

definition advertiser_data_set_name :: "bool \<Rightarrow> advertiser_data \<Rightarrow> string \<Rightarrow> advertiser_data option" where
  "advertiser_data_set_name mem ad name =
     (let name_len = of_nat (length name) :: u8;
          room = unat name_len + 1;
          (cut, t) = (if BT_LE_AD_NAME_LEN < name_len then (BT_LE_AD_NAME_LEN, BT_AD_NAME_SHORT) else (name_len, BT_AD_NAME_COMPLETE))
      in add_structure mem ad (cut + 1) t
           (map of_char (take (unat cut) name) @ replicate (room - unat cut) 0))"

definition advertiser_data_set_flags :: "bool \<Rightarrow> advertiser_data \<Rightarrow> u8 \<Rightarrow> advertiser_data option" where
  "advertiser_data_set_flags mem ad flags = add_structure mem ad 2 BT_AD_FLAGS [flags]"

definition advertiser_data_set_appearance :: "bool \<Rightarrow> advertiser_data \<Rightarrow> u16 \<Rightarrow> advertiser_data option" where
  "advertiser_data_set_appearance mem ad appearance =
     add_structure mem ad 3 BT_AD_GAP_APPEARANCE (UINT16_TO_STREAM appearance)"

text \<open>The caller's \<open>data\<close> has \<open>len\<close> bytes; here and below the list is the bytes it passes.\<close>

definition advertiser_data_add_data :: "bool \<Rightarrow> advertiser_data \<Rightarrow> u8 \<Rightarrow> u8 list \<Rightarrow> u8 \<Rightarrow> advertiser_data option" where
  "advertiser_data_add_data mem ad t data len =
     (if length data < unat len then None else add_structure mem ad len t (take (unat len) data))"

definition advertiser_data_remove_data :: "advertiser_data \<Rightarrow> u8 \<Rightarrow> u8 list \<Rightarrow> u8 \<Rightarrow> advertiser_data" where
  "advertiser_data_remove_data ad t data len = ad"

definition advertiser_data_add_manufacture_data ::
  "bool \<Rightarrow> advertiser_data \<Rightarrow> u16 \<Rightarrow> u8 list \<Rightarrow> u8 \<Rightarrow> advertiser_data option" where
  "advertiser_data_add_manufacture_data mem ad manufacture_id data len =
     (if length data < unat len then None
      else add_structure mem ad (len + 2 + 1) BT_AD_MANUFACTURER_DATA (UINT16_TO_STREAM manufacture_id @ take (unat len) data))"

text \<open>The 16 bytes of the union \<open>val\<close> of a 32-bit UUID on a little-endian machine; \<open>junk\<close> is what the other
  twelve hold. The case of a 32-bit UUID has no \<open>break\<close>: its block is dropped and the case of a 128-bit
  UUID runs.\<close>

definition advertiser_data_add_service_uuid ::
  "bool \<Rightarrow> u8 list \<Rightarrow> advertiser_data \<Rightarrow> bt_uuid_t \<Rightarrow> (bool \<times> advertiser_data) option" where
  "advertiser_data_add_service_uuid mem junk ad uuid =
     (let uuid128 = (\<lambda>val. map_option (Pair True) (add_structure mem ad (16 + 1) BT_AD_UUID128_ALL (take 16 val)))
      in case uuid of
           BT_UUID16 u \<Rightarrow> map_option (Pair True) (add_structure mem ad (2 + 1) BT_AD_UUID16_ALL (UINT16_TO_STREAM u))
         | BT_UUID32 u \<Rightarrow> uuid128 (UINT32_TO_STREAM u @ junk)
         | BT_UUID128 val \<Rightarrow> uuid128 val
         | BT_UUID_NONE _ \<Rightarrow> Some (False, ad))"

definition advertiser_data_add_service_data ::
  "bool \<Rightarrow> u8 list \<Rightarrow> advertiser_data \<Rightarrow> bt_uuid_t \<Rightarrow> u8 list \<Rightarrow> u8 \<Rightarrow> (bool \<times> advertiser_data) option" where
  "advertiser_data_add_service_data mem junk ad uuid data len =
     (let bytes = take (unat len) data;
          uuid128 = (\<lambda>val. map_option (Pair True) (add_structure mem ad (16 + 1) BT_AD_SERVICE_DATA128 (take 16 val @ bytes)))
      in if length data < unat len then None
         else case uuid of
           BT_UUID16 u \<Rightarrow> map_option (Pair True) (add_structure mem ad (2 + 1) BT_AD_SERVICE_DATA16 (UINT16_TO_STREAM u @ bytes))
         | BT_UUID32 u \<Rightarrow> uuid128 (UINT32_TO_STREAM u @ junk)
         | BT_UUID128 val \<Rightarrow> uuid128 val
         | BT_UUID_NONE _ \<Rightarrow> Some (False, ad))"

section \<open>Readers of a payload\<close>

text \<open>\<open>advertiser_data_dump\<close> as the list of the structures it prints; the offset is a \<open>uint16_t\<close>.\<close>

definition advertiser_data_info :: "u8 list \<Rightarrow> (u8 \<times> u8 list) list option" where
  "advertiser_data_info p =
     (case p of
        [] \<Rightarrow> None
      | l # p \<Rightarrow> if l < 1 then Some []
                 else if length p < unat l then None
                 else Some [(hd p, take (unat l - 1) (tl p))])"

partial_function (option) dump_loop :: "u8 list \<Rightarrow> u16 \<Rightarrow> u16 \<Rightarrow> (u8 \<times> u8 list) list \<Rightarrow> (u8 \<times> u8 list) list option" where
  "dump_loop data len offset out =
     (if offset < len
      then do { shown \<leftarrow> advertiser_data_info (drop (unat offset) data);
                dump_loop data len (offset + (ucast (data ! unat offset) + 1)) (out @ shown) }
      else Some out)"

definition advertiser_data_dump :: "u8 list \<Rightarrow> u16 \<Rightarrow> (u8 \<times> u8 list) list option" where
  "advertiser_data_dump data len = dump_loop data len 0 []"

abbreviation (input) BT_EIR_UUID16_INCOMPLETE :: u8 where "BT_EIR_UUID16_INCOMPLETE \<equiv> 0x02"
abbreviation (input) BT_EIR_UUID16_COMPLETE :: u8 where "BT_EIR_UUID16_COMPLETE \<equiv> 0x03"
abbreviation (input) BT_EIR_SVC_DATA_16 :: u8 where "BT_EIR_SVC_DATA_16 \<equiv> 0x16"

text \<open>The fields of \<open>scan_record_t\<close> that the code writes.\<close>

record scan_record =
  sr_active :: bool
  sr_uuid :: u16

definition record_parse_uuid16 :: "scan_record \<Rightarrow> u8 list \<Rightarrow> scan_record option" where
  "record_parse_uuid16 record data = do { (u, _) \<leftarrow> STREAM_TO_UINT16 data; Some (record\<lparr>sr_uuid := u\<rparr>) }"

text \<open>\<open>eir_len\<close> is a \<open>uint8_t\<close>, so \<open>len\<close> stays below 512 and does not wrap; \<open>p\<close> is the buffer from the
  current structure on.\<close>

fun record_parse_loop :: "nat \<Rightarrow> nat \<Rightarrow> u8 list \<Rightarrow> scan_record \<Rightarrow> scan_record option" where
  "record_parse_loop eir_len len [] record = (if int len < int eir_len - 1 then None else Some record)"
| "record_parse_loop eir_len len (field_len # p) record =
     (if \<not> int len < int eir_len - 1 then Some record
      else if field_len = 0 then Some record
      else let len = len + unat field_len + 1
           in if eir_len < len then Some record
              else if p = [] then None
              else do { record \<leftarrow> (if hd p \<in> {BT_EIR_UUID16_INCOMPLETE, BT_EIR_UUID16_COMPLETE, BT_EIR_SVC_DATA_16} \<and> 2 \<le> unat field_len - 1
                                    then record_parse_uuid16 record (tl p) else Some record);
                        record_parse_loop eir_len len (drop (unat field_len) p) record })"

definition scan_record_parse :: "scan_record \<Rightarrow> u8 list option \<Rightarrow> u8 \<Rightarrow> scan_record option" where
  "scan_record_parse record eir_data eir_len =
     (case eir_data of None \<Rightarrow> Some record | Some p \<Rightarrow> record_parse_loop (unat eir_len) 0 p record)"

record ble_scan_filter =
  sf_duration :: u32
  sf_period :: u32
  sf_uuids :: "u16 list"
  sf_active :: bool
  sf_duplicated :: bool

definition match_uuid :: "u16 \<Rightarrow> u16 list \<Rightarrow> bool" where
  "match_uuid uuid uuids \<longleftrightarrow> list_ex (\<lambda>u. u \<noteq> 0 \<and> uuid = u) uuids"

definition scanner_match_filter :: "scan_record \<Rightarrow> ble_scan_filter \<Rightarrow> bool" where
  "scanner_match_filter record filt \<longleftrightarrow> sr_uuid record \<noteq> 0 \<and> match_uuid (sr_uuid record) (sf_uuids filt)"

section \<open>The hash of a report\<close>

definition HASH4 :: "u32 \<times> u8 list \<Rightarrow> (u32 \<times> u8 list) option" where
  "HASH4 s = (case snd s of [] \<Rightarrow> None | b # key \<Rightarrow> Some (push_bit 5 (fst s) + fst s + ucast b, key))"

text \<open>Falling through the cases from \<open>case k\<close> down to \<open>case 1\<close>, where \<open>case 0\<close> is the top of the body, and
  the loop that surrounds them: after \<open>--loop\<close> it starts again from the top.\<close>

primrec hash4_cases :: "nat \<Rightarrow> u32 \<times> u8 list \<Rightarrow> (u32 \<times> u8 list) option" where
  "hash4_cases 0 s = Some s"
| "hash4_cases (Suc k) s = do { s \<leftarrow> HASH4 s; hash4_cases k s }"

primrec hash4_loop :: "nat \<Rightarrow> nat \<Rightarrow> u32 \<times> u8 list \<Rightarrow> (u32 \<times> u8 list) option" where
  "hash4_loop 0 entry s = None"
| "hash4_loop (Suc rounds) entry s =
     do { s \<leftarrow> hash4_cases (if entry = 0 then 8 else entry) s;
          if rounds = 0 then Some s else hash4_loop rounds 0 s }"

definition bt_hash4 :: "u8 list \<Rightarrow> nat \<Rightarrow> u32 option" where
  "bt_hash4 key len =
     (if 0 < len then map_option fst (hash4_loop ((len + 8 - 1) div 8) (len mod 8) (0, key)) else Some 0)"

section \<open>The hash folds the bytes\<close>

lemma HASH4_simps [simp]: "HASH4 (h, []) = None" "HASH4 (h, b # key) = Some (h * 33 + ucast b, key)"
proof -
  have "push_bit 5 h + h = h * 33" by (simp add: push_bit_eq_mult)
  then show "HASH4 (h, []) = None" "HASH4 (h, b # key) = Some (h * 33 + ucast b, key)" by (simp_all add: HASH4_def)
qed

abbreviation hash4_fold :: "u32 \<Rightarrow> u8 list \<Rightarrow> u32" where
  "hash4_fold \<equiv> foldl (\<lambda>h b. h * 33 + ucast b)"

lemma hash4_cases_fold: "k \<le> length key \<Longrightarrow> hash4_cases k (h, key) = Some (hash4_fold h (take k key), drop k key)"
proof (induction k arbitrary: h key)
  case (Suc k)
  then obtain b key' where "key = b # key'" by (cases key) auto
  with Suc show ?case by simp
qed simp

lemma hash4_loop_fold:
  assumes "n = (if entry = 0 then 8 else entry) + 8 * rounds" "n \<le> length key"
  shows "hash4_loop (Suc rounds) entry (h, key) = Some (hash4_fold h (take n key), drop n key)"
  using assms
proof (induction rounds arbitrary: entry n h key)
  case 0
  then show ?case by (simp add: hash4_cases_fold split: if_splits)
next
  case (Suc rounds)
  let ?k = "if entry = 0 then 8 else entry"
  have k: "?k \<le> length key" "n - ?k = 8 + 8 * rounds" "n = ?k + (n - ?k)" using Suc.prems by auto
  have "hash4_loop (Suc (Suc rounds)) entry (h, key) = hash4_loop (Suc rounds) 0 (hash4_fold h (take ?k key), drop ?k key)"
    unfolding hash4_loop.simps(2) [of "Suc rounds"] hash4_cases_fold [OF k(1)] by simp
  also have "\<dots> = Some (hash4_fold (hash4_fold h (take ?k key)) (take (n - ?k) (drop ?k key)), drop (n - ?k) (drop ?k key))"
    using Suc.prems k by (intro Suc.IH) auto
  also have "hash4_fold (hash4_fold h (take ?k key)) (take (n - ?k) (drop ?k key)) = hash4_fold h (take n key)"
    by (metis k(3) take_add foldl_append)
  also have "drop (n - ?k) (drop ?k key) = drop n key" using k(3) by (simp add: add.commute)
  finally show ?case .
qed

text \<open>C33. The unrolled loop of \<open>bt_hash4\<close>, which jumps into the middle of its body, computes the plain fold
  \<open>h * 33 + byte\<close> over the first \<open>len\<close> bytes and reads none beyond them.\<close>

theorem bt_hash4_folds:
  assumes "len \<le> length key"
  shows "bt_hash4 key len = Some (foldl (\<lambda>h b. h * 33 + ucast b) 0 (take len key))"
proof (cases "len = 0")
  case False
  define rounds where "rounds = (len - 1) div 8"
  have "(len + 8 - 1) div 8 = Suc rounds" unfolding rounds_def using False by (cases len) simp_all
  moreover have "len = (if len mod 8 = 0 then 8 else len mod 8) + 8 * rounds" unfolding rounds_def using False
    by (cases len) (simp_all add: mod_Suc, metis mod_div_decomp mult.commute add.commute)
  ultimately show ?thesis using False assms hash4_loop_fold [of len "len mod 8" rounds key 0] by (simp add: bt_hash4_def)
qed (simp add: bt_hash4_def)

theorem bt_hash4_folds_witness: "bt_hash4 [1, 2, 3, 4, 5, 6, 7, 8, 9, 10, 11] 10 = Some (foldl (\<lambda>h b. h * 33 + ucast b) 0 [1 :: u8, 2, 3, 4, 5, 6, 7, 8, 9, 10])"
  using bt_hash4_folds [of 10 "[1, 2, 3, 4, 5, 6, 7, 8, 9, 10, 11]"] by simp

section \<open>Building and reading back\<close>

text \<open>The calls of the builder, and what each is meant to put into the payload.\<close>

datatype ad_op =
    Set_name string | Set_flags u8 | Set_appearance u16 | Add_manufacture u16 "u8 list" | Add_service_uuid bt_uuid_t

fun ad_apply :: "ad_op \<Rightarrow> advertiser_data \<Rightarrow> advertiser_data option" where
  "ad_apply (Set_name name) ad = advertiser_data_set_name True ad name"
| "ad_apply (Set_flags flags) ad = advertiser_data_set_flags True ad flags"
| "ad_apply (Set_appearance a) ad = advertiser_data_set_appearance True ad a"
| "ad_apply (Add_manufacture i data) ad = advertiser_data_add_manufacture_data True ad i data (of_nat (length data))"
| "ad_apply (Add_service_uuid uuid) ad = map_option snd (advertiser_data_add_service_uuid True (replicate 12 0) ad uuid)"

fun ad_meaning :: "ad_op \<Rightarrow> u8 \<times> u8 list" where
  "ad_meaning (Set_name name) =
     (if 29 < length name then (BT_AD_NAME_SHORT, map of_char (take 29 name)) else (BT_AD_NAME_COMPLETE, map of_char name))"
| "ad_meaning (Set_flags flags) = (BT_AD_FLAGS, [flags])"
| "ad_meaning (Set_appearance a) = (BT_AD_GAP_APPEARANCE, UINT16_TO_STREAM a)"
| "ad_meaning (Add_manufacture i data) = (BT_AD_MANUFACTURER_DATA, UINT16_TO_STREAM i @ data)"
| "ad_meaning (Add_service_uuid uuid) =
     (case uuid of BT_UUID16 u \<Rightarrow> (BT_AD_UUID16_ALL, UINT16_TO_STREAM u) | BT_UUID128 val \<Rightarrow> (BT_AD_UUID128_ALL, val) | _ \<Rightarrow> (0, []))"

fun ad_op_ok :: "ad_op \<Rightarrow> bool" where
  "ad_op_ok (Set_name name) \<longleftrightarrow> length name < 256"
| "ad_op_ok (Add_manufacture i data) \<longleftrightarrow> length data \<le> 252"
| "ad_op_ok (Add_service_uuid uuid) \<longleftrightarrow> (case uuid of BT_UUID16 _ \<Rightarrow> True | BT_UUID128 val \<Rightarrow> length val = 16 | _ \<Rightarrow> False)"
| "ad_op_ok _ \<longleftrightarrow> True"

fun ad_run :: "ad_op list \<Rightarrow> advertiser_data \<Rightarrow> advertiser_data option" where
  "ad_run [] ad = Some ad"
| "ad_run (p # ps) ad = do { ad \<leftarrow> ad_apply p ad; ad_run ps ad }"

definition ad_enc :: "u8 \<times> u8 list \<Rightarrow> u8 list" where
  "ad_enc m = of_nat (length (snd m) + 1) # fst m # snd m"

definition ad_holds :: "adv_data \<Rightarrow> u8 \<times> u8 list \<Rightarrow> bool" where
  "ad_holds d m \<longleftrightarrow> unat (ad_len d) = length (snd m) + 1 \<and> ad_type d = fst m \<and> (\<exists>rest. ad_data d = snd m @ rest)"

lemma length_ad_enc [simp]: "length (ad_enc m) = length (snd m) + 2"
  by (simp add: ad_enc_def)

lemma length_UINT16_TO_STREAM [simp]: "length (UINT16_TO_STREAM w) = 2"
  by (simp add: UINT16_TO_STREAM_def)

lemma unat_of_nat_u8: "n < 256 \<Longrightarrow> unat (of_nat n :: u8) = n"
  by (simp add: unsigned_of_nat take_bit_nat_eq_self_iff)

lemma ad_apply_holds:
  assumes "ad_op_ok p"
  shows "\<exists>d. ad_apply p ad = Some (ad\<lparr>ad_list := ad_list ad @ [d]\<rparr>) \<and> ad_holds d (ad_meaning p)"
proof (cases p)
  case (Set_name name)
  have n: "unat (of_nat (length name) :: u8) = length name" using assms Set_name by (simp add: unat_of_nat_u8)
  have "(29 :: u8) < of_nat (length name) \<longleftrightarrow> 29 < length name" using n by (simp add: word_less_nat_alt)
  moreover have "length name \<le> 29 \<Longrightarrow> unat (of_nat (length name) + 1 :: u8) = length name + 1"
    using unat_of_nat_u8 [of "length name + 1"] by (simp add: add.commute)
  ultimately show ?thesis using Set_name n
    by (cases "29 < length name") (auto simp: advertiser_data_set_name_def add_structure_def ad_holds_def Let_def)
next
  case (Add_manufacture i data)
  have "unat (of_nat (length data) :: u8) = length data" "unat (of_nat (length data + 3) :: u8) = length data + 3"
    using assms Add_manufacture by (intro unat_of_nat_u8; simp)+
  then show ?thesis using Add_manufacture
    by (intro exI [of _ "\<lparr>ad_len = of_nat (length data + 3), ad_type = BT_AD_MANUFACTURER_DATA, ad_data = UINT16_TO_STREAM i @ data\<rparr>"])
      (simp add: advertiser_data_add_manufacture_data_def add_structure_def ad_holds_def ac_simps)
next
  case (Add_service_uuid uuid)
  then show ?thesis using assms
    by (auto simp: advertiser_data_add_service_uuid_def add_structure_def ad_holds_def split: bt_uuid_t.splits)
qed (auto simp: advertiser_data_set_flags_def advertiser_data_set_appearance_def add_structure_def ad_holds_def)

lemma ad_run_holds:
  assumes "list_all ad_op_ok ps"
  shows "\<exists>ds. ad_run ps ad = Some (ad\<lparr>ad_list := ad_list ad @ ds\<rparr>) \<and> list_all2 ad_holds ds (map ad_meaning ps)"
  using assms
proof (induction ps arbitrary: ad)
  case (Cons p ps)
  obtain d where d: "ad_apply p ad = Some (ad\<lparr>ad_list := ad_list ad @ [d]\<rparr>)" "ad_holds d (ad_meaning p)"
    using ad_apply_holds Cons.prems by fastforce
  obtain ds where "ad_run ps (ad\<lparr>ad_list := ad_list ad @ [d]\<rparr>) = Some (ad\<lparr>ad_list := ad_list ad @ [d] @ ds\<rparr>)"
    "list_all2 ad_holds ds (map ad_meaning ps)" using Cons.IH [of "ad\<lparr>ad_list := ad_list ad @ [d]\<rparr>"] Cons.prems by auto
  with d show ?case by (intro exI [of _ "d # ds"]) simp
qed simp

lemma ad_holds_block: "ad_holds d m \<Longrightarrow> take (unat (ad_len d) + 1) (ad_block d) = ad_enc m \<and> unat (ad_len d) + 1 \<le> length (ad_block d)"
proof -
  assume h: "ad_holds d m"
  have "of_nat (unat (ad_len d)) = ad_len d" by simp
  then have "ad_len d = of_nat (length (snd m) + 1)" using h by (simp only: ad_holds_def)
  then show ?thesis using h by (auto simp: ad_holds_def ad_enc_def ad_block_def)
qed

abbreviation payload :: "(u8 \<times> u8 list) list \<Rightarrow> u8 list" where
  "payload ms \<equiv> concat (map ad_enc ms)"

lemma calc_len_sum:
  assumes "list_all2 ad_holds ds ms"
  shows "fold advertiser_data_calc_len ds n = n + of_nat (length (payload ms))"
  using assms
proof (induction arbitrary: n rule: list_all2_induct)
  case (Cons d ds m ms)
  have "of_nat (unat (ad_len d)) = (ucast (ad_len d) :: u16)" by (rule of_nat_unat)
  then have "(ucast (ad_len d) :: u16) = of_nat (length (snd m) + 1)" using Cons(1) by (simp only: ad_holds_def)
  then have "advertiser_data_calc_len d n = n + of_nat (length (ad_enc m))" by (simp add: advertiser_data_calc_len_def)
  then show ?case by (simp add: Cons.IH)
qed simp

lemma build_copy_payload:
  assumes "list_all2 ad_holds ds ms" "length out + length (payload ms) \<le> room"
  shows "build_copy room ds out = Some (out @ payload ms)"
  using assms
proof (induction arbitrary: out rule: list_all2_induct)
  case (Cons d ds m ms)
  note b = ad_holds_block [OF Cons(1)]
  have n: "unat (ad_len d) + 1 = length (ad_enc m)" using Cons(1) by (simp add: ad_holds_def)
  have "build_copy room ds (out @ ad_enc m) = Some ((out @ ad_enc m) @ payload ms)"
    using Cons.prems by (intro Cons.IH) simp
  then show ?case using b n Cons.prems by (simp add: Let_def del: length_ad_enc)
qed simp

lemma build_payload:
  assumes "list_all2 ad_holds (ad_list ad) ms" "ad_list ad \<noteq> []" "ad_buffer ad \<noteq> Freed" "length (payload ms) < 65536"
  shows "advertiser_data_build True ad =
    Some (Some (payload ms, of_nat (length (payload ms))), ad\<lparr>ad_buffer := Live (payload ms)\<rparr>)"
proof -
  have "unat (of_nat (length (payload ms)) :: u16) = length (payload ms)"
    using assms(4) by (simp add: unsigned_of_nat take_bit_nat_eq_self_iff)
  then have "build_copy (unat (fold advertiser_data_calc_len (ad_list ad) 0)) (ad_list ad) [] = Some (payload ms)"
    using assms(1) by (simp add: calc_len_sum build_copy_payload)
  then show ?thesis using assms
    by (cases "ad_buffer ad") (auto simp: advertiser_data_build_def free_buffer_def calc_len_sum Let_def)
qed

abbreviation short :: "u8 \<times> u8 list \<Rightarrow> bool" where
  "short m \<equiv> length (snd m) < 255"

lemma ad_meaning_short: "ad_op_ok p \<Longrightarrow> short (ad_meaning p)"
  by (cases p) (auto split: bt_uuid_t.splits)

lemma info_enc: "short m \<Longrightarrow> advertiser_data_info (ad_enc m @ rest) = Some [m]"
proof -
  assume "short m"
  then have "unat (of_nat (length (snd m) + 1) :: u8) = length (snd m) + 1" by (intro unat_of_nat_u8) simp
  moreover from this have "\<not> of_nat (length (snd m) + 1) < (1 :: u8)" by (simp only: word_less_nat_alt) simp
  ultimately show ?thesis by (simp add: advertiser_data_info_def ad_enc_def)
qed

lemma dump_loop_payload:
  assumes "list_all short ms" "length pre + length (payload ms) < 65536" "len = of_nat (length pre + length (payload ms))"
  shows "dump_loop (pre @ payload ms) len (of_nat (length pre)) out = Some (out @ ms)"
  using assms
proof (induction ms arbitrary: pre out)
  case Nil
  then show ?case by (subst dump_loop.simps) simp
next
  case (Cons m ms)
  have u: "unat (of_nat n :: u16) = n" if "n < 65536" for n using that by (simp add: unsigned_of_nat take_bit_nat_eq_self_iff)
  have lt: "of_nat (length pre) < len" using Cons.prems u [of "length pre"] u [of "length pre + length (payload (m # ms))"]
    by (simp only: word_less_nat_alt) simp
  have byte: "(ucast ((pre @ payload (m # ms)) ! length pre) :: u16) + 1 = of_nat (length (ad_enc m))"
  proof -
    have "unat (of_nat (length (snd m) + 1) :: u8) = length (snd m) + 1" using Cons.prems by (intro unat_of_nat_u8) simp
    then have "(ucast (of_nat (length (snd m) + 1) :: u8) :: u16) = of_nat (length (snd m) + 1)" by (metis of_nat_unat)
    then show ?thesis by (simp add: ad_enc_def nth_append)
  qed
  have "dump_loop ((pre @ ad_enc m) @ payload ms) len (of_nat (length (pre @ ad_enc m))) (out @ [m]) = Some ((out @ [m]) @ ms)"
    using Cons.prems by (intro Cons.IH) (simp_all add: ac_simps)
  then show ?case using lt u [of "length pre"] info_enc [of m "payload ms"] Cons.prems byte
    by (subst dump_loop.simps) (simp add: ac_simps)
qed

text \<open>What the parser of a scan record keeps of a structure.\<close>

definition note_uuid16 :: "scan_record \<Rightarrow> u8 \<times> u8 list \<Rightarrow> scan_record" where
  "note_uuid16 r m =
     (if fst m \<in> {BT_EIR_UUID16_INCOMPLETE, BT_EIR_UUID16_COMPLETE, BT_EIR_SVC_DATA_16} \<and> 2 \<le> length (snd m)
      then r\<lparr>sr_uuid := ucast (snd m ! 0) + push_bit 8 (ucast (snd m ! 1))\<rparr> else r)"

lemma parse_loop_payload:
  assumes "list_all short ms" "len + length (payload ms) = eir_len"
  shows "record_parse_loop eir_len len (payload ms) r = Some (foldl note_uuid16 r ms)"
  using assms
proof (induction ms arbitrary: len r)
  case (Cons m ms)
  have "unat (of_nat (length (snd m) + 1) :: u8) = length (snd m) + 1" using Cons.prems by (intro unat_of_nat_u8) simp
  then obtain l where l: "ad_enc m = l # fst m # snd m" "unat l = length (snd m) + 1" by (simp add: ad_enc_def)
  have nz: "l \<noteq> 0" using l(2) by auto
  have one: "(if fst m \<in> {BT_EIR_UUID16_INCOMPLETE, BT_EIR_UUID16_COMPLETE, BT_EIR_SVC_DATA_16} \<and> 2 \<le> unat l - 1
      then record_parse_uuid16 r (snd m @ payload ms) else Some r) = Some (note_uuid16 r m)"
  proof (cases "2 \<le> length (snd m)")
    case True
    then obtain a b rest where "snd m = a # b # rest" by (metis Suc_le_length_iff numeral_2_eq_2)
    then show ?thesis using l(2) by (simp add: note_uuid16_def record_parse_uuid16_def)
  qed (simp add: note_uuid16_def l(2))
  have "record_parse_loop eir_len (len + unat l + 1) (payload ms) (note_uuid16 r m) = Some (foldl note_uuid16 (note_uuid16 r m) ms)"
    using Cons.prems l(2) by (intro Cons.IH) simp_all
  then show ?case using Cons.prems l nz one by (auto simp: Let_def split: if_splits)
qed simp

text \<open>A payload that is built from the calls, through all of its length.\<close>

lemma run_and_build:
  assumes "list_all ad_op_ok ps" "ps \<noteq> []" "length (payload (map ad_meaning ps)) < 65536"
  shows "\<exists>ad ad'. ad_run ps \<lparr>ad_list = [], ad_buffer = No_buffer\<rparr> = Some ad \<and>
    advertiser_data_build True ad = Some (Some (payload (map ad_meaning ps), of_nat (length (payload (map ad_meaning ps)))), ad')"
proof -
  obtain ds where "ad_run ps \<lparr>ad_list = [], ad_buffer = No_buffer\<rparr> = Some \<lparr>ad_list = ds, ad_buffer = No_buffer\<rparr>"
    "list_all2 ad_holds ds (map ad_meaning ps)" using ad_run_holds [OF assms(1), of "\<lparr>ad_list = [], ad_buffer = No_buffer\<rparr>"] by auto
  moreover from this(2) assms(2) have "ds \<noteq> []" by auto
  ultimately show ?thesis
    using build_payload [of "\<lparr>ad_list = ds, ad_buffer = No_buffer\<rparr>" "map ad_meaning ps"] assms(3) by auto
qed

lemma meanings_short: "list_all ad_op_ok ps \<Longrightarrow> list_all short (map ad_meaning ps)"
  by (auto simp: list_all_iff ad_meaning_short)


abbreviation demo_ops :: "ad_op list" where
  "demo_ops \<equiv> [Set_flags 6, Set_name ''vela'', Add_service_uuid (BT_UUID16 0x180F), Add_manufacture 0x038F [1, 2, 3]]"


text \<open>The last 16-bit UUID among the calls.\<close>

fun last_uuid16 :: "ad_op list \<Rightarrow> u16 \<Rightarrow> u16" where
  "last_uuid16 [] u = u"
| "last_uuid16 (Add_service_uuid (BT_UUID16 v) # ps) u = last_uuid16 ps v"
| "last_uuid16 (_ # ps) u = last_uuid16 ps u"

lemma note_meaning:
  assumes "ad_op_ok p"
  shows "note_uuid16 r (ad_meaning p) = (case p of Add_service_uuid (BT_UUID16 v) \<Rightarrow> r\<lparr>sr_uuid := v\<rparr> | _ \<Rightarrow> r)"
proof -
  have "ucast (ucast v :: u8) + push_bit 8 (ucast (ucast (drop_bit 8 v) :: u8)) = v" for v :: u16
  proof (rule bit_word_eqI)
    have disj: "(ucast (ucast v :: u8) :: u16) AND push_bit 8 (ucast (ucast (drop_bit 8 v) :: u8)) = 0"
      by (rule bit_word_eqI) (auto simp: bit_simps)
    fix n assume "n < LENGTH(16)"
    then show "bit (ucast (ucast v :: u8) + push_bit 8 (ucast (ucast (drop_bit 8 v) :: u8)) :: u16) n = bit v n"
      using disj by (auto simp: disjunctive_add_eq_or bit_simps)
  qed
  then show ?thesis using assms
    by (cases p) (auto simp: note_uuid16_def UINT16_TO_STREAM_def split: bt_uuid_t.splits)
qed

lemma notes_last: "list_all ad_op_ok ps \<Longrightarrow> sr_uuid (foldl note_uuid16 r (map ad_meaning ps)) = last_uuid16 ps (sr_uuid r)"
  by (induction ps arbitrary: r) (auto simp: note_meaning split: ad_op.splits bt_uuid_t.splits)

text \<open>C34. From the advertiser to the filter of a scanner: a report with a payload of at most 255 bytes that
  the builder made is parsed without reading outside it, and it passes a filter exactly when the last
  16-bit UUID that was added is not zero and is one of the filter's UUIDs.\<close>

theorem advertised_uuid_filtered:
  assumes "list_all ad_op_ok ps" "ps \<noteq> []" "length (payload (map ad_meaning ps)) \<le> 255"
  shows "\<exists>ad buf n ad' r. ad_run ps \<lparr>ad_list = [], ad_buffer = No_buffer\<rparr> = Some ad \<and>
    advertiser_data_build True ad = Some (Some (buf, n), ad') \<and>
    scan_record_parse \<lparr>sr_active = False, sr_uuid = 0\<rparr> (Some buf) (ucast n) = Some r \<and>
    (scanner_match_filter r filt \<longleftrightarrow> last_uuid16 ps 0 \<noteq> 0 \<and> last_uuid16 ps 0 \<in> set (sf_uuids filt))"
proof -
  let ?ms = "map ad_meaning ps"
  let ?r = "foldl note_uuid16 \<lparr>sr_active = False, sr_uuid = 0\<rparr> ?ms"
  have lt: "length (payload ?ms) < 65536" using assms(3) by simp
  then have "unat (of_nat (length (payload ?ms)) :: u16) = length (payload ?ms)" by (simp add: unsigned_of_nat take_bit_nat_eq_self_iff)
  then have "(ucast (of_nat (length (payload ?ms)) :: u16) :: u8) = of_nat (length (payload ?ms))" by (metis of_nat_unat)
  moreover have "unat (of_nat (length (payload ?ms)) :: u8) = length (payload ?ms)" using assms(3) by (intro unat_of_nat_u8) simp
  ultimately have "scan_record_parse \<lparr>sr_active = False, sr_uuid = 0\<rparr> (Some (payload ?ms)) (ucast (of_nat (length (payload ?ms)) :: u16)) = Some ?r"
    using parse_loop_payload [of ?ms 0] meanings_short [OF assms(1)] by (simp add: scan_record_parse_def)
  moreover have "scanner_match_filter ?r filt \<longleftrightarrow> last_uuid16 ps 0 \<noteq> 0 \<and> last_uuid16 ps 0 \<in> set (sf_uuids filt)"
    using notes_last [OF assms(1)] by (auto simp: scanner_match_filter_def match_uuid_def list_ex_iff)
  ultimately show ?thesis using run_and_build [OF assms(1,2) lt] by blast
qed

theorem advertised_uuid_filtered_witness:
  "\<exists>ad buf n ad' r. ad_run demo_ops \<lparr>ad_list = [], ad_buffer = No_buffer\<rparr> = Some ad \<and>
    advertiser_data_build True ad = Some (Some (buf, n), ad') \<and>
    scan_record_parse \<lparr>sr_active = False, sr_uuid = 0\<rparr> (Some buf) (ucast n) = Some r \<and>
    scanner_match_filter r \<lparr>sf_duration = 500, sf_period = 5000, sf_uuids = [0x1812, 0x180F], sf_active = True, sf_duplicated = False\<rparr>"
  using advertised_uuid_filtered [of demo_ops
    "\<lparr>sf_duration = 500, sf_period = 5000, sf_uuids = [0x1812, 0x180F], sf_active = True, sf_duplicated = False\<rparr>"]
  by (simp add: UINT16_TO_STREAM_def)

text \<open>What a single structure of the given length puts on the air.\<close>

lemma build_single:
  assumes "unat l \<le> length bytes + 1"
  shows "advertiser_data_build True \<lparr>ad_list = [\<lparr>ad_len = l, ad_type = t, ad_data = bytes\<rparr>], ad_buffer = No_buffer\<rparr> =
    Some (Some (l # take (unat l) (t # bytes), ucast l + 1),
      \<lparr>ad_list = [\<lparr>ad_len = l, ad_type = t, ad_data = bytes\<rparr>], ad_buffer = Live (l # take (unat l) (t # bytes))\<rparr>)"
proof -
  have "unat (ucast l + 1 :: u16) = unat l + 1"
  proof -
    have "(ucast l + 1 :: u16) = of_nat (unat l + 1)" by (simp add: of_nat_unat)
    moreover have "unat l + 1 < 65536" using unat_u8 [of l] by simp
    ultimately show ?thesis by (simp only: unsigned_of_nat) (simp add: take_bit_nat_eq_self_iff)
  qed
  then show ?thesis using assms
    by (simp add: advertiser_data_build_def free_buffer_def advertiser_data_calc_len_def ad_block_def Let_def)
qed

text \<open>Three calls of the builder whose structures do not carry what was passed: \<open>advertiser_data_add_data\<close>
  leaves out the last byte, \<open>advertiser_data_add_service_data\<close> leaves out the data behind the UUID, and
  a 32-bit UUID is sent as a 128-bit one that begins with it and ends in whatever the union held.\<close>

theorem advertiser_data_lost:
  assumes "length data = unat len" "0 < len" "length junk = 12"
  shows "\<exists>a1 b1 a2 b2 a3 b3.
    advertiser_data_add_data True \<lparr>ad_list = [], ad_buffer = No_buffer\<rparr> t data len = Some a1 \<and>
    advertiser_data_build True a1 = Some (Some (len # t # butlast data, ucast len + 1), b1) \<and>
    advertiser_data_add_service_data True junk \<lparr>ad_list = [], ad_buffer = No_buffer\<rparr> (BT_UUID16 u) data len = Some (True, a2) \<and>
    advertiser_data_build True a2 = Some (Some (3 # BT_AD_SERVICE_DATA16 # UINT16_TO_STREAM u, 4), b2) \<and>
    advertiser_data_add_service_uuid True junk \<lparr>ad_list = [], ad_buffer = No_buffer\<rparr> (BT_UUID32 v) = Some (True, a3) \<and>
    advertiser_data_build True a3 = Some (Some (17 # BT_AD_UUID128_ALL # UINT32_TO_STREAM v @ junk, 18), b3)"
proof -
  have "0 < unat len" using assms(2) by (simp add: word_less_nat_alt)
  then have cut: "take (unat len) (t # data) = t # butlast data"
    using assms(1) by (cases "unat len") (simp_all add: butlast_conv_take)
  show ?thesis using assms cut
    by (simp add: advertiser_data_add_data_def advertiser_data_add_service_data_def advertiser_data_add_service_uuid_def
        add_structure_def build_single UINT32_TO_STREAM_def)
qed

theorem advertiser_data_lost_witness:
  "\<exists>a1 b1. advertiser_data_add_data True \<lparr>ad_list = [], ad_buffer = No_buffer\<rparr> 0x24 [0x17, 0x2F, 0x2F] 3 = Some a1 \<and>
    advertiser_data_build True a1 = Some (Some ([3, 0x24, 0x17, 0x2F], 4), b1)"
  using advertiser_data_lost [where data = "[0x17, 0x2F, 0x2F]" and len = 3 and junk = "replicate 12 0" and t = "0x24" and u = 0 and v = 0] by auto

end
