(* ===== verification/Scan_Manager.thy ===== *)
theory Scan_Manager
  imports Adv_Data
begin

text \<open>
  service/src/scan_manager.c: the scanners of the clients, the list of those that scan, and the delivery
  of reports. A scanner is an object on a heap from addresses to records, because the manager keeps
  its address in two places and frees it: reading through an address that is not allocated, walking
  a list whose head has been unlinked and a failed \<open>assert\<close> are the result \<open>None\<close>. The calls of the
  interface post messages, which the service loop runs later in their order; the state holds the
  messages. The address that \<open>malloc\<close> returns is an input (\<open>NULL\<close> when it fails).
\<close>

section \<open>State\<close>

datatype scan_status =
    BT_SCAN_STATUS_SUCCESS | BT_SCAN_STATUS_START_FAIL | BT_SCAN_STATUS_NO_PERMISSION | BT_SCAN_STATUS_SCANNER_REG_NOMEM
  | BT_SCAN_STATUS_SCANNER_EXISTED | BT_SCAN_STATUS_SCANNER_NOT_FOUND | BT_SCAN_STATUS_SCANNER_REMOVED

record scanner_device =
  sd_addr :: bt_address_t
  sd_addr_type :: u8
  sd_timestamp :: u32

record scanner =
  sc_remote :: ptr
  scanner_id :: nat
  sc_scanning :: bool
  sc_filter :: ble_scan_filter
  sc_callbacks :: ptr

record ble_scan_settings =
  ss_mode :: u8
  ss_type :: u8
  ss_phy :: u8
  ss_policy :: u8

record ble_scan_params =
  scan_interval :: int
  scan_window :: int
  scan_type :: u8
  scan_phy :: u8
  filter_type :: u8

record ble_scan_result =
  rs_addr :: bt_address_t
  rs_addr_type :: u8
  rs_length :: u8
  rs_adv_data :: "u8 list"

text \<open>Messages posted to the service loop.\<close>

datatype scan_msg =
    Msg_start ptr "ble_scan_settings option"
  | Msg_stop ptr
  | Msg_result ble_scan_result
  | Msg_cleanup

text \<open>What leaves the manager: calls of the stack and of the clients' callbacks.\<close>

datatype scan_out =
    Sal_set_scan_parameters ble_scan_params | Sal_start_scan | Sal_stop_scan
  | On_scan_start_status ptr scan_status | On_scan_stopped ptr | On_scan_result ptr ble_scan_result

text \<open>The lists of the manager are \<open>None\<close> before their head is initialised and after it is unlinked.\<close>

record scanner_manager =
  scanner_list :: "ptr list"
  scanning_list :: "ptr list option"
  hash_table :: "u32 list"
  devices :: "scanner_device list option"
  scanner_cnt :: u8
  is_scanning :: bool
  scanners :: "ptr \<Rightarrow> scanner option"
  scan_msgs :: "scan_msg list"
  scan_outs :: "scan_out list"

text \<open>The outside at the time of a call: whether LE is enabled, the answer of the stack to a start, whether
  the socket server is busy, whether the queue of deferred messages is full, and the clock.\<close>

record scan_env =
  le_enabled :: bool
  sal_start_status :: bt_status_t
  server_busy :: bool
  deferred_full :: bool
  timestamp_ms :: u32

definition scan_emit :: "scan_out \<Rightarrow> scanner_manager \<Rightarrow> scanner_manager" where
  "scan_emit x m = m\<lparr>scan_outs := scan_outs m @ [x]\<rparr>"

definition post :: "scan_msg \<Rightarrow> scanner_manager \<Rightarrow> scanner_manager" where
  "post x m = m\<lparr>scan_msgs := scan_msgs m @ [x]\<rparr>"

text \<open>A write through the address of a scanner.\<close>

definition put_scanner :: "ptr \<Rightarrow> scanner \<Rightarrow> scanner_manager \<Rightarrow> scanner_manager" where
  "put_scanner p s m = m\<lparr>scanners := (scanners m)(p \<mapsto> s)\<rparr>"

section \<open>Devices, scanners, hashes\<close>

definition get_remote :: "ptr \<Rightarrow> scanner \<Rightarrow> ptr" where
  "get_remote p s = (if sc_remote s \<noteq> NULL then sc_remote s else p)"

definition same_dev :: "bt_address_t \<Rightarrow> u8 \<Rightarrow> scanner_device \<Rightarrow> bool" where
  "same_dev addr t d \<longleftrightarrow> memcmp (sd_addr d) addr = 0 \<and> sd_addr_type d = t"

definition scanner_find_device :: "bt_address_t \<Rightarrow> u8 \<Rightarrow> scanner_manager \<Rightarrow> scanner_device option option" where
  "scanner_find_device addr t m = do { ds \<leftarrow> devices m; Some (find (same_dev addr t) ds) }"

definition alloc_device :: "bt_address_t \<Rightarrow> u8 \<Rightarrow> scanner_device" where
  "alloc_device addr t = \<lparr>sd_addr = addr, sd_addr_type = t, sd_timestamp = 0\<rparr>"

definition scanner_add_device :: "bt_address_t \<Rightarrow> u8 \<Rightarrow> u32 \<Rightarrow> scanner_manager \<Rightarrow> scanner_manager option" where
  "scanner_add_device addr t ts m =
     do { ds \<leftarrow> devices m; Some (m\<lparr>devices := Some (ds @ [(alloc_device addr t)\<lparr>sd_timestamp := ts\<rparr>])\<rparr>) }"

definition no_filter :: ble_scan_filter where
  "no_filter = \<lparr>sf_duration = 0, sf_period = 0, sf_uuids = [0, 0], sf_active = False, sf_duplicated = False\<rparr>"

definition alloc_new_scanner :: "ptr \<Rightarrow> ptr \<Rightarrow> scanner" where
  "alloc_new_scanner remote cbs =
     \<lparr>sc_remote = remote, scanner_id = 0, sc_scanning = False, sc_filter = no_filter, sc_callbacks = cbs\<rparr>"

definition delete_scanner :: "ptr \<Rightarrow> scanner_manager \<Rightarrow> scanner_manager option" where
  "delete_scanner p m =
     do { s \<leftarrow> scanners m p;
          m \<leftarrow> (if sc_scanning s then do { ps \<leftarrow> scanning_list m; Some (m\<lparr>scanning_list := Some (remove1 p ps)\<rparr>) } else Some m);
          Some (m\<lparr>scanners := (scanners m)(p := None)\<rparr>) }"

definition scanner_compare :: "scanner \<Rightarrow> scanner \<Rightarrow> bool" where
  "scanner_compare src dest \<longleftrightarrow>
     (if sc_remote dest \<noteq> NULL then sc_remote src = sc_remote dest else sc_callbacks src = sc_callbacks dest)"

definition scanner_is_registered :: "ptr \<Rightarrow> scanner_manager \<Rightarrow> bool" where
  "scanner_is_registered p m \<longleftrightarrow> list_ex (\<lambda>q. q = p) (scanner_list m)"

definition scanner_match_duration :: "scanner_device \<Rightarrow> u32 \<Rightarrow> u32 \<Rightarrow> u32 \<Rightarrow> bool \<times> scanner_device" where
  "scanner_match_duration d duration period timestamp =
     (let t1 = sd_timestamp d; t2 = t1 + duration; t3 = t1 + period
      in if timestamp < t1 then (False, d\<lparr>sd_timestamp := timestamp\<rparr>)
         else if t1 \<le> timestamp \<and> timestamp < t2 then (True, d)
         else if t2 \<le> timestamp \<and> timestamp < t3 then (False, d)
         else (True, d\<lparr>sd_timestamp := timestamp\<rparr>))"

fun hsearch_loop :: "u32 \<Rightarrow> u32 list \<Rightarrow> bool" where
  "hsearch_loop hash [] = False"
| "hsearch_loop hash (h # hs) = (if h = hash then True else if h = 0 then False else hsearch_loop hash hs)"

definition scanner_hsearch_find :: "u8 list \<Rightarrow> nat \<Rightarrow> scanner_manager \<Rightarrow> bool option" where
  "scanner_hsearch_find key len m = do { hash \<leftarrow> bt_hash4 key len; Some (hsearch_loop hash (hash_table m)) }"

definition scanner_hsearch_add :: "u8 list \<Rightarrow> nat \<Rightarrow> scanner_manager \<Rightarrow> scanner_manager option" where
  "scanner_hsearch_add key len m =
     do { hash \<leftarrow> bt_hash4 key len; Some (m\<lparr>hash_table := update_first (\<lambda>h. h = 0) (\<lambda>_. hash) (hash_table m)\<rparr>) }"

definition scanner_hsearch_free :: "scanner_manager \<Rightarrow> scanner_manager" where
  "scanner_hsearch_free m = m\<lparr>hash_table := replicate (length (hash_table m)) 0\<rparr>"

section \<open>Delivery of a report\<close>

text \<open>Whether the report goes to the scanner, with the record parsed so far and the state after the filter.\<close>

definition pass_filter ::
  "u32 \<Rightarrow> ble_scan_result \<Rightarrow> scanner \<Rightarrow> scan_record \<Rightarrow> scanner_manager \<Rightarrow> (bool \<times> scan_record \<times> scanner_manager) option" where
  "pass_filter ts result s record m =
     (if \<not> sf_active (sc_filter s) then Some (True, record, m)
      else do {
        record \<leftarrow> (if \<not> sr_active record
                    then map_option (\<lambda>r. r\<lparr>sr_active := True\<rparr>) (scan_record_parse record (Some (rs_adv_data result)) (rs_length result))
                    else Some record);
        device \<leftarrow> scanner_find_device (rs_addr result) (rs_addr_type result) m;
        if device = None \<and> \<not> scanner_match_filter record (sc_filter s) then Some (False, record, m)
        else do {
          m \<leftarrow> (if device = None then scanner_add_device (rs_addr result) (rs_addr_type result) ts m else Some m);
          if \<not> sf_duplicated (sc_filter s) then Some (True, record, m)
          else do {
            device \<leftarrow> scanner_find_device (rs_addr result) (rs_addr_type result) m;
            d \<leftarrow> device;
            let (near, d') = scanner_match_duration d (sf_duration (sc_filter s)) (sf_period (sc_filter s)) ts;
            let m = m\<lparr>devices := map_option (update_first (same_dev (rs_addr result) (rs_addr_type result)) (\<lambda>_. d')) (devices m)\<rparr>;
            if \<not> near then Some (False, record, m)
            else do {
              found \<leftarrow> scanner_hsearch_find (rs_adv_data result) (unat (rs_length result)) m;
              if found then Some (False, record, m)
              else do { m \<leftarrow> scanner_hsearch_add (rs_adv_data result) (unat (rs_length result)) m; Some (True, record, m) } } } } })"

fun notify_loop :: "u32 \<Rightarrow> ble_scan_result \<Rightarrow> ptr list \<Rightarrow> scan_record \<Rightarrow> scanner_manager \<Rightarrow> scanner_manager option" where
  "notify_loop ts result [] record m = Some m"
| "notify_loop ts result (p # ps) record m =
     do { s \<leftarrow> scanners m p;
          (pass, record, m) \<leftarrow> pass_filter ts result s record m;
          notify_loop ts result ps record (if pass then scan_emit (On_scan_result (get_remote p s) result) m else m) }"

definition notify_scanners_scan_result :: "scan_env \<Rightarrow> ble_scan_result \<Rightarrow> scanner_manager \<Rightarrow> scanner_manager option" where
  "notify_scanners_scan_result e result m =
     (if server_busy e then Some (if deferred_full e then m else post (Msg_result result) m)
      else do { ps \<leftarrow> scanning_list m; notify_loop (timestamp_ms e) result ps \<lparr>sr_active = False, sr_uuid = 0\<rparr> m })"

section \<open>Registration\<close>

text \<open>The comparison with every registered scanner, which reads through each address.\<close>

fun compare_loop :: "scanner \<Rightarrow> ptr list \<Rightarrow> scanner_manager \<Rightarrow> bool option" where
  "compare_loop s [] m = Some False"
| "compare_loop s (p # ps) m =
     (if p \<noteq> NULL then do { src \<leftarrow> scanners m p; if scanner_compare src s then Some True else compare_loop s ps m }
      else compare_loop s ps m)"

fun first_null :: "nat \<Rightarrow> ptr list \<Rightarrow> nat option" where
  "first_null i [] = None"
| "first_null i (p # ps) = (if p = NULL then Some i else first_null (Suc i) ps)"

definition register_scanner :: "ptr \<Rightarrow> scanner_manager \<Rightarrow> (scan_status \<times> scanner_manager) option" where
  "register_scanner p m =
     (if p = NULL then Some (BT_SCAN_STATUS_START_FAIL, m)
      else if scanner_cnt m = of_nat (length (scanner_list m)) then Some (BT_SCAN_STATUS_SCANNER_REG_NOMEM, m)
      else do {
        s \<leftarrow> scanners m p;
        existed \<leftarrow> compare_loop s (scanner_list m) m;
        if existed then Some (BT_SCAN_STATUS_SCANNER_EXISTED, m)
        else case first_null 0 (scanner_list m) of
               None \<Rightarrow> Some (BT_SCAN_STATUS_START_FAIL, m)
             | Some i \<Rightarrow> Some (BT_SCAN_STATUS_SUCCESS,
                 (put_scanner p (s\<lparr>scanner_id := i\<rparr>) m)\<lparr>scanner_list := (scanner_list m)[i := p], scanner_cnt := scanner_cnt m + 1\<rparr>) })"

definition stop_scan :: "ptr \<Rightarrow> scanner_manager \<Rightarrow> scanner_manager option" where
  "stop_scan p m =
     (if \<not> scanner_is_registered p m then Some m
      else do {
        s \<leftarrow> scanners m p;
        if \<not> sc_scanning s then Some m
        else do {
          ps \<leftarrow> scanning_list m;
          let m = put_scanner p (s\<lparr>sc_scanning := False\<rparr>) (m\<lparr>scanning_list := Some (remove1 p ps)\<rparr>);
          Some (if is_scanning m \<and> remove1 p ps = []
                then (scanner_hsearch_free (scan_emit Sal_stop_scan m))\<lparr>devices := map_option (\<lambda>_. []) (devices m), is_scanning := False\<rparr>
                else m) } })"

definition unregister_scanner :: "ptr \<Rightarrow> scanner_manager \<Rightarrow> scanner_manager option" where
  "unregister_scanner p m =
     (if p = NULL then Some m
      else if \<not> scanner_is_registered p m then Some m
      else do {
        m \<leftarrow> stop_scan p m;
        s \<leftarrow> scanners m p;
        let m = scan_emit (On_scan_stopped (get_remote p s)) m;
        if length (scanner_list m) \<le> scanner_id s then None
        else delete_scanner p (m\<lparr>scanner_list := (scanner_list m)[scanner_id s := NULL], scanner_cnt := scanner_cnt m - 1\<rparr>) })"

definition stop_scanner :: "ptr \<Rightarrow> scanner_manager \<Rightarrow> scanner_manager option" where
  "stop_scanner p m = unregister_scanner p m"

fun cleanup_loop :: "nat list \<Rightarrow> scanner_manager \<Rightarrow> scanner_manager option" where
  "cleanup_loop [] m = Some m"
| "cleanup_loop (i # is) m =
     do { m \<leftarrow> (if scanner_list m ! i \<noteq> NULL then unregister_scanner (scanner_list m ! i) m else Some m); cleanup_loop is m }"

definition cleanup_scanner :: "scanner_manager \<Rightarrow> scanner_manager option" where
  "cleanup_scanner m =
     do { m \<leftarrow> cleanup_loop [0..<length (scanner_list m)] m;
          _ \<leftarrow> scanning_list m;
          Some (m\<lparr>scanning_list := None, devices := None\<rparr>) }"

section \<open>Starting a scan\<close>

definition setup_scan_parameter :: "ble_scan_settings \<Rightarrow> ble_scan_params \<Rightarrow> ble_scan_params" where
  "setup_scan_parameter settings param =
     (let param = param\<lparr>scan_phy := ss_phy settings, scan_type := ss_type settings, filter_type := ss_policy settings\<rparr>
      in if ss_mode settings = 0 then param\<lparr>scan_interval := 0x1000, scan_window := 0x100\<rparr>
         else if ss_mode settings = 1 then param\<lparr>scan_interval := 0x500, scan_window := 0x140\<rparr>
         else if ss_mode settings = 2 then param\<lparr>scan_interval := 0xA0, scan_window := 0xA0\<rparr>
         else param)"

definition start_params :: "ble_scan_settings option \<Rightarrow> ble_scan_params" where
  "start_params settings =
     (let params = \<lparr>scan_interval = 100, scan_window = 100, scan_type = 0, scan_phy = 0, filter_type = 0\<rparr>
      in case settings of None \<Rightarrow> params | Some s \<Rightarrow> setup_scan_parameter s params)"

definition start_scan :: "scan_env \<Rightarrow> ptr \<Rightarrow> ble_scan_settings option \<Rightarrow> scanner_manager \<Rightarrow> scanner_manager option" where
  "start_scan e p settings m =
     do { (status, m) \<leftarrow> register_scanner p m;
          s \<leftarrow> scanners m p;
          if status \<noteq> BT_SCAN_STATUS_SUCCESS
          then delete_scanner p (scan_emit (On_scan_start_status (get_remote p s) status) m)
          else do {
            idle \<leftarrow> (if \<not> is_scanning m then do { ps \<leftarrow> scanning_list m; Some (ps = []) } else Some False);
            let m = (if idle then scan_emit Sal_start_scan (scan_emit (Sal_set_scan_parameters (start_params settings)) m) else m);
            if idle \<and> sal_start_status e \<noteq> BT_STATUS_SUCCESS
            then delete_scanner p (scan_emit (On_scan_start_status (get_remote p s) BT_SCAN_STATUS_START_FAIL) m)
            else do {
              let m = (if idle then m\<lparr>is_scanning := True\<rparr> else m);
              ps \<leftarrow> scanning_list m;
              Some (scan_emit (On_scan_start_status (get_remote p s) BT_SCAN_STATUS_SUCCESS)
                (put_scanner p (s\<lparr>sc_scanning := True\<rparr>) (m\<lparr>scanning_list := Some (ps @ [p])\<rparr>))) } } }"

section \<open>The interface\<close>

text \<open>\<open>p\<close> is the address \<open>malloc\<close> returns for the scanner, \<open>mem\<close> says that the message is allocated.\<close>

definition scanner_start_scan :: "scan_env \<Rightarrow> ptr \<Rightarrow> bool \<Rightarrow> ptr \<Rightarrow> ptr \<Rightarrow> scanner_manager \<Rightarrow> ptr \<times> scanner_manager" where
  "scanner_start_scan e p mem remote cbs m =
     (if \<not> le_enabled e then (NULL, m)
      else if p = NULL then (NULL, m)
      else if \<not> mem then (NULL, m)
      else (p, post (Msg_start p None) (put_scanner p (alloc_new_scanner remote cbs) m)))"

definition scanner_start_scan_with_filters ::
  "scan_env \<Rightarrow> ptr \<Rightarrow> bool \<Rightarrow> ptr \<Rightarrow> ble_scan_settings \<Rightarrow> ble_scan_filter option \<Rightarrow> ptr \<Rightarrow> scanner_manager \<Rightarrow> ptr \<times> scanner_manager" where
  "scanner_start_scan_with_filters e p mem remote settings filt cbs m =
     (if \<not> le_enabled e then (NULL, m)
      else if p = NULL then (NULL, m)
      else if \<not> mem then (NULL, m)
      else let s = alloc_new_scanner remote cbs;
               s = (case filt of
                      Some f \<Rightarrow> if sf_active f then s\<lparr>sc_filter := f\<lparr>sf_duration := 500, sf_period := 5000, sf_duplicated := False\<rparr>\<rparr> else s
                    | None \<Rightarrow> s)
           in (p, post (Msg_start p (Some settings)) (put_scanner p s m)))"

definition scanner_start_scan_settings ::
  "scan_env \<Rightarrow> ptr \<Rightarrow> bool \<Rightarrow> ptr \<Rightarrow> ble_scan_settings \<Rightarrow> ptr \<Rightarrow> scanner_manager \<Rightarrow> ptr \<times> scanner_manager" where
  "scanner_start_scan_settings e p mem remote settings cbs m = scanner_start_scan_with_filters e p mem remote settings None cbs m"

definition scanner_stop_scan :: "scan_env \<Rightarrow> bool \<Rightarrow> ptr \<Rightarrow> scanner_manager \<Rightarrow> scanner_manager" where
  "scanner_stop_scan e mem p m = (if \<not> le_enabled e then m else if \<not> mem then m else post (Msg_stop p) m)"

definition scan_on_result_data_update :: "bool \<Rightarrow> ble_scan_result \<Rightarrow> scanner_manager \<Rightarrow> scanner_manager" where
  "scan_on_result_data_update mem result m = (if \<not> mem then m else post (Msg_result result) m)"

definition scan_manager_init :: "nat \<Rightarrow> nat \<Rightarrow> scanner_manager" where
  "scan_manager_init max_num report_size =
     \<lparr>scanner_list = replicate max_num NULL, scanning_list = Some [], hash_table = replicate report_size 0, devices = Some [],
      scanner_cnt = 0, is_scanning = False, scanners = (\<lambda>_. None), scan_msgs = [], scan_outs = []\<rparr>"

definition scan_manager_cleanup :: "scanner_manager \<Rightarrow> scanner_manager" where
  "scan_manager_cleanup m = post Msg_cleanup m"

section \<open>Histories\<close>

fun run_scan_msg :: "scan_env \<Rightarrow> scan_msg \<Rightarrow> scanner_manager \<Rightarrow> scanner_manager option" where
  "run_scan_msg e (Msg_start p settings) m = start_scan e p settings m"
| "run_scan_msg e (Msg_stop p) m = stop_scanner p m"
| "run_scan_msg e (Msg_result result) m = notify_scanners_scan_result e result m"
| "run_scan_msg e Msg_cleanup m = cleanup_scanner m"

datatype scan_input =
    In_start ptr bool ptr ptr
  | In_start_filters ptr bool ptr ble_scan_settings "ble_scan_filter option" ptr
  | In_stop bool ptr
  | In_result bool ble_scan_result
  | In_loop

text \<open>An address that is offered for an allocation is taken when it is free; \<open>malloc\<close> does not hand out
  memory that is in use.\<close>

definition malloc_scanner :: "ptr \<Rightarrow> scanner_manager \<Rightarrow> ptr" where
  "malloc_scanner p m = (if scanners m p = None then p else NULL)"

fun scan_step :: "scanner_manager option \<Rightarrow> scan_env \<times> scan_input \<Rightarrow> scanner_manager option" where
  "scan_step None _ = None"
| "scan_step (Some m) (e, In_start p mem remote cbs) = Some (snd (scanner_start_scan e (malloc_scanner p m) mem remote cbs m))"
| "scan_step (Some m) (e, In_start_filters p mem remote settings filt cbs) =
     Some (snd (scanner_start_scan_with_filters e (malloc_scanner p m) mem remote settings filt cbs m))"
| "scan_step (Some m) (e, In_stop mem p) = Some (scanner_stop_scan e mem p m)"
| "scan_step (Some m) (e, In_result mem result) = Some (scan_on_result_data_update mem result m)"
| "scan_step (Some m) (e, In_loop) =
     (case scan_msgs m of [] \<Rightarrow> Some m | x # xs \<Rightarrow> run_scan_msg e x (m\<lparr>scan_msgs := xs\<rparr>))"

end
