(* ===== verification/Scan_Safety.thy ===== *)
theory Scan_Safety
  imports Scan_Manager
begin

text \<open>
  The invariant of the scan manager and what follows for every history of calls, reports and runs of the
  service loop: no access through a dangling address, exact correspondence between registered
  scanners, the scanning list and the requests to the stack, no leaked scanner. The last part shows
  the one path that breaks it, a start that the stack refuses.
\<close>

section \<open>The invariant\<close>

definition registered :: "scanner_manager \<Rightarrow> ptr set" where
  "registered m = set (scanner_list m) - {NULL}"

text \<open>The calls of the stack switch scanning on and off in turn.\<close>

fun radio_step :: "bool option \<Rightarrow> scan_out \<Rightarrow> bool option" where
  "radio_step r Sal_start_scan = (if r = Some False then Some True else None)"
| "radio_step r Sal_stop_scan = (if r = Some True then Some False else None)"
| "radio_step r _ = r"

definition radio :: "scan_out list \<Rightarrow> bool option" where
  "radio outs = foldl radio_step (Some False) outs"

definition slots_wf :: "ptr list \<Rightarrow> (ptr \<Rightarrow> scanner option) \<Rightarrow> bool" where
  "slots_wf L h \<longleftrightarrow> (\<forall>i<length L. L ! i \<noteq> NULL \<longrightarrow> (\<exists>s. h (L ! i) = Some s \<and> scanner_id s = i \<and> sc_scanning s))"

definition remotes_wf :: "ptr set \<Rightarrow> (ptr \<Rightarrow> scanner option) \<Rightarrow> bool" where
  "remotes_wf R h \<longleftrightarrow> (\<forall>p\<in>R. \<forall>q\<in>R. \<forall>s t. h p = Some s \<longrightarrow> h q = Some t \<longrightarrow> sc_remote s \<noteq> NULL \<longrightarrow> sc_remote s = sc_remote t \<longrightarrow> p = q)"

abbreviation used_slots :: "ptr list \<Rightarrow> nat" where
  "used_slots L \<equiv> length (filter (\<lambda>p. p \<noteq> NULL) L)"

text \<open>\<open>P\<close> are the scanners that are allocated and wait for their start.\<close>

definition scan_inv_on :: "ptr list \<Rightarrow> scanner_manager \<Rightarrow> bool" where
  "scan_inv_on P m \<longleftrightarrow>
     length (scanner_list m) < 256 \<and> scanner_cnt m = of_nat (used_slots (scanner_list m)) \<and>
     slots_wf (scanner_list m) (scanners m) \<and> remotes_wf (registered m) (scanners m) \<and>
     distinct P \<and> NULL \<notin> set P \<and> set P \<inter> registered m = {} \<and>
     dom (scanners m) = registered m \<union> set P \<and>
     (\<forall>p\<in>set P. \<forall>s. scanners m p = Some s \<longrightarrow> \<not> sc_scanning s) \<and>
     (\<forall>p s. scanners m p = Some s \<longrightarrow> \<not> sf_duplicated (sc_filter s)) \<and>
     (\<exists>ps. scanning_list m = Some ps \<and> distinct ps \<and> set ps = registered m \<and> (is_scanning m \<longleftrightarrow> ps \<noteq> [])) \<and>
     (\<exists>ds. devices m = Some ds \<and> (\<not> is_scanning m \<longrightarrow> ds = []) \<and> distinct (map (\<lambda>d. (sd_addr d, sd_addr_type d)) ds) \<and>
        (\<forall>d\<in>set ds. length (sd_addr d) = 6)) \<and>
     set (hash_table m) \<subseteq> {0} \<and> radio (scan_outs m) = Some (is_scanning m)"

fun msg_starts :: "scan_msg \<Rightarrow> ptr list" where
  "msg_starts (Msg_start p _) = [p]"
| "msg_starts _ = []"

abbreviation pending :: "scanner_manager \<Rightarrow> ptr list" where
  "pending m \<equiv> concat (map msg_starts (scan_msgs m))"

definition result_ok :: "ble_scan_result \<Rightarrow> bool" where
  "result_ok r \<longleftrightarrow> length (rs_addr r) = 6 \<and> unat (rs_length r) \<le> length (rs_adv_data r)"

fun scan_msg_ok :: "scan_msg \<Rightarrow> bool" where
  "scan_msg_ok (Msg_result r) = result_ok r"
| "scan_msg_ok Msg_cleanup = False"
| "scan_msg_ok _ = True"

definition scan_inv :: "scanner_manager option \<Rightarrow> bool" where
  "scan_inv mo \<longleftrightarrow> (\<exists>m. mo = Some m \<and> scan_inv_on (pending m) m \<and> list_all scan_msg_ok (scan_msgs m))"

section \<open>Slots\<close>

lemma used_slots_fill: "i < length L \<Longrightarrow> L ! i = NULL \<Longrightarrow> p \<noteq> NULL \<Longrightarrow> used_slots (L[i := p]) = Suc (used_slots L)"
  by (induction L arbitrary: i) (auto split: nat.splits simp: nth_Cons)

lemma used_slots_clear: "i < length L \<Longrightarrow> L ! i \<noteq> NULL \<Longrightarrow> Suc (used_slots (L[i := NULL])) = used_slots L"
  by (induction L arbitrary: i) (auto split: nat.splits simp: nth_Cons)

lemma first_null_None: "first_null k L = None \<longleftrightarrow> NULL \<notin> set L"
  by (induction L arbitrary: k) auto

lemma first_null_Some: "first_null k L = Some i \<Longrightarrow> \<exists>j < length L. i = k + j \<and> L ! j = NULL"
proof (induction L arbitrary: k)
  case (Cons p L)
  show ?case
  proof (cases "p = NULL")
    case False
    then obtain j where "j < length L" "i = Suc k + j" "L ! j = NULL" using Cons.IH [of "Suc k"] Cons.prems by auto
    then show ?thesis by (intro exI [of _ "Suc j"]) simp
  qed (use Cons.prems in auto)
qed simp

lemma set_fill: "i < length L \<Longrightarrow> L ! i = NULL \<Longrightarrow> set (L[i := p]) - {NULL} = (set L - {NULL}) \<union> ({p} - {NULL})"
  by (induction L arbitrary: i) (auto split: nat.splits simp: nth_Cons)

lemma slots_wf_inj:
  assumes "slots_wf L h" "i < length L" "j < length L" "L ! i = L ! j" "L ! i \<noteq> NULL"
  shows "i = j"
  using assms unfolding slots_wf_def by (metis option.inject)

lemma set_clear:
  assumes "slots_wf L h" "i < length L" "L ! i \<noteq> NULL"
  shows "set (L[i := NULL]) - {NULL} = set L - {NULL} - {L ! i}"
proof (intro equalityI subsetI)
  fix x assume "x \<in> set (L[i := NULL]) - {NULL}"
  then obtain j where "j < length L" "x = L[i := NULL] ! j" "x \<noteq> NULL" by (auto simp: in_set_conv_nth)
  then show "x \<in> set L - {NULL} - {L ! i}" using assms slots_wf_inj [OF assms(1), of i j] by (cases "j = i") auto
next
  fix x assume "x \<in> set L - {NULL} - {L ! i}"
  then obtain j where "j < length L" "x = L ! j" "j \<noteq> i" "x \<noteq> NULL" by (auto simp: in_set_conv_nth)
  then show "x \<in> set (L[i := NULL]) - {NULL}" using nth_mem [of j "L[i := NULL]"] by simp
qed

lemma slots_wf_other:
  assumes "slots_wf L h" "p \<notin> set L - {NULL}"
  shows "slots_wf L (h(p := x))"
  unfolding slots_wf_def
proof (intro allI impI)
  fix i assume i: "i < length L" "L ! i \<noteq> NULL"
  then have "L ! i \<noteq> p" using assms(2) nth_mem [of i L] by auto
  then show "\<exists>s. (h(p := x)) (L ! i) = Some s \<and> scanner_id s = i \<and> sc_scanning s" using assms(1) i by (simp add: slots_wf_def)
qed

lemma slots_wf_fill:
  assumes "slots_wf L h" "p \<notin> set L - {NULL}" "i < length L" "scanner_id s = i" "sc_scanning s"
  shows "slots_wf (L[i := p]) (h(p \<mapsto> s))"
  unfolding slots_wf_def
proof (intro allI impI)
  fix j assume j: "j < length (L[i := p])" "L[i := p] ! j \<noteq> NULL"
  show "\<exists>t. (h(p \<mapsto> s)) (L[i := p] ! j) = Some t \<and> scanner_id t = j \<and> sc_scanning t"
  proof (cases "j = i")
    case False
    then have "L[i := p] ! j = L ! j" "L ! j \<noteq> p" using j assms(2) nth_mem [of j L] by auto
    then show ?thesis using j assms(1) by (auto simp: slots_wf_def)
  qed (use assms(3-5) in simp)
qed

lemma slots_wf_clear:
  assumes "slots_wf L h" "i < length L" "L ! i \<noteq> NULL"
  shows "slots_wf (L[i := NULL]) (h(L ! i := None))"
  unfolding slots_wf_def
proof (intro allI impI)
  fix j assume j: "j < length (L[i := NULL])" "L[i := NULL] ! j \<noteq> NULL"
  then have ne: "j \<noteq> i" "L[i := NULL] ! j = L ! j" using assms(2) by (cases "j = i"; simp)+
  moreover have "L ! j \<noteq> L ! i" using slots_wf_inj [OF assms(1,2), of j] assms(3) j ne by auto
  ultimately show "\<exists>t. (h(L ! i := None)) (L[i := NULL] ! j) = Some t \<and> scanner_id t = j \<and> sc_scanning t"
    using assms(1) j by (simp add: slots_wf_def)
qed

lemma used_slots_count:
  fixes cnt :: u8
  assumes "cnt = of_nat (used_slots L)" "i < length L" "L ! i \<noteq> NULL"
  shows "cnt - 1 = of_nat (used_slots (L[i := NULL]))"
proof -
  have "used_slots L = Suc (used_slots (L[i := NULL]))" using used_slots_clear [OF assms(2,3)] by simp
  then show ?thesis using assms(1) by simp
qed

lemma remotes_wf_other: "remotes_wf R h \<Longrightarrow> p \<notin> R \<Longrightarrow> remotes_wf R (h(p := x))"
  unfolding remotes_wf_def by auto

lemma remotes_wf_remove: "remotes_wf R h \<Longrightarrow> remotes_wf (R - {p}) (h(p := x))"
  unfolding remotes_wf_def by simp

lemma remotes_wf_insert:
  assumes "remotes_wf R h" "h p = Some s" "\<And>q t. q \<in> R \<Longrightarrow> h q = Some t \<Longrightarrow> sc_remote t \<noteq> NULL \<Longrightarrow> sc_remote t \<noteq> sc_remote s"
  shows "remotes_wf (insert p R) h"
  unfolding remotes_wf_def
proof (intro ballI allI impI)
  fix a b x y
  assume *: "a \<in> insert p R" "b \<in> insert p R" "h a = Some x" "h b = Some y" "sc_remote x \<noteq> NULL" "sc_remote x = sc_remote y"
  show "a = b"
  proof (cases "a \<in> R \<and> b \<in> R")
    case True
    then show ?thesis using * assms(1) unfolding remotes_wf_def by blast
  next
    case False
    then show ?thesis using * assms(2) assms(3) [of a x] assms(3) [of b y] by auto
  qed
qed

lemma radio_append [simp]: "radio (outs @ xs) = foldl radio_step (radio outs) xs"
  by (simp add: radio_def)

lemma compare_loop_total:
  assumes "\<forall>p\<in>set L. p \<noteq> NULL \<longrightarrow> p \<in> dom (scanners m)"
  shows "compare_loop s L m = Some (list_ex (\<lambda>p. p \<noteq> NULL \<and> scanner_compare (the (scanners m p)) s) L)"
  using assms by (induction L) auto

section \<open>Every operation keeps the invariant\<close>

lemma scan_inv_emit [simp]: "(\<And>r. radio_step r x = r) \<Longrightarrow> scan_inv_on P (scan_emit x m) = scan_inv_on P m"
  by (simp add: scan_inv_on_def scan_emit_def registered_def)

lemma scan_inv_msgs [simp]: "scan_inv_on P (m\<lparr>scan_msgs := xs\<rparr>) = scan_inv_on P m" "scan_inv_on P (post x m) = scan_inv_on P m"
  by (simp_all add: scan_inv_on_def registered_def post_def)

lemma scan_emit_sel [simp]:
  "scanners (scan_emit x m) = scanners m" "scan_msgs (scan_emit x m) = scan_msgs m" "scanner_list (scan_emit x m) = scanner_list m"
  "scanning_list (scan_emit x m) = scanning_list m" "is_scanning (scan_emit x m) = is_scanning m"
  "scan_outs (scan_emit x m) = scan_outs m @ [x]" "devices (scan_emit x m) = devices m" "hash_table (scan_emit x m) = hash_table m"
  "scanner_cnt (scan_emit x m) = scanner_cnt m" "registered (scan_emit x m) = registered m"
  by (simp_all add: scan_emit_def registered_def)

lemma scan_live: "scan_inv_on P m \<Longrightarrow> scanners m p \<noteq> None \<longleftrightarrow> p \<in> registered m \<or> p \<in> set P"
  unfolding scan_inv_on_def by (metis Un_iff domIff)

lemma scan_pending:
  assumes "scan_inv_on (p # P) m"
  obtains s where "scanners m p = Some s" "\<not> sc_scanning s" "p \<notin> registered m"
  using assms scan_live [OF assms, of p] by (auto simp: scan_inv_on_def)

lemma scan_inv_add_pending:
  assumes "scan_inv_on P m" "p \<noteq> NULL" "scanners m p = None" "\<not> sc_scanning s" "\<not> sf_duplicated (sc_filter s)"
  shows "scan_inv_on (P @ [p]) (put_scanner p s m)"
proof -
  have reg: "p \<notin> registered m" "p \<notin> set P" using assms(3) scan_live [OF assms(1), of p] by simp_all
  have "slots_wf (scanner_list m) ((scanners m)(p \<mapsto> s))" "remotes_wf (registered m) ((scanners m)(p \<mapsto> s))"
    using assms(1) reg(1) by (simp_all add: scan_inv_on_def slots_wf_other remotes_wf_other registered_def)
  then show ?thesis using assms reg by (auto simp: scan_inv_on_def put_scanner_def registered_def)
qed

lemma delete_pending:
  assumes "scan_inv_on (p # P) m"
  shows "\<exists>m'. delete_scanner p m = Some m' \<and> scan_inv_on P m' \<and> scan_msgs m' = scan_msgs m"
proof -
  obtain s where s: "scanners m p = Some s" "\<not> sc_scanning s" and reg: "p \<notin> registered m" using assms by (rule scan_pending)
  have "slots_wf (scanner_list m) ((scanners m)(p := None))" "remotes_wf (registered m) ((scanners m)(p := None))"
    using assms reg by (simp_all add: scan_inv_on_def slots_wf_other remotes_wf_other registered_def)
  moreover have "dom ((scanners m)(p := None)) = registered m \<union> set P"
    using assms reg by (auto simp: scan_inv_on_def)
  ultimately have "scan_inv_on P (m\<lparr>scanners := (scanners m)(p := None)\<rparr>)"
    using assms by (auto simp: scan_inv_on_def registered_def)
  then show ?thesis using s by (simp add: delete_scanner_def)
qed

lemma register_cases:
  assumes "scan_inv_on (p # P) m"
  obtains st where "st \<noteq> BT_SCAN_STATUS_SUCCESS" "register_scanner p m = Some (st, m)"
  | i s where "scanners m p = Some s" "i < length (scanner_list m)" "scanner_list m ! i = NULL"
    "\<forall>q\<in>registered m. \<forall>t. scanners m q = Some t \<longrightarrow> sc_remote s \<noteq> NULL \<longrightarrow> sc_remote t \<noteq> sc_remote s"
    "register_scanner p m = Some (BT_SCAN_STATUS_SUCCESS,
       (put_scanner p (s\<lparr>scanner_id := i\<rparr>) m)\<lparr>scanner_list := (scanner_list m)[i := p], scanner_cnt := scanner_cnt m + 1\<rparr>)"
proof -
  obtain s where s: "scanners m p = Some s" using assms by (rule scan_pending)
  have "\<forall>q\<in>set (scanner_list m). q \<noteq> NULL \<longrightarrow> q \<in> dom (scanners m)" using scan_live [OF assms] by (auto simp: registered_def)
  note loop = compare_loop_total [OF this, of s]
  show ?thesis
  proof (cases "p = NULL \<or> scanner_cnt m = of_nat (length (scanner_list m)) \<or>
      list_ex (\<lambda>q. q \<noteq> NULL \<and> scanner_compare (the (scanners m q)) s) (scanner_list m) \<or> first_null 0 (scanner_list m) = None")
    case True
    let ?st = "if p = NULL then BT_SCAN_STATUS_START_FAIL
      else if scanner_cnt m = of_nat (length (scanner_list m)) then BT_SCAN_STATUS_SCANNER_REG_NOMEM
      else if list_ex (\<lambda>q. q \<noteq> NULL \<and> scanner_compare (the (scanners m q)) s) (scanner_list m) then BT_SCAN_STATUS_SCANNER_EXISTED
      else BT_SCAN_STATUS_START_FAIL"
    have "register_scanner p m = Some (?st, m)"
      using True by (auto simp: register_scanner_def s loop)
    then show ?thesis by (rule that(1) [rotated]) simp
  next
    case False
    then obtain i where i: "first_null 0 (scanner_list m) = Some i" by auto
    then have slot: "i < length (scanner_list m)" "scanner_list m ! i = NULL" using first_null_Some [OF i] by auto
    have new: "\<forall>q\<in>registered m. \<forall>t. scanners m q = Some t \<longrightarrow> sc_remote s \<noteq> NULL \<longrightarrow> sc_remote t \<noteq> sc_remote s"
    proof (intro ballI allI impI)
      fix q t assume "q \<in> registered m" "scanners m q = Some t" "sc_remote s \<noteq> NULL"
      moreover have "\<not> (q \<noteq> NULL \<and> scanner_compare (the (scanners m q)) s)" if "q \<in> set (scanner_list m)"
        using False that unfolding list_ex_iff by blast
      ultimately show "sc_remote t \<noteq> sc_remote s" by (simp add: registered_def scanner_compare_def)
    qed
    have "register_scanner p m = Some (BT_SCAN_STATUS_SUCCESS,
       (put_scanner p (s\<lparr>scanner_id := i\<rparr>) m)\<lparr>scanner_list := (scanner_list m)[i := p], scanner_cnt := scanner_cnt m + 1\<rparr>)"
      using False i s loop by (simp add: register_scanner_def)
    then show ?thesis by (rule that(2) [OF s slot new])
  qed
qed

text \<open>A registered scanner that starts to scan: the slot, the heap and the scanning list change together.\<close>

lemma scan_inv_started:
  assumes inv: "scan_inv_on (p # P) m" and s: "scanners m p = Some s" and slot: "i < length (scanner_list m)" "scanner_list m ! i = NULL"
    and new: "\<forall>q\<in>registered m. \<forall>t. scanners m q = Some t \<longrightarrow> sc_remote s \<noteq> NULL \<longrightarrow> sc_remote t \<noteq> sc_remote s"
    and m': "scanner_list m' = (scanner_list m)[i := p]" "scanner_cnt m' = scanner_cnt m + 1"
      "scanners m' = (scanners m)(p \<mapsto> s\<lparr>scanner_id := i, sc_scanning := True\<rparr>)"
      "scanning_list m' = map_option (\<lambda>ps. ps @ [p]) (scanning_list m)" "is_scanning m'" "devices m' = devices m" "hash_table m' = hash_table m"
      "radio (scan_outs m') = Some True"
  shows "scan_inv_on P m'"
proof -
  let ?s = "s\<lparr>scanner_id := i, sc_scanning := True\<rparr>"
  have p: "p \<noteq> NULL" "p \<notin> registered m" "p \<notin> set P" "\<not> sf_duplicated (sc_filter s)" using inv s by (auto simp: scan_inv_on_def)
  have reg: "registered m' = insert p (registered m)" using set_fill [OF slot, of p] p(1) m'(1) by (auto simp: registered_def)
  have "scanner_cnt m' = of_nat (used_slots (scanner_list m'))"
    using inv used_slots_fill [OF slot p(1)] m'(1,2) by (simp add: scan_inv_on_def)
  moreover have "slots_wf (scanner_list m') (scanners m')"
    using inv p(2) slot(1) unfolding m'(1,3) scan_inv_on_def registered_def by (intro slots_wf_fill) simp_all
  moreover have "remotes_wf (registered m') (scanners m')"
  proof -
    have old: "remotes_wf (registered m) ((scanners m)(p \<mapsto> ?s))" using inv p(2) by (simp add: scan_inv_on_def remotes_wf_other)
    have "sc_remote t \<noteq> sc_remote ?s" if "q \<in> registered m" "((scanners m)(p \<mapsto> ?s)) q = Some t" "sc_remote t \<noteq> NULL" for q t
    proof -
      have "scanners m q = Some t" using that p(2) by (auto split: if_splits)
      then show ?thesis using new that(1,3) by auto
    qed
    then show ?thesis unfolding reg m'(3) by (intro remotes_wf_insert [OF old, of p ?s]) simp_all
  qed
  moreover have "dom (scanners m') = registered m' \<union> set P" using inv reg m'(3) by (auto simp: scan_inv_on_def)
  moreover have "distinct P \<and> NULL \<notin> set P \<and> set P \<inter> registered m' = {}" using inv reg p(3) by (simp add: scan_inv_on_def)
  moreover have "\<forall>q\<in>set P. \<forall>t. scanners m' q = Some t \<longrightarrow> \<not> sc_scanning t" using inv p(3) m'(3) by (auto simp: scan_inv_on_def)
  moreover have "\<forall>q t. scanners m' q = Some t \<longrightarrow> \<not> sf_duplicated (sc_filter t)" using inv p(4) m'(3) by (simp add: scan_inv_on_def)
  moreover obtain ps where "scanning_list m = Some ps" "distinct ps" "set ps = registered m" using inv by (auto simp: scan_inv_on_def)
  moreover obtain ds where "devices m = Some ds" "distinct (map (\<lambda>d. (sd_addr d, sd_addr_type d)) ds)" "\<forall>d\<in>set ds. length (sd_addr d) = 6"
    using inv by (auto simp: scan_inv_on_def)
  moreover have "length (scanner_list m) < 256" "set (hash_table m) \<subseteq> {0}" using inv by (simp_all add: scan_inv_on_def)
  ultimately show ?thesis using m' p(2) reg by (simp add: scan_inv_on_def)
qed

lemma start_scan_inv:
  assumes inv: "scan_inv_on (p # P) m" and ok: "sal_start_status e = BT_STATUS_SUCCESS"
  shows "\<exists>m'. start_scan e p settings m = Some m' \<and> scan_inv_on P m' \<and> scan_msgs m' = scan_msgs m"
proof -
  obtain s0 where s0: "scanners m p = Some s0" using inv by (rule scan_pending)
  show ?thesis
  proof (rule register_cases [OF inv])
    fix st assume st: "st \<noteq> BT_SCAN_STATUS_SUCCESS" "register_scanner p m = Some (st, m)"
    have "scan_inv_on (p # P) (scan_emit (On_scan_start_status (get_remote p s0) st) m)" using inv by simp
    then obtain m' where "delete_scanner p (scan_emit (On_scan_start_status (get_remote p s0) st) m) = Some m'"
      "scan_inv_on P m'" "scan_msgs m' = scan_msgs m" using delete_pending by fastforce
    then show ?thesis using st s0 by (simp add: start_scan_def)
  next
    fix i s assume s: "scanners m p = Some s" and slot: "i < length (scanner_list m)" "scanner_list m ! i = NULL"
      and new: "\<forall>q\<in>registered m. \<forall>t. scanners m q = Some t \<longrightarrow> sc_remote s \<noteq> NULL \<longrightarrow> sc_remote t \<noteq> sc_remote s"
      and r: "register_scanner p m = Some (BT_SCAN_STATUS_SUCCESS,
       (put_scanner p (s\<lparr>scanner_id := i\<rparr>) m)\<lparr>scanner_list := (scanner_list m)[i := p], scanner_cnt := scanner_cnt m + 1\<rparr>)"
    obtain ps where ps: "scanning_list m = Some ps" "is_scanning m \<longleftrightarrow> ps \<noteq> []" "radio (scan_outs m) = Some (is_scanning m)"
      using inv by (auto simp: scan_inv_on_def)
    obtain m' where m': "start_scan e p settings m = Some m'"
      "scanner_list m' = (scanner_list m)[i := p]" "scanner_cnt m' = scanner_cnt m + 1"
      "scanners m' = (scanners m)(p \<mapsto> s\<lparr>scanner_id := i, sc_scanning := True\<rparr>)"
      "scanning_list m' = Some (ps @ [p])" "is_scanning m'" "devices m' = devices m" "hash_table m' = hash_table m"
      "radio (scan_outs m') = Some True" "scan_msgs m' = scan_msgs m"
      using r ps ok by (cases "is_scanning m") (simp_all add: start_scan_def put_scanner_def)
    have "scan_inv_on P m'" using m' ps by (intro scan_inv_started [OF inv s slot new]) simp_all
    then show ?thesis using m' by blast
  qed
qed

text \<open>A scanner that is unregistered: its slot is empty, it is off the scanning list, and its memory is free.\<close>

lemma unregister_inv:
  assumes inv: "scan_inv_on P m"
  shows "\<exists>m'. unregister_scanner p m = Some m' \<and> scan_inv_on P m' \<and> scan_msgs m' = scan_msgs m \<and>
    registered m' = registered m - {p} \<and> length (scanner_list m') = length (scanner_list m)"
proof (cases "p \<in> registered m")
  case False
  then show ?thesis using inv by (auto simp: unregister_scanner_def scanner_is_registered_def registered_def list_ex_iff)
next
  case True
  then obtain i where i: "i < length (scanner_list m)" "scanner_list m ! i = p" and nn: "p \<noteq> NULL"
    by (auto simp: registered_def in_set_conv_nth)
  have wf: "slots_wf (scanner_list m) (scanners m)" using inv by (simp add: scan_inv_on_def)
  obtain s where s: "scanners m p = Some s" "scanner_id s = i" "sc_scanning s" using wf i nn by (auto simp: slots_wf_def)
  obtain ps where ps: "scanning_list m = Some ps" "distinct ps" "set ps = registered m" "is_scanning m \<longleftrightarrow> ps \<noteq> []"
    using inv by (auto simp: scan_inv_on_def)
  obtain ds where ds: "devices m = Some ds" "\<not> is_scanning m \<longrightarrow> ds = []" "distinct (map (\<lambda>d. (sd_addr d, sd_addr_type d)) ds)"
    "\<forall>d\<in>set ds. length (sd_addr d) = 6" using inv by (auto simp: scan_inv_on_def)
  have on: "is_scanning m" "radio (scan_outs m) = Some True" using inv ps True by (auto simp: scan_inv_on_def)
  define ps' where "ps' = remove1 p ps"
  have isreg: "scanner_is_registered p m" using i by (auto simp: scanner_is_registered_def list_ex_iff)
  obtain m' where m': "unregister_scanner p m = Some m'" "scanner_list m' = (scanner_list m)[i := NULL]"
    "scanner_cnt m' = scanner_cnt m - 1" "scanners m' = (scanners m)(p := None)" "scanning_list m' = Some ps'"
    "is_scanning m' \<longleftrightarrow> ps' \<noteq> []" "devices m' = Some (if ps' = [] then [] else ds)"
    "set (hash_table m') \<subseteq> insert 0 (set (hash_table m))" "radio (scan_outs m') = Some (ps' \<noteq> [])" "scan_msgs m' = scan_msgs m"
    using isreg s ps ds on i nn
    by (cases "ps' = []") (auto simp: unregister_scanner_def stop_scan_def delete_scanner_def put_scanner_def ps'_def scanner_hsearch_free_def
        set_replicate_conv_if scan_emit_def radio_def get_remote_def)
  have reg: "registered m' = registered m - {p}"
    using set_clear [OF wf i(1)] i nn m'(2) by (simp add: registered_def)
  have "scanner_cnt m' = of_nat (used_slots (scanner_list m'))"
    using inv i nn unfolding m'(2,3) by (intro used_slots_count) (simp_all add: scan_inv_on_def)
  moreover have "slots_wf (scanner_list m') (scanners m')" using slots_wf_clear [OF wf i(1)] i(2) nn m'(2,4) by simp
  moreover have "remotes_wf (registered m') (scanners m')"
    using inv unfolding reg m'(4) by (simp add: scan_inv_on_def remotes_wf_remove)
  moreover have np: "p \<notin> set P" using inv True by (auto simp: scan_inv_on_def)
  moreover have "dom (scanners m') = registered m' \<union> set P" using inv np unfolding reg m'(4) scan_inv_on_def by auto
  moreover have "set ps' = registered m - {p}" "distinct ps'" using ps by (simp_all add: ps'_def)
  moreover have "length (scanner_list m) < 256" "distinct P" "NULL \<notin> set P" "set P \<inter> (registered m - {p}) = {}" "set (hash_table m') \<subseteq> {0}"
    "\<forall>q\<in>set P. \<forall>t. scanners m' q = Some t \<longrightarrow> \<not> sc_scanning t" "\<forall>q t. scanners m' q = Some t \<longrightarrow> \<not> sf_duplicated (sc_filter t)"
    using inv m'(4,8) by (auto simp: scan_inv_on_def)
  ultimately show ?thesis using m' reg ds by (simp add: scan_inv_on_def)
qed

text \<open>Delivering a report touches the devices and the outputs only.\<close>

lemma record_parse_field:
  assumes "unat f \<le> length p" "0 < unat f"
  shows "\<exists>r1. (if hd p \<in> {BT_EIR_UUID16_INCOMPLETE, BT_EIR_UUID16_COMPLETE, BT_EIR_SVC_DATA_16} \<and> 2 \<le> unat f - 1
        then record_parse_uuid16 r (tl p) else Some r) = Some r1"
proof (cases "2 \<le> unat f - 1")
  case True
  then obtain a b c rest where "p = a # b # c # rest" using assms by (cases p; cases "tl p"; cases "tl (tl p)") auto
  then show ?thesis by (simp add: record_parse_uuid16_def)
qed simp

lemma record_parse_safe:
  "eir_len \<le> len + length p \<Longrightarrow> \<exists>r'. record_parse_loop eir_len len p r = Some r'"
proof (induction "length p" arbitrary: len p r rule: less_induct)
  case less
  show ?case
  proof (cases p)
    case (Cons f q)
    show ?thesis
    proof (cases "int len < int eir_len - 1 \<and> f \<noteq> 0 \<and> len + unat f + 1 \<le> eir_len")
      case True
      then have f: "unat f \<le> length q" "0 < unat f" using less.prems Cons by (auto simp: unat_gt_0)
      then obtain r1 where r1: "(if hd q \<in> {BT_EIR_UUID16_INCOMPLETE, BT_EIR_UUID16_COMPLETE, BT_EIR_SVC_DATA_16} \<and> 2 \<le> unat f - 1
        then record_parse_uuid16 r (tl q) else Some r) = Some r1" using record_parse_field by blast
      have "\<exists>r'. record_parse_loop eir_len (len + unat f + 1) (drop (unat f) q) r1 = Some r'"
        using f less.prems Cons by (intro less.hyps) auto
      moreover have "record_parse_loop eir_len len p r = record_parse_loop eir_len (len + unat f + 1) (drop (unat f) q) r1"
        using True f Cons by (simp only: record_parse_loop.simps Let_def r1) auto
      ultimately show ?thesis by simp
    qed (use Cons in \<open>auto simp: Let_def\<close>)
  qed (use less.prems in auto)
qed

lemma scan_record_parse_safe: "unat n \<le> length p \<Longrightarrow> \<exists>r'. scan_record_parse r (Some p) n = Some r'"
  by (simp add: scan_record_parse_def record_parse_safe)

definition devices_ok :: "scanner_device list \<Rightarrow> bool" where
  "devices_ok ds \<longleftrightarrow> distinct (map (\<lambda>d. (sd_addr d, sd_addr_type d)) ds) \<and> (\<forall>d\<in>set ds. length (sd_addr d) = 6)"

text \<open>\<open>m'\<close> differs from \<open>m\<close> in its devices and in reports to clients.\<close>

definition delivered :: "scanner_manager \<Rightarrow> scanner_manager \<Rightarrow> bool" where
  "delivered m m' \<longleftrightarrow> (\<exists>ds' xs. m' = m\<lparr>devices := Some ds', scan_outs := scan_outs m @ xs\<rparr> \<and> devices_ok ds' \<and>
     (\<forall>r. foldl radio_step r xs = r))"

lemma memcmp_6: "length a = 6 \<Longrightarrow> length b = 6 \<Longrightarrow> memcmp a b = 0 \<longleftrightarrow> a = b"
  by (simp add: memcmp_eq_0)

lemma pass_filter_safe:
  assumes "devices m = Some ds" "devices_ok ds" "result_ok result" "\<not> sf_duplicated (sc_filter s)"
  shows "\<exists>b r ds'. pass_filter ts result s rec m = Some (b, r, m\<lparr>devices := Some ds'\<rparr>) \<and> devices_ok ds'"
proof -
  obtain r where r: "scan_record_parse rec (Some (rs_adv_data result)) (rs_length result) = Some r"
    using scan_record_parse_safe [of "rs_length result" "rs_adv_data result" rec] assms(3) by (auto simp: result_ok_def)
  let ?dev = "find (same_dev (rs_addr result) (rs_addr_type result)) ds"
  let ?new = "ds @ [(alloc_device (rs_addr result) (rs_addr_type result))\<lparr>sd_timestamp := ts\<rparr>]"
  have new: "devices_ok ?new" if "?dev = None"
  proof -
    have "\<forall>d\<in>set ds. \<not> same_dev (rs_addr result) (rs_addr_type result) d" using find_None_all [OF that] by blast
    then show ?thesis using assms(2,3) by (force simp: devices_ok_def alloc_device_def result_ok_def same_dev_def memcmp_6)
  qed
  have m: "m\<lparr>devices := Some ds\<rparr> = m" using assms(1) by simp
  let ?r = "if sr_active rec then rec else r\<lparr>sr_active := True\<rparr>"
  have "pass_filter ts result s rec m = Some (if \<not> sf_active (sc_filter s) then (True, rec, m)
    else if ?dev = None \<and> \<not> scanner_match_filter ?r (sc_filter s) then (False, ?r, m)
    else (True, ?r, if ?dev = None then m\<lparr>devices := Some ?new\<rparr> else m))"
    using assms(1,4) r
    by (cases ?dev; cases "sr_active rec") (simp_all add: pass_filter_def scanner_find_device_def scanner_add_device_def)
  moreover have "\<exists>b r ds'. Some (if c1 then (True, rec, m) else if c2 then (False, ?r, m)
      else (True, ?r, if ?dev = None then m\<lparr>devices := Some ?new\<rparr> else m)) = Some (b, r, m\<lparr>devices := Some ds'\<rparr>) \<and> devices_ok ds'" for c1 c2
  proof (cases "c1 \<or> c2 \<or> ?dev \<noteq> None")
    case True
    then show ?thesis using m assms(2) by (intro exI [of _ "\<not> (\<not> c1 \<and> c2)"] exI [of _ "if c1 then rec else ?r"] exI [of _ ds]) auto
  next
    case False
    then show ?thesis using new by auto
  qed
  ultimately show ?thesis by presburger
qed

lemma notify_loop_delivers:
  assumes "devices m = Some ds" "devices_ok ds" "result_ok result"
    "\<forall>p\<in>set ps. \<exists>s. scanners m p = Some s \<and> \<not> sf_duplicated (sc_filter s)"
  shows "\<exists>m'. notify_loop ts result ps rec m = Some m' \<and> delivered m m'"
  using assms
proof (induction ps arbitrary: rec m ds)
  case Nil
  then have "m = m\<lparr>devices := Some ds, scan_outs := scan_outs m @ []\<rparr>" by simp
  then have "delivered m m" using Nil unfolding delivered_def by (intro exI [of _ ds] exI [of _ "[]"]) auto
  then show ?case by simp
next
  case (Cons p ps)
  obtain s where s: "scanners m p = Some s" "\<not> sf_duplicated (sc_filter s)" using Cons.prems by auto
  obtain b r ds1 where pf: "pass_filter ts result s rec m = Some (b, r, m\<lparr>devices := Some ds1\<rparr>)" "devices_ok ds1"
    using pass_filter_safe [OF Cons.prems(1,2,3) s(2)] by blast
  define m1 where "m1 = (if b then scan_emit (On_scan_result (get_remote p s) result) (m\<lparr>devices := Some ds1\<rparr>) else m\<lparr>devices := Some ds1\<rparr>)"
  obtain xs where m1: "m1 = m\<lparr>devices := Some ds1, scan_outs := scan_outs m @ xs\<rparr>" "\<forall>r. foldl radio_step r xs = r"
  proof (cases b)
    case True
    then show ?thesis using that [of "[On_scan_result (get_remote p s) result]"] by (simp add: m1_def scan_emit_def)
  next
    case False
    then show ?thesis using that [of "[]"] by (simp add: m1_def)
  qed
  obtain m' where m': "notify_loop ts result ps r m1 = Some m'" "delivered m1 m'"
    using Cons.IH [of m1 ds1 r] Cons.prems pf(2) m1(1) by auto
  then obtain ds' ys where "m' = m1\<lparr>devices := Some ds', scan_outs := scan_outs m1 @ ys\<rparr>" "devices_ok ds'" "\<forall>r. foldl radio_step r ys = r"
    by (auto simp: delivered_def)
  then have "delivered m m'" using m1 unfolding delivered_def by (intro exI [of _ ds'] exI [of _ "xs @ ys"]) simp
  then show ?case using s pf m' by (simp add: m1_def)
qed

lemma delivered_inv:
  assumes "scan_inv_on P m" "is_scanning m" "delivered m m'"
  shows "scan_inv_on P m'"
proof -
  obtain ds xs where "m' = m\<lparr>devices := Some ds, scan_outs := scan_outs m @ xs\<rparr>" "devices_ok ds" "\<forall>r. foldl radio_step r xs = r"
    using assms(3) by (auto simp: delivered_def)
  then show ?thesis using assms(1,2) by (simp add: scan_inv_on_def registered_def devices_ok_def)
qed

lemma notify_inv:
  assumes inv: "scan_inv_on P m" and ok: "result_ok result"
  shows "\<exists>m' xs. notify_scanners_scan_result e result m = Some m' \<and> scan_inv_on P m' \<and> scan_msgs m' = scan_msgs m @ xs \<and>
    list_all scan_msg_ok xs \<and> concat (map msg_starts xs) = []"
proof (cases "server_busy e")
  case True
  then show ?thesis using inv ok
    by (cases "deferred_full e") (auto simp: notify_scanners_scan_result_def post_def)
next
  case False
  obtain ps where ps: "scanning_list m = Some ps" "set ps = registered m" "is_scanning m \<longleftrightarrow> ps \<noteq> []" using inv by (auto simp: scan_inv_on_def)
  show ?thesis
  proof (cases "ps = []")
    case True
    then show ?thesis using False ps(1) inv by (simp add: notify_scanners_scan_result_def)
  next
    case ne: False
    obtain ds where ds: "devices m = Some ds" "devices_ok ds" using inv by (auto simp: scan_inv_on_def devices_ok_def)
    have "\<exists>s. scanners m p = Some s \<and> \<not> sf_duplicated (sc_filter s)" if "p \<in> set ps" for p
      using scan_live [OF inv, of p] that ps(2) inv by (auto simp: scan_inv_on_def)
    then obtain m' where m': "notify_loop (timestamp_ms e) result ps \<lparr>sr_active = False, sr_uuid = 0\<rparr> m = Some m'" "delivered m m'"
      using notify_loop_delivers [OF ds ok] by blast
    then have "scan_inv_on P m'" using delivered_inv [OF inv] ps(3) ne by simp
    moreover have "scan_msgs m' = scan_msgs m" using m'(2) by (auto simp: delivered_def)
    ultimately show ?thesis using False ps(1) m'(1) by (simp add: notify_scanners_scan_result_def)
  qed
qed

section \<open>Histories\<close>

fun scan_input_ok :: "scan_env \<times> scan_input \<Rightarrow> bool" where
  "scan_input_ok (e, In_result _ result) \<longleftrightarrow> sal_start_status e = BT_STATUS_SUCCESS \<and> result_ok result"
| "scan_input_ok (e, _) \<longleftrightarrow> sal_start_status e = BT_STATUS_SUCCESS"

lemma run_scan_msg_inv:
  assumes "scan_inv_on (msg_starts x @ P) m" "scan_msg_ok x" "sal_start_status e = BT_STATUS_SUCCESS"
  shows "\<exists>m' xs. run_scan_msg e x m = Some m' \<and> scan_inv_on P m' \<and> scan_msgs m' = scan_msgs m @ xs \<and>
    list_all scan_msg_ok xs \<and> concat (map msg_starts xs) = []"
proof (cases x)
  case (Msg_start p settings)
  then show ?thesis using start_scan_inv [of p P m e settings] assms by (auto intro!: exI [of _ "[]"])
next
  case (Msg_stop p)
  then obtain m' where "unregister_scanner p m = Some m'" "scan_inv_on P m'" "scan_msgs m' = scan_msgs m"
    using unregister_inv [of P m p] assms by auto
  then show ?thesis using Msg_stop by (simp add: stop_scanner_def)
next
  case (Msg_result r)
  then show ?thesis using notify_inv [of P m r e] assms by simp
qed (use assms in simp)

lemma scan_inv_post:
  assumes "scan_inv (Some m)" "msg_starts x = []" "scan_msg_ok x"
  shows "scan_inv (Some (post x m))"
  using assms by (simp add: scan_inv_def) (simp add: post_def)

lemma scan_inv_start_posted:
  assumes "scan_inv (Some m)" "p \<noteq> NULL" "scanners m p = None" "\<not> sc_scanning s" "\<not> sf_duplicated (sc_filter s)"
  shows "scan_inv (Some (post (Msg_start p settings) (put_scanner p s m)))"
proof -
  have "scan_inv_on (pending m @ [p]) (put_scanner p s m)" using assms by (intro scan_inv_add_pending) (simp_all add: scan_inv_def)
  moreover have "pending (post (Msg_start p settings) (put_scanner p s m)) = pending m @ [p]" by (simp add: post_def put_scanner_def)
  moreover have "scan_msgs (post (Msg_start p settings) (put_scanner p s m)) = scan_msgs m @ [Msg_start p settings]" by (simp add: post_def put_scanner_def)
  ultimately show ?thesis using assms(1) by (simp add: scan_inv_def)
qed

lemma scan_loop_inv:
  assumes inv: "scan_inv (Some m)" and x: "scan_msgs m = x # xs" and ok: "sal_start_status e = BT_STATUS_SUCCESS"
  shows "scan_inv (run_scan_msg e x (m\<lparr>scan_msgs := xs\<rparr>))"
proof -
  let ?P = "concat (map msg_starts xs)"
  have "scan_inv_on (msg_starts x @ ?P) (m\<lparr>scan_msgs := xs\<rparr>)" "scan_msg_ok x" "list_all scan_msg_ok xs"
    using inv x by (simp_all add: scan_inv_def)
  then obtain m' ys where "run_scan_msg e x (m\<lparr>scan_msgs := xs\<rparr>) = Some m'" "scan_inv_on ?P m'" "scan_msgs m' = xs @ ys"
    "list_all scan_msg_ok ys" "concat (map msg_starts ys) = []"
    using run_scan_msg_inv [of x ?P "m\<lparr>scan_msgs := xs\<rparr>" e] ok by auto
  moreover from this have "scan_inv_on (pending m') m'" "list_all scan_msg_ok (scan_msgs m')"
    using \<open>list_all scan_msg_ok xs\<close> by (simp_all del: concat_eq_Nil_conv)
  ultimately show ?thesis unfolding scan_inv_def by blast
qed

lemma scan_step_inv: "scan_inv mo \<Longrightarrow> scan_input_ok ei \<Longrightarrow> scan_inv (scan_step mo ei)"
proof -
  assume inv: "scan_inv mo" and ok: "scan_input_ok ei"
  obtain m where m: "mo = Some m" using inv by (auto simp: scan_inv_def)
  obtain e i where ei: "ei = (e, i)" by fastforce
  note facts = inv [unfolded m] ok [unfolded ei]
  show "scan_inv (scan_step mo ei)"
  proof (cases i)
    case (In_start p mem remote cbs)
    then show ?thesis using facts m ei
      by (auto simp: scanner_start_scan_def malloc_scanner_def alloc_new_scanner_def no_filter_def intro: scan_inv_start_posted)
  next
    case (In_start_filters p mem remote settings filt cbs)
    then show ?thesis using facts m ei
      by (auto simp: scanner_start_scan_with_filters_def malloc_scanner_def alloc_new_scanner_def no_filter_def Let_def
          intro!: scan_inv_start_posted split: option.split)
  next
    case In_loop
    then show ?thesis using facts m ei scan_loop_inv [of m _ _ e] by (cases "scan_msgs m") simp_all
  qed (use facts m ei in \<open>auto simp: scanner_stop_scan_def scan_on_result_data_update_def intro: scan_inv_post\<close>)
qed

interpretation scan_ev: event_machine scan_step scan_inv scan_input_ok
  by unfold_locales (rule scan_step_inv)

lemma scan_init_inv: "n < 256 \<Longrightarrow> scan_inv (Some (scan_manager_init n k))"
  by (auto simp: scan_inv_def scan_inv_on_def scan_manager_init_def registered_def slots_wf_def remotes_wf_def radio_def)




abbreviation demo_scan_env :: "bt_status_t \<Rightarrow> scan_env" where
  "demo_scan_env st \<equiv> \<lparr>le_enabled = True, sal_start_status = st, server_busy = False, deferred_full = False, timestamp_ms = 0\<rparr>"

abbreviation demo_scan_inputs :: "bt_status_t \<Rightarrow> (scan_env \<times> scan_input) list" where
  "demo_scan_inputs st \<equiv> map (Pair (demo_scan_env st)) [In_start 8 True 0 4, In_start 16 True 2 4, In_loop]"


section \<open>A start that the stack refuses\<close>

lemma idle_slots:
  assumes "scan_inv_on P m" "\<not> is_scanning m"
  shows "scanner_list m = replicate (length (scanner_list m)) NULL" "scanner_cnt m = 0"
proof -
  have "registered m = {}" using assms by (auto simp: scan_inv_on_def)
  then have all: "\<forall>p\<in>set (scanner_list m). p = NULL" by (auto simp: registered_def)
  then show "scanner_list m = replicate (length (scanner_list m)) NULL" by (simp add: replicate_eqI)
  have "filter (\<lambda>p. p \<noteq> NULL) (scanner_list m) = []" using all by (simp add: filter_empty_conv)
  then show "scanner_cnt m = 0" using assms(1) by (simp add: scan_inv_on_def)
qed

lemma compare_loop_nulls: "compare_loop s (replicate n NULL) m = Some False"
  by (induction n) simp_all

text \<open>C35. When the stack refuses to start the first scan, the client is told and its scanner is freed, but the
  address of the freed scanner stays in its slot: the next start compares the new scanner with it and
  reads freed memory.\<close>

theorem scan_start_refused:
  assumes "scan_inv (Some m)" "\<not> is_scanning m" "scan_msgs m = Msg_start p st # Msg_start q st' # xs"
    "1 < length (scanner_list m)" "sal_start_status e \<noteq> BT_STATUS_SUCCESS"
  shows "\<exists>m'. scan_step (Some m) (e, In_loop) = Some m' \<and> p \<in> registered m' \<and> scanners m' p = None \<and>
    scan_step (Some m') (e', In_loop) = None"
proof -
  have inv: "scan_inv_on (p # q # concat (map msg_starts xs)) m" using assms(1,3) by (simp add: scan_inv_def)
  obtain s where s: "scanners m p = Some s" "\<not> sc_scanning s" using inv by (rule scan_pending)
  have pq: "p \<noteq> NULL" "q \<noteq> NULL" "p \<noteq> q" using inv by (auto simp: scan_inv_on_def)
  obtain t where t: "scanners m q = Some t" using scan_live [OF inv, of q] by auto
  obtain n where n: "length (scanner_list m) = Suc (Suc n)" using assms(4) by (metis Suc_lessE less_imp_Suc_add One_nat_def add_Suc)
  have L: "scanner_list m = NULL # replicate (Suc n) NULL" "scanner_cnt m = 0"
    using idle_slots [OF inv assms(2)] n by simp_all
  have c: "(of_nat (Suc (Suc n)) :: u8) \<noteq> 0" "(of_nat (Suc (Suc n)) :: u8) \<noteq> 1"
  proof -
    have "Suc (Suc n) < 256" using inv n by (simp add: scan_inv_on_def)
    then have "unat (of_nat (Suc (Suc n)) :: u8) = Suc (Suc n)" by (rule unat_of_nat_u8)
    then show "(of_nat (Suc (Suc n)) :: u8) \<noteq> 0" "(of_nat (Suc (Suc n)) :: u8) \<noteq> 1" by (metis One_nat_def nat.distinct(1) unat_0 unat_1 nat.inject)+
  qed
  obtain ps where "scanning_list m = Some ps" "ps = []" using inv assms(2) by (auto simp: scan_inv_on_def)
  then obtain m' where m': "scan_step (Some m) (e, In_loop) = Some m'" "scanner_list m' = p # replicate (Suc n) NULL"
    "scanner_cnt m' = 1" "scanners m' = (scanners m)(p := None)" "scan_msgs m' = Msg_start q st' # xs"
    using assms(2,3,5) s L pq c compare_loop_nulls [of s "Suc n"]
    by (simp add: start_scan_def register_scanner_def put_scanner_def delete_scanner_def get_remote_def scan_emit_def)
  moreover have "scan_step (Some m') (e', In_loop) = None"
    using m'(2-5) pq t c by (simp add: start_scan_def register_scanner_def)
  ultimately show ?thesis using pq by (intro exI [of _ m']) (simp add: registered_def)
qed

theorem scan_start_refused_witness:
  "\<exists>m m'. foldl scan_step (Some (scan_manager_init 2 10)) (take 2 (demo_scan_inputs BT_STATUS_FAIL)) = Some m \<and>
    scan_step (Some m) (demo_scan_env BT_STATUS_FAIL, In_loop) = Some m' \<and> 8 \<in> registered m' \<and> scanners m' 8 = None \<and>
    scan_step (Some m') (demo_scan_env BT_STATUS_SUCCESS, In_loop) = None"
proof -
  let ?m = "the (foldl scan_step (Some (scan_manager_init 2 10)) (take 2 (demo_scan_inputs BT_STATUS_FAIL)))"
  have inv: "scan_inv (foldl scan_step (Some (scan_manager_init 2 10)) (take 2 (demo_scan_inputs BT_STATUS_SUCCESS)))"
    by (rule scan_ev.inv_run) (auto simp: scan_init_inv)
  have same: "foldl scan_step (Some (scan_manager_init 2 10)) (take 2 (demo_scan_inputs BT_STATUS_FAIL)) =
      foldl scan_step (Some (scan_manager_init 2 10)) (take 2 (demo_scan_inputs BT_STATUS_SUCCESS))"
    by (simp add: scanner_start_scan_def)
  have m: "foldl scan_step (Some (scan_manager_init 2 10)) (take 2 (demo_scan_inputs BT_STATUS_FAIL)) = Some ?m"
    "\<not> is_scanning ?m" "scan_msgs ?m = [Msg_start 8 None, Msg_start 16 None]" "length (scanner_list ?m) = 2"
    by (simp_all add: scanner_start_scan_def malloc_scanner_def scan_manager_init_def post_def put_scanner_def)
  have "scan_inv (Some ?m)" using inv m(1) same by simp
  then show ?thesis using scan_start_refused [of ?m 8 None 16 None "[]" "demo_scan_env BT_STATUS_FAIL" "demo_scan_env BT_STATUS_SUCCESS"] m
    by auto
qed

end
