(* ===== verification/Service_Loop.thy ===== *)
theory Service_Loop
  imports Prelude
begin

text \<open>
  service/common/service_loop.c: the loop that runs the messages of all components, its three queues and
  its timers. The loop of libuv is not part of the sources: its steps are the calls of \<open>service_message_callback\<close>
  and of the callback of a timer that has expired. Messages are of a type \<open>'m\<close> of the components, the user
  data of their timers of a type \<open>'u\<close>. A timer is a handle; stopping a handle that is not allocated (which
  libuv does not survive) is \<open>None\<close>.
\<close>

datatype 'u timer_data = Deferred_timeout | User 'u

record ('m, 'u) service_loop =
  is_running :: bool
  msg_queue :: "'m list"
  init_queue :: "'m list"
  deferred_queue :: "'m list"
  deferred_timer :: "nat option"
  timers :: "nat list"
  active_timers :: "(nat \<times> bool \<times> 'u timer_data) list"
  next_timer :: nat

definition service_loop_init :: "('m, 'u) service_loop" where
  "service_loop_init = \<lparr>is_running = False, msg_queue = [], init_queue = [], deferred_queue = [], deferred_timer = None,
     timers = [], active_timers = [], next_timer = 0\<rparr>"

section \<open>Timers\<close>

text \<open>\<open>mem\<close> says that the timer is allocated; \<open>repeat\<close> that it is started again when it expires.\<close>

definition service_loop_timer ::
  "bool \<Rightarrow> bool \<Rightarrow> 'u timer_data \<Rightarrow> ('m, 'u) service_loop \<Rightarrow> nat option \<times> ('m, 'u) service_loop" where
  "service_loop_timer mem repeat u l =
     (if \<not> mem then (None, l)
      else (Some (next_timer l), l\<lparr>timers := timers l @ [next_timer l],
              active_timers := active_timers l @ [(next_timer l, repeat, u)], next_timer := Suc (next_timer l)\<rparr>))"

definition service_loop_timer_no_repeating ::
  "bool \<Rightarrow> 'u timer_data \<Rightarrow> ('m, 'u) service_loop \<Rightarrow> nat option \<times> ('m, 'u) service_loop" where
  "service_loop_timer_no_repeating mem u l = service_loop_timer mem False u l"

definition service_loop_cancel_timer :: "nat option \<Rightarrow> ('m, 'u) service_loop \<Rightarrow> ('m, 'u) service_loop option" where
  "service_loop_cancel_timer t l =
     (case t of
        None \<Rightarrow> Some l
      | Some h \<Rightarrow> if h \<in> set (timers l)
                  then Some (l\<lparr>timers := filter (\<lambda>x. x \<noteq> h) (timers l), active_timers := filter (\<lambda>x. fst x \<noteq> h) (active_timers l)\<rparr>)
                  else None)"

text \<open>The expiry of a timer: one that does not repeat is inactive afterwards, but stays allocated.\<close>

definition expire_timer :: "nat \<Rightarrow> ('m, 'u) service_loop \<Rightarrow> ('u timer_data \<times> ('m, 'u) service_loop) option" where
  "expire_timer h l =
     (case find (\<lambda>x. fst x = h) (active_timers l) of
        None \<Rightarrow> None
      | Some (_, repeat, u) \<Rightarrow> Some (u, if repeat then l else l\<lparr>active_timers := filter (\<lambda>x. fst x \<noteq> h) (active_timers l)\<rparr>))"

section \<open>Queues\<close>

definition add_init_process :: "'m \<Rightarrow> ('m, 'u) service_loop \<Rightarrow> ('m, 'u) service_loop" where
  "add_init_process func l = l\<lparr>init_queue := init_queue l @ [func]\<rparr>"

definition do_in_service_loop :: "'m \<Rightarrow> ('m, 'u) service_loop \<Rightarrow> ('m, 'u) service_loop" where
  "do_in_service_loop func l = l\<lparr>msg_queue := msg_queue l @ [func]\<rparr>"

definition DEFFERED_MSG_MAX :: nat where
  "DEFFERED_MSG_MAX = 50"

definition do_in_service_loop_deffered :: "bool \<Rightarrow> 'm \<Rightarrow> bool \<Rightarrow> ('m, 'u) service_loop \<Rightarrow> ('m, 'u) service_loop" where
  "do_in_service_loop_deffered mem func flushable l =
     (if flushable \<and> DEFFERED_MSG_MAX < length (deferred_queue l) then l
      else let l = l\<lparr>deferred_queue := deferred_queue l @ [func]\<rparr>
           in if deferred_timer l = None
              then let (t, l) = service_loop_timer_no_repeating mem Deferred_timeout l in l\<lparr>deferred_timer := t\<rparr>
              else l)"

definition deferred_timeout :: "('m, 'u) service_loop \<Rightarrow> ('m, 'u) service_loop option" where
  "deferred_timeout l =
     do { let l = l\<lparr>msg_queue := msg_queue l @ deferred_queue l, deferred_queue := []\<rparr>;
          l \<leftarrow> service_loop_cancel_timer (deferred_timer l) l;
          Some (l\<lparr>deferred_timer := None\<rparr>) }"

text \<open>\<open>run\<close> is the effect of a message, which may post further ones; the callback drains the queue.\<close>

partial_function (option) service_message_callback ::
  "('m \<Rightarrow> ('m, 'u) service_loop \<Rightarrow> ('m, 'u) service_loop option) \<Rightarrow> ('m, 'u) service_loop \<Rightarrow> ('m, 'u) service_loop option" where
  "service_message_callback run l =
     (case msg_queue l of
        [] \<Rightarrow> Some l
      | x # xs \<Rightarrow> do { l \<leftarrow> run x (l\<lparr>msg_queue := xs\<rparr>); service_message_callback run l })"

definition set_stop :: "('m, 'u) service_loop \<Rightarrow> ('m, 'u) service_loop" where
  "set_stop l = l\<lparr>is_running := False\<rparr>"

text \<open>\<open>init\<close> is the result of a function of the initialisation queue; the first failure stops the loop.\<close>

fun init_loop :: "('m \<Rightarrow> int) \<Rightarrow> 'm list \<Rightarrow> ('m, 'u) service_loop \<Rightarrow> ('m, 'u) service_loop" where
  "init_loop init [] l = l"
| "init_loop init (x # xs) l =
     (let l = l\<lparr>init_queue := xs\<rparr> in if init x \<noteq> 0 then set_stop l else init_loop init xs l)"

definition set_ready :: "('m \<Rightarrow> int) \<Rightarrow> ('m, 'u) service_loop \<Rightarrow> ('m, 'u) service_loop" where
  "set_ready init l = init_loop init (init_queue l) (l\<lparr>is_running := True\<rparr>)"

section \<open>Histories\<close>

text \<open>A history of the queues: posts, deferrals, expiries of the deferral timer, and runs of one message.\<close>

datatype 'm queue_op = Post 'm | Defer 'm bool | Timeout | Take

text \<open>The state of a history: the loop and the messages run so far.\<close>

record ('m, 'u) queue_trace =
  q_loop :: "('m, 'u) service_loop"
  q_run :: "'m list"

fun queue_step :: "('m, 'u) queue_trace option \<Rightarrow> 'm queue_op \<Rightarrow> ('m, 'u) queue_trace option" where
  "queue_step None _ = None"
| "queue_step (Some q) (Post x) = Some (q\<lparr>q_loop := do_in_service_loop x (q_loop q)\<rparr>)"
| "queue_step (Some q) (Defer x flushable) = Some (q\<lparr>q_loop := do_in_service_loop_deffered True x flushable (q_loop q)\<rparr>)"
| "queue_step (Some q) Timeout =
     (case deferred_timer (q_loop q) of
        None \<Rightarrow> Some q
      | Some h \<Rightarrow> (case expire_timer h (q_loop q) of
                     None \<Rightarrow> None
                   | Some (_, l) \<Rightarrow> map_option (\<lambda>l. q\<lparr>q_loop := l\<rparr>) (deferred_timeout l)))"
| "queue_step (Some q) Take =
     (case msg_queue (q_loop q) of
        [] \<Rightarrow> Some q
      | x # xs \<Rightarrow> Some (q\<lparr>q_loop := (q_loop q)\<lparr>msg_queue := xs\<rparr>, q_run := q_run q @ [x]\<rparr>))"

section \<open>The loop implements two queues\<close>

text \<open>The specification knows neither timers nor handles: the messages that have been run, those that wait, and
  those that are put off until the next timeout, in this order.\<close>

type_synonym 'm queues = "'m list \<times> 'm list \<times> 'm list"

fun queues_step :: "'m queues \<Rightarrow> 'm queue_op \<Rightarrow> 'm queues" where
  "queues_step (done, waiting, later) (Post x) = (done, waiting @ [x], later)"
| "queues_step (done, waiting, later) (Defer x flushable) =
     (done, waiting, if flushable \<and> 50 < length later then later else later @ [x])"
| "queues_step (done, waiting, later) Timeout = (done, waiting @ later, [])"
| "queues_step (done, [], later) Take = (done, [], later)"
| "queues_step (done, x # waiting, later) Take = (done @ [x], waiting, later)"

definition loop_queues :: "('m, 'u) queue_trace option \<Rightarrow> 'm queues" where
  "loop_queues qo = (case qo of None \<Rightarrow> ([], [], []) | Some q \<Rightarrow> (q_run q, msg_queue (q_loop q), deferred_queue (q_loop q)))"

text \<open>Handles are fresh, and the deferral timer is active exactly while a message is put off.\<close>

definition timers_ok :: "('m, 'u) service_loop \<Rightarrow> bool" where
  "timers_ok l \<longleftrightarrow> distinct (timers l) \<and> distinct (map fst (active_timers l)) \<and>
     fst ` set (active_timers l) \<subseteq> set (timers l) \<and> (\<forall>h\<in>set (timers l). h < next_timer l)"

definition deferral_ok :: "('m, 'u) service_loop \<Rightarrow> bool" where
  "deferral_ok l \<longleftrightarrow> (if deferred_queue l = [] then deferred_timer l = None
     else \<exists>h. deferred_timer l = Some h \<and> (h, False, Deferred_timeout) \<in> set (active_timers l))"

definition loop_inv :: "('m, 'u) queue_trace option \<Rightarrow> bool" where
  "loop_inv qo \<longleftrightarrow> (\<exists>q. qo = Some q \<and> timers_ok (q_loop q) \<and> deferral_ok (q_loop q))"

lemma find_active:
  "distinct (map fst xs) \<Longrightarrow> (h, y) \<in> set xs \<Longrightarrow> find (\<lambda>x. fst x = h) xs = Some (h, y)"
  by (induction xs) force+

lemma timers_ok_queues [simp]:
  "timers_ok (l\<lparr>msg_queue := xs\<rparr>) = timers_ok l" "timers_ok (l\<lparr>deferred_queue := xs\<rparr>) = timers_ok l" "timers_ok (l\<lparr>deferred_timer := t\<rparr>) = timers_ok l"
  "deferral_ok (l\<lparr>msg_queue := xs\<rparr>) = deferral_ok l"
  by (simp_all add: timers_ok_def deferral_ok_def)

lemma timers_ok_start:
  "timers_ok l \<Longrightarrow> timers_ok (l\<lparr>timers := timers l @ [next_timer l], active_timers := active_timers l @ [(next_timer l, r, u)], next_timer := Suc (next_timer l)\<rparr>)"
proof -
  assume ok: "timers_ok l"
  then have "next_timer l \<notin> set (timers l)" by (auto simp: timers_ok_def)
  moreover from this ok have "next_timer l \<notin> fst ` set (active_timers l)" unfolding timers_ok_def by blast
  ultimately show ?thesis using ok by (auto simp: timers_ok_def less_Suc_eq)
qed

lemma timers_ok_cancel:
  "timers_ok l \<Longrightarrow> timers_ok (l\<lparr>timers := filter (\<lambda>x. x \<noteq> h) (timers l), active_timers := filter (\<lambda>x. fst x \<noteq> h) (active_timers l)\<rparr>)"
  by (auto simp: timers_ok_def distinct_map_filter)

lemma deffered_ok:
  assumes "timers_ok l" "deferral_ok l"
  shows "timers_ok (do_in_service_loop_deffered True x flushable l) \<and> deferral_ok (do_in_service_loop_deffered True x flushable l) \<and>
    msg_queue (do_in_service_loop_deffered True x flushable l) = msg_queue l \<and>
    deferred_queue (do_in_service_loop_deffered True x flushable l) =
      (if flushable \<and> 50 < length (deferred_queue l) then deferred_queue l else deferred_queue l @ [x])"
proof (cases "flushable \<and> 50 < length (deferred_queue l)")
  case False
  then show ?thesis
  proof (cases "deferred_timer l")
    case None
    have "timers_ok (l\<lparr>deferred_queue := deferred_queue l @ [x],
        timers := timers l @ [next_timer l], active_timers := active_timers l @ [(next_timer l, False, Deferred_timeout)], next_timer := Suc (next_timer l)\<rparr>)"
      using timers_ok_start [of "l\<lparr>deferred_queue := deferred_queue l @ [x]\<rparr>"] assms(1) by simp
    then show ?thesis using None False
      by (simp add: do_in_service_loop_deffered_def service_loop_timer_no_repeating_def service_loop_timer_def DEFFERED_MSG_MAX_def deferral_ok_def)
  next
    case (Some h)
    then show ?thesis using assms False by (auto simp: do_in_service_loop_deffered_def DEFFERED_MSG_MAX_def deferral_ok_def split: if_splits)
  qed
qed (use assms in \<open>simp add: do_in_service_loop_deffered_def DEFFERED_MSG_MAX_def\<close>)

lemma timeout_ok:
  assumes "timers_ok l" "deferral_ok l" "deferred_timer l = Some h"
  shows "\<exists>l1 l2. expire_timer h l = Some (Deferred_timeout, l1) \<and> deferred_timeout l1 = Some l2 \<and> timers_ok l2 \<and> deferral_ok l2 \<and>
    msg_queue l2 = msg_queue l @ deferred_queue l \<and> deferred_queue l2 = []"
proof -
  have act: "(h, False, Deferred_timeout) \<in> set (active_timers l)" using assms(2,3) by (auto simp: deferral_ok_def split: if_splits)
  then have "find (\<lambda>x. fst x = h) (active_timers l) = Some (h, False, Deferred_timeout)" "h \<in> set (timers l)"
    using find_active [of "active_timers l"] assms(1) by (force simp: timers_ok_def)+
  then show ?thesis using assms timers_ok_cancel [OF assms(1), of h]
    by (simp add: expire_timer_def deferred_timeout_def service_loop_cancel_timer_def Let_def timers_ok_def deferral_ok_def)
qed

lemma queue_step_refines:
  assumes inv: "loop_inv (Some q)"
  shows "loop_inv (queue_step (Some q) p) \<and> loop_queues (queue_step (Some q) p) = queues_step (loop_queues (Some q)) p"
proof -
  have ok: "timers_ok (q_loop q)" "deferral_ok (q_loop q)" using inv by (simp_all add: loop_inv_def)
  show ?thesis
  proof (cases p)
    case (Defer x flushable)
    then show ?thesis using deffered_ok [OF ok, of x flushable] by (simp add: loop_inv_def loop_queues_def)
  next
    case Timeout
    show ?thesis
    proof (cases "deferred_timer (q_loop q)")
      case None
      then have "deferred_queue (q_loop q) = []" using ok(2) by (auto simp: deferral_ok_def split: if_splits)
      then show ?thesis using None ok Timeout by (simp add: loop_inv_def loop_queues_def)
    next
      case (Some h)
      then obtain l1 l2 where "expire_timer h (q_loop q) = Some (Deferred_timeout, l1)" "deferred_timeout l1 = Some l2" "timers_ok l2" "deferral_ok l2"
        "msg_queue l2 = msg_queue (q_loop q) @ deferred_queue (q_loop q)" "deferred_queue l2 = []" using timeout_ok [OF ok Some] by blast
      then show ?thesis using Some Timeout by (simp add: loop_inv_def loop_queues_def)
    qed
  next
    case Take
    then show ?thesis using ok by (cases "msg_queue (q_loop q)") (simp_all add: loop_inv_def loop_queues_def)
  qed (use ok in \<open>simp_all add: loop_inv_def loop_queues_def do_in_service_loop_def\<close>)
qed

interpretation loop_ref: refined_machine queue_step loop_inv "\<lambda>_. True" queues_step loop_queues
proof
  fix qo :: "('m, 'u) queue_trace option" and p :: "'m queue_op"
  assume "loop_inv qo"
  then obtain q where "qo = Some q" by (auto simp: loop_inv_def)
  then show "loop_inv (queue_step qo p)" "loop_queues (queue_step qo p) = queues_step (loop_queues qo) p"
    using queue_step_refines \<open>loop_inv qo\<close> by blast+
qed


text \<open>Draining the queue returns when the messages post nothing.\<close>

lemma message_callback_drains:
  assumes "\<And>x l. \<exists>l'. run x l = Some l' \<and> msg_queue l' = msg_queue l"
  shows "\<exists>l'. service_message_callback run l = Some l' \<and> msg_queue l' = []"
proof (induction "msg_queue l" arbitrary: l)
  case Nil
  then show ?case by (subst service_message_callback.simps) (metis list.simps(4))
next
  case (Cons x xs)
  obtain l1 where l1: "run x (l\<lparr>msg_queue := xs\<rparr>) = Some l1" "msg_queue l1 = xs" using assms [of x "l\<lparr>msg_queue := xs\<rparr>"] by auto
  then have "\<exists>l'. service_message_callback run l1 = Some l' \<and> msg_queue l' = []" using Cons.hyps(1) by simp
  moreover have "service_message_callback run l = service_message_callback run l1"
    using l1 Cons.hyps(2) [symmetric] by (subst service_message_callback.simps) simp
  ultimately show ?case by simp
qed

section \<open>Owners of timers\<close>

text \<open>A component keeps its timers in fixed places: \<open>f k\<close> is the handle in the place \<open>k\<close>. Every allocated timer is in
  exactly one place, and an active timer carries the place it is in.\<close>

definition owns :: "('m, 'u) service_loop \<Rightarrow> ('u \<Rightarrow> nat option) \<Rightarrow> bool" where
  "owns l f \<longleftrightarrow> timers_ok l \<and> (\<forall>k h. f k = Some h \<longrightarrow> h \<in> set (timers l)) \<and> (\<forall>h\<in>set (timers l). \<exists>k. f k = Some h) \<and>
     (\<forall>k k' h. f k = Some h \<longrightarrow> f k' = Some h \<longrightarrow> k = k') \<and>
     (\<forall>h r u. (h, r, u) \<in> set (active_timers l) \<longrightarrow> (\<exists>k. u = User k \<and> f k = Some h))"

lemma ownsD:
  assumes "owns l f"
  shows "timers_ok l" "f k = Some h \<Longrightarrow> h \<in> set (timers l)" "h \<in> set (timers l) \<Longrightarrow> \<exists>k. f k = Some h"
    "f k = Some h \<Longrightarrow> f k' = Some h \<Longrightarrow> k = k'" "(h, r, u) \<in> set (active_timers l) \<Longrightarrow> \<exists>k. u = User k \<and> f k = Some h"
  using assms unfolding owns_def by blast+

lemma owns_start:
  assumes "owns l f" "f k = None"
  shows "owns (snd (service_loop_timer True r (User k) l)) (f(k \<mapsto> next_timer l))"
proof -
  let ?l = "snd (service_loop_timer True r (User k) l)" and ?g = "f(k \<mapsto> next_timer l)"
  have fresh: "next_timer l \<notin> set (timers l)" using ownsD(1) [OF assms(1)] by (auto simp: timers_ok_def)
  then have new: "f k' \<noteq> Some (next_timer l)" for k' using ownsD(2) [OF assms(1)] by blast
  have up: "?g k' = Some h" if "f k' = Some h" for k' h using that assms(2) by auto
  have l: "?l = l\<lparr>timers := timers l @ [next_timer l], active_timers := active_timers l @ [(next_timer l, r, User k)], next_timer := Suc (next_timer l)\<rparr>"
    by (simp add: service_loop_timer_def)
  show ?thesis
    unfolding owns_def
  proof (intro conjI allI ballI impI)
    show "timers_ok ?l" unfolding l by (rule timers_ok_start [OF ownsD(1) [OF assms(1)]])
    show "h \<in> set (timers ?l)" if "?g k' = Some h" for k' h
      using that ownsD(2) [OF assms(1), of k' h] unfolding l by (cases "k' = k") auto
    show "\<exists>k'. ?g k' = Some h" if "h \<in> set (timers ?l)" for h
    proof (cases "h = next_timer l")
      case False
      then have "\<exists>k'. f k' = Some h" using that ownsD(3) [OF assms(1), of h] unfolding l by auto
      then show ?thesis using up by blast
    qed auto
    show "k1 = k2" if "?g k1 = Some h" "?g k2 = Some h" for k1 k2 h
      using that new ownsD(4) [OF assms(1), of k1 h k2] by (cases "k1 = k"; cases "k2 = k") auto
    show "\<exists>k'. u = User k' \<and> ?g k' = Some h" if "(h, r', u) \<in> set (active_timers ?l)" for h r' u
    proof (cases "(h, r', u) \<in> set (active_timers l)")
      case True
      then show ?thesis using ownsD(5) [OF assms(1)] up by blast
    qed (use that l in auto)
  qed
qed

lemma owns_cancel:
  assumes "owns l f"
  shows "\<exists>l'. service_loop_cancel_timer (f k) l = Some l' \<and> owns l' (f(k := None)) \<and>
    (\<forall>x\<in>set (active_timers l). f k \<noteq> Some (fst x) \<longrightarrow> x \<in> set (active_timers l'))"
proof (cases "f k")
  case None
  then have "f(k := None) = f" by (simp add: fun_upd_idem)
  then show ?thesis using None assms by (simp add: service_loop_cancel_timer_def)
next
  case (Some h)
  let ?l = "l\<lparr>timers := filter (\<lambda>x. x \<noteq> h) (timers l), active_timers := filter (\<lambda>x. fst x \<noteq> h) (active_timers l)\<rparr>"
  let ?g = "f(k := None)"
  have down: "?g k' = Some h' \<longleftrightarrow> f k' = Some h' \<and> h' \<noteq> h" for k' h'
    using Some ownsD(4) [OF assms, of k h k'] by (cases "k' = k") auto
  have "owns ?l ?g"
    unfolding owns_def
  proof (intro conjI allI ballI impI)
    show "timers_ok ?l" by (rule timers_ok_cancel [OF ownsD(1) [OF assms]])
    show "h' \<in> set (timers ?l)" if "?g k' = Some h'" for k' h' using that ownsD(2) [OF assms, of k' h'] unfolding down by simp
    show "\<exists>k'. ?g k' = Some h'" if "h' \<in> set (timers ?l)" for h' using that ownsD(3) [OF assms, of h'] unfolding down by simp
    show "k1 = k2" if "?g k1 = Some h'" "?g k2 = Some h'" for k1 k2 h' using that ownsD(4) [OF assms] unfolding down by blast
    show "\<exists>k'. u = User k' \<and> ?g k' = Some h'" if "(h', r, u) \<in> set (active_timers ?l)" for h' r u
      using that ownsD(5) [OF assms, of h' r u] unfolding down by simp
  qed
  then show ?thesis using Some ownsD(2) [OF assms Some] by (auto simp: service_loop_cancel_timer_def)
qed

lemma owns_inactive: "owns l f \<Longrightarrow> owns (l\<lparr>active_timers := filter P (active_timers l)\<rparr>) f"
  unfolding owns_def timers_ok_def by (auto simp: distinct_map_filter)

lemma owns_expire:
  assumes "owns l f" "(h, r, User k) \<in> set (active_timers l)"
  shows "\<exists>l'. expire_timer h l = Some (User k, l') \<and> owns l' f \<and> f k = Some h \<and>
    (\<forall>x\<in>set (active_timers l). (r \<or> fst x \<noteq> h) \<longrightarrow> x \<in> set (active_timers l'))"
proof -
  have "find (\<lambda>x. fst x = h) (active_timers l) = Some (h, r, User k)"
    using find_active [of "active_timers l"] assms(2) ownsD(1) [OF assms(1)] by (simp add: timers_ok_def)
  moreover have "f k = Some h" using ownsD(5) [OF assms] by auto
  ultimately show ?thesis using assms(1) owns_inactive [OF assms(1)] by (auto simp: expire_timer_def)
qed

end
