(* ===== verification/Conn_Manager.thy ===== *)
theory Conn_Manager
  imports Service_Loop Power_Manager
begin

text \<open>
  service/src/connection_manager.c: connecting the profiles of a device, connecting again after a lost link,
  enhanced modes and the periodic reading of signal strengths; connection_manager_dlf.c: the links
  with low latency; hci_parser.c: the result of a command. The manager works on the timers of the service loop and
  hands sniff parameters to the power manager, whose states are parts of this one. What the profiles, the
  adapter and the stack answer is an environment; the commands of the vendor's low-latency extension are
  built by code outside the sources, so their builders are parameters. \<open>None\<close> is an access to a timer
  that is not allocated, as in the service loop.
\<close>

unbundle bit_operations_syntax

section \<open>State\<close>

datatype cm_timer_kind = Cm_timeout | A2dp_conn | Rssi_update

record cm_dlf_operation =
  op_is_enabled :: bool
  op_peer :: bt_address_t
  op_status :: u8

record cm_dlf_link =
  dl_addr :: bt_address_t
  dl_handle :: u16
  dl_slots :: u16

record cm_dlf =
  dlf_link_num :: u8
  dlf_links :: "cm_dlf_link list"

datatype cm_out =
    Hfp_connect bt_address_t | Hfp_disconnect bt_address_t | A2dp_connect bt_address_t | A2dp_disconnect bt_address_t
  | Read_rssi bt_address_t bt_transport_t | Dump_rssi bt_transport_t | Send_hci u8 u16 "u8 list" cm_dlf_operation

record bt_cm_timer =
  ct_timer :: "nat option"
  ct_addr :: bt_address_t
  ct_active :: bool
  ct_retry :: u32

record bt_connection_manager =
  cm_inited :: bool
  cm_busy :: bool
  reconnect_enable :: bool
  connect_a2dp_flag :: bool
  connecting_addr :: bt_address_t
  profile_flags :: u32
  cm_timer :: bt_cm_timer
  a2dp_conn_timer :: "nat option"
  rssi_update_timer :: "nat option"
  last_rssi_dump_time_ms :: u32
  cm_loop :: "(cm_dlf_operation, cm_timer_kind) service_loop"
  cm_pm :: bt_pm_manager
  cm_dlf :: cm_dlf
  cm_outs :: "cm_out list"

text \<open>The configuration of the build, and the answers of the outside at the time of a call.\<close>

record cm_config =
  has_hfp_hf :: bool
  has_a2dp_sink :: bool
  has_dlf :: bool
  has_bredr :: bool
  has_ble :: bool

record cm_env =
  hfp_connect_status :: "bt_address_t \<Rightarrow> bt_status_t"
  hfp_disconnect_status :: "bt_address_t \<Rightarrow> bt_status_t"
  a2dp_connect_status :: "bt_address_t \<Rightarrow> bt_status_t"
  a2dp_disconnect_status :: "bt_address_t \<Rightarrow> bt_status_t"
  bonded_devices :: "bt_address_t list"
  connected_devices :: "bt_transport_t \<Rightarrow> bt_address_t list option"
  os_timestamp_ms :: u32
  timer_mem :: bool
  op_mem :: bool
  cm_pm_env :: pm_env
  acl_handle :: "bt_address_t \<Rightarrow> u16 option"
  dlf_builder :: "bool \<Rightarrow> u16 \<Rightarrow> u16 \<Rightarrow> u8 list option"
  send_status :: bt_status_t

abbreviation (input) FLAG_HFP_HF :: u32 where "FLAG_HFP_HF \<equiv> 16"
abbreviation (input) FLAG_A2DP_SINK :: u32 where "FLAG_A2DP_SINK \<equiv> 2"
abbreviation (input) CM_RECONNECT_TIMES :: u32 where "CM_RECONNECT_TIMES \<equiv> 150"

definition cm_emit :: "cm_out \<Rightarrow> bt_connection_manager \<Rightarrow> bt_connection_manager" where
  "cm_emit x m = m\<lparr>cm_outs := cm_outs m @ [x]\<rparr>"

definition cm_timer_start :: "cm_env \<Rightarrow> bool \<Rightarrow> cm_timer_kind \<Rightarrow> bt_connection_manager \<Rightarrow> nat option \<times> bt_connection_manager" where
  "cm_timer_start e repeat k m = (let (t, l) = service_loop_timer (timer_mem e) repeat (User k) (cm_loop m) in (t, m\<lparr>cm_loop := l\<rparr>))"

definition cm_timer_cancel :: "nat option \<Rightarrow> bt_connection_manager \<Rightarrow> bt_connection_manager option" where
  "cm_timer_cancel t m = map_option (\<lambda>l. m\<lparr>cm_loop := l\<rparr>) (service_loop_cancel_timer t (cm_loop m))"

section \<open>Flags and timers\<close>

definition bt_cm_set_flags :: "u32 \<Rightarrow> bt_connection_manager \<Rightarrow> bt_connection_manager" where
  "bt_cm_set_flags flags m = m\<lparr>profile_flags := profile_flags m OR flags\<rparr>"

definition bt_cm_clear_flags :: "u32 \<Rightarrow> bt_connection_manager \<Rightarrow> bt_connection_manager" where
  "bt_cm_clear_flags flags m = m\<lparr>profile_flags := profile_flags m AND NOT flags\<rparr>"

definition bt_cm_stop_timer :: "bt_connection_manager \<Rightarrow> bt_connection_manager option" where
  "bt_cm_stop_timer m =
     (if \<not> ct_active (cm_timer m) then Some m
      else do {
        let t = ct_timer (cm_timer m);
        m \<leftarrow> cm_timer_cancel t (m\<lparr>cm_timer := (cm_timer m)\<lparr>ct_active := False, ct_retry := 0, ct_addr := bt_addr_set_empty\<rparr>\<rparr>);
        Some (m\<lparr>cm_timer := (cm_timer m)\<lparr>ct_timer := None\<rparr>\<rparr>) })"

definition bt_cm_enable_conn :: "bt_connection_manager \<Rightarrow> bt_connection_manager option" where
  "bt_cm_enable_conn m =
     do { m \<leftarrow> bt_cm_stop_timer (bt_cm_clear_flags (FLAG_HFP_HF OR FLAG_A2DP_SINK) m);
          Some (m\<lparr>connect_a2dp_flag := False, cm_busy := False\<rparr>) }"

definition bt_cm_is_busy :: "bt_connection_manager \<Rightarrow> bool" where
  "bt_cm_is_busy m = cm_busy m"

definition bt_cm_disable_conn :: "bt_connection_manager \<Rightarrow> bt_connection_manager" where
  "bt_cm_disable_conn m = m\<lparr>cm_busy := True, profile_flags := 0\<rparr>"

definition bt_cm_hfp_connect :: "cm_env \<Rightarrow> bt_address_t \<Rightarrow> bt_connection_manager \<Rightarrow> bt_status_t \<times> bt_connection_manager" where
  "bt_cm_hfp_connect e addr m = (hfp_connect_status e addr, cm_emit (Hfp_connect addr) m)"

definition bt_cm_hfp_disconnect :: "cm_env \<Rightarrow> bt_address_t \<Rightarrow> bt_connection_manager \<Rightarrow> bt_status_t \<times> bt_connection_manager" where
  "bt_cm_hfp_disconnect e addr m = (hfp_disconnect_status e addr, cm_emit (Hfp_disconnect addr) m)"

definition bt_cm_a2dpsnk_connect :: "cm_env \<Rightarrow> bt_address_t \<Rightarrow> bt_connection_manager \<Rightarrow> bt_status_t \<times> bt_connection_manager" where
  "bt_cm_a2dpsnk_connect e addr m = (a2dp_connect_status e addr, cm_emit (A2dp_connect addr) m)"

definition bt_cm_a2dpsnk_disconnect :: "cm_env \<Rightarrow> bt_address_t \<Rightarrow> bt_connection_manager \<Rightarrow> bt_status_t \<times> bt_connection_manager" where
  "bt_cm_a2dpsnk_disconnect e addr m = (a2dp_disconnect_status e addr, cm_emit (A2dp_disconnect addr) m)"

section \<open>Connecting and disconnecting profiles\<close>

definition bt_cm_profile_connect ::
  "cm_config \<Rightarrow> cm_env \<Rightarrow> bt_address_t \<Rightarrow> bt_transport_t \<Rightarrow> bt_connection_manager \<Rightarrow> (bt_status_t \<times> bt_connection_manager) option" where
  "bt_cm_profile_connect c e addr transport m =
     (if transport = BT_TRANSPORT_BLE then Some (BT_STATUS_FAIL, m)
      else if profile_flags m AND FLAG_HFP_HF \<noteq> 0 \<and> \<not> connect_a2dp_flag m
      then let (status, m) = (if has_hfp_hf c then bt_cm_hfp_connect e addr m else (BT_STATUS_SUCCESS, m))
           in if status \<noteq> BT_STATUS_SUCCESS then Some (status, m)
              else if profile_flags m AND FLAG_A2DP_SINK = 0 then Some (BT_STATUS_SUCCESS, m)
              else do {
                let m = m\<lparr>connect_a2dp_flag := True, connecting_addr := addr\<rparr>;
                m \<leftarrow> cm_timer_cancel (a2dp_conn_timer m) m;
                let (t, m) = cm_timer_start e False A2dp_conn m;
                Some (BT_STATUS_SUCCESS, m\<lparr>a2dp_conn_timer := t\<rparr>) }
      else if profile_flags m AND FLAG_A2DP_SINK \<noteq> 0
      then if has_a2dp_sink c then Some (bt_cm_a2dpsnk_connect e addr (m\<lparr>connect_a2dp_flag := False\<rparr>)) else Some (BT_STATUS_SUCCESS, m)
      else Some (BT_STATUS_SUCCESS, m))"

definition bt_cm_connect_a2dp_cb :: "cm_config \<Rightarrow> cm_env \<Rightarrow> bt_connection_manager \<Rightarrow> bt_connection_manager option" where
  "bt_cm_connect_a2dp_cb c e m = map_option snd (bt_cm_profile_connect c e (connecting_addr m) BT_TRANSPORT_BREDR m)"

text \<open>The timer that delays A2DP is dropped together with the address it was for.\<close>

definition drop_a2dp_timer :: "bt_connection_manager \<Rightarrow> bt_connection_manager option" where
  "drop_a2dp_timer m =
     do { m \<leftarrow> cm_timer_cancel (a2dp_conn_timer m) m; Some (m\<lparr>connecting_addr := bt_addr_set_empty, a2dp_conn_timer := None\<rparr>) }"

definition bt_cm_profile_disconnect ::
  "cm_config \<Rightarrow> cm_env \<Rightarrow> bt_address_t \<Rightarrow> bt_transport_t \<Rightarrow> bt_connection_manager \<Rightarrow> (bt_status_t \<times> bt_connection_manager) option" where
  "bt_cm_profile_disconnect c e addr transport m =
     (if transport = BT_TRANSPORT_BLE then Some (BT_STATUS_FAIL, m)
      else let (status, m) = (if has_hfp_hf c then bt_cm_hfp_disconnect e addr m else (BT_STATUS_SUCCESS, m))
           in if status \<noteq> BT_STATUS_SUCCESS then Some (status, m)
              else do {
                m \<leftarrow> (if a2dp_conn_timer m \<noteq> None then drop_a2dp_timer (m\<lparr>connect_a2dp_flag := False\<rparr>) else Some m);
                Some (if has_a2dp_sink c then bt_cm_a2dpsnk_disconnect e addr m else (status, m)) })"

definition bt_cm_profile_falgs_set :: "cm_config \<Rightarrow> bt_connection_manager \<Rightarrow> bt_connection_manager" where
  "bt_cm_profile_falgs_set c m =
     (let m = (if has_hfp_hf c then bt_cm_set_flags FLAG_HFP_HF m else m)
      in if has_a2dp_sink c then bt_cm_set_flags FLAG_A2DP_SINK m else m)"

definition bt_cm_device_connect ::
  "cm_config \<Rightarrow> cm_env \<Rightarrow> bt_address_t \<Rightarrow> bt_transport_t \<Rightarrow> bt_connection_manager \<Rightarrow> (bt_status_t \<times> bt_connection_manager) option" where
  "bt_cm_device_connect c e peer_addr transport m =
     (if transport = BT_TRANSPORT_BLE then Some (BT_STATUS_FAIL, m)
      else let m = m\<lparr>reconnect_enable := True\<rparr>
           in if bt_cm_is_busy m then Some (BT_STATUS_BUSY, m)
              else if bt_addr_is_empty peer_addr
              then if bonded_devices e = [] then Some (BT_STATUS_FAIL, m)
                   else bt_cm_profile_connect c e (last (bonded_devices e)) transport (bt_cm_profile_falgs_set c m)
              else bt_cm_profile_connect c e peer_addr transport (bt_cm_profile_falgs_set c m))"

definition bt_cm_device_disconnect ::
  "cm_config \<Rightarrow> cm_env \<Rightarrow> bt_address_t \<Rightarrow> bt_transport_t \<Rightarrow> bt_connection_manager \<Rightarrow> (bt_status_t \<times> bt_connection_manager) option" where
  "bt_cm_device_disconnect c e addr transport m =
     (if transport = BT_TRANSPORT_BLE then Some (BT_STATUS_FAIL, m)
      else do {
        m \<leftarrow> (if bt_addr_compare (ct_addr (cm_timer m)) addr = 0 then bt_cm_enable_conn m else Some m);
        bt_cm_profile_disconnect c e addr BT_TRANSPORT_BREDR m })"

definition bt_cm_connected :: "bt_address_t \<Rightarrow> profile_id \<Rightarrow> bt_connection_manager \<Rightarrow> bt_connection_manager option" where
  "bt_cm_connected addr pid m =
     (if bt_addr_compare (ct_addr (cm_timer m)) addr \<noteq> 0 then Some m
      else do {
        m \<leftarrow> (case pid of
                PROFILE_HFP_HF \<Rightarrow> Some (bt_cm_clear_flags FLAG_HFP_HF m)
              | PROFILE_A2DP_SINK \<Rightarrow> drop_a2dp_timer (bt_cm_clear_flags FLAG_A2DP_SINK m)
              | _ \<Rightarrow> Some m);
        if profile_flags m AND (FLAG_HFP_HF OR FLAG_A2DP_SINK) = 0 then bt_cm_enable_conn m else Some m })"

definition bt_cm_disconnected :: "bt_address_t \<Rightarrow> profile_id \<Rightarrow> bt_connection_manager \<Rightarrow> bt_connection_manager option" where
  "bt_cm_disconnected addr pid m =
     (if bt_addr_compare (ct_addr (cm_timer m)) addr \<noteq> 0 then Some m
      else case pid of PROFILE_A2DP_SINK \<Rightarrow> drop_a2dp_timer m | _ \<Rightarrow> Some m)"

section \<open>Connecting again after a lost link\<close>

definition bt_cm_timeout_cb :: "cm_config \<Rightarrow> cm_env \<Rightarrow> bt_connection_manager \<Rightarrow> bt_connection_manager option" where
  "bt_cm_timeout_cb c e m =
     (if \<not> ct_active (cm_timer m) then Some m
      else do {
        let m = m\<lparr>cm_timer := (cm_timer m)\<lparr>ct_retry := ct_retry (cm_timer m) + 1\<rparr>\<rparr>;
        m \<leftarrow> (if CM_RECONNECT_TIMES < ct_retry (cm_timer m) then bt_cm_enable_conn m else Some m);
        map_option snd (bt_cm_profile_connect c e (ct_addr (cm_timer m)) BT_TRANSPORT_BREDR m) })"

definition bt_cm_start_timer :: "cm_env \<Rightarrow> bt_address_t \<Rightarrow> bt_connection_manager \<Rightarrow> (bool \<times> bt_connection_manager) option" where
  "bt_cm_start_timer e peer_addr m =
     (if ct_active (cm_timer m) then Some (False, m)
      else do {
        let m = m\<lparr>cm_timer := (cm_timer m)\<lparr>ct_active := True, ct_addr := peer_addr\<rparr>\<rparr>;
        m \<leftarrow> cm_timer_cancel (ct_timer (cm_timer m)) m;
        let (t, m) = cm_timer_start e True Cm_timeout m;
        Some (True, m\<lparr>cm_timer := (cm_timer m)\<lparr>ct_timer := t\<rparr>\<rparr>) })"

abbreviation (input) HCI_ERR_CONNECTION_TIMEOUT :: u8 where "HCI_ERR_CONNECTION_TIMEOUT \<equiv> 0x08"
abbreviation (input) HCI_ERR_REMOTE_USER_TERMINATED_CONNECTION :: u8 where "HCI_ERR_REMOTE_USER_TERMINATED_CONNECTION \<equiv> 0x13"
abbreviation (input) HCI_ERR_CONNECTION_TERMINATED_BY_LOCAL_HOST :: u8 where "HCI_ERR_CONNECTION_TERMINATED_BY_LOCAL_HOST \<equiv> 0x16"

definition bt_cm_process_reconnection ::
  "cm_config \<Rightarrow> cm_env \<Rightarrow> bt_address_t \<Rightarrow> u8 \<Rightarrow> bt_connection_manager \<Rightarrow> bt_connection_manager option" where
  "bt_cm_process_reconnection c e addr reason m =
     (if reason = HCI_ERR_CONNECTION_TERMINATED_BY_LOCAL_HOST \<or> reason = HCI_ERR_REMOTE_USER_TERMINATED_CONNECTION
      then if bt_addr_compare (ct_addr (cm_timer m)) addr = 0 then bt_cm_enable_conn m else Some m
      else if bt_cm_is_busy m \<or> reason \<noteq> HCI_ERR_CONNECTION_TIMEOUT then Some m
      else do {
        (started, m) \<leftarrow> bt_cm_start_timer e addr (bt_cm_profile_falgs_set c (bt_cm_disable_conn m));
        if started then map_option snd (bt_cm_profile_connect c e addr BT_TRANSPORT_BREDR m) else Some m })"

section \<open>Links with low latency\<close>

text \<open>\<open>hci_get_result\<close> reads one byte of the parameters of the event.\<close>

definition hci_get_result :: "u8 \<Rightarrow> u8 list \<Rightarrow> u8 option" where
  "hci_get_result evt_code params =
     (if evt_code = 0x0E then (if length params < 4 then None else Some (params ! 3))
      else if evt_code = 0x0F then (if params = [] then None else Some (params ! 0))
      else Some 0x1F)"

definition empty_link :: cm_dlf_link where
  "empty_link = \<lparr>dl_addr = bt_addr_empty, dl_handle = 0, dl_slots = 0\<rparr>"

definition bt_cm_find_dlf_link :: "bt_address_t \<Rightarrow> cm_dlf \<Rightarrow> cm_dlf_link option" where
  "bt_cm_find_dlf_link addr d = find (\<lambda>l. bt_addr_compare (dl_addr l) addr = 0) (dlf_links d)"

text \<open>The link is the first with its address, as the search has found it.\<close>

definition bt_cm_remove_dlf_link :: "cm_dlf_link \<Rightarrow> cm_dlf \<Rightarrow> cm_dlf" where
  "bt_cm_remove_dlf_link l d =
     d\<lparr>dlf_link_num := dlf_link_num d - 1,
       dlf_links := update_first (\<lambda>x. bt_addr_compare (dl_addr x) (dl_addr l) = 0) (\<lambda>_. empty_link) (dlf_links d)\<rparr>"

definition bt_cm_process_dlf_result :: "cm_dlf_operation \<Rightarrow> bt_connection_manager \<Rightarrow> bt_connection_manager" where
  "bt_cm_process_dlf_result p m =
     (if op_is_enabled p \<and> op_status p = 0 then m
      else case bt_cm_find_dlf_link (op_peer p) (cm_dlf m) of
             None \<Rightarrow> m
           | Some l \<Rightarrow> m\<lparr>cm_dlf := bt_cm_remove_dlf_link l (cm_dlf m)\<rparr>)"

definition bt_hci_event_callback :: "u8 \<Rightarrow> u8 list \<Rightarrow> cm_dlf_operation \<Rightarrow> bt_connection_manager \<Rightarrow> bt_connection_manager option" where
  "bt_hci_event_callback evt_code params p m =
     do { r \<leftarrow> hci_get_result evt_code params;
          Some (m\<lparr>cm_loop := do_in_service_loop (p\<lparr>op_status := r\<rparr>) (cm_loop m)\<rparr>) }"

definition bt_cm_build_dlf_command :: "cm_env \<Rightarrow> u16 \<Rightarrow> u16 \<Rightarrow> bool \<Rightarrow> u8 list option" where
  "bt_cm_build_dlf_command e handle slots is_enabled = dlf_builder e is_enabled handle slots"

text \<open>The built command begins with the group and the code of the command, three bytes.\<close>

definition bt_cm_send_dlf_command ::
  "cm_env \<Rightarrow> cm_dlf_link \<Rightarrow> bool \<Rightarrow> bt_connection_manager \<Rightarrow> (bt_status_t \<times> bt_connection_manager) option" where
  "bt_cm_send_dlf_command e l is_enabled m =
     (if \<not> op_mem e then Some (BT_STATUS_FAIL, m)
      else case bt_cm_build_dlf_command e (dl_handle l) (dl_slots l) is_enabled of
             None \<Rightarrow> Some (BT_STATUS_NOT_SUPPORTED, m)
           | Some data \<Rightarrow>
             (case data of
                [] \<Rightarrow> None
              | ogf # rest \<Rightarrow> do { (ocf, payload) \<leftarrow> STREAM_TO_UINT16 rest;
                  Some (send_status e, cm_emit (Send_hci ogf ocf payload \<lparr>op_is_enabled = is_enabled, op_peer = dl_addr l, op_status = 0\<rparr>) m) }))"

definition bt_cm_dlf_cleanup :: "cm_dlf \<Rightarrow> cm_dlf" where
  "bt_cm_dlf_cleanup d = d\<lparr>dlf_link_num := 0, dlf_links := replicate (length (dlf_links d)) empty_link\<rparr>"

definition bt_cm_enable_dlf :: "cm_env \<Rightarrow> bt_address_t \<Rightarrow> bt_connection_manager \<Rightarrow> (bt_status_t \<times> bt_connection_manager) option" where
  "bt_cm_enable_dlf e peer_addr m =
     (if of_nat (length (dlf_links (cm_dlf m))) \<le> dlf_link_num (cm_dlf m) then Some (BT_STATUS_NO_RESOURCES, m)
      else case bt_cm_find_dlf_link peer_addr (cm_dlf m) of
        Some _ \<Rightarrow> Some (BT_STATUS_FAIL, m)
      | None \<Rightarrow>
        (case bt_cm_find_dlf_link bt_addr_empty (cm_dlf m) of
           None \<Rightarrow> Some (BT_STATUS_FAIL, m)
         | Some _ \<Rightarrow>
           (case acl_handle e peer_addr of
              None \<Rightarrow> Some (BT_STATUS_PARM_INVALID, m)
            | Some h \<Rightarrow>
              let l = \<lparr>dl_addr = peer_addr, dl_handle = h, dl_slots = 1600\<rparr>;
                  d = (cm_dlf m)\<lparr>dlf_link_num := dlf_link_num (cm_dlf m) + 1,
                        dlf_links := update_first (\<lambda>x. bt_addr_compare (dl_addr x) bt_addr_empty = 0) (\<lambda>_. l) (dlf_links (cm_dlf m))\<rparr>
              in bt_cm_send_dlf_command e l True (m\<lparr>cm_dlf := d\<rparr>))))"

definition bt_cm_disable_dlf :: "cm_env \<Rightarrow> bt_address_t \<Rightarrow> bt_connection_manager \<Rightarrow> (bt_status_t \<times> bt_connection_manager) option" where
  "bt_cm_disable_dlf e peer_addr m =
     (case bt_cm_find_dlf_link peer_addr (cm_dlf m) of
        None \<Rightarrow> Some (BT_STATUS_SERVICE_NOT_FOUND, m)
      | Some l \<Rightarrow> bt_cm_send_dlf_command e l False m)"

definition bt_cm_process_disconnect_event ::
  "cm_config \<Rightarrow> cm_env \<Rightarrow> bt_address_t \<Rightarrow> bt_transport_t \<Rightarrow> u8 \<Rightarrow> bt_connection_manager \<Rightarrow> bt_connection_manager option" where
  "bt_cm_process_disconnect_event c e addr transport reason m =
     (if transport = BT_TRANSPORT_BLE
      then if has_dlf c then map_option snd (bt_cm_disable_dlf e addr m) else Some m
      else if reconnect_enable m then bt_cm_process_reconnection c e addr reason m else Some m)"

section \<open>Enhanced modes\<close>

record bt_cm_sniff_param =
  max_interval :: u16
  min_interval :: u16
  sniff_attempt :: u16
  sniff_timeout :: u16
  idle_timeout_ms :: u16

definition g_bt_cm_sniff_param_table :: "bt_cm_sniff_param list" where
  "g_bt_cm_sniff_param_table =
     [\<lparr>max_interval = 160, min_interval = 40, sniff_attempt = 4, sniff_timeout = 1, idle_timeout_ms = 1000\<rparr>,
      \<lparr>max_interval = 18, min_interval = 10, sniff_attempt = 4, sniff_timeout = 1, idle_timeout_ms = 1000\<rparr>]"

datatype bt_enhanced_mode = EM_LE_LOW_LATENCY | EM_BR_LOW_LATENCY | EM_BR_ULTRA_LOW_LATENCY | EM_other u8

definition bt_cm_sniff_param_to_pm_mode :: "bt_cm_sniff_param \<Rightarrow> bt_pm_mode" where
  "bt_cm_sniff_param_to_pm_mode p =
     \<lparr>m_max = max_interval p, m_min = min_interval p, m_attempt = sniff_attempt p, m_timeout = sniff_timeout p, m_mode = BT_LINK_MODE_SNIFF\<rparr>"

definition sniff_param_table_index_from_mode :: "bt_enhanced_mode \<Rightarrow> int" where
  "sniff_param_table_index_from_mode mode =
     (case mode of EM_BR_LOW_LATENCY \<Rightarrow> 0 | EM_BR_ULTRA_LOW_LATENCY \<Rightarrow> 1 | _ \<Rightarrow> - 1)"

definition cm_with_pm :: "(bt_status_t \<times> bt_pm_manager) option \<Rightarrow> bt_connection_manager \<Rightarrow> (bt_status_t \<times> bt_connection_manager) option" where
  "cm_with_pm r m = map_option (\<lambda>(status, pm). (status, m\<lparr>cm_pm := pm\<rparr>)) r"

definition bt_cm_apply_bredr_sniff_mode ::
  "cm_env \<Rightarrow> bt_address_t option \<Rightarrow> nat \<Rightarrow> bt_connection_manager \<Rightarrow> (bt_status_t \<times> bt_connection_manager) option" where
  "bt_cm_apply_bredr_sniff_mode e addr idx m =
     (case addr of
        None \<Rightarrow> Some (BT_STATUS_PARM_INVALID, m)
      | Some a \<Rightarrow> cm_with_pm (bt_pm_set_app_profile_sniff (cm_pm_env e) a
          (Some (bt_cm_sniff_param_to_pm_mode (g_bt_cm_sniff_param_table ! idx))) (cm_pm m)) m)"

definition bt_cm_enable_enhanced_mode ::
  "cm_config \<Rightarrow> cm_env \<Rightarrow> bt_address_t \<Rightarrow> bt_enhanced_mode \<Rightarrow> bt_connection_manager \<Rightarrow> (bt_status_t \<times> bt_connection_manager) option" where
  "bt_cm_enable_enhanced_mode c e addr mode m =
     (if mode = EM_LE_LOW_LATENCY \<and> has_dlf c then bt_cm_enable_dlf e addr m
      else if mode \<in> {EM_BR_LOW_LATENCY, EM_BR_ULTRA_LOW_LATENCY}
      then if sniff_param_table_index_from_mode mode < 0 then Some (BT_STATUS_PARM_INVALID, m)
           else bt_cm_apply_bredr_sniff_mode e (Some addr) (nat (sniff_param_table_index_from_mode mode)) m
      else Some (BT_STATUS_NOT_SUPPORTED, m))"

definition bt_cm_disable_enhanced_mode ::
  "cm_config \<Rightarrow> cm_env \<Rightarrow> bt_address_t \<Rightarrow> bt_enhanced_mode \<Rightarrow> bt_connection_manager \<Rightarrow> (bt_status_t \<times> bt_connection_manager) option" where
  "bt_cm_disable_enhanced_mode c e addr mode m =
     (if mode = EM_LE_LOW_LATENCY \<and> has_dlf c then bt_cm_disable_dlf e addr m
      else if mode \<in> {EM_BR_LOW_LATENCY, EM_BR_ULTRA_LOW_LATENCY}
      then cm_with_pm (bt_pm_set_app_profile_sniff (cm_pm_env e) addr None (cm_pm m)) m
      else Some (BT_STATUS_NOT_SUPPORTED, m))"

section \<open>Signal strengths\<close>

definition read_rssi_of :: "bool \<Rightarrow> bt_transport_t \<Rightarrow> cm_env \<Rightarrow> bt_connection_manager \<Rightarrow> nat \<times> bt_connection_manager" where
  "read_rssi_of supported t e m =
     (if \<not> supported then (0, m)
      else case connected_devices e t of
             None \<Rightarrow> (0, m)
           | Some addrs \<Rightarrow> (length addrs, foldl (\<lambda>m a. cm_emit (Read_rssi a t) m) m addrs))"

definition rssi_update :: "cm_config \<Rightarrow> cm_env \<Rightarrow> bt_connection_manager \<Rightarrow> bt_connection_manager" where
  "rssi_update c e m =
     (let (num_classic, m) = read_rssi_of (has_bredr c) BT_TRANSPORT_BREDR e m;
          (num_le, m) = read_rssi_of (has_ble c) BT_TRANSPORT_BLE e m
      in if num_classic + num_le = 0 then m
         else if os_timestamp_ms e - last_rssi_dump_time_ms m < 60000 then m
         else let m = (if has_bredr c \<and> 0 < num_classic then cm_emit (Dump_rssi BT_TRANSPORT_BREDR) m else m);
                  m = (if has_ble c \<and> 0 < num_le then cm_emit (Dump_rssi BT_TRANSPORT_BLE) m else m)
              in m\<lparr>last_rssi_dump_time_ms := os_timestamp_ms e\<rparr>)"

definition bt_cm_enable_rssi_statistic :: "cm_env \<Rightarrow> bt_connection_manager \<Rightarrow> bt_status_t \<times> bt_connection_manager" where
  "bt_cm_enable_rssi_statistic e m =
     (if rssi_update_timer m \<noteq> None then (BT_STATUS_SUCCESS, m)
      else let (t, m) = cm_timer_start e True Rssi_update (m\<lparr>last_rssi_dump_time_ms := os_timestamp_ms e\<rparr>)
           in (if t = None then BT_STATUS_NOMEM else BT_STATUS_SUCCESS, m\<lparr>rssi_update_timer := t\<rparr>))"

definition bt_cm_disable_rssi_statistic :: "bt_connection_manager \<Rightarrow> (bt_status_t \<times> bt_connection_manager) option" where
  "bt_cm_disable_rssi_statistic m =
     (if rssi_update_timer m = None then Some (BT_STATUS_SUCCESS, m)
      else do { m \<leftarrow> cm_timer_cancel (rssi_update_timer m) m; Some (BT_STATUS_SUCCESS, m\<lparr>rssi_update_timer := None\<rparr>) })"

section \<open>Life cycle and histories\<close>

definition bt_cm_init :: "bt_connection_manager \<Rightarrow> bt_connection_manager option" where
  "bt_cm_init m =
     (if cm_inited m then Some m
      else do { m \<leftarrow> bt_cm_enable_conn m;
                Some ((bt_cm_set_flags 0 m)\<lparr>reconnect_enable := False, rssi_update_timer := None, cm_inited := True\<rparr>) })"

definition bt_cm_cleanup :: "cm_config \<Rightarrow> bt_connection_manager \<Rightarrow> bt_connection_manager option" where
  "bt_cm_cleanup c m =
     (if \<not> cm_inited m then Some m
      else do {
        let m = (if has_dlf c then m\<lparr>cm_dlf := bt_cm_dlf_cleanup (cm_dlf m)\<rparr> else m)\<lparr>cm_inited := False\<rparr>;
        m \<leftarrow> cm_timer_cancel (rssi_update_timer m) m;
        Some (m\<lparr>rssi_update_timer := None\<rparr>) })"

text \<open>The manager as the program starts, with room for \<open>n\<close> links.\<close>

definition zero_cm :: "nat \<Rightarrow> bt_pm_manager \<Rightarrow> bt_connection_manager" where
  "zero_cm n pm =
     \<lparr>cm_inited = False, cm_busy = False, reconnect_enable = False, connect_a2dp_flag = False, connecting_addr = bt_addr_empty,
      profile_flags = 0, cm_timer = \<lparr>ct_timer = None, ct_addr = bt_addr_empty, ct_active = False, ct_retry = 0\<rparr>,
      a2dp_conn_timer = None, rssi_update_timer = None, last_rssi_dump_time_ms = 0, cm_loop = service_loop_init, cm_pm = pm,
      cm_dlf = \<lparr>dlf_link_num = 0, dlf_links = replicate n empty_link\<rparr>, cm_outs = []\<rparr>"

datatype cm_input =
    Device_connect bt_address_t | Device_disconnect bt_address_t | Profile_connected bt_address_t profile_id
  | Profile_disconnected bt_address_t profile_id | Link_lost bt_address_t u8 | Timer_expires cm_timer_kind
  | Enable_rssi | Disable_rssi

text \<open>An active timer with the given callback expires, and its callback runs.\<close>

definition cm_expire :: "cm_config \<Rightarrow> cm_env \<Rightarrow> cm_timer_kind \<Rightarrow> bt_connection_manager \<Rightarrow> bt_connection_manager option" where
  "cm_expire c e k m =
     (case find (\<lambda>x. snd (snd x) = User k) (active_timers (cm_loop m)) of
        None \<Rightarrow> Some m
      | Some (h, _) \<Rightarrow>
        do { (_, l) \<leftarrow> expire_timer h (cm_loop m);
             let m = m\<lparr>cm_loop := l\<rparr>;
             case k of
               Cm_timeout \<Rightarrow> bt_cm_timeout_cb c e m
             | A2dp_conn \<Rightarrow> bt_cm_connect_a2dp_cb c e m
             | Rssi_update \<Rightarrow> Some (rssi_update c e m) })"

fun cm_step :: "cm_config \<Rightarrow> bt_connection_manager option \<Rightarrow> cm_env \<times> cm_input \<Rightarrow> bt_connection_manager option" where
  "cm_step c None _ = None"
| "cm_step c (Some m) (e, Device_connect addr) = map_option snd (bt_cm_device_connect c e addr BT_TRANSPORT_BREDR m)"
| "cm_step c (Some m) (e, Device_disconnect addr) = map_option snd (bt_cm_device_disconnect c e addr BT_TRANSPORT_BREDR m)"
| "cm_step c (Some m) (e, Profile_connected addr pid) = bt_cm_connected addr pid m"
| "cm_step c (Some m) (e, Profile_disconnected addr pid) = bt_cm_disconnected addr pid m"
| "cm_step c (Some m) (e, Link_lost addr reason) = bt_cm_process_disconnect_event c e addr BT_TRANSPORT_BREDR reason m"
| "cm_step c (Some m) (e, Timer_expires k) = cm_expire c e k m"
| "cm_step c (Some m) (e, Enable_rssi) = Some (snd (bt_cm_enable_rssi_statistic e m))"
| "cm_step c (Some m) (e, Disable_rssi) = map_option snd (bt_cm_disable_rssi_statistic m)"

end
