(* ===== verification/Conn_Reconnect.thy ===== *)
theory Conn_Reconnect
  imports Conn_Manager
begin

text \<open>
  What the connection manager promises about a lost link, as an abstract machine, and the proof that the
  code implements it: the manager tries to connect the profiles again until they are connected, until the
  client gives up, or until the number of retries is exhausted. The invariant gives each timer of the
  manager its place, so that none is cancelled twice or left behind.
\<close>

unbundle bit_operations_syntax

section \<open>Specification\<close>

text \<open>The device that is being connected again, whether HFP and A2DP are still wanted, and the retries so far.\<close>

datatype reconnect = Idle | Trying bt_address_t bool bool nat

fun reconnect_step :: "cm_config \<Rightarrow> bool \<times> reconnect \<Rightarrow> cm_env \<times> cm_input \<Rightarrow> bool \<times> reconnect" where
  "reconnect_step c (en, r) (_, Device_connect _) = (True, r)"
| "reconnect_step c (en, Idle) (_, Link_lost addr reason) =
     (en, if en \<and> reason = HCI_ERR_CONNECTION_TIMEOUT then Trying addr (has_hfp_hf c) (has_a2dp_sink c) 0 else Idle)"
| "reconnect_step c (en, Trying a h s n) (_, Link_lost addr reason) =
     (en, if addr = a \<and> reason \<in> {HCI_ERR_CONNECTION_TERMINATED_BY_LOCAL_HOST, HCI_ERR_REMOTE_USER_TERMINATED_CONNECTION}
          then Idle else Trying a h s n)"
| "reconnect_step c (en, Trying a h s n) (_, Device_disconnect addr) = (en, if addr = a then Idle else Trying a h s n)"
| "reconnect_step c (en, Trying a h s n) (_, Profile_connected addr pid) =
     (en, if addr \<noteq> a then Trying a h s n
          else let h' = (h \<and> pid \<noteq> PROFILE_HFP_HF); s' = (s \<and> pid \<noteq> PROFILE_A2DP_SINK)
               in if h' \<or> s' then Trying a h' s' n else Idle)"
| "reconnect_step c (en, Trying a h s n) (_, Timer_expires Cm_timeout) =
     (en, if 150 < n + 1 then Idle else Trying a h s (n + 1))"
| "reconnect_step c (en, r) _ = (en, r)"

definition reconnect_of :: "bt_connection_manager option \<Rightarrow> bool \<times> reconnect" where
  "reconnect_of mo =
     (case mo of
        None \<Rightarrow> (False, Idle)
      | Some m \<Rightarrow> (reconnect_enable m,
          if ct_active (cm_timer m)
          then Trying (ct_addr (cm_timer m)) (profile_flags m AND FLAG_HFP_HF \<noteq> 0) (profile_flags m AND FLAG_A2DP_SINK \<noteq> 0) (unat (ct_retry (cm_timer m)))
          else Idle))"

section \<open>Invariant\<close>

fun place :: "bt_connection_manager \<Rightarrow> cm_timer_kind \<Rightarrow> nat option" where
  "place m Cm_timeout = ct_timer (cm_timer m)"
| "place m A2dp_conn = a2dp_conn_timer m"
| "place m Rssi_update = rssi_update_timer m"

definition retry_ok :: "bt_connection_manager \<Rightarrow> bool" where
  "retry_ok m \<longleftrightarrow> cm_busy m = ct_active (cm_timer m) \<and>
     (if ct_active (cm_timer m)
      then (\<exists>h. ct_timer (cm_timer m) = Some h \<and> (h, True, User Cm_timeout) \<in> set (active_timers (cm_loop m))) \<and>
        length (ct_addr (cm_timer m)) = 6 \<and> ct_addr (cm_timer m) \<noteq> bt_addr_empty \<and> ct_retry (cm_timer m) \<le> 150 \<and> reconnect_enable m
      else ct_timer (cm_timer m) = None \<and> ct_addr (cm_timer m) = bt_addr_empty \<and> ct_retry (cm_timer m) = 0)"

definition cm_inv :: "bt_connection_manager \<Rightarrow> bool" where
  "cm_inv m \<longleftrightarrow> owns (cm_loop m) (place m) \<and> retry_ok m"

text \<open>The part of the state the specification sees is unchanged.\<close>

definition same_goal :: "bt_connection_manager \<Rightarrow> bt_connection_manager \<Rightarrow> bool" where
  "same_goal m m' \<longleftrightarrow> reconnect_enable m' = reconnect_enable m \<and> cm_timer m' = cm_timer m \<and> profile_flags m' = profile_flags m \<and> cm_busy m' = cm_busy m"

lemma same_goal_of: "same_goal m m' \<Longrightarrow> reconnect_of (Some m') = reconnect_of (Some m)"
  by (simp add: same_goal_def reconnect_of_def)

lemma same_goal_trans: "same_goal m1 m2 \<Longrightarrow> same_goal m2 m3 \<Longrightarrow> same_goal m1 m3"
  by (simp add: same_goal_def)

lemma place_eqI: "place m Cm_timeout = f Cm_timeout \<Longrightarrow> place m A2dp_conn = f A2dp_conn \<Longrightarrow> place m Rssi_update = f Rssi_update \<Longrightarrow> place m = f"
  using cm_timer_kind.exhaust by (intro ext) (metis (full_types))

lemma addr_compare_6: "length a = 6 \<Longrightarrow> length b = 6 \<Longrightarrow> bt_addr_compare a b = 0 \<longleftrightarrow> a = b"
  by (simp add: bt_addr_compare_def memcmp_eq_0)

section \<open>Timers in their places\<close>

fun set_place :: "cm_timer_kind \<Rightarrow> nat option \<Rightarrow> bt_connection_manager \<Rightarrow> bt_connection_manager" where
  "set_place Cm_timeout t m = m\<lparr>cm_timer := (cm_timer m)\<lparr>ct_timer := t\<rparr>\<rparr>"
| "set_place A2dp_conn t m = m\<lparr>a2dp_conn_timer := t\<rparr>"
| "set_place Rssi_update t m = m\<lparr>rssi_update_timer := t\<rparr>"

lemma place_set_place [simp]: "place (set_place k t (m\<lparr>cm_loop := l\<rparr>)) = (place m)(k := t)"
  by (rule place_eqI; cases k; simp)

text \<open>Cancelling and starting the timer of a place other than the one of the retry timer.\<close>

lemma cancel_place:
  assumes "cm_inv m" "k \<noteq> Cm_timeout"
  shows "\<exists>l. cm_timer_cancel (place m k) m = Some (m\<lparr>cm_loop := l\<rparr>) \<and> cm_inv (set_place k None (m\<lparr>cm_loop := l\<rparr>))"
proof -
  obtain l where l: "service_loop_cancel_timer (place m k) (cm_loop m) = Some l" "owns l ((place m)(k := None))"
    "\<forall>x\<in>set (active_timers (cm_loop m)). place m k \<noteq> Some (fst x) \<longrightarrow> x \<in> set (active_timers l)"
    using owns_cancel [of "cm_loop m" "place m" k] assms by (auto simp: cm_inv_def)
  have "place m k \<noteq> Some h" if "ct_timer (cm_timer m) = Some h" for h
    using ownsD(4) [of "cm_loop m" "place m" Cm_timeout h k] assms that by (auto simp: cm_inv_def)
  then have "retry_ok (set_place k None (m\<lparr>cm_loop := l\<rparr>))"
    using l(3) assms unfolding cm_inv_def retry_ok_def by (cases k) (auto split: if_splits)
  moreover have "cm_loop (set_place k None (m\<lparr>cm_loop := l\<rparr>)) = l" by (cases k) simp_all
  ultimately have "cm_inv (set_place k None (m\<lparr>cm_loop := l\<rparr>))" using l(2) by (simp add: cm_inv_def)
  then show ?thesis using l(1) by (intro exI [of _ l]) (simp add: cm_timer_cancel_def)
qed

lemma start_place:
  assumes "cm_inv m" "k \<noteq> Cm_timeout" "place m k = None"
  shows "cm_inv (set_place k (Some (next_timer (cm_loop m))) (m\<lparr>cm_loop := snd (service_loop_timer True r (User k) (cm_loop m))\<rparr>))"
proof -
  let ?l = "snd (service_loop_timer True r (User k) (cm_loop m))"
  let ?t = "next_timer (cm_loop m)"
  have "owns ?l ((place m)(k \<mapsto> ?t))" using assms(1,3) by (intro owns_start) (simp_all add: cm_inv_def)
  moreover have "set (active_timers (cm_loop m)) \<subseteq> set (active_timers ?l)" by (auto simp: service_loop_timer_def)
  then have "retry_ok (set_place k (Some ?t) (m\<lparr>cm_loop := ?l\<rparr>))"
    using assms(1,2) unfolding cm_inv_def retry_ok_def by (cases k) (auto split: if_splits)
  moreover have "cm_loop (set_place k (Some ?t) (m\<lparr>cm_loop := ?l\<rparr>)) = ?l" by (cases k) simp_all
  ultimately show ?thesis unfolding cm_inv_def by simp
qed

lemma cm_timer_start_eq:
  "timer_mem e \<Longrightarrow> cm_timer_start e r k m =
    (Some (next_timer (cm_loop m)), m\<lparr>cm_loop := snd (service_loop_timer True r (User k) (cm_loop m))\<rparr>)"
  by (simp add: cm_timer_start_def service_loop_timer_def)

lemma restart_place:
  assumes "cm_inv m" "k \<noteq> Cm_timeout" "timer_mem e"
  shows "\<exists>l t l'. cm_timer_cancel (place m k) m = Some (m\<lparr>cm_loop := l\<rparr>) \<and>
    cm_timer_start e r k (m\<lparr>cm_loop := l\<rparr>) = (Some t, m\<lparr>cm_loop := l'\<rparr>) \<and> cm_inv (set_place k (Some t) (m\<lparr>cm_loop := l'\<rparr>))"
proof -
  obtain l where l: "cm_timer_cancel (place m k) m = Some (m\<lparr>cm_loop := l\<rparr>)" "cm_inv (set_place k None (m\<lparr>cm_loop := l\<rparr>))"
    using cancel_place [OF assms(1,2)] by blast
  let ?l = "snd (service_loop_timer True r (User k) l)"
  have "cm_loop (set_place k None (m\<lparr>cm_loop := l\<rparr>)) = l" by (cases k) simp_all
  then have "cm_inv (set_place k (Some (next_timer l)) ((set_place k None (m\<lparr>cm_loop := l\<rparr>))\<lparr>cm_loop := ?l\<rparr>))"
    using start_place [OF l(2) assms(2), of r] by simp
  moreover have "set_place k (Some (next_timer l)) ((set_place k None (m\<lparr>cm_loop := l\<rparr>))\<lparr>cm_loop := ?l\<rparr>) =
      set_place k (Some (next_timer l)) (m\<lparr>cm_loop := ?l\<rparr>)" by (cases k) simp_all
  ultimately show ?thesis using l(1) cm_timer_start_eq [OF assms(3), of r k "m\<lparr>cm_loop := l\<rparr>"]
    by (intro exI [of _ l] exI [of _ "next_timer l"] exI [of _ ?l]) simp
qed

lemma cm_inv_cong:
  assumes "cm_loop m' = cm_loop m" "cm_timer m' = cm_timer m" "a2dp_conn_timer m' = a2dp_conn_timer m" "rssi_update_timer m' = rssi_update_timer m"
    "cm_busy m' = cm_busy m" "reconnect_enable m' = reconnect_enable m"
  shows "cm_inv m' = cm_inv m"
proof -
  have "place m' = place m" using assms by (intro place_eqI) simp_all
  then show ?thesis using assms by (simp add: cm_inv_def retry_ok_def)
qed

lemma cm_inv_frame [simp]:
  "cm_inv (m\<lparr>cm_outs := x\<rparr>) = cm_inv m" "cm_inv (m\<lparr>connect_a2dp_flag := b\<rparr>) = cm_inv m" "cm_inv (m\<lparr>connecting_addr := a\<rparr>) = cm_inv m"
  "cm_inv (m\<lparr>profile_flags := w\<rparr>) = cm_inv m" "cm_inv (cm_emit y m) = cm_inv m" "cm_inv (m\<lparr>last_rssi_dump_time_ms := t\<rparr>) = cm_inv m"
  by (rule cm_inv_cong; simp add: cm_emit_def)+

section \<open>Operations\<close>

lemma profile_connect_ok:
  assumes "cm_inv m" "timer_mem e"
  shows "\<exists>st m'. bt_cm_profile_connect c e addr BT_TRANSPORT_BREDR m = Some (st, m') \<and> cm_inv m' \<and> same_goal m m'"
proof (cases "profile_flags m AND FLAG_HFP_HF \<noteq> 0 \<and> \<not> connect_a2dp_flag m \<and> (has_hfp_hf c \<longrightarrow> hfp_connect_status e addr = BT_STATUS_SUCCESS) \<and>
    profile_flags m AND FLAG_A2DP_SINK \<noteq> 0")
  case True
  let ?m = "(if has_hfp_hf c then cm_emit (Hfp_connect addr) m else m)\<lparr>connect_a2dp_flag := True, connecting_addr := addr\<rparr>"
  have m: "cm_inv ?m" "a2dp_conn_timer ?m = a2dp_conn_timer m" "same_goal m ?m" using assms(1) by (simp_all add: same_goal_def cm_emit_def)
  obtain l t l' where l: "cm_timer_cancel (a2dp_conn_timer m) ?m = Some (?m\<lparr>cm_loop := l\<rparr>)"
    "cm_timer_start e False A2dp_conn (?m\<lparr>cm_loop := l\<rparr>) = (Some t, ?m\<lparr>cm_loop := l'\<rparr>)" "cm_inv (?m\<lparr>cm_loop := l', a2dp_conn_timer := Some t\<rparr>)"
    using restart_place [OF m(1) _ assms(2), of A2dp_conn False] m(2) by auto
  then have "bt_cm_profile_connect c e addr BT_TRANSPORT_BREDR m = Some (BT_STATUS_SUCCESS, ?m\<lparr>cm_loop := l', a2dp_conn_timer := Some t\<rparr>)"
    using True by (cases "has_hfp_hf c") (simp_all add: bt_cm_profile_connect_def bt_cm_hfp_connect_def cm_emit_def)
  moreover have "cm_inv (?m\<lparr>cm_loop := l', a2dp_conn_timer := Some t\<rparr>)" using l(3) by simp
  moreover have "same_goal m (?m\<lparr>cm_loop := l', a2dp_conn_timer := Some t\<rparr>)" using m(3) by (simp add: same_goal_def)
  ultimately show ?thesis by blast
next
  case False
  then show ?thesis using assms(1)
    by (auto simp: bt_cm_profile_connect_def bt_cm_hfp_connect_def bt_cm_a2dpsnk_connect_def same_goal_def cm_emit_def)
qed

lemma enable_conn_ok:
  assumes "cm_inv m"
  shows "\<exists>m'. bt_cm_enable_conn m = Some m' \<and> cm_inv m' \<and> reconnect_of (Some m') = (reconnect_enable m, Idle)"
proof (cases "ct_active (cm_timer m)")
  case False
  let ?m = "(bt_cm_clear_flags (FLAG_HFP_HF OR FLAG_A2DP_SINK) m)\<lparr>connect_a2dp_flag := False, cm_busy := False\<rparr>"
  have "place ?m = place m" by (rule place_eqI) (simp_all add: bt_cm_clear_flags_def)
  then have "cm_inv ?m" using assms False by (simp add: cm_inv_def retry_ok_def bt_cm_clear_flags_def)
  then show ?thesis using False by (simp add: bt_cm_enable_conn_def bt_cm_stop_timer_def bt_cm_clear_flags_def reconnect_of_def)
next
  case True
  obtain l where l: "service_loop_cancel_timer (ct_timer (cm_timer m)) (cm_loop m) = Some l" "owns l ((place m)(Cm_timeout := None))"
    using owns_cancel [of "cm_loop m" "place m" Cm_timeout] assms by (auto simp: cm_inv_def)
  let ?m = "(bt_cm_clear_flags (FLAG_HFP_HF OR FLAG_A2DP_SINK) m)\<lparr>cm_loop := l, connect_a2dp_flag := False, cm_busy := False,
    cm_timer := (cm_timer m)\<lparr>ct_active := False, ct_retry := 0, ct_addr := bt_addr_set_empty, ct_timer := None\<rparr>\<rparr>"
  have "place ?m = (place m)(Cm_timeout := None)" by (rule place_eqI) (simp_all add: bt_cm_clear_flags_def)
  then have "cm_inv ?m" using l(2) by (simp add: cm_inv_def retry_ok_def bt_addr_set_empty_def)
  moreover have "bt_cm_enable_conn m = Some ?m"
    using True l(1) by (simp add: bt_cm_enable_conn_def bt_cm_stop_timer_def bt_cm_clear_flags_def cm_timer_cancel_def Let_def)
  ultimately show ?thesis by (simp add: reconnect_of_def bt_cm_clear_flags_def)
qed

lemma drop_a2dp_ok:
  assumes "cm_inv m"
  shows "\<exists>m'. drop_a2dp_timer m = Some m' \<and> cm_inv m' \<and> same_goal m m'"
proof -
  obtain l where l: "cm_timer_cancel (a2dp_conn_timer m) m = Some (m\<lparr>cm_loop := l\<rparr>)" "cm_inv (m\<lparr>cm_loop := l, a2dp_conn_timer := None\<rparr>)"
    using cancel_place [OF assms, of A2dp_conn] by auto
  have "cm_inv (m\<lparr>cm_loop := l, connecting_addr := bt_addr_set_empty, a2dp_conn_timer := None\<rparr>)"
    by (rule cm_inv_cong [THEN iffD2, OF _ _ _ _ _ _ l(2)]) simp_all
  then show ?thesis using l(1) by (simp add: drop_a2dp_timer_def same_goal_def)
qed

lemma profile_disconnect_ok:
  assumes "cm_inv m"
  shows "\<exists>st m'. bt_cm_profile_disconnect c e addr BT_TRANSPORT_BREDR m = Some (st, m') \<and> cm_inv m' \<and> same_goal m m'"
proof -
  define m0 where "m0 = (if has_hfp_hf c then cm_emit (Hfp_disconnect addr) m else m)"
  have m0: "cm_inv m0" "same_goal m m0" using assms by (simp_all add: m0_def same_goal_def cm_emit_def)
  obtain m1 where m1: "(if a2dp_conn_timer m0 \<noteq> None then drop_a2dp_timer (m0\<lparr>connect_a2dp_flag := False\<rparr>) else Some m0) = Some m1"
    "cm_inv m1" "same_goal m m1"
  proof (cases "a2dp_conn_timer m0 = None")
    case False
    obtain m1 where "drop_a2dp_timer (m0\<lparr>connect_a2dp_flag := False\<rparr>) = Some m1" "cm_inv m1" "same_goal (m0\<lparr>connect_a2dp_flag := False\<rparr>) m1"
      using drop_a2dp_ok [of "m0\<lparr>connect_a2dp_flag := False\<rparr>"] m0(1) by auto
    moreover have "same_goal m (m0\<lparr>connect_a2dp_flag := False\<rparr>)" using m0(2) by (simp add: same_goal_def)
    ultimately show ?thesis using that False by (auto intro: same_goal_trans)
  qed (use that m0 in simp)
  have eq: "bt_cm_profile_disconnect c e addr BT_TRANSPORT_BREDR m =
    (let status = (if has_hfp_hf c then hfp_disconnect_status e addr else BT_STATUS_SUCCESS)
     in if status \<noteq> BT_STATUS_SUCCESS then Some (status, m0)
        else Some (if has_a2dp_sink c then (a2dp_disconnect_status e addr, cm_emit (A2dp_disconnect addr) m1) else (status, m1)))"
    using m1(1) by (simp add: bt_cm_profile_disconnect_def bt_cm_hfp_disconnect_def bt_cm_a2dpsnk_disconnect_def m0_def Let_def split: if_splits)
  have "same_goal m (cm_emit (A2dp_disconnect addr) m1)" using m1(3) by (simp add: same_goal_def cm_emit_def)
  then show ?thesis unfolding eq Let_def using m0 m1(2,3) by auto
qed

lemma start_timer_ok:
  assumes "cm_inv m" "\<not> ct_active (cm_timer m)" "reconnect_enable m" "length addr = 6" "addr \<noteq> bt_addr_empty" "timer_mem e"
  shows "\<exists>m'. bt_cm_start_timer e addr (bt_cm_profile_falgs_set c (bt_cm_disable_conn m)) = Some (True, m') \<and> cm_inv m' \<and>
    reconnect_of (Some m') = (True, Trying addr (has_hfp_hf c) (has_a2dp_sink c) 0)"
proof -
  have off: "ct_timer (cm_timer m) = None" "ct_retry (cm_timer m) = 0" using assms(1,2) by (simp_all add: cm_inv_def retry_ok_def)
  let ?l = "snd (service_loop_timer True True (User Cm_timeout) (cm_loop m))" and ?t = "next_timer (cm_loop m)"
  let ?m = "(bt_cm_profile_falgs_set c (bt_cm_disable_conn m))\<lparr>cm_loop := ?l, cm_timer := \<lparr>ct_timer = Some ?t, ct_addr = addr, ct_active = True, ct_retry = 0\<rparr>\<rparr>"
  have sel: "cm_loop (bt_cm_profile_falgs_set c (bt_cm_disable_conn m)) = cm_loop m" "cm_timer (bt_cm_profile_falgs_set c (bt_cm_disable_conn m)) = cm_timer m"
    "cm_busy ?m" "reconnect_enable ?m" "a2dp_conn_timer ?m = a2dp_conn_timer m" "rssi_update_timer ?m = rssi_update_timer m"
    using assms(3) by (simp_all add: bt_cm_profile_falgs_set_def bt_cm_set_flags_def bt_cm_disable_conn_def Let_def)
  have "owns ?l ((place m)(Cm_timeout \<mapsto> ?t))" using assms(1) off by (intro owns_start) (simp_all add: cm_inv_def)
  moreover have "place ?m = (place m)(Cm_timeout \<mapsto> ?t)" by (rule place_eqI) (simp_all add: sel)
  moreover have "(?t, True, User Cm_timeout) \<in> set (active_timers ?l)" by (simp add: service_loop_timer_def)
  ultimately have "cm_inv ?m" using assms(4,5) sel by (simp add: cm_inv_def retry_ok_def)
  moreover have "bt_cm_start_timer e addr (bt_cm_profile_falgs_set c (bt_cm_disable_conn m)) = Some (True, ?m)"
    using assms(2,6) off sel by (simp add: bt_cm_start_timer_def cm_timer_cancel_def service_loop_cancel_timer_def cm_timer_start_eq Let_def)
  moreover have "reconnect_of (Some ?m) = (True, Trying addr (has_hfp_hf c) (has_a2dp_sink c) 0)"
    using assms(3) by (simp add: reconnect_of_def bt_cm_profile_falgs_set_def bt_cm_set_flags_def bt_cm_disable_conn_def Let_def)
  ultimately show ?thesis by blast
qed

section \<open>Every input\<close>

fun cm_input_ok :: "cm_env \<times> cm_input \<Rightarrow> bool" where
  "cm_input_ok (e, Link_lost addr _) \<longleftrightarrow> timer_mem e \<and> length addr = 6 \<and> addr \<noteq> bt_addr_empty"
| "cm_input_ok (e, Device_disconnect addr) \<longleftrightarrow> timer_mem e \<and> length addr = 6 \<and> addr \<noteq> bt_addr_empty"
| "cm_input_ok (e, Profile_connected addr _) \<longleftrightarrow> timer_mem e \<and> length addr = 6 \<and> addr \<noteq> bt_addr_empty"
| "cm_input_ok (e, Profile_disconnected addr _) \<longleftrightarrow> timer_mem e \<and> length addr = 6 \<and> addr \<noteq> bt_addr_empty"
| "cm_input_ok (e, _) \<longleftrightarrow> timer_mem e"

definition keeps :: "cm_config \<Rightarrow> bt_connection_manager \<Rightarrow> cm_env \<times> cm_input \<Rightarrow> bt_connection_manager option \<Rightarrow> bool" where
  "keeps c m ei r \<longleftrightarrow> (\<exists>m'. r = Some m' \<and> cm_inv m' \<and> reconnect_of (Some m') = reconnect_step c (reconnect_of (Some m)) ei)"

lemma keepsI: "r = Some m' \<Longrightarrow> cm_inv m' \<Longrightarrow> reconnect_of (Some m') = reconnect_step c (reconnect_of (Some m)) ei \<Longrightarrow> keeps c m ei r"
  by (simp add: keeps_def)

lemma goal_addr:
  assumes "cm_inv m" "length addr = 6" "addr \<noteq> bt_addr_empty"
  shows "bt_addr_compare (ct_addr (cm_timer m)) addr = 0 \<longleftrightarrow> ct_active (cm_timer m) \<and> ct_addr (cm_timer m) = addr"
proof -
  have "length bt_addr_empty = 6" by (simp add: bt_addr_empty_def)
  then show ?thesis using assms by (auto simp: cm_inv_def retry_ok_def addr_compare_6 split: if_splits)
qed

lemma keeps_connect:
  assumes "cm_inv m" "timer_mem e"
  shows "keeps c m (e, Device_connect addr) (cm_step c (Some m) (e, Device_connect addr))"
proof -
  let ?m = "m\<lparr>reconnect_enable := True\<rparr>"
  have "place ?m = place m" by (rule place_eqI) simp_all
  then have inv: "cm_inv ?m" using assms(1) by (simp add: cm_inv_def retry_ok_def)
  have goal: "reconnect_of (Some ?m) = reconnect_step c (reconnect_of (Some m)) (e, Device_connect addr)" by (simp add: reconnect_of_def)
  show ?thesis
  proof (cases "cm_busy m \<or> bt_addr_is_empty addr \<and> bonded_devices e = []")
    case True
    then have "cm_step c (Some m) (e, Device_connect addr) = Some ?m" by (auto simp: bt_cm_device_connect_def bt_cm_is_busy_def Let_def)
    then show ?thesis using inv goal by (rule keepsI)
  next
    case False
    let ?f = "bt_cm_profile_falgs_set c ?m"
    let ?a = "if bt_addr_is_empty addr then last (bonded_devices e) else addr"
    have f: "cm_inv ?f" "\<not> ct_active (cm_timer ?f)" "reconnect_enable ?f"
    proof -
      show "cm_inv ?f" by (rule cm_inv_cong [THEN iffD2, OF _ _ _ _ _ _ inv]) (simp_all add: bt_cm_profile_falgs_set_def bt_cm_set_flags_def Let_def)
      show "\<not> ct_active (cm_timer ?f)" "reconnect_enable ?f"
        using False assms(1) by (simp_all add: cm_inv_def retry_ok_def bt_cm_profile_falgs_set_def bt_cm_set_flags_def Let_def)
    qed
    obtain st m' where m': "bt_cm_profile_connect c e ?a BT_TRANSPORT_BREDR ?f = Some (st, m')" "cm_inv m'" "same_goal ?f m'"
      using profile_connect_ok [OF f(1) assms(2)] by blast
    have "reconnect_of (Some m') = (True, Idle)" using m'(3) f(2,3) by (simp add: same_goal_def reconnect_of_def)
    moreover have "reconnect_of (Some m) = (reconnect_enable m, Idle)" using False assms(1) by (simp add: reconnect_of_def cm_inv_def retry_ok_def)
    moreover have "cm_step c (Some m) (e, Device_connect addr) = Some m'"
      using False m'(1) by (simp add: bt_cm_device_connect_def bt_cm_is_busy_def Let_def split: if_splits)
    ultimately show ?thesis using m'(2) by (intro keepsI) simp_all
  qed
qed

lemma keeps_disconnect:
  assumes "cm_inv m" "length addr = 6" "addr \<noteq> bt_addr_empty"
  shows "keeps c m (e, Device_disconnect addr) (cm_step c (Some m) (e, Device_disconnect addr))"
proof (cases "bt_addr_compare (ct_addr (cm_timer m)) addr = 0")
  case True
  then have g: "ct_active (cm_timer m)" "ct_addr (cm_timer m) = addr" using goal_addr [OF assms] by simp_all
  obtain m1 where m1: "bt_cm_enable_conn m = Some m1" "cm_inv m1" "reconnect_of (Some m1) = (reconnect_enable m, Idle)"
    using enable_conn_ok [OF assms(1)] by blast
  obtain st m' where m': "bt_cm_profile_disconnect c e addr BT_TRANSPORT_BREDR m1 = Some (st, m')" "cm_inv m'" "same_goal m1 m'"
    using profile_disconnect_ok [OF m1(2)] by blast
  then show ?thesis using True g m1 same_goal_of [OF m'(3)] by (simp add: keeps_def bt_cm_device_disconnect_def reconnect_of_def)
next
  case False
  obtain st m' where m': "bt_cm_profile_disconnect c e addr BT_TRANSPORT_BREDR m = Some (st, m')" "cm_inv m'" "same_goal m m'"
    using profile_disconnect_ok [OF assms(1)] by blast
  then show ?thesis using False goal_addr [OF assms] same_goal_of [OF m'(3)]
    by (auto simp: keeps_def bt_cm_device_disconnect_def reconnect_of_def)
qed

lemma keeps_lost:
  assumes "cm_inv m" "length addr = 6" "addr \<noteq> bt_addr_empty" "timer_mem e"
  shows "keeps c m (e, Link_lost addr reason) (cm_step c (Some m) (e, Link_lost addr reason))"
proof (cases "reason \<in> {HCI_ERR_CONNECTION_TERMINATED_BY_LOCAL_HOST, HCI_ERR_REMOTE_USER_TERMINATED_CONNECTION}")
  case closed: True
  show ?thesis
  proof (cases "reconnect_enable m \<and> bt_addr_compare (ct_addr (cm_timer m)) addr = 0")
    case True
    then obtain m1 where "bt_cm_enable_conn m = Some m1" "cm_inv m1" "reconnect_of (Some m1) = (reconnect_enable m, Idle)"
      using enable_conn_ok [OF assms(1)] by blast
    then show ?thesis using True closed goal_addr [OF assms(1-3)]
      by (auto simp: keeps_def bt_cm_process_disconnect_event_def bt_cm_process_reconnection_def reconnect_of_def)
  next
    case False
    then have "cm_step c (Some m) (e, Link_lost addr reason) = Some m"
      using closed by (auto simp: bt_cm_process_disconnect_event_def bt_cm_process_reconnection_def)
    moreover have "reconnect_step c (reconnect_of (Some m)) (e, Link_lost addr reason) = reconnect_of (Some m)"
      using False closed goal_addr [OF assms(1-3)] assms(1) by (auto simp: reconnect_of_def cm_inv_def retry_ok_def split: if_splits)
    ultimately show ?thesis using assms(1) by (simp add: keeps_def)
  qed
next
  case other: False
  show ?thesis
  proof (cases "reconnect_enable m \<and> \<not> cm_busy m \<and> reason = HCI_ERR_CONNECTION_TIMEOUT")
    case True
    then have idle: "\<not> ct_active (cm_timer m)" using assms(1) by (simp add: cm_inv_def retry_ok_def)
    obtain m1 where m1: "bt_cm_start_timer e addr (bt_cm_profile_falgs_set c (bt_cm_disable_conn m)) = Some (True, m1)" "cm_inv m1"
      "reconnect_of (Some m1) = (True, Trying addr (has_hfp_hf c) (has_a2dp_sink c) 0)"
      using start_timer_ok [OF assms(1) idle _ assms(2-4)] True by blast
    obtain st m' where m': "bt_cm_profile_connect c e addr BT_TRANSPORT_BREDR m1 = Some (st, m')" "cm_inv m'" "same_goal m1 m'"
      using profile_connect_ok [OF m1(2) assms(4)] by blast
    have "cm_step c (Some m) (e, Link_lost addr reason) = Some m'"
      using True m1(1) m'(1) by (simp add: bt_cm_process_disconnect_event_def bt_cm_process_reconnection_def bt_cm_is_busy_def)
    moreover have "reconnect_of (Some m) = (True, Idle)" using True idle by (simp add: reconnect_of_def)
    ultimately show ?thesis using m'(2) same_goal_of [OF m'(3)] m1(3) True by (simp add: keeps_def)
  next
    case False
    then have "cm_step c (Some m) (e, Link_lost addr reason) = Some m"
      using other by (auto simp: bt_cm_process_disconnect_event_def bt_cm_process_reconnection_def bt_cm_is_busy_def)
    moreover have "reconnect_step c (reconnect_of (Some m)) (e, Link_lost addr reason) = reconnect_of (Some m)"
      using False other assms(1) by (auto simp: reconnect_of_def cm_inv_def retry_ok_def split: if_splits)
    ultimately show ?thesis using assms(1) by (simp add: keeps_def)
  qed
qed

lemma flag_bits:
  "((w AND - 17) AND 16 :: u32) = 0" "((w AND - 17) AND 2 :: u32) = w AND 2"
  "((w AND - 3) AND 2 :: u32) = 0" "((w AND - 3) AND 16 :: u32) = w AND 16"
  "(w AND 18 :: u32) = 0 \<longleftrightarrow> w AND 16 = 0 \<and> w AND 2 = 0"
proof -
  have "(- 17 AND 16 :: u32) = 0" "(- 17 AND 2 :: u32) = 2" "(- 3 AND 2 :: u32) = 0" "(- 3 AND 16 :: u32) = 16" by simp_all
  then show "((w AND - 17) AND 16 :: u32) = 0" "((w AND - 17) AND 2 :: u32) = w AND 2"
    "((w AND - 3) AND 2 :: u32) = 0" "((w AND - 3) AND 16 :: u32) = w AND 16" by (simp_all only: and.assoc and_zero_eq)
  have "(18 :: u32) = 16 OR 2" by simp
  then have "w AND 18 = (w AND 16) OR (w AND 2)" by (simp only: bit.conj_disj_distrib)
  then show "(w AND 18 :: u32) = 0 \<longleftrightarrow> w AND 16 = 0 \<and> w AND 2 = 0" by (simp only: or_eq_0_iff)
qed

lemma keeps_connected:
  assumes "cm_inv m" "length addr = 6" "addr \<noteq> bt_addr_empty"
  shows "keeps c m (e, Profile_connected addr pid) (cm_step c (Some m) (e, Profile_connected addr pid))"
proof (cases "ct_active (cm_timer m) \<and> ct_addr (cm_timer m) = addr")
  case False
  then have "cm_step c (Some m) (e, Profile_connected addr pid) = Some m" using goal_addr [OF assms] by (simp add: bt_cm_connected_def)
  moreover have "reconnect_step c (reconnect_of (Some m)) (e, Profile_connected addr pid) = reconnect_of (Some m)"
    using False by (auto simp: reconnect_of_def)
  ultimately show ?thesis using assms(1) by (simp add: keeps_def)
next
  case True
  let ?h = "profile_flags m AND FLAG_HFP_HF \<noteq> 0 \<and> pid \<noteq> PROFILE_HFP_HF" and ?s = "profile_flags m AND FLAG_A2DP_SINK \<noteq> 0 \<and> pid \<noteq> PROFILE_A2DP_SINK"
  obtain m1 where m1: "(case pid of PROFILE_HFP_HF \<Rightarrow> Some (bt_cm_clear_flags FLAG_HFP_HF m)
      | PROFILE_A2DP_SINK \<Rightarrow> drop_a2dp_timer (bt_cm_clear_flags FLAG_A2DP_SINK m) | _ \<Rightarrow> Some m) = Some m1" "cm_inv m1"
    "cm_timer m1 = cm_timer m" "reconnect_enable m1 = reconnect_enable m"
    "profile_flags m1 AND FLAG_HFP_HF \<noteq> 0 \<longleftrightarrow> ?h" "profile_flags m1 AND FLAG_A2DP_SINK \<noteq> 0 \<longleftrightarrow> ?s"
  proof (cases "pid = PROFILE_A2DP_SINK")
    case True
    have "cm_inv (bt_cm_clear_flags FLAG_A2DP_SINK m)" using assms(1) by (simp add: bt_cm_clear_flags_def)
    then obtain m1 where "drop_a2dp_timer (bt_cm_clear_flags FLAG_A2DP_SINK m) = Some m1" "cm_inv m1" "same_goal (bt_cm_clear_flags FLAG_A2DP_SINK m) m1"
      using drop_a2dp_ok by blast
    then show ?thesis using that True by (simp add: same_goal_def bt_cm_clear_flags_def flag_bits)
  next
    case False
    then show ?thesis
      using that [of "if pid = PROFILE_HFP_HF then bt_cm_clear_flags FLAG_HFP_HF m else m"] assms(1)
      by (cases pid) (simp_all add: bt_cm_clear_flags_def flag_bits)
  qed
  have step: "cm_step c (Some m) (e, Profile_connected addr pid) = (if ?h \<or> ?s then Some m1 else bt_cm_enable_conn m1)"
    using True goal_addr [OF assms] m1 by (auto simp: bt_cm_connected_def flag_bits)
  show ?thesis
  proof (cases "?h \<or> ?s")
    case wanted: True
    then have "cm_step c (Some m) (e, Profile_connected addr pid) = Some m1" using step by simp
    moreover have "reconnect_of (Some m1) = reconnect_step c (reconnect_of (Some m)) (e, Profile_connected addr pid)"
      using True wanted m1(3-6) by (auto simp: reconnect_of_def Let_def)
    ultimately show ?thesis using m1(2) by (intro keepsI)
  next
    case finished: False
    obtain m2 where "bt_cm_enable_conn m1 = Some m2" "cm_inv m2" "reconnect_of (Some m2) = (reconnect_enable m1, Idle)"
      using enable_conn_ok [OF m1(2)] by blast
    moreover have "reconnect_step c (reconnect_of (Some m)) (e, Profile_connected addr pid) = (reconnect_enable m, Idle)"
      using True finished by (auto simp: reconnect_of_def Let_def)
    ultimately show ?thesis using step finished m1(4) by (simp add: keeps_def)
  qed
qed

lemma cm_inv_expired:
  assumes "cm_inv m" "(h, r, User k) \<in> set (active_timers (cm_loop m))"
  shows "\<exists>l. expire_timer h (cm_loop m) = Some (User k, l) \<and> cm_inv (m\<lparr>cm_loop := l\<rparr>)"
proof -
  obtain l where l: "expire_timer h (cm_loop m) = Some (User k, l)" "owns l (place m)" "place m k = Some h"
    "\<forall>x\<in>set (active_timers (cm_loop m)). (r \<or> fst x \<noteq> h) \<longrightarrow> x \<in> set (active_timers l)"
    using owns_expire [of "cm_loop m" "place m", OF _ assms(2)] assms(1) by (auto simp: cm_inv_def)
  have "place (m\<lparr>cm_loop := l\<rparr>) = place m" by (rule place_eqI) simp_all
  moreover have "retry_ok (m\<lparr>cm_loop := l\<rparr>)"
  proof (cases "ct_active (cm_timer m)")
    case True
    then obtain t where t: "ct_timer (cm_timer m) = Some t" "(t, True, User Cm_timeout) \<in> set (active_timers (cm_loop m))"
      using assms(1) by (auto simp: cm_inv_def retry_ok_def)
    have "distinct (map fst (active_timers (cm_loop m)))" using assms(1) by (simp add: cm_inv_def owns_def timers_ok_def)
    then have "r" if "t = h" using t(2) assms(2) that by (metis eq_key_imp_eq_value prod.inject)
    then have "(t, True, User Cm_timeout) \<in> set (active_timers l)" using l(4) t(2) by auto
    then show ?thesis using assms(1) t(1) True by (simp add: cm_inv_def retry_ok_def)
  qed (use assms(1) in \<open>simp add: cm_inv_def retry_ok_def\<close>)
  ultimately show ?thesis using l(1,2) by (auto simp: cm_inv_def)
qed

lemma keeps_retry:
  assumes "cm_inv m" "timer_mem e" "ct_active (cm_timer m)"
  shows "keeps c m (e, Timer_expires Cm_timeout) (bt_cm_timeout_cb c e m)"
proof -
  have ok: "ct_retry (cm_timer m) \<le> 150" using assms(1,3) by (simp add: cm_inv_def retry_ok_def)
  let ?m = "m\<lparr>cm_timer := (cm_timer m)\<lparr>ct_retry := ct_retry (cm_timer m) + 1\<rparr>\<rparr>"
  have n: "unat (ct_retry (cm_timer m) + 1) = unat (ct_retry (cm_timer m)) + 1" "unat (ct_retry (cm_timer m)) \<le> 150"
    using ok unat_inc [of "ct_retry (cm_timer m)" 151] by (simp_all add: word_le_nat_alt word_less_nat_alt)
  have place: "place ?m = place m" by (rule place_eqI) simp_all
  show ?thesis
  proof (cases "150 < ct_retry (cm_timer m) + 1")
    case True
    have "owns (cm_loop ?m) (place ?m)" using assms(1) place by (simp add: cm_inv_def)
    then obtain l where l: "service_loop_cancel_timer (ct_timer (cm_timer m)) (cm_loop m) = Some l" "owns l ((place m)(Cm_timeout := None))"
      using owns_cancel [of "cm_loop m" "place m" Cm_timeout] assms(1) by (auto simp: cm_inv_def)
    let ?m1 = "(bt_cm_clear_flags (FLAG_HFP_HF OR FLAG_A2DP_SINK) m)\<lparr>cm_loop := l, connect_a2dp_flag := False, cm_busy := False,
      cm_timer := (cm_timer m)\<lparr>ct_active := False, ct_retry := 0, ct_addr := bt_addr_set_empty, ct_timer := None\<rparr>\<rparr>"
    have en: "bt_cm_enable_conn ?m = Some ?m1"
      using assms(3) l(1) by (simp add: bt_cm_enable_conn_def bt_cm_stop_timer_def bt_cm_clear_flags_def cm_timer_cancel_def Let_def)
    have "place ?m1 = (place m)(Cm_timeout := None)" by (rule place_eqI) (simp_all add: bt_cm_clear_flags_def)
    then have "cm_inv ?m1" using l(2) by (simp add: cm_inv_def retry_ok_def bt_addr_set_empty_def)
    then obtain st m' where m': "bt_cm_profile_connect c e (ct_addr (cm_timer ?m1)) BT_TRANSPORT_BREDR ?m1 = Some (st, m')" "cm_inv m'" "same_goal ?m1 m'"
      using profile_connect_ok assms(2) by blast
    have "reconnect_of (Some m') = (reconnect_enable m, Idle)"
      using same_goal_of [OF m'(3)] by (simp add: reconnect_of_def bt_cm_clear_flags_def)
    moreover have "bt_cm_timeout_cb c e m = Some m'" using assms(3) True en m'(1) by (simp add: bt_cm_timeout_cb_def Let_def)
    moreover have "150 < unat (ct_retry (cm_timer m)) + 1" using True n by (simp add: word_less_nat_alt)
    ultimately show ?thesis using m'(2) assms(3) by (intro keepsI) (simp_all add: reconnect_of_def)
  next
    case False
    have "cm_inv ?m" using assms(1,3) place False by (simp add: cm_inv_def retry_ok_def)
    then obtain st m' where m': "bt_cm_profile_connect c e (ct_addr (cm_timer ?m)) BT_TRANSPORT_BREDR ?m = Some (st, m')" "cm_inv m'" "same_goal ?m m'"
      using profile_connect_ok assms(2) by blast
    have "bt_cm_timeout_cb c e m = Some m'" using assms(3) False m'(1) by (simp add: bt_cm_timeout_cb_def Let_def)
    moreover have "unat (ct_retry (cm_timer m)) < 150" using False n by (simp add: word_less_nat_alt)
    ultimately show ?thesis using m'(2) same_goal_of [OF m'(3)] assms(3) n by (intro keepsI) (simp_all add: reconnect_of_def)
  qed
qed

lemma rssi_update_keeps [simp]: "cm_inv (rssi_update c e m) = cm_inv m" "same_goal m (rssi_update c e m)"
proof -
  have emits: "cm_inv (foldl (\<lambda>m a. cm_emit (Read_rssi a t) m) m xs) = cm_inv m \<and> same_goal m (foldl (\<lambda>m a. cm_emit (Read_rssi a t) m) m xs)"
    for t xs and m :: bt_connection_manager
    by (induction xs arbitrary: m) (auto simp: same_goal_def cm_emit_def)
  have read: "cm_inv (snd (read_rssi_of b t e m)) = cm_inv m \<and> same_goal m (snd (read_rssi_of b t e m))" for b t and m :: bt_connection_manager
    using emits by (auto simp: read_rssi_of_def same_goal_def split: option.split)
  obtain n1 m1 where r1: "read_rssi_of (has_bredr c) BT_TRANSPORT_BREDR e m = (n1, m1)" by fastforce
  obtain n2 m2 where r2: "read_rssi_of (has_ble c) BT_TRANSPORT_BLE e m1 = (n2, m2)" by fastforce
  have m2: "cm_inv m2 = cm_inv m" "same_goal m m2"
    using read [of "has_bredr c" BT_TRANSPORT_BREDR m] read [of "has_ble c" BT_TRANSPORT_BLE m1] r1 r2 by (auto intro: same_goal_trans)
  show "cm_inv (rssi_update c e m) = cm_inv m" using m2(1) by (simp add: rssi_update_def r1 r2 Let_def)
  show "same_goal m (rssi_update c e m)" using m2(2) by (simp add: rssi_update_def r1 r2 Let_def same_goal_def cm_emit_def)
qed

lemma keeps_expire:
  assumes "cm_inv m" "timer_mem e"
  shows "keeps c m (e, Timer_expires k) (cm_step c (Some m) (e, Timer_expires k))"
proof (cases "find (\<lambda>x. snd (snd x) = User k) (active_timers (cm_loop m))")
  case None
  then have "\<not> (k = Cm_timeout \<and> ct_active (cm_timer m))"
    using assms(1) by (auto simp: cm_inv_def retry_ok_def find_None_iff)
  then have "reconnect_of (Some m) = reconnect_step c (reconnect_of (Some m)) (e, Timer_expires k)"
    by (cases k) (auto simp: reconnect_of_def)
  then show ?thesis using None assms(1) by (intro keepsI [of _ m]) (simp_all add: cm_expire_def)
next
  case (Some x)
  have "x \<in> set (active_timers (cm_loop m))" "snd (snd x) = User k" using Some by (auto simp: find_Some_iff)
  then obtain h r where x: "x = (h, r, User k)" "(h, r, User k) \<in> set (active_timers (cm_loop m))" by (metis prod.collapse)
  obtain l where l: "expire_timer h (cm_loop m) = Some (User k, l)" "cm_inv (m\<lparr>cm_loop := l\<rparr>)" using cm_inv_expired [OF assms(1) x(2)] by blast
  let ?m = "m\<lparr>cm_loop := l\<rparr>"
  have goal: "reconnect_of (Some ?m) = reconnect_of (Some m)" by (simp add: reconnect_of_def)
  show ?thesis
  proof (cases k)
    case Cm_timeout
    have "place m Cm_timeout = Some h" using owns_expire [of "cm_loop m" "place m", OF _ x(2)] assms(1) Cm_timeout by (auto simp: cm_inv_def)
    then have "ct_active (cm_timer ?m)" using assms(1) by (auto simp: cm_inv_def retry_ok_def split: if_splits)
    then show ?thesis using keeps_retry [OF l(2) assms(2)] Some x(1) l(1) Cm_timeout goal by (simp add: cm_expire_def keeps_def)
  next
    case A2dp_conn
    obtain st m' where m': "bt_cm_profile_connect c e (connecting_addr ?m) BT_TRANSPORT_BREDR ?m = Some (st, m')" "cm_inv m'" "same_goal ?m m'"
      using profile_connect_ok [OF l(2) assms(2)] by blast
    have "reconnect_of (Some m') = reconnect_step c (reconnect_of (Some m)) (e, Timer_expires k)"
      using same_goal_of [OF m'(3)] goal A2dp_conn by (simp add: reconnect_of_def)
    then show ?thesis using m'(1,2) Some x(1) l(1) A2dp_conn by (intro keepsI) (simp_all add: cm_expire_def bt_cm_connect_a2dp_cb_def)
  next
    case Rssi_update
    have "reconnect_of (Some (rssi_update c e ?m)) = reconnect_step c (reconnect_of (Some m)) (e, Timer_expires k)"
      using same_goal_of [OF rssi_update_keeps(2)] goal Rssi_update by (simp add: reconnect_of_def)
    then show ?thesis using l Some x(1) Rssi_update by (intro keepsI) (simp_all add: cm_expire_def)
  qed
qed

lemma keeps_disconnected:
  assumes "cm_inv m"
  shows "keeps c m (e, Profile_disconnected addr pid) (cm_step c (Some m) (e, Profile_disconnected addr pid))"
proof -
  obtain d where d: "drop_a2dp_timer m = Some d" "cm_inv d" "same_goal m d" using drop_a2dp_ok [OF assms] by blast
  have goal: "reconnect_of (Some m) = reconnect_step c (reconnect_of (Some m)) (e, Profile_disconnected addr pid)" by (simp add: reconnect_of_def)
  have "cm_step c (Some m) (e, Profile_disconnected addr pid) \<in> {Some m, Some d}"
    using d(1) by (simp add: bt_cm_disconnected_def split: profile_id.split)
  then show ?thesis using assms d(2) same_goal_of [OF d(3)] goal by (auto simp: keeps_def)
qed

lemma keeps_rssi:
  assumes "cm_inv m" "timer_mem e"
  shows "keeps c m (e, Enable_rssi) (cm_step c (Some m) (e, Enable_rssi))"
    and "keeps c m (e, Disable_rssi) (cm_step c (Some m) (e, Disable_rssi))"
proof -
  have goal: "reconnect_of (Some m) = reconnect_step c (reconnect_of (Some m)) (e, i)" if "i \<in> {Enable_rssi, Disable_rssi}" for i
    using that by (auto simp: reconnect_of_def)
  show "keeps c m (e, Enable_rssi) (cm_step c (Some m) (e, Enable_rssi))"
  proof (cases "rssi_update_timer m")
    case None
    let ?m = "m\<lparr>last_rssi_dump_time_ms := os_timestamp_ms e\<rparr>"
    let ?s = "?m\<lparr>cm_loop := snd (service_loop_timer True True (User Rssi_update) (cm_loop m)), rssi_update_timer := Some (next_timer (cm_loop m))\<rparr>"
    have "cm_inv ?s" using start_place [of ?m Rssi_update True] assms(1) None by simp
    moreover have "cm_step c (Some m) (e, Enable_rssi) = Some ?s" using None assms(2) by (simp add: bt_cm_enable_rssi_statistic_def cm_timer_start_eq)
    moreover have "reconnect_of (Some ?s) = reconnect_step c (reconnect_of (Some m)) (e, Enable_rssi)" by (simp add: reconnect_of_def)
    ultimately show ?thesis by (intro keepsI)
  next
    case (Some t)
    then show ?thesis using assms(1) goal [of Enable_rssi] by (intro keepsI [of _ m]) (simp_all add: bt_cm_enable_rssi_statistic_def)
  qed
  show "keeps c m (e, Disable_rssi) (cm_step c (Some m) (e, Disable_rssi))"
  proof (cases "rssi_update_timer m")
    case None
    then show ?thesis using assms(1) goal [of Disable_rssi] by (intro keepsI [of _ m]) (simp_all add: bt_cm_disable_rssi_statistic_def)
  next
    case (Some t)
    obtain l where l: "cm_timer_cancel (rssi_update_timer m) m = Some (m\<lparr>cm_loop := l\<rparr>)" "cm_inv (m\<lparr>cm_loop := l, rssi_update_timer := None\<rparr>)"
      using cancel_place [OF assms(1), of Rssi_update] by auto
    have "reconnect_of (Some (m\<lparr>cm_loop := l, rssi_update_timer := None\<rparr>)) = reconnect_step c (reconnect_of (Some m)) (e, Disable_rssi)"
      by (simp add: reconnect_of_def)
    then show ?thesis using l Some by (intro keepsI) (simp_all add: bt_cm_disable_rssi_statistic_def)
  qed
qed

lemma cm_step_keeps:
  assumes "cm_inv m" "cm_input_ok ei"
  shows "keeps c m ei (cm_step c (Some m) ei)"
proof -
  obtain e i where "ei = (e, i)" by fastforce
  then show ?thesis using assms
    by (cases i) (simp_all add: keeps_connect keeps_disconnect keeps_lost keeps_connected keeps_disconnected keeps_expire keeps_rssi del: cm_step.simps)
qed

section \<open>Histories\<close>

definition cm_inv_opt :: "bt_connection_manager option \<Rightarrow> bool" where
  "cm_inv_opt mo \<longleftrightarrow> (\<exists>m. mo = Some m \<and> cm_inv m)"

interpretation cm_ref: refined_machine "cm_step c" cm_inv_opt cm_input_ok "reconnect_step c" reconnect_of for c
proof
  fix mo ei
  assume "cm_inv_opt mo" "cm_input_ok ei"
  then obtain m where "mo = Some m" "keeps c m ei (cm_step c (Some m) ei)" using cm_step_keeps unfolding cm_inv_opt_def by blast
  then show "cm_inv_opt (cm_step c mo ei)" "reconnect_of (cm_step c mo ei) = reconnect_step c (reconnect_of mo) ei"
    unfolding cm_inv_opt_def keeps_def by auto
qed

lemma cm_init_ok: "cm_inv_opt (bt_cm_init (zero_cm n pm))" "reconnect_of (bt_cm_init (zero_cm n pm)) = (False, Idle)"
proof -
  have "owns service_loop_init (\<lambda>k. None)" by (simp add: owns_def timers_ok_def service_loop_init_def)
  moreover have "place (zero_cm n pm) = (\<lambda>k. None)" by (rule place_eqI) (simp_all add: zero_cm_def)
  ultimately have inv: "cm_inv (zero_cm n pm)" by (simp add: cm_inv_def retry_ok_def) (simp add: zero_cm_def)
  let ?m = "(zero_cm n pm)\<lparr>cm_inited := True\<rparr>"
  have init: "bt_cm_init (zero_cm n pm) = Some ?m"
    by (simp add: bt_cm_init_def bt_cm_enable_conn_def bt_cm_stop_timer_def bt_cm_clear_flags_def bt_cm_set_flags_def zero_cm_def)
  have "cm_inv ?m" by (rule cm_inv_cong [THEN iffD2, OF _ _ _ _ _ _ inv]) simp_all
  then show "cm_inv_opt (bt_cm_init (zero_cm n pm))" by (simp add: cm_inv_opt_def init)
  show "reconnect_of (bt_cm_init (zero_cm n pm)) = (False, Idle)" unfolding init by (simp add: reconnect_of_def) (simp add: zero_cm_def)
qed

lemma cm_history:
  assumes "\<And>x. x \<in> set es \<Longrightarrow> cm_input_ok x"
  shows "\<exists>m. foldl (cm_step c) (bt_cm_init (zero_cm n pm)) es = Some m \<and> cm_inv m \<and>
    reconnect_of (Some m) = foldl (reconnect_step c) (False, Idle) es"
  using cm_ref.inv_run [OF cm_init_ok(1) assms, of es c n pm] cm_ref.abs_run [OF cm_init_ok(1) assms, of es c n pm] cm_init_ok(2)
  by (auto simp: cm_inv_opt_def)

lemma reconnect_exhausted:
  "snd (foldl (reconnect_step c) (en, Trying a h s n) (map (\<lambda>e. (e, Timer_expires Cm_timeout)) xs)) =
    (if 150 < n + length xs \<and> xs \<noteq> [] then Idle else Trying a h s (n + length xs))"
proof (induction xs arbitrary: n)
  case Nil
  then show ?case by simp
next
  case (Cons x xs)
  have idle: "snd (foldl (reconnect_step c) (en, Idle) (map (\<lambda>e. (e, Timer_expires Cm_timeout)) ys)) = Idle" for ys
    by (induction ys) simp_all
  show ?case using Cons [of "n + 1"] idle by auto
qed

text \<open>C3. The connection manager implements the reconnection it promises: in every history of requests,
  connections and disconnections of profiles, lost links and expiries, no timer that has been released is touched, the
  device that is being connected again, the profiles still wanted and the number of retries are those of the
  specification, and the manager is busy and has its retry timer exactly while a device is being connected again.\<close>

theorem cm_refines_reconnect:
  assumes "\<And>x. x \<in> set es \<Longrightarrow> cm_input_ok x"
  shows "\<exists>m. foldl (cm_step c) (bt_cm_init (zero_cm n pm)) es = Some m \<and>
    reconnect_of (Some m) = foldl (reconnect_step c) (False, Idle) es \<and>
    (bt_cm_is_busy m \<longleftrightarrow> snd (foldl (reconnect_step c) (False, Idle) es) \<noteq> Idle) \<and>
    (ct_timer (cm_timer m) \<noteq> None \<longleftrightarrow> snd (foldl (reconnect_step c) (False, Idle) es) \<noteq> Idle)"
proof -
  obtain m where m: "foldl (cm_step c) (bt_cm_init (zero_cm n pm)) es = Some m" "cm_inv m"
    "reconnect_of (Some m) = foldl (reconnect_step c) (False, Idle) es"
    using cm_history [OF assms] by blast
  have "bt_cm_is_busy m \<longleftrightarrow> snd (reconnect_of (Some m)) \<noteq> Idle" "ct_timer (cm_timer m) \<noteq> None \<longleftrightarrow> snd (reconnect_of (Some m)) \<noteq> Idle"
    using m(2) by (auto simp: cm_inv_def retry_ok_def bt_cm_is_busy_def reconnect_of_def split: if_splits)
  then show ?thesis using m(1,3) by auto
qed

text \<open>A phone whose link is lost, comes back with HFP and then with A2DP.\<close>

definition demo_cm_env :: cm_env where
  "demo_cm_env =
     \<lparr>hfp_connect_status = \<lambda>_. BT_STATUS_SUCCESS, hfp_disconnect_status = \<lambda>_. BT_STATUS_SUCCESS,
      a2dp_connect_status = \<lambda>_. BT_STATUS_SUCCESS, a2dp_disconnect_status = \<lambda>_. BT_STATUS_SUCCESS,
      bonded_devices = [], connected_devices = \<lambda>_. None, os_timestamp_ms = 0, timer_mem = True, op_mem = True,
      cm_pm_env = \<lparr>is_remote_connected = \<lambda>_. True, sal_power_mode = \<lambda>_ _. BT_STATUS_SUCCESS\<rparr>,
      acl_handle = \<lambda>_. None, dlf_builder = \<lambda>_ _ _. None, send_status = BT_STATUS_SUCCESS\<rparr>"

definition demo_cm_config :: cm_config where
  "demo_cm_config = \<lparr>has_hfp_hf = True, has_a2dp_sink = True, has_dlf = False, has_bredr = True, has_ble = False\<rparr>"

definition demo_phone :: bt_address_t where
  "demo_phone = [1, 2, 3, 4, 5, 6]"

definition demo_lost_link :: "(cm_env \<times> cm_input) list" where
  "demo_lost_link = map (Pair demo_cm_env) [Device_connect demo_phone, Link_lost demo_phone 8, Timer_expires Cm_timeout,
     Profile_connected demo_phone PROFILE_HFP_HF, Timer_expires Cm_timeout]"

lemma demo_lost_link_ok: "x \<in> set demo_lost_link \<Longrightarrow> cm_input_ok x"
  by (auto simp: demo_lost_link_def demo_phone_def demo_cm_env_def bt_addr_empty_def)

theorem cm_refines_reconnect_witness:
  "\<exists>m. foldl (cm_step demo_cm_config) (bt_cm_init (zero_cm 2 (zero_manager 2))) demo_lost_link = Some m \<and>
    reconnect_of (Some m) = (True, Trying demo_phone False True 2) \<and> bt_cm_is_busy m \<and> ct_timer (cm_timer m) \<noteq> None"
proof -
  have "foldl (reconnect_step demo_cm_config) (False, Idle) demo_lost_link = (True, Trying demo_phone False True 2)"
    by (simp add: demo_lost_link_def demo_cm_config_def)
  then show ?thesis using cm_refines_reconnect [OF demo_lost_link_ok, of demo_lost_link demo_cm_config 2 "zero_manager 2"] by auto
qed

text \<open>C15. The manager does not retry for ever: whatever has happened before, once the retry timer
  has expired 151 times in a row without a connection the manager is free again and the timer is gone.\<close>

theorem reconnect_gives_up:
  assumes "\<And>x. x \<in> set es \<Longrightarrow> cm_input_ok x" "\<And>e. e \<in> set envs \<Longrightarrow> timer_mem e" "length envs = 151"
  shows "\<exists>m. foldl (cm_step c) (bt_cm_init (zero_cm n pm)) (es @ map (\<lambda>e. (e, Timer_expires Cm_timeout)) envs) = Some m \<and>
    \<not> bt_cm_is_busy m \<and> ct_timer (cm_timer m) = None"
proof -
  let ?es = "es @ map (\<lambda>e. (e, Timer_expires Cm_timeout)) envs"
  have "cm_input_ok x" if "x \<in> set ?es" for x using that assms(1,2) by (cases "x \<in> set es") auto
  then obtain m where m: "foldl (cm_step c) (bt_cm_init (zero_cm n pm)) ?es = Some m" "cm_inv m"
    "reconnect_of (Some m) = foldl (reconnect_step c) (False, Idle) ?es"
    using cm_history [of ?es] by blast
  obtain en r where r: "foldl (reconnect_step c) (False, Idle) es = (en, r)" by fastforce
  have idle: "snd (foldl (reconnect_step c) (en, Idle) (map (\<lambda>e. (e, Timer_expires Cm_timeout)) ys)) = Idle" for ys
    by (induction ys) simp_all
  have "snd (reconnect_of (Some m)) = Idle"
    using m(3) assms(3) r reconnect_exhausted idle by (cases r) auto
  then show ?thesis using m(1,2) by (auto simp: cm_inv_def retry_ok_def bt_cm_is_busy_def reconnect_of_def split: if_splits)
qed

theorem reconnect_gives_up_witness:
  "\<exists>m. foldl (cm_step demo_cm_config) (bt_cm_init (zero_cm 2 (zero_manager 2)))
      (demo_lost_link @ map (\<lambda>e. (e, Timer_expires Cm_timeout)) (replicate 151 demo_cm_env)) = Some m \<and>
    \<not> bt_cm_is_busy m \<and> ct_timer (cm_timer m) = None"
  by (rule reconnect_gives_up [OF demo_lost_link_ok]) (simp_all add: demo_cm_env_def)

end
