(* ===== verification/A2dp_Machine.thy ===== *)
theory A2dp_Machine
  imports Hsm Conn_Manager
begin

text \<open>
  service/profiles/a2dp/a2dp_state_machine.c: the connection of one A2DP peer as a machine over
  \<open>Hsm\<close>, with the timers of \<open>Service_Loop\<close>; a2dp_event.c and the command builder of bt_vendor_bes.h.
  Calls of the stack, of the clients, of the audio path, of the power manager and of the connection
  manager are outputs; their answers are an environment. The flag \<open>a2_fault\<close> records that the code has
  touched a timer that is not allocated, read past the end of a command or used an event that could not be
  allocated. \<open>service\<close> is only handed back to the owner and is left out.
\<close>

unbundle bit_operations_syntax

section \<open>Data\<close>

datatype a2dp_event_type =
    A2DP_STARTUP | A2DP_SHUTDOWN | CONNECT_REQ | DISCONNECT_REQ | STREAM_START_REQ | DELAY_STREAM_START_REQ | STREAM_SUSPEND_REQ
  | PEER_STREAM_START_REQ | CONNECTED_EVT | DISCONNECTED_EVT | STREAM_STARTED_EVT | STREAM_SUSPENDED_EVT | STREAM_CLOSED_EVT
  | STREAM_MTU_CONFIG_EVT | PEER_PARTIAL_RECONN_EVT | CODEC_CONFIG_EVT | DEVICE_CODEC_STATE_CHANGE_EVT | DATA_IND_EVT
  | CONNECT_TIMEOUT | START_TIMEOUT | STREAM_SUSPEND_DELAY | OFFLOAD_START_REQ | OFFLOAD_STOP_REQ | OFFLOAD_START_EVT
  | OFFLOAD_STOP_EVT | OFFLOAD_TIMEOUT

text \<open>The attached data: the bytes of a command or the parameters of a command's result, whose code is \<open>ev_code\<close>.\<close>

record a2dp_event =
  ev_type :: a2dp_event_type
  ev_addr :: bt_address_t
  ev_data :: "u8 list"
  ev_code :: u8

datatype a2dp_st = idle_state | opening_state | opened_state | started_state | closing_state

datatype a2dp_sep = SEP_SRC | SEP_SNK

datatype profile_connection_state =
  PROFILE_STATE_DISCONNECTED | PROFILE_STATE_CONNECTING | PROFILE_STATE_CONNECTED | PROFILE_STATE_DISCONNECTING

datatype a2dp_timer = Connect_timer | Start_timer | Avrcp_timer | Delay_start_timer | Offload_timer

datatype a2dp_call =
    bt_sal_a2dp_source_connect bt_address_t | bt_sal_a2dp_sink_connect bt_address_t
  | bt_sal_a2dp_source_disconnect bt_address_t | bt_sal_a2dp_sink_disconnect bt_address_t
  | bt_sal_avrcp_control_connect bt_address_t | bt_sal_avrcp_control_disconnect bt_address_t
  | bt_sal_avrcp_target_play_status_paused bt_address_t
  | bt_sal_a2dp_source_start_stream bt_address_t | bt_sal_a2dp_source_suspend_stream bt_address_t
  | bt_sal_send_hci_command u8 u16 u8 "u8 list" bool

datatype a2dp_out =
    Call a2dp_call
  | Sink_connection_state profile_connection_state | Source_connection_state profile_connection_state
  | Sink_audio_state bool | Source_audio_state bool | Sink_config_changed | Source_config_changed
  | Media_available | Media_unavailable | Switch_role_master
  | Audio_connection_changed bool | Audio_started bool | Audio_stopped | Audio_setup_codec | Control_stopped
  | Pm_conn_open | Pm_conn_close | Pm_busy | Pm_idle | Cm_connected | Cm_disconnected
  | Post_event a2dp_event | Packet_received

record a2dp_state_machine = "a2dp_st state_machine" +
  a2_addr :: bt_address_t
  acl_handle_of :: u16
  pending :: u32
  audio_ready :: bool
  peer_sep :: a2dp_sep
  connect_timer :: "nat option"
  start_timer :: "nat option"
  avrcp_timer :: "nat option"
  delay_start_timer :: "nat option"
  offload_timer :: "nat option"
  a2_loop :: "(unit, a2dp_timer) service_loop"
  a2_outs :: "a2dp_out list"
  a2_fault :: bool

text \<open>\<open>cfg_tartget\<close> is the option as the source spells it.\<close>

record a2dp_config =
  cfg_sink :: bool
  cfg_source :: bool
  cfg_cm :: bool
  cfg_avrcp_target :: bool
  cfg_avrcp_control :: bool
  cfg_tartget :: bool
  cfg_partial_reconn :: bool
  cfg_vendor_bes :: bool

record a2dp_env =
  a2_sal :: "a2dp_call \<Rightarrow> bt_status_t"
  find_peer :: "u16 option"
  audio_control_connected :: bool
  a2_timer_mem :: bool
  a2_event_mem :: bool

abbreviation (input) PENDING_NONE :: u32 where "PENDING_NONE \<equiv> 0"
abbreviation (input) PENDING_START :: u32 where "PENDING_START \<equiv> 0x02"
abbreviation (input) PENDING_STOP :: u32 where "PENDING_STOP \<equiv> 0x04"
abbreviation (input) PENDING_OFFLOAD_START :: u32 where "PENDING_OFFLOAD_START \<equiv> 0x08"
abbreviation (input) PENDING_OFFLOAD_STOP :: u32 where "PENDING_OFFLOAD_STOP \<equiv> 0x10"

definition a2_emit :: "a2dp_out \<Rightarrow> a2dp_state_machine \<Rightarrow> a2dp_state_machine" where
  "a2_emit x s = s\<lparr>a2_outs := a2_outs s @ [x]\<rparr>"

text \<open>A timer is started with one call and cancelled with another; the pointers are set by the caller.\<close>

definition a2_start_timer :: "a2dp_env \<Rightarrow> a2dp_timer \<Rightarrow> a2dp_state_machine \<Rightarrow> nat option \<times> a2dp_state_machine" where
  "a2_start_timer e k s = (let (t, l) = service_loop_timer (a2_timer_mem e) False (User k) (a2_loop s) in (t, s\<lparr>a2_loop := l\<rparr>))"

definition a2_cancel_timer :: "nat option \<Rightarrow> a2dp_state_machine \<Rightarrow> a2dp_state_machine" where
  "a2_cancel_timer t s =
     (case service_loop_cancel_timer t (a2_loop s) of None \<Rightarrow> s\<lparr>a2_fault := True\<rparr> | Some l \<Rightarrow> s\<lparr>a2_loop := l\<rparr>)"

section \<open>Reports and commands\<close>

definition a2dp_report_connection_state :: "a2dp_config \<Rightarrow> profile_connection_state \<Rightarrow> a2dp_state_machine \<Rightarrow> a2dp_state_machine" where
  "a2dp_report_connection_state c state s =
     (if peer_sep s = SEP_SRC then if cfg_sink c then a2_emit (Sink_connection_state state) s else s
      else if cfg_source c
      then a2_emit (Source_connection_state state) (if state = PROFILE_STATE_DISCONNECTED then a2_emit Media_unavailable s else s)
      else s)"

definition a2dp_report_audio_state :: "a2dp_config \<Rightarrow> bool \<Rightarrow> a2dp_state_machine \<Rightarrow> a2dp_state_machine" where
  "a2dp_report_audio_state c started s =
     (if peer_sep s = SEP_SRC then if cfg_sink c then a2_emit (Sink_audio_state started) s else s
      else if cfg_source c then a2_emit (Source_audio_state started) s else s)"

definition a2dp_report_audio_config_state :: "a2dp_config \<Rightarrow> a2dp_state_machine \<Rightarrow> a2dp_state_machine" where
  "a2dp_report_audio_config_state c s =
     (if peer_sep s = SEP_SRC then if cfg_sink c then a2_emit Sink_config_changed s else s
      else if cfg_source c then a2_emit Source_config_changed (a2_emit Media_available s) else s)"

definition flag_isset :: "u32 \<Rightarrow> a2dp_state_machine \<Rightarrow> bool" where
  "flag_isset flag s \<longleftrightarrow> pending s AND flag \<noteq> 0"

definition flag_set :: "u32 \<Rightarrow> a2dp_state_machine \<Rightarrow> a2dp_state_machine" where
  "flag_set flag s = s\<lparr>pending := pending s OR flag\<rparr>"

definition flag_clear :: "u32 \<Rightarrow> a2dp_state_machine \<Rightarrow> a2dp_state_machine" where
  "flag_clear flag s = s\<lparr>pending := pending s AND NOT flag\<rparr>"

definition a2dp_event_new_ext :: "a2dp_env \<Rightarrow> a2dp_event_type \<Rightarrow> bt_address_t \<Rightarrow> u8 \<Rightarrow> u8 list \<Rightarrow> a2dp_event option" where
  "a2dp_event_new_ext e ev addr code data =
     (if a2_event_mem e then Some \<lparr>ev_type = ev, ev_addr = addr, ev_data = data, ev_code = code\<rparr> else None)"

definition a2dp_event_new :: "a2dp_env \<Rightarrow> a2dp_event_type \<Rightarrow> bt_address_t \<Rightarrow> a2dp_event option" where
  "a2dp_event_new e ev addr = a2dp_event_new_ext e ev addr 0 []"

text \<open>The result of the offload command; the event goes to the service, which dispatches it.\<close>

definition a2dp_hci_event_callback :: "a2dp_config \<Rightarrow> a2dp_env \<Rightarrow> u8 \<Rightarrow> u8 list \<Rightarrow> a2dp_state_machine \<Rightarrow> a2dp_state_machine" where
  "a2dp_hci_event_callback c e code params s =
     (let post = (\<lambda>ev s. case a2dp_event_new_ext e ev (a2_addr s) code params of
                    None \<Rightarrow> s | Some x \<Rightarrow> a2_emit (Post_event x) s)
      in if \<not> cfg_source c then s
         else if flag_isset PENDING_OFFLOAD_START s then post OFFLOAD_START_EVT (flag_clear PENDING_OFFLOAD_START s)
         else if flag_isset PENDING_OFFLOAD_STOP s then post OFFLOAD_STOP_EVT (flag_clear PENDING_OFFLOAD_STOP s)
         else s)"

text \<open>The bytes of a command: group, code, and the rest with its length as a \<open>uint8_t\<close>.\<close>

definition send_command :: "bool \<Rightarrow> u8 list \<Rightarrow> a2dp_state_machine \<Rightarrow> a2dp_state_machine" where
  "send_command cb bytes s =
     (case bytes of
        [] \<Rightarrow> s\<lparr>a2_fault := True\<rparr>
      | ogf # rest \<Rightarrow>
        (case STREAM_TO_UINT16 rest of
           None \<Rightarrow> s\<lparr>a2_fault := True\<rparr>
         | Some (ocf, payload) \<Rightarrow> a2_emit (Call (bt_sal_send_hci_command ogf ocf (of_nat (length bytes - 3)) payload cb)) s))"

definition a2dp_offload_send_stop_cmd :: "u8 list \<Rightarrow> a2dp_state_machine \<Rightarrow> a2dp_state_machine" where
  "a2dp_offload_send_stop_cmd data s = send_command True data (flag_set PENDING_OFFLOAD_STOP s)"

definition bes_bandwidth_config_builder :: "u16 \<Rightarrow> bool \<Rightarrow> u8 list" where
  "bes_bandwidth_config_builder hdl enable =
     [0x3F, 0xD7, 0x00, 0x04, 0x02, if enable then 0x01 else 0x00, ucast hdl, ucast (drop_bit 8 hdl)]"

definition acl_bandwidth_config_builder :: "a2dp_config \<Rightarrow> u16 \<Rightarrow> u8 list option" where
  "acl_bandwidth_config_builder c hdl = (if cfg_vendor_bes c then Some (bes_bandwidth_config_builder hdl True) else None)"

definition acl_bandwidth_deconfig_builder :: "a2dp_config \<Rightarrow> u16 \<Rightarrow> u8 list option" where
  "acl_bandwidth_deconfig_builder c hdl = (if cfg_vendor_bes c then Some (bes_bandwidth_config_builder hdl False) else None)"

definition a2dp_send_active_link_cmd :: "a2dp_config \<Rightarrow> bool \<Rightarrow> a2dp_state_machine \<Rightarrow> a2dp_state_machine" where
  "a2dp_send_active_link_cmd c is_start s =
     (case (if is_start then acl_bandwidth_config_builder c (acl_handle_of s) else acl_bandwidth_deconfig_builder c (acl_handle_of s)) of
        None \<Rightarrow> s
      | Some cmd \<Rightarrow> send_command False cmd s)"

section \<open>The states\<close>

definition a2dp_state_machine_get_state :: "a2dp_state_machine \<Rightarrow> a2dp_st" where
  "a2dp_state_machine_get_state s = (case current_state s of None \<Rightarrow> idle_state | Some st \<Rightarrow> st)"

definition a2dp_state_machine_get_connection_state :: "a2dp_state_machine \<Rightarrow> profile_connection_state" where
  "a2dp_state_machine_get_connection_state s =
     (case a2dp_state_machine_get_state s of
        idle_state \<Rightarrow> PROFILE_STATE_DISCONNECTED
      | opening_state \<Rightarrow> PROFILE_STATE_CONNECTING
      | opened_state \<Rightarrow> PROFILE_STATE_CONNECTED
      | started_state \<Rightarrow> PROFILE_STATE_CONNECTED
      | closing_state \<Rightarrow> PROFILE_STATE_DISCONNECTING)"

definition a2dp_state_machine_is_pending_stop :: "a2dp_state_machine \<Rightarrow> bool" where
  "a2dp_state_machine_is_pending_stop s = flag_isset PENDING_STOP s"

definition idle_enter :: "a2dp_config \<Rightarrow> a2dp_state_machine \<Rightarrow> a2dp_state_machine" where
  "idle_enter c s =
     (let s = s\<lparr>audio_ready := False, pending := PENDING_NONE\<rparr>
      in if previous_state s = None then s
         else let s = a2_emit Pm_conn_close s;
                  s = (if peer_sep s = SEP_SRC \<and> cfg_sink c \<and> cfg_cm c then a2_emit Cm_disconnected s else s);
                  s = a2dp_report_connection_state c PROFILE_STATE_DISCONNECTED s
              in if avrcp_timer s \<noteq> None then (a2_cancel_timer (avrcp_timer s) s)\<lparr>avrcp_timer := None\<rparr> else s)"

definition opening_enter :: "a2dp_config \<Rightarrow> a2dp_env \<Rightarrow> a2dp_state_machine \<Rightarrow> a2dp_state_machine" where
  "opening_enter c e s =
     (let (t, s) = a2_start_timer e Connect_timer s
      in a2dp_report_connection_state c PROFILE_STATE_CONNECTING (s\<lparr>connect_timer := t\<rparr>))"

definition opening_exit :: "a2dp_state_machine \<Rightarrow> a2dp_state_machine" where
  "opening_exit s = (a2_cancel_timer (connect_timer s) s)\<lparr>connect_timer := None\<rparr>"

definition opened_enter :: "a2dp_config \<Rightarrow> a2dp_env \<Rightarrow> a2dp_state_machine \<Rightarrow> a2dp_state_machine" where
  "opened_enter c e s =
     (case (if (if peer_sep s = SEP_SRC then cfg_sink c else cfg_source c) then find_peer e else None) of
        None \<Rightarrow> s
      | Some hdl \<Rightarrow>
        if previous_state s = Some idle_state \<or> previous_state s = Some opening_state
        then let s = s\<lparr>acl_handle_of := hdl\<rparr>;
                 s = (if peer_sep s = SEP_SNK then a2_emit Switch_role_master s else s);
                 s = (if cfg_avrcp_target c \<and> peer_sep s = SEP_SNK
                      then let (t, s) = a2_start_timer e Avrcp_timer s in s\<lparr>avrcp_timer := t\<rparr> else s);
                 s = (if cfg_avrcp_control c \<and> peer_sep s = SEP_SRC then a2_emit (Call (bt_sal_avrcp_control_connect (a2_addr s))) s else s);
                 s = a2_emit (Audio_connection_changed True) s;
                 s = (if audio_control_connected e then s else a2_emit Media_available s);
                 s = a2_emit Pm_conn_open s;
                 s = (if peer_sep s = SEP_SRC \<and> cfg_sink c \<and> cfg_cm c then a2_emit Cm_connected s else s)
             in a2dp_report_connection_state c PROFILE_STATE_CONNECTED s
        else if cfg_source c \<and> previous_state s = Some started_state
        then a2_emit (Call (bt_sal_avrcp_target_play_status_paused (a2_addr s))) s
        else s)"

definition started_enter :: "a2dp_config \<Rightarrow> a2dp_state_machine \<Rightarrow> a2dp_state_machine" where
  "started_enter c s =
     (let s = (if peer_sep s = SEP_SNK then a2_emit Switch_role_master s else s);
          s = a2dp_send_active_link_cmd c True (a2_emit Pm_busy s)
      in a2dp_report_audio_state c True s)"

definition started_exit :: "a2dp_config \<Rightarrow> a2dp_state_machine \<Rightarrow> a2dp_state_machine" where
  "started_exit c s = a2dp_send_active_link_cmd c False (a2_emit Pm_idle s)"

definition closing_enter :: "a2dp_config \<Rightarrow> a2dp_state_machine \<Rightarrow> a2dp_state_machine" where
  "closing_enter c s = a2dp_report_connection_state c PROFILE_STATE_DISCONNECTING (a2_emit (Audio_connection_changed False) s)"

fun a2dp_enter :: "a2dp_config \<Rightarrow> a2dp_env \<Rightarrow> a2dp_st \<Rightarrow> a2dp_state_machine \<Rightarrow> a2dp_state_machine" where
  "a2dp_enter c e idle_state s = idle_enter c s"
| "a2dp_enter c e opening_state s = opening_enter c e s"
| "a2dp_enter c e opened_state s = opened_enter c e s"
| "a2dp_enter c e started_state s = started_enter c s"
| "a2dp_enter c e closing_state s = closing_enter c s"

text \<open>Leaving the states other than opening and started only logs.\<close>

fun a2dp_exit :: "a2dp_config \<Rightarrow> a2dp_st \<Rightarrow> a2dp_state_machine \<Rightarrow> a2dp_state_machine" where
  "a2dp_exit c opening_state s = opening_exit s"
| "a2dp_exit c started_state s = started_exit c s"
| "a2dp_exit c _ s = s"

definition a2dp_goto :: "a2dp_config \<Rightarrow> a2dp_env \<Rightarrow> a2dp_st \<Rightarrow> a2dp_state_machine \<Rightarrow> a2dp_state_machine" where
  "a2dp_goto c e st s = hsm_transition_to (a2dp_enter c e) (a2dp_exit c) st s"

section \<open>Events\<close>

text \<open>A call of the stack by the role of the peer, and its status.\<close>

definition by_role :: "a2dp_call \<Rightarrow> a2dp_call \<Rightarrow> a2dp_env \<Rightarrow> a2dp_state_machine \<Rightarrow> bt_status_t \<times> a2dp_state_machine" where
  "by_role source sink e s = (let x = (if peer_sep s = SEP_SNK then source else sink) in (a2_sal e x, a2_emit (Call x) s))"

definition idle_process_event :: "a2dp_config \<Rightarrow> a2dp_env \<Rightarrow> a2dp_event \<Rightarrow> a2dp_state_machine \<Rightarrow> a2dp_state_machine" where
  "idle_process_event c e ev s =
     (case ev_type ev of
        CONNECT_REQ \<Rightarrow>
          (let (status, s) = by_role (bt_sal_a2dp_source_connect (ev_addr ev)) (bt_sal_a2dp_sink_connect (ev_addr ev)) e s
           in if status \<noteq> BT_STATUS_SUCCESS then a2dp_report_connection_state c PROFILE_STATE_DISCONNECTED s
              else a2dp_goto c e opening_state s)
      | CONNECTED_EVT \<Rightarrow> a2dp_goto c e opened_state s
      | PEER_PARTIAL_RECONN_EVT \<Rightarrow>
          (if cfg_partial_reconn c \<and> peer_sep s = SEP_SNK
           then let s' = a2_emit (Call (bt_sal_a2dp_source_connect (ev_addr ev))) s
                in if a2_sal e (bt_sal_a2dp_source_connect (ev_addr ev)) \<noteq> BT_STATUS_SUCCESS
                   then a2dp_report_connection_state c PROFILE_STATE_DISCONNECTED s' else s'
           else s)
      | OFFLOAD_STOP_REQ \<Rightarrow> a2dp_offload_send_stop_cmd (ev_data ev) s
      | OFFLOAD_STOP_EVT \<Rightarrow> a2_emit Control_stopped s
      | _ \<Rightarrow> s)"

definition opening_process_event :: "a2dp_config \<Rightarrow> a2dp_env \<Rightarrow> a2dp_event \<Rightarrow> a2dp_state_machine \<Rightarrow> a2dp_state_machine" where
  "opening_process_event c e ev s =
     (case ev_type ev of
        DISCONNECT_REQ \<Rightarrow>
          a2dp_goto c e idle_state (snd (by_role (bt_sal_a2dp_source_disconnect (ev_addr ev)) (bt_sal_a2dp_sink_disconnect (ev_addr ev)) e s))
      | CONNECTED_EVT \<Rightarrow> a2dp_goto c e opened_state s
      | DISCONNECTED_EVT \<Rightarrow> a2dp_goto c e idle_state s
      | CONNECT_TIMEOUT \<Rightarrow> a2dp_goto c e idle_state s
      | OFFLOAD_STOP_REQ \<Rightarrow> a2dp_offload_send_stop_cmd (ev_data ev) s
      | OFFLOAD_STOP_EVT \<Rightarrow> a2_emit Control_stopped s
      | _ \<Rightarrow> s)"

definition avrcp_start_timeout_callback :: "a2dp_state_machine \<Rightarrow> a2dp_state_machine" where
  "avrcp_start_timeout_callback s =
     (let s = s\<lparr>avrcp_timer := None\<rparr>
      in if a2dp_state_machine_get_connection_state s = PROFILE_STATE_CONNECTED
         then a2_emit (Call (bt_sal_avrcp_control_connect (a2_addr s))) s else s)"

text \<open>The calls of a disconnection request in the opened and the started state.\<close>

definition disconnect_calls :: "a2dp_config \<Rightarrow> a2dp_env \<Rightarrow> a2dp_state_machine \<Rightarrow> a2dp_state_machine" where
  "disconnect_calls c e s =
     (let s = snd (by_role (bt_sal_a2dp_source_disconnect (a2_addr s)) (bt_sal_a2dp_sink_disconnect (a2_addr s)) e s)
      in if cfg_avrcp_control c \<or> cfg_tartget c then a2_emit (Call (bt_sal_avrcp_control_disconnect (a2_addr s))) s else s)"

text \<open>The request to start the stream is pending, and its timer runs.\<close>

definition pend_start :: "a2dp_env \<Rightarrow> a2dp_state_machine \<Rightarrow> a2dp_state_machine" where
  "pend_start e s = (let (t, s) = a2_start_timer e Start_timer (flag_set PENDING_START s) in s\<lparr>start_timer := t\<rparr>)"

text \<open>The pending start is over, with the timers of the request and of a delayed request.\<close>

definition end_start :: "a2dp_state_machine \<Rightarrow> a2dp_state_machine" where
  "end_start s = (let s = flag_clear PENDING_START s in (a2_cancel_timer (start_timer s) s)\<lparr>start_timer := None\<rparr>)"

definition end_start_source :: "a2dp_state_machine \<Rightarrow> a2dp_state_machine" where
  "end_start_source s =
     (if peer_sep s = SEP_SNK
      then let s = end_start s in (a2_cancel_timer (delay_start_timer s) s)\<lparr>delay_start_timer := None\<rparr>
      else s)"

definition opened_start_req :: "a2dp_env \<Rightarrow> a2dp_state_machine \<Rightarrow> a2dp_state_machine" where
  "opened_start_req e s =
     (if flag_isset PENDING_STOP s \<or> flag_isset PENDING_START s \<or> \<not> audio_ready s then s
      else let s = a2_emit Pm_idle (a2_emit (Call (bt_sal_a2dp_source_start_stream (a2_addr s))) (a2_emit Pm_busy s))
           in if a2_sal e (bt_sal_a2dp_source_start_stream (a2_addr s)) \<noteq> BT_STATUS_SUCCESS then s else pend_start e s)"

definition opened_delay_start_req :: "a2dp_env \<Rightarrow> a2dp_state_machine \<Rightarrow> a2dp_state_machine" where
  "opened_delay_start_req e s =
     (let s = (a2_cancel_timer (delay_start_timer s) s)\<lparr>delay_start_timer := None\<rparr>
      in if flag_isset PENDING_START s then s
         else let s = a2_emit (Call (bt_sal_a2dp_source_start_stream (a2_addr s))) s
              in if a2_sal e (bt_sal_a2dp_source_start_stream (a2_addr s)) \<noteq> BT_STATUS_SUCCESS then s else pend_start e s)"

definition opened_suspended :: "a2dp_config \<Rightarrow> a2dp_env \<Rightarrow> a2dp_state_machine \<Rightarrow> a2dp_state_machine" where
  "opened_suspended c e s =
     (let s = (if flag_isset PENDING_STOP s \<and> delay_start_timer s \<noteq> None
               then let (t, s) = a2_start_timer e Delay_start_timer (a2_cancel_timer (delay_start_timer s) s) in s\<lparr>delay_start_timer := t\<rparr>
               else s)
      in a2_emit Audio_stopped (a2dp_report_audio_state c False (flag_clear PENDING_STOP s)))"

definition opened_offload_start_req :: "a2dp_env \<Rightarrow> u8 list \<Rightarrow> a2dp_state_machine \<Rightarrow> a2dp_state_machine" where
  "opened_offload_start_req e data s =
     (let (t, s) = a2_start_timer e Offload_timer (flag_set PENDING_OFFLOAD_START (end_start_source s))
      in send_command True data (s\<lparr>offload_timer := t\<rparr>))"

definition opened_offload_start_evt :: "a2dp_config \<Rightarrow> a2dp_env \<Rightarrow> a2dp_event \<Rightarrow> a2dp_state_machine \<Rightarrow> a2dp_state_machine" where
  "opened_offload_start_evt c e ev s =
     (let s = end_start_source s;
          s = (a2_cancel_timer (offload_timer s) s)\<lparr>offload_timer := None\<rparr>
      in case hci_get_result (ev_code ev) (ev_data ev) of
           None \<Rightarrow> s\<lparr>a2_fault := True\<rparr>
         | Some status \<Rightarrow> if status \<noteq> 0 then a2_emit (Audio_started False) s
                          else a2dp_goto c e started_state (a2_emit (Audio_started True) s))"

definition opened_process_event :: "a2dp_config \<Rightarrow> a2dp_env \<Rightarrow> a2dp_event \<Rightarrow> a2dp_state_machine \<Rightarrow> a2dp_state_machine" where
  "opened_process_event c e ev s =
     (case ev_type ev of
        DISCONNECT_REQ \<Rightarrow> a2dp_goto c e closing_state (a2_emit (Audio_connection_changed False) (disconnect_calls c e s))
      | STREAM_START_REQ \<Rightarrow> opened_start_req e s
      | DELAY_STREAM_START_REQ \<Rightarrow> opened_delay_start_req e s
      | DISCONNECTED_EVT \<Rightarrow>
          (let s = (if flag_isset PENDING_START s then a2_emit (Audio_started False) (end_start s) else s)
           in a2dp_goto c e idle_state (a2_emit (Audio_connection_changed False) s))
      | STREAM_STARTED_EVT \<Rightarrow>
          (let s = end_start_source s
           in if \<not> audio_ready s \<and> peer_sep s = SEP_SNK then s
              else a2dp_goto c e started_state (a2_emit (Audio_started True) s))
      | STREAM_SUSPENDED_EVT \<Rightarrow> opened_suspended c e s
      | STREAM_CLOSED_EVT \<Rightarrow> opened_suspended c e s
      | DEVICE_CODEC_STATE_CHANGE_EVT \<Rightarrow> a2_emit Audio_setup_codec (a2dp_report_audio_config_state c (s\<lparr>audio_ready := True\<rparr>))
      | START_TIMEOUT \<Rightarrow> a2_emit (Audio_started False) (end_start s)
      | OFFLOAD_START_REQ \<Rightarrow> opened_offload_start_req e (ev_data ev) s
      | OFFLOAD_START_EVT \<Rightarrow> opened_offload_start_evt c e ev s
      | OFFLOAD_TIMEOUT \<Rightarrow> a2_emit (Audio_started False) ((flag_clear PENDING_OFFLOAD_START s)\<lparr>offload_timer := None\<rparr>)
      | OFFLOAD_STOP_REQ \<Rightarrow> a2dp_offload_send_stop_cmd (ev_data ev) s
      | OFFLOAD_STOP_EVT \<Rightarrow> a2_emit Control_stopped s
      | _ \<Rightarrow> s)"

text \<open>The stream has ended while the state was started.\<close>

definition started_suspended :: "a2dp_config \<Rightarrow> a2dp_env \<Rightarrow> a2dp_state_machine \<Rightarrow> a2dp_state_machine" where
  "started_suspended c e s =
     a2dp_goto c e opened_state (a2dp_report_audio_state c False (a2_emit Audio_stopped (s\<lparr>pending := PENDING_NONE\<rparr>)))"

definition started_process_event :: "a2dp_config \<Rightarrow> a2dp_env \<Rightarrow> a2dp_event \<Rightarrow> a2dp_state_machine \<Rightarrow> a2dp_state_machine" where
  "started_process_event c e ev s =
     (case ev_type ev of
        DISCONNECT_REQ \<Rightarrow> a2dp_goto c e closing_state (disconnect_calls c e s)
      | STREAM_START_REQ \<Rightarrow>
          (if flag_isset PENDING_STOP s
           then let (t, s) = a2_start_timer e Delay_start_timer s in a2dp_goto c e opened_state (s\<lparr>delay_start_timer := t\<rparr>)
           else if peer_sep s = SEP_SNK then a2_emit (Audio_started True) s else s)
      | DATA_IND_EVT \<Rightarrow> (if cfg_sink c then a2_emit Packet_received s else s)
      | STREAM_SUSPEND_REQ \<Rightarrow>
          (if flag_isset PENDING_STOP s then s
           else let s = a2_emit (Call (bt_sal_a2dp_source_suspend_stream (a2_addr s))) (flag_set PENDING_STOP s)
                in if a2_sal e (bt_sal_a2dp_source_suspend_stream (a2_addr s)) \<noteq> BT_STATUS_SUCCESS then a2_emit Audio_stopped s else s)
      | DISCONNECTED_EVT \<Rightarrow> a2dp_goto c e idle_state (a2_emit (Audio_connection_changed False) s)
      | STREAM_SUSPENDED_EVT \<Rightarrow> started_suspended c e s
      | STREAM_CLOSED_EVT \<Rightarrow> started_suspended c e s
      | DEVICE_CODEC_STATE_CHANGE_EVT \<Rightarrow>
          (let s = a2dp_report_audio_config_state c (s\<lparr>audio_ready := True\<rparr>)
           in if peer_sep s = SEP_SNK then s else a2_emit Audio_setup_codec s)
      | OFFLOAD_STOP_REQ \<Rightarrow> a2dp_offload_send_stop_cmd (ev_data ev) s
      | OFFLOAD_STOP_EVT \<Rightarrow> a2_emit Control_stopped s
      | _ \<Rightarrow> s)"

definition closing_process_event :: "a2dp_config \<Rightarrow> a2dp_env \<Rightarrow> a2dp_event \<Rightarrow> a2dp_state_machine \<Rightarrow> a2dp_state_machine" where
  "closing_process_event c e ev s =
     (case ev_type ev of
        STREAM_CLOSED_EVT \<Rightarrow> a2_emit Audio_stopped (flag_clear PENDING_STOP s)
      | STREAM_SUSPENDED_EVT \<Rightarrow> a2_emit Audio_stopped (flag_clear PENDING_STOP s)
      | DISCONNECTED_EVT \<Rightarrow> a2dp_goto c e idle_state s
      | OFFLOAD_STOP_REQ \<Rightarrow> a2dp_offload_send_stop_cmd (ev_data ev) s
      | OFFLOAD_STOP_EVT \<Rightarrow> a2_emit Control_stopped s
      | _ \<Rightarrow> s)"

fun a2dp_process :: "a2dp_config \<Rightarrow> a2dp_env \<Rightarrow> a2dp_st \<Rightarrow> a2dp_event \<Rightarrow> a2dp_state_machine \<Rightarrow> bool \<times> a2dp_state_machine" where
  "a2dp_process c e idle_state ev s = (True, idle_process_event c e ev s)"
| "a2dp_process c e opening_state ev s = (True, opening_process_event c e ev s)"
| "a2dp_process c e opened_state ev s = (True, opened_process_event c e ev s)"
| "a2dp_process c e started_state ev s = (True, started_process_event c e ev s)"
| "a2dp_process c e closing_state ev s = (True, closing_process_event c e ev s)"

section \<open>The machine\<close>

definition a2dp_state_machine_handle_event :: "a2dp_config \<Rightarrow> a2dp_env \<Rightarrow> a2dp_event option \<Rightarrow> a2dp_state_machine \<Rightarrow> a2dp_state_machine" where
  "a2dp_state_machine_handle_event c e evo s =
     (case evo of None \<Rightarrow> s | Some ev \<Rightarrow> snd (hsm_dispatch_event (a2dp_process c e) ev s))"

definition a2dp_state_machine_new :: "a2dp_config \<Rightarrow> a2dp_env \<Rightarrow> a2dp_sep \<Rightarrow> bt_address_t \<Rightarrow> a2dp_state_machine" where
  "a2dp_state_machine_new c e sep addr =
     (hsm_ctor (a2dp_enter c e) (a2dp_exit c) idle_state
       \<lparr>initial_state = idle_state, previous_state = None, current_state = None, a2_addr = replicate 6 0, acl_handle_of = 0,
        pending = 0, audio_ready = False, peer_sep = sep, connect_timer = None, start_timer = None, avrcp_timer = None,
        delay_start_timer = None, offload_timer = None, a2_loop = service_loop_init, a2_outs = [], a2_fault = False\<rparr>)\<lparr>a2_addr := addr\<rparr>"

text \<open>What the destructor does before the memory is released; the loop with its timers goes on.\<close>

definition a2dp_state_machine_destory :: "a2dp_config \<Rightarrow> a2dp_state_machine \<Rightarrow> a2dp_state_machine" where
  "a2dp_state_machine_destory c s =
     (if a2dp_state_machine_get_state s \<noteq> idle_state
      then a2dp_report_connection_state c PROFILE_STATE_DISCONNECTED (a2_emit Pm_conn_close s) else s)"

text \<open>The callback of a timer makes an event and hands it to the machine; destroying an event that could not be
  allocated is a fault.\<close>

definition timeout_event :: "a2dp_config \<Rightarrow> a2dp_env \<Rightarrow> a2dp_event_type \<Rightarrow> a2dp_state_machine \<Rightarrow> a2dp_state_machine" where
  "timeout_event c e ev s =
     (let evo = a2dp_event_new e ev (a2_addr s); s = a2dp_state_machine_handle_event c e evo s
      in if evo = None then s\<lparr>a2_fault := True\<rparr> else s)"

definition a2dp_connect_timeout_callback :: "a2dp_config \<Rightarrow> a2dp_env \<Rightarrow> a2dp_state_machine \<Rightarrow> a2dp_state_machine" where
  "a2dp_connect_timeout_callback c e s = timeout_event c e CONNECT_TIMEOUT s"

definition a2dp_start_timeout_callback :: "a2dp_config \<Rightarrow> a2dp_env \<Rightarrow> a2dp_state_machine \<Rightarrow> a2dp_state_machine" where
  "a2dp_start_timeout_callback c e s = timeout_event c e START_TIMEOUT s"

definition a2dp_delay_start_timeout_callback :: "a2dp_config \<Rightarrow> a2dp_env \<Rightarrow> a2dp_state_machine \<Rightarrow> a2dp_state_machine" where
  "a2dp_delay_start_timeout_callback c e s = timeout_event c e DELAY_STREAM_START_REQ s"

definition a2dp_offload_config_timeout_callback :: "a2dp_config \<Rightarrow> a2dp_env \<Rightarrow> a2dp_state_machine \<Rightarrow> a2dp_state_machine" where
  "a2dp_offload_config_timeout_callback c e s = timeout_event c e OFFLOAD_TIMEOUT s"

datatype a2dp_input = Event a2dp_event | Hci_result u8 "u8 list" | Fires nat

text \<open>A handle that is not active does not fire.\<close>

fun a2dp_step :: "a2dp_config \<Rightarrow> a2dp_state_machine \<Rightarrow> a2dp_env \<times> a2dp_input \<Rightarrow> a2dp_state_machine" where
  "a2dp_step c s (e, Event ev) = a2dp_state_machine_handle_event c e (Some ev) s"
| "a2dp_step c s (e, Hci_result code params) = a2dp_hci_event_callback c e code params s"
| "a2dp_step c s (e, Fires h) =
     (case expire_timer h (a2_loop s) of
        Some (User k, l) \<Rightarrow>
          (let s = s\<lparr>a2_loop := l\<rparr>
           in case k of
                Connect_timer \<Rightarrow> a2dp_connect_timeout_callback c e s
              | Start_timer \<Rightarrow> a2dp_start_timeout_callback c e s
              | Avrcp_timer \<Rightarrow> avrcp_start_timeout_callback s
              | Delay_start_timer \<Rightarrow> a2dp_delay_start_timeout_callback c e s
              | Offload_timer \<Rightarrow> a2dp_offload_config_timeout_callback c e s)
      | _ \<Rightarrow> s)"

end
