(* ===== verification/A2dp_Reports.thy ===== *)
theory A2dp_Reports
  imports A2dp_Machine
begin

text \<open>
  The clients of an A2DP peer are told the truth: in every history the reported connection states follow
  the diagram of a connection and end with the state of the machine, the power manager is told busy
  exactly while a stream is started, and no timer is cancelled twice. The last sections show two timers that
  outlive what they were started for.
\<close>

unbundle bit_operations_syntax

section \<open>What the outside sees\<close>

fun conn_reports :: "a2dp_out list \<Rightarrow> profile_connection_state list" where
  "conn_reports [] = []"
| "conn_reports (Sink_connection_state x # xs) = x # conn_reports xs"
| "conn_reports (Source_connection_state x # xs) = x # conn_reports xs"
| "conn_reports (_ # xs) = conn_reports xs"

fun pm_state :: "bool \<Rightarrow> a2dp_out list \<Rightarrow> bool" where
  "pm_state b [] = b"
| "pm_state b (Pm_busy # xs) = pm_state True xs"
| "pm_state b (Pm_idle # xs) = pm_state False xs"
| "pm_state b (_ # xs) = pm_state b xs"

definition conn_edge :: "profile_connection_state \<Rightarrow> profile_connection_state \<Rightarrow> bool" where
  "conn_edge x y \<longleftrightarrow> (x, y) \<in>
     {(PROFILE_STATE_DISCONNECTED, PROFILE_STATE_DISCONNECTED), (PROFILE_STATE_DISCONNECTED, PROFILE_STATE_CONNECTING),
      (PROFILE_STATE_DISCONNECTED, PROFILE_STATE_CONNECTED), (PROFILE_STATE_CONNECTING, PROFILE_STATE_CONNECTED),
      (PROFILE_STATE_CONNECTING, PROFILE_STATE_DISCONNECTED), (PROFILE_STATE_CONNECTED, PROFILE_STATE_DISCONNECTED),
      (PROFILE_STATE_CONNECTED, PROFILE_STATE_DISCONNECTING), (PROFILE_STATE_DISCONNECTING, PROFILE_STATE_DISCONNECTED)}"

definition seen :: "a2dp_state_machine \<Rightarrow> profile_connection_state list" where
  "seen s = PROFILE_STATE_DISCONNECTED # conn_reports (a2_outs s)"

definition busy :: "a2dp_state_machine \<Rightarrow> bool" where
  "busy s = pm_state False (a2_outs s)"

fun silent :: "a2dp_out \<Rightarrow> bool" where
  "silent (Sink_connection_state _) = False"
| "silent (Source_connection_state _) = False"
| "silent Pm_busy = False"
| "silent Pm_idle = False"
| "silent _ = True"

lemma conn_reports_append [simp]: "conn_reports (xs @ ys) = conn_reports xs @ conn_reports ys"
  by (induction xs rule: conn_reports.induct) simp_all

lemma pm_state_append [simp]: "pm_state b (xs @ ys) = pm_state (pm_state b xs) ys"
  by (induction b xs rule: pm_state.induct) simp_all

lemma silent_reports: "silent x \<Longrightarrow> conn_reports [x] = []" "silent x \<Longrightarrow> pm_state b [x] = b"
  by (cases x; simp)+

section \<open>Timers\<close>

text \<open>The handles a machine keeps are allocated and different. A handle that has been overwritten is not
  kept any more, so there may be others.\<close>

definition holds :: "('m, 'u) service_loop \<Rightarrow> ('k \<Rightarrow> nat option) \<Rightarrow> bool" where
  "holds l f \<longleftrightarrow> timers_ok l \<and> (\<forall>k h. f k = Some h \<longrightarrow> h \<in> set (timers l)) \<and> (\<forall>k k' h. f k = Some h \<longrightarrow> f k' = Some h \<longrightarrow> k = k')"

lemma holds_forget: "holds l f \<Longrightarrow> holds l (f(k := None))"
  unfolding holds_def by (metis fun_upd_apply option.distinct(1))

lemma holds_cancel:
  assumes "holds l f"
  obtains l' where "service_loop_cancel_timer (f k) l = Some l'" "holds l' (f(k := None))"
proof (cases "f k")
  case None
  then show ?thesis using that [of l] assms by (simp add: service_loop_cancel_timer_def fun_upd_idem)
next
  case (Some h)
  let ?l = "l\<lparr>timers := filter (\<lambda>x. x \<noteq> h) (timers l), active_timers := filter (\<lambda>x. fst x \<noteq> h) (active_timers l)\<rparr>"
  have h: "h \<in> set (timers l)" and ok: "timers_ok ?l" using assms Some timers_ok_cancel [of l h] by (auto simp: holds_def)
  have "h' \<in> set (timers ?l)" if "(f(k := None)) k' = Some h'" for k' h'
  proof -
    have "k' \<noteq> k" "f k' = Some h'" using that by (auto split: if_splits)
    then have "h' \<noteq> h" "h' \<in> set (timers l)" using Some assms unfolding holds_def by blast+
    then show ?thesis by simp
  qed
  moreover have "k1 = k2" if "(f(k := None)) k1 = Some h'" "(f(k := None)) k2 = Some h'" for k1 k2 h'
    using that assms unfolding holds_def by (metis fun_upd_apply option.distinct(1))
  ultimately have "holds ?l (f(k := None))" using ok unfolding holds_def by blast
  then show ?thesis using that [of ?l] Some h by (simp add: service_loop_cancel_timer_def)
qed

lemma holds_start:
  assumes "holds l f"
  shows "holds (snd (service_loop_timer mem r u l)) (f(k := fst (service_loop_timer mem r u l)))"
proof (cases mem)
  case True
  let ?l = "l\<lparr>timers := timers l @ [next_timer l], active_timers := active_timers l @ [(next_timer l, r, u)], next_timer := Suc (next_timer l)\<rparr>"
  have ok: "timers_ok ?l" "timers_ok l" using timers_ok_start assms by (auto simp: holds_def)
  then have "f k' \<noteq> Some (next_timer l)" for k' using assms by (auto simp: holds_def timers_ok_def)
  then have "holds ?l (f(k \<mapsto> next_timer l))" using ok(1) assms unfolding holds_def by auto
  then show ?thesis using True by (simp add: service_loop_timer_def)
qed (use assms holds_forget in \<open>simp add: service_loop_timer_def\<close>)

lemma holds_expire: "holds l f \<Longrightarrow> expire_timer h l = Some (u, l') \<Longrightarrow> holds l' f"
proof -
  have "timers_ok (l\<lparr>active_timers := filter P (active_timers l)\<rparr>)" if "timers_ok l" for P
    using that unfolding timers_ok_def by (simp add: distinct_map_filter) blast
  then show "holds l f \<Longrightarrow> expire_timer h l = Some (u, l') \<Longrightarrow> holds l' f"
    by (auto simp: expire_timer_def holds_def split: option.splits if_splits)
qed

fun a2_place :: "a2dp_state_machine \<Rightarrow> a2dp_timer \<Rightarrow> nat option" where
  "a2_place s Connect_timer = connect_timer s"
| "a2_place s Start_timer = start_timer s"
| "a2_place s Avrcp_timer = avrcp_timer s"
| "a2_place s Delay_start_timer = delay_start_timer s"
| "a2_place s Offload_timer = offload_timer s"

fun set_a2 :: "a2dp_timer \<Rightarrow> nat option \<Rightarrow> a2dp_state_machine \<Rightarrow> a2dp_state_machine" where
  "set_a2 Connect_timer t s = s\<lparr>connect_timer := t\<rparr>"
| "set_a2 Start_timer t s = s\<lparr>start_timer := t\<rparr>"
| "set_a2 Avrcp_timer t s = s\<lparr>avrcp_timer := t\<rparr>"
| "set_a2 Delay_start_timer t s = s\<lparr>delay_start_timer := t\<rparr>"
| "set_a2 Offload_timer t s = s\<lparr>offload_timer := t\<rparr>"

lemma place_set_a2: "a2_place (set_a2 k t s) = (a2_place s)(k := t)"
proof
  show "a2_place (set_a2 k t s) x = ((a2_place s)(k := t)) x" for x by (cases k; cases x) simp_all
qed

lemma place_eq:
  "connect_timer s' = connect_timer s \<Longrightarrow> start_timer s' = start_timer s \<Longrightarrow> avrcp_timer s' = avrcp_timer s \<Longrightarrow>
    delay_start_timer s' = delay_start_timer s \<Longrightarrow> offload_timer s' = offload_timer s \<Longrightarrow> a2_place s' = a2_place s"
proof
  fix k
  assume "connect_timer s' = connect_timer s" "start_timer s' = start_timer s" "avrcp_timer s' = avrcp_timer s"
    "delay_start_timer s' = delay_start_timer s" "offload_timer s' = offload_timer s"
  then show "a2_place s' k = a2_place s k" by (cases k) simp_all
qed

definition good :: "a2dp_state_machine \<Rightarrow> bool" where
  "good s \<longleftrightarrow> \<not> a2_fault s \<and> holds (a2_loop s) (a2_place s)"

lemma set_a2_sel [simp]:
  "a2_loop (set_a2 k t s) = a2_loop s" "a2_fault (set_a2 k t s) = a2_fault s" "current_state (set_a2 k t s) = current_state s"
  "previous_state (set_a2 k t s) = previous_state s" "peer_sep (set_a2 k t s) = peer_sep s" "a2_outs (set_a2 k t s) = a2_outs s"
  "k \<noteq> Connect_timer \<Longrightarrow> connect_timer (set_a2 k t s) = connect_timer s"
  by (cases k; simp)+

lemma good_cancel:
  assumes "good s"
  shows "\<exists>l. a2_cancel_timer (a2_place s k) s = s\<lparr>a2_loop := l\<rparr> \<and> good (set_a2 k None (s\<lparr>a2_loop := l\<rparr>))"
proof -
  obtain l where l: "service_loop_cancel_timer (a2_place s k) (a2_loop s) = Some l" "holds l ((a2_place s)(k := None))"
    using assms holds_cancel [of "a2_loop s" "a2_place s" k] by (auto simp: good_def)
  have "a2_place (s\<lparr>a2_loop := l\<rparr>) = a2_place s" by (rule place_eq) simp_all
  then have "good (set_a2 k None (s\<lparr>a2_loop := l\<rparr>))" using assms l(2) by (simp add: good_def place_set_a2)
  then show ?thesis using l(1) by (auto simp: a2_cancel_timer_def)
qed

lemma good_start:
  assumes "good s"
  shows "\<exists>t l. a2_start_timer e k s = (t, s\<lparr>a2_loop := l\<rparr>) \<and> good (set_a2 k t (s\<lparr>a2_loop := l\<rparr>))"
proof -
  let ?r = "service_loop_timer (a2_timer_mem e) False (User k) (a2_loop s)"
  have "holds (snd ?r) ((a2_place s)(k := fst ?r))" using assms holds_start by (auto simp: good_def)
  moreover have "a2_place (s\<lparr>a2_loop := snd ?r\<rparr>) = a2_place s" by (rule place_eq) simp_all
  ultimately have "good (set_a2 k (fst ?r) (s\<lparr>a2_loop := snd ?r\<rparr>))" using assms by (simp add: good_def place_set_a2)
  then show ?thesis by (intro exI [of _ "fst ?r"] exI [of _ "snd ?r"]) (simp add: a2_start_timer_def split_beta)
qed

section \<open>Quiet steps\<close>

text \<open>A quiet step changes nothing the outside sees and keeps the timers in order.\<close>

definition quiet :: "a2dp_state_machine \<Rightarrow> a2dp_state_machine \<Rightarrow> bool" where
  "quiet s s' \<longleftrightarrow> current_state s' = current_state s \<and> previous_state s' = previous_state s \<and> peer_sep s' = peer_sep s \<and>
     connect_timer s' = connect_timer s \<and> seen s' = seen s \<and> busy s' = busy s \<and> (good s \<longrightarrow> good s')"

lemma quiet_refl [simp]: "quiet s s"
  by (simp add: quiet_def)

lemma quiet_trans: "quiet s1 s2 \<Longrightarrow> quiet s2 s3 \<Longrightarrow> quiet s1 s3"
  by (simp add: quiet_def)

lemma good_outs [simp]: "good (s\<lparr>a2_outs := os\<rparr>) = good s"
proof -
  have "a2_place (s\<lparr>a2_outs := os\<rparr>) = a2_place s" by (rule place_eq) simp_all
  then show ?thesis by (simp add: good_def)
qed

lemma quiet_emit: "quiet s s' \<Longrightarrow> silent x \<Longrightarrow> quiet s (a2_emit x s')"
  by (auto simp: quiet_def a2_emit_def seen_def busy_def silent_reports)

lemma quiet_fields:
  "quiet s (s\<lparr>pending := w\<rparr>)" "quiet s (s\<lparr>audio_ready := b\<rparr>)" "quiet s (s\<lparr>acl_handle_of := hdl\<rparr>)"
proof -
  have "a2_place (s\<lparr>pending := w\<rparr>) = a2_place s" "a2_place (s\<lparr>audio_ready := b\<rparr>) = a2_place s" "a2_place (s\<lparr>acl_handle_of := hdl\<rparr>) = a2_place s"
    by (rule place_eq; simp)+
  then show "quiet s (s\<lparr>pending := w\<rparr>)" "quiet s (s\<lparr>audio_ready := b\<rparr>)" "quiet s (s\<lparr>acl_handle_of := hdl\<rparr>)"
    by (simp_all add: quiet_def good_def seen_def busy_def)
qed

lemma quiet_flags: "quiet s s' \<Longrightarrow> quiet s (flag_set w s')" "quiet s s' \<Longrightarrow> quiet s (flag_clear w s')"
  using quiet_trans quiet_fields(1) by (auto simp: flag_set_def flag_clear_def)

lemma quiet_cancel:
  assumes "good s" "k \<noteq> Connect_timer"
  shows "quiet s (set_a2 k None (a2_cancel_timer (a2_place s k) s))"
proof -
  obtain l where "a2_cancel_timer (a2_place s k) s = s\<lparr>a2_loop := l\<rparr>" "good (set_a2 k None (s\<lparr>a2_loop := l\<rparr>))" using good_cancel [OF assms(1)] by blast
  then show ?thesis using assms(2) by (simp add: quiet_def seen_def busy_def)
qed

lemma quiet_start:
  assumes "good s" "k \<noteq> Connect_timer"
  shows "quiet s (set_a2 k (fst (a2_start_timer e k s)) (snd (a2_start_timer e k s)))"
proof -
  obtain t l where "a2_start_timer e k s = (t, s\<lparr>a2_loop := l\<rparr>)" "good (set_a2 k t (s\<lparr>a2_loop := l\<rparr>))" using good_start [OF assms(1)] by blast
  then show ?thesis using assms(2) by (simp add: quiet_def seen_def busy_def)
qed

lemma quiet_forget: "k \<noteq> Connect_timer \<Longrightarrow> quiet s (set_a2 k None s)"
  by (simp add: quiet_def seen_def busy_def good_def place_set_a2 holds_forget)

lemma quiet_good: "quiet s s' \<Longrightarrow> good s \<Longrightarrow> good s'"
  by (simp add: quiet_def)

lemma quiet_command: "quiet s s' \<Longrightarrow> 3 \<le> length bytes \<Longrightarrow> quiet s (send_command cb bytes s')"
proof -
  assume q: "quiet s s'" and len: "3 \<le> length bytes"
  obtain a b c rest where "bytes = a # b # c # rest" using len by (metis Suc_le_length_iff numeral_3_eq_3)
  then show ?thesis using quiet_emit [OF q] by (simp add: send_command_def)
qed

lemma quiet_active_link: "quiet s s' \<Longrightarrow> quiet s (a2dp_send_active_link_cmd c b s')"
  using quiet_command [of s s'] by (auto simp: a2dp_send_active_link_cmd_def acl_bandwidth_config_builder_def acl_bandwidth_deconfig_builder_def
    bes_bandwidth_config_builder_def split: option.split)

lemma quiet_audio_state: "quiet s s' \<Longrightarrow> quiet s (a2dp_report_audio_state c b s')"
  by (simp add: a2dp_report_audio_state_def quiet_emit)

lemma quiet_audio_config: "quiet s s' \<Longrightarrow> quiet s (a2dp_report_audio_config_state c s')"
  by (simp add: a2dp_report_audio_config_state_def quiet_emit)

lemma quiet_by_role: "quiet s s' \<Longrightarrow> quiet s (snd (by_role x y e s'))"
  by (simp add: by_role_def Let_def quiet_emit)

lemma quiet_stop_cmd: "3 \<le> length data \<Longrightarrow> quiet s (a2dp_offload_send_stop_cmd data s)"
  by (simp add: a2dp_offload_send_stop_cmd_def quiet_command quiet_flags)

lemma quiet_disconnect_calls: "quiet s (disconnect_calls c e s)"
  by (simp add: disconnect_calls_def Let_def quiet_emit quiet_by_role)

lemma quiet_end_start: "good s \<Longrightarrow> quiet s (end_start s)"
proof -
  assume g: "good s"
  have q: "quiet s (flag_clear PENDING_START s)" by (rule quiet_flags(2) [OF quiet_refl])
  then show ?thesis using quiet_trans [OF q quiet_cancel [of _ Start_timer]] g by (simp add: end_start_def Let_def quiet_good [OF q])
qed

lemma quiet_end_start_source: "good s \<Longrightarrow> quiet s (end_start_source s)"
proof -
  assume g: "good s"
  have q: "quiet s (end_start s)" by (rule quiet_end_start [OF g])
  then show ?thesis using quiet_trans [OF q quiet_cancel [of _ Delay_start_timer]] g by (simp add: end_start_source_def Let_def quiet_good [OF q])
qed

lemma quiet_pend_start: "good s \<Longrightarrow> quiet s (pend_start e s)"
proof -
  assume g: "good s"
  have q: "quiet s (flag_set PENDING_START s)" by (rule quiet_flags(1) [OF quiet_refl])
  then show ?thesis using quiet_trans [OF q quiet_start [of _ Start_timer e]] g by (simp add: pend_start_def split_beta quiet_good [OF q])
qed

section \<open>Invariant\<close>

fun conn_of :: "a2dp_st \<Rightarrow> profile_connection_state" where
  "conn_of idle_state = PROFILE_STATE_DISCONNECTED"
| "conn_of opening_state = PROFILE_STATE_CONNECTING"
| "conn_of opened_state = PROFILE_STATE_CONNECTED"
| "conn_of started_state = PROFILE_STATE_CONNECTED"
| "conn_of closing_state = PROFILE_STATE_DISCONNECTING"

lemma conn_of_current: "current_state s = Some st \<Longrightarrow> a2dp_state_machine_get_connection_state s = conn_of st"
  by (cases st) (simp_all add: a2dp_state_machine_get_connection_state_def a2dp_state_machine_get_state_def)

text \<open>The build has the service of the local role, so that reports reach somebody.\<close>

definition reporting :: "a2dp_config \<Rightarrow> a2dp_state_machine \<Rightarrow> bool" where
  "reporting c s \<longleftrightarrow> (if peer_sep s = SEP_SRC then cfg_sink c else cfg_source c)"

definition a2_inv :: "a2dp_config \<Rightarrow> a2dp_state_machine \<Rightarrow> bool" where
  "a2_inv c s \<longleftrightarrow> reporting c s \<and> good s \<and> successively conn_edge (seen s) \<and>
     (\<exists>st. current_state s = Some st \<and> last (seen s) = conn_of st \<and> (busy s \<longleftrightarrow> st = started_state) \<and>
       (connect_timer s \<noteq> None \<longrightarrow> st = opening_state))"

text \<open>Between leaving \<open>st\<close> and entering \<open>st'\<close>.\<close>

definition moving :: "a2dp_config \<Rightarrow> a2dp_st \<Rightarrow> a2dp_st \<Rightarrow> a2dp_state_machine \<Rightarrow> bool" where
  "moving c st st' s \<longleftrightarrow> reporting c s \<and> good s \<and> successively conn_edge (seen s) \<and> last (seen s) = conn_of st \<and>
     previous_state s = Some st \<and> current_state s = Some st' \<and> \<not> busy s \<and> (connect_timer s \<noteq> None \<longrightarrow> st' = opening_state)"

lemma quiet_inv: "a2_inv c s \<Longrightarrow> quiet s s' \<Longrightarrow> a2_inv c s'"
  by (auto simp: a2_inv_def quiet_def reporting_def)

lemma quiet_moving: "moving c st st' s \<Longrightarrow> quiet s s' \<Longrightarrow> moving c st st' s'"
  by (auto simp: moving_def quiet_def reporting_def)

lemma report_seen:
  assumes "reporting c s"
  shows "seen (a2dp_report_connection_state c x s) = seen s @ [x]" "busy (a2dp_report_connection_state c x s) = busy s"
    "good (a2dp_report_connection_state c x s) = good s" "current_state (a2dp_report_connection_state c x s) = current_state s"
    "previous_state (a2dp_report_connection_state c x s) = previous_state s" "peer_sep (a2dp_report_connection_state c x s) = peer_sep s"
    "connect_timer (a2dp_report_connection_state c x s) = connect_timer s" "avrcp_timer (a2dp_report_connection_state c x s) = avrcp_timer s"
  using assms by (simp_all add: a2dp_report_connection_state_def reporting_def seen_def busy_def a2_emit_def split: if_splits)

lemma seen_ne [simp]: "seen s \<noteq> []"
  by (simp add: seen_def)

lemma report_moving:
  assumes "moving c st st' s" "conn_edge (conn_of st) (conn_of st')" "st' \<noteq> started_state"
  shows "a2_inv c (a2dp_report_connection_state c (conn_of st') s)"
proof -
  have r: "reporting c s" using assms(1) by (simp add: moving_def)
  then have "reporting c (a2dp_report_connection_state c (conn_of st') s)" by (simp add: reporting_def report_seen)
  moreover have "successively conn_edge (seen s @ [conn_of st'])" using assms by (simp add: moving_def successively_append_iff)
  ultimately show ?thesis using assms r by (simp add: a2_inv_def moving_def report_seen)
qed

interpretation a2dp_states: state_table "a2dp_enter c e" "a2dp_exit c" for c e
proof
  fix st s
  have rep: "current_state (a2dp_report_connection_state c x s) = current_state s" "previous_state (a2dp_report_connection_state c x s) = previous_state s"
    "current_state (a2dp_report_audio_state c b s) = current_state s" "previous_state (a2dp_report_audio_state c b s) = previous_state s" for x b s
    by (simp_all add: a2dp_report_connection_state_def a2dp_report_audio_state_def a2_emit_def)
  have cmd: "current_state (a2dp_send_active_link_cmd c b s) = current_state s" "previous_state (a2dp_send_active_link_cmd c b s) = previous_state s" for b s
    by (simp_all add: a2dp_send_active_link_cmd_def send_command_def a2_emit_def split: option.split list.split prod.split)
  have canc: "current_state (a2_cancel_timer t s) = current_state s" "previous_state (a2_cancel_timer t s) = previous_state s" for t s
    by (simp_all add: a2_cancel_timer_def split: option.split)
  have em: "current_state (a2_emit x s) = current_state s" "previous_state (a2_emit x s) = previous_state s" for x s by (simp_all add: a2_emit_def)
  have start: "current_state (snd (a2_start_timer e k s)) = current_state s" "previous_state (snd (a2_start_timer e k s)) = previous_state s" for k s
    by (simp_all add: a2_start_timer_def split_beta)
  show "current_state (a2dp_enter c e st s) = current_state s" "previous_state (a2dp_enter c e st s) = previous_state s"
    by (cases st; simp add: idle_enter_def opening_enter_def opened_enter_def started_enter_def closing_enter_def Let_def split_beta rep cmd canc em start split: option.split)+
  show "current_state (a2dp_exit c st s) = current_state s"
    by (cases st) (simp_all add: opening_exit_def started_exit_def canc cmd em)
qed

lemma exit_moving:
  assumes "a2_inv c s" "current_state s = Some st"
  shows "moving c st st' ((a2dp_exit c st s)\<lparr>previous_state := current_state (a2dp_exit c st s), current_state := Some st'\<rparr>)"
proof -
  have base: "reporting c s" "good s" "successively conn_edge (seen s)" "last (seen s) = conn_of st" "busy s \<longleftrightarrow> st = started_state"
    "connect_timer s \<noteq> None \<longrightarrow> st = opening_state" using assms by (auto simp: a2_inv_def)
  let ?x = "a2dp_exit c st s"
  have x: "good ?x \<and> seen ?x = seen s \<and> \<not> busy ?x \<and> connect_timer ?x = None \<and> peer_sep ?x = peer_sep s"
  proof (cases st)
    case opening_state
    obtain l where l: "a2_cancel_timer (connect_timer s) s = s\<lparr>a2_loop := l\<rparr>" "good (s\<lparr>a2_loop := l, connect_timer := None\<rparr>)"
      using good_cancel [OF base(2), of Connect_timer] by auto
    then show ?thesis using opening_state base(5) by (simp add: opening_exit_def seen_def busy_def)
  next
    case started_state
    have "quiet (a2_emit Pm_idle s) ?x" using started_state by (simp add: started_exit_def quiet_active_link)
    moreover have "good (a2_emit Pm_idle s)" "seen (a2_emit Pm_idle s) = seen s" "\<not> busy (a2_emit Pm_idle s)" "connect_timer (a2_emit Pm_idle s) = connect_timer s"
      "peer_sep (a2_emit Pm_idle s) = peer_sep s" using base(2) by (simp_all add: a2_emit_def seen_def busy_def)
    ultimately show ?thesis using base(6) started_state by (auto simp: quiet_def)
  qed (use base in auto)
  have cur: "current_state ?x = Some st" using a2dp_states.exit_current assms(2) by simp
  let ?m = "?x\<lparr>previous_state := current_state ?x, current_state := Some st'\<rparr>"
  have "a2_place ?m = a2_place ?x" by (rule place_eq) simp_all
  then have "good ?m" using x by (simp add: good_def)
  moreover have "seen ?m = seen ?x" "busy ?m = busy ?x" by (simp_all add: seen_def busy_def)
  ultimately show ?thesis using x cur base by (simp add: moving_def reporting_def)
qed

lemma goto_eq:
  "current_state s = Some st \<Longrightarrow> a2dp_goto c e st' s =
    a2dp_enter c e st' ((a2dp_exit c st s)\<lparr>previous_state := current_state (a2dp_exit c st s), current_state := Some st'\<rparr>)"
  by (simp add: a2dp_goto_def hsm_transition_to_def Let_def)

section \<open>Entering a state\<close>

lemma enter_idle:
  assumes "moving c st idle_state s"
  shows "a2_inv c (idle_enter c s)"
proof -
  let ?s1 = "s\<lparr>audio_ready := False, pending := PENDING_NONE\<rparr>"
  let ?s2 = "if peer_sep s = SEP_SRC \<and> cfg_sink c \<and> cfg_cm c then a2_emit Cm_disconnected (a2_emit Pm_conn_close ?s1) else a2_emit Pm_conn_close ?s1"
  have "quiet s ?s1" using quiet_trans [OF quiet_fields(2) quiet_fields(1)] by simp
  then have "quiet s ?s2" by (simp add: quiet_emit)
  then have "moving c st idle_state ?s2" by (rule quiet_moving [OF assms])
  then have inv: "a2_inv c (a2dp_report_connection_state c PROFILE_STATE_DISCONNECTED ?s2)"
    using report_moving [of c st idle_state] by (cases st) (auto simp: conn_edge_def)
  let ?s3 = "a2dp_report_connection_state c PROFILE_STATE_DISCONNECTED ?s2"
  have "a2_inv c (set_a2 Avrcp_timer None (a2_cancel_timer (a2_place ?s3 Avrcp_timer) ?s3))"
    using inv by (intro quiet_inv [OF inv quiet_cancel]) (simp_all add: a2_inv_def)
  have prev: "previous_state s = Some st" using assms by (simp add: moving_def)
  have sep: "peer_sep (a2_emit Pm_conn_close ?s1) = peer_sep s" by (simp add: a2_emit_def)
  have "idle_enter c s = (if avrcp_timer ?s3 \<noteq> None then set_a2 Avrcp_timer None (a2_cancel_timer (a2_place ?s3 Avrcp_timer) ?s3) else ?s3)"
    using prev sep by (simp add: idle_enter_def Let_def)
  then show ?thesis using inv \<open>a2_inv c (set_a2 _ _ _)\<close> by presburger
qed

lemma enter_opening:
  assumes "moving c idle_state opening_state s"
  shows "a2_inv c (opening_enter c e s)"
proof -
  obtain t l where t: "a2_start_timer e Connect_timer s = (t, s\<lparr>a2_loop := l\<rparr>)" "good (s\<lparr>a2_loop := l, connect_timer := t\<rparr>)"
    using good_start [of s e Connect_timer] assms by (auto simp: moving_def)
  then have "moving c idle_state opening_state (s\<lparr>a2_loop := l, connect_timer := t\<rparr>)" using assms by (simp add: moving_def reporting_def seen_def busy_def)
  then show ?thesis using report_moving [of c idle_state opening_state] t(1) by (simp add: opening_enter_def conn_edge_def)
qed

lemma enter_opened:
  assumes "moving c st opened_state s" "st \<in> {idle_state, opening_state, started_state}" "find_peer e = Some hdl"
  shows "a2_inv c (opened_enter c e s)"
proof (cases "st = started_state")
  case True
  have "a2_inv c s" using assms(1) True by (auto simp: a2_inv_def moving_def)
  moreover have "opened_enter c e s = (if cfg_source c then a2_emit (Call (bt_sal_avrcp_target_play_status_paused (a2_addr s))) s else s)"
    using assms(1,3) True by (simp add: opened_enter_def moving_def reporting_def)
  ultimately show ?thesis using quiet_inv [OF _ quiet_emit [OF quiet_refl]] by simp
next
  case False
  let ?s1 = "s\<lparr>acl_handle_of := hdl\<rparr>"
  let ?s2 = "if peer_sep s = SEP_SNK then a2_emit Switch_role_master ?s1 else ?s1"
  let ?s3 = "if cfg_avrcp_target c \<and> peer_sep s = SEP_SNK
    then set_a2 Avrcp_timer (fst (a2_start_timer e Avrcp_timer ?s2)) (snd (a2_start_timer e Avrcp_timer ?s2)) else ?s2"
  let ?s4 = "if cfg_avrcp_control c \<and> peer_sep s = SEP_SRC then a2_emit (Call (bt_sal_avrcp_control_connect (a2_addr ?s3))) ?s3 else ?s3"
  let ?s5 = "a2_emit (Audio_connection_changed True) ?s4"
  let ?s6 = "a2_emit Pm_conn_open (if audio_control_connected e then ?s5 else a2_emit Media_available ?s5)"
  let ?s7 = "if peer_sep s = SEP_SRC \<and> cfg_sink c \<and> cfg_cm c then a2_emit Cm_connected ?s6 else ?s6"
  have q2: "quiet s ?s2" by (simp add: quiet_fields quiet_emit)
  have "good s" using assms(1) by (simp add: moving_def)
  then have "quiet s ?s3" using quiet_trans [OF q2 quiet_start [OF quiet_good [OF q2], of Avrcp_timer e]] q2 by (cases "peer_sep s") simp_all
  then have "quiet s ?s4" by (simp only: quiet_emit silent.simps split: if_split) simp
  then have "quiet s ?s7" by (simp only: quiet_emit silent.simps split: if_split) simp
  then have "moving c st opened_state ?s7" by (rule quiet_moving [OF assms(1)])
  then have inv: "a2_inv c (a2dp_report_connection_state c PROFILE_STATE_CONNECTED ?s7)"
    using report_moving [of c st opened_state ?s7] assms(2) False by (auto simp: conn_edge_def)
  have sep: "peer_sep (a2_emit x s) = peer_sep s" "peer_sep (snd (a2_start_timer e k s)) = peer_sep s" for x k s
    by (simp_all add: a2_emit_def a2_start_timer_def split_beta)
  have "opened_enter c e s = a2dp_report_connection_state c PROFILE_STATE_CONNECTED ?s7"
    using assms False by (cases "peer_sep s") (auto simp: opened_enter_def moving_def reporting_def Let_def split_beta sep)
  then show ?thesis using inv by simp
qed

lemma enter_started:
  assumes "moving c opened_state started_state s"
  shows "a2_inv c (started_enter c s)"
proof -
  let ?s1 = "if peer_sep s = SEP_SNK then a2_emit Switch_role_master s else s"
  have "quiet s ?s1" by (simp add: quiet_emit)
  then have m: "moving c opened_state started_state ?s1" by (rule quiet_moving [OF assms])
  then have "a2_inv c (a2_emit Pm_busy ?s1)"
    by (auto simp: moving_def a2_inv_def a2_emit_def seen_def busy_def reporting_def)
  then have "a2_inv c (a2dp_report_audio_state c True (a2dp_send_active_link_cmd c True (a2_emit Pm_busy ?s1)))"
    by (rule quiet_inv) (simp add: quiet_audio_state quiet_active_link)
  then show ?thesis by (simp add: started_enter_def Let_def)
qed

lemma enter_closing:
  assumes "moving c st closing_state s" "st \<in> {opened_state, started_state}"
  shows "a2_inv c (closing_enter c s)"
proof -
  have "moving c st closing_state (a2_emit (Audio_connection_changed False) s)" by (rule quiet_moving [OF assms(1)]) (simp add: quiet_emit)
  then show ?thesis using report_moving [of c st closing_state] assms(2) by (auto simp: closing_enter_def conn_edge_def)
qed

definition move_ok :: "a2dp_st \<Rightarrow> a2dp_st \<Rightarrow> bool" where
  "move_ok st st' \<longleftrightarrow>
     (case st' of idle_state \<Rightarrow> True | opening_state \<Rightarrow> st = idle_state | opened_state \<Rightarrow> st \<in> {idle_state, opening_state, started_state}
      | started_state \<Rightarrow> st = opened_state | closing_state \<Rightarrow> st \<in> {opened_state, started_state})"

lemma goto_inv:
  assumes "a2_inv c s" "current_state s = Some st" "move_ok st st'" "find_peer e \<noteq> None"
  shows "a2_inv c (a2dp_goto c e st' s)"
proof -
  have m: "moving c st st' ((a2dp_exit c st s)\<lparr>previous_state := current_state (a2dp_exit c st s), current_state := Some st'\<rparr>)"
    by (rule exit_moving [OF assms(1,2)])
  show ?thesis
    using m assms(3,4) enter_idle [of c st] enter_opening enter_opened [of c st] enter_started enter_closing [of c st]
    by (cases st') (auto simp: goto_eq [OF assms(2)] move_ok_def)
qed

lemma goto_quiet_inv:
  assumes "a2_inv c s" "current_state s = Some st" "quiet s s'" "move_ok st st'" "find_peer e \<noteq> None"
  shows "a2_inv c (a2dp_goto c e st' s')"
  using goto_inv [OF quiet_inv [OF assms(1,3)], of st st' e] assms(2-5) by (simp add: quiet_def)

section \<open>Events\<close>

text \<open>Commands hold a group, a code and a length, and results a status, as the builders and the controller make them.\<close>

definition a2_event_ok :: "a2dp_event \<Rightarrow> bool" where
  "a2_event_ok ev \<longleftrightarrow>
     (case ev_type ev of
        OFFLOAD_START_REQ \<Rightarrow> 3 \<le> length (ev_data ev)
      | OFFLOAD_STOP_REQ \<Rightarrow> 3 \<le> length (ev_data ev)
      | OFFLOAD_START_EVT \<Rightarrow> hci_get_result (ev_code ev) (ev_data ev) \<noteq> None
      | _ \<Rightarrow> True)"

lemma inv_good: "a2_inv c s \<Longrightarrow> good s"
  by (simp add: a2_inv_def)

lemma report_again:
  assumes "a2_inv c s" "current_state s = Some idle_state"
  shows "a2_inv c (a2dp_report_connection_state c PROFILE_STATE_DISCONNECTED s)"
proof -
  have r: "reporting c s" using assms(1) by (simp add: a2_inv_def)
  moreover have "reporting c (a2dp_report_connection_state c PROFILE_STATE_DISCONNECTED s)" using r by (simp add: reporting_def report_seen)
  moreover have "successively conn_edge (seen s @ [PROFILE_STATE_DISCONNECTED])"
    using assms by (auto simp: a2_inv_def successively_append_iff conn_edge_def)
  ultimately show ?thesis using assms by (auto simp: a2_inv_def report_seen)
qed

lemma idle_event_inv:
  assumes "a2_inv c s" "current_state s = Some idle_state" "a2_event_ok ev" "find_peer e \<noteq> None"
  shows "a2_inv c (idle_process_event c e ev s)"
proof -
  let ?r = "by_role (bt_sal_a2dp_source_connect (ev_addr ev)) (bt_sal_a2dp_sink_connect (ev_addr ev)) e s"
  have q: "quiet s (snd ?r)" by (simp add: quiet_by_role)
  have q2: "quiet s (a2_emit (Call (bt_sal_a2dp_source_connect (ev_addr ev))) s)" by (simp add: quiet_emit)
  have cur: "current_state (snd ?r) = Some idle_state" "current_state (a2_emit (Call (bt_sal_a2dp_source_connect (ev_addr ev))) s) = Some idle_state"
    using q q2 assms(2) by (simp_all add: quiet_def)
  have "a2_inv c (a2dp_report_connection_state c PROFILE_STATE_DISCONNECTED (snd ?r))" by (rule report_again [OF quiet_inv [OF assms(1) q] cur(1)])
  moreover have "a2_inv c (a2dp_goto c e opening_state (snd ?r))" "a2_inv c (a2dp_goto c e opened_state s)"
    using goto_quiet_inv [OF assms(1,2) q] goto_inv [OF assms(1,2)] assms(4) by (simp_all add: move_ok_def)
  moreover have "a2_inv c (a2_emit (Call (bt_sal_a2dp_source_connect (ev_addr ev))) s)" by (rule quiet_inv [OF assms(1) q2])
  moreover from this have "a2_inv c (a2dp_report_connection_state c PROFILE_STATE_DISCONNECTED (a2_emit (Call (bt_sal_a2dp_source_connect (ev_addr ev))) s))"
    using cur(2) by (rule report_again)
  moreover have "a2_inv c (a2_emit Control_stopped s)" by (rule quiet_inv [OF assms(1)]) (simp add: quiet_emit)
  moreover have "a2_inv c (a2dp_offload_send_stop_cmd (ev_data ev) s)" if "ev_type ev = OFFLOAD_STOP_REQ"
    using assms(3) that by (intro quiet_inv [OF assms(1)] quiet_stop_cmd) (simp add: a2_event_ok_def)
  ultimately show ?thesis using assms(1) by (cases "ev_type ev") (simp_all add: idle_process_event_def split_beta Let_def)
qed

lemma opening_event_inv:
  assumes "a2_inv c s" "current_state s = Some opening_state" "a2_event_ok ev" "find_peer e \<noteq> None"
  shows "a2_inv c (opening_process_event c e ev s)"
proof -
  let ?r = "snd (by_role (bt_sal_a2dp_source_disconnect (ev_addr ev)) (bt_sal_a2dp_sink_disconnect (ev_addr ev)) e s)"
  have "a2_inv c (a2dp_goto c e idle_state ?r)" "a2_inv c (a2dp_goto c e idle_state s)" "a2_inv c (a2dp_goto c e opened_state s)"
    using goto_quiet_inv [OF assms(1,2) quiet_by_role [OF quiet_refl]] goto_inv [OF assms(1,2)] assms(4) by (simp_all add: move_ok_def)
  moreover have "a2_inv c (a2_emit Control_stopped s)" by (rule quiet_inv [OF assms(1)]) (simp add: quiet_emit)
  moreover have "a2_inv c (a2dp_offload_send_stop_cmd (ev_data ev) s)" if "ev_type ev = OFFLOAD_STOP_REQ"
    using assms(3) that by (intro quiet_inv [OF assms(1)] quiet_stop_cmd) (simp add: a2_event_ok_def)
  ultimately show ?thesis using assms(1) by (cases "ev_type ev") (simp_all add: opening_process_event_def)
qed

lemma quiet_opened_start_req:
  assumes "good s" "\<not> busy s"
  shows "quiet s (opened_start_req e s)"
proof -
  let ?s = "a2_emit Pm_idle (a2_emit (Call (bt_sal_a2dp_source_start_stream (a2_addr s))) (a2_emit Pm_busy s))"
  have q: "quiet s ?s" using assms(2) by (simp add: quiet_def a2_emit_def seen_def busy_def)
  then show ?thesis using quiet_trans [OF q quiet_pend_start [OF quiet_good [OF q assms(1)]]] by (simp add: opened_start_req_def Let_def)
qed

lemma quiet_opened_delay_start_req:
  assumes "good s"
  shows "quiet s (opened_delay_start_req e s)"
proof -
  let ?s = "set_a2 Delay_start_timer None (a2_cancel_timer (a2_place s Delay_start_timer) s)"
  have q: "quiet s ?s" by (rule quiet_cancel [OF assms]) simp
  then have q2: "quiet s (a2_emit (Call (bt_sal_a2dp_source_start_stream (a2_addr ?s))) ?s)" by (simp only: quiet_emit silent.simps)
  have "quiet s (pend_start e (a2_emit (Call (bt_sal_a2dp_source_start_stream (a2_addr ?s))) ?s))"
    by (rule quiet_trans [OF q2 quiet_pend_start [OF quiet_good [OF q2 assms]]])
  then show ?thesis using q q2 by (simp add: opened_delay_start_req_def Let_def)
qed

lemma quiet_opened_suspended:
  assumes "good s"
  shows "quiet s (opened_suspended c e s)"
proof -
  obtain l where l: "a2_cancel_timer (delay_start_timer s) s = s\<lparr>a2_loop := l\<rparr>" "good (s\<lparr>a2_loop := l, delay_start_timer := None\<rparr>)"
    using good_cancel [OF assms, of Delay_start_timer] by auto
  let ?d = "s\<lparr>a2_loop := l, delay_start_timer := None\<rparr>"
  obtain t l' where t: "a2_start_timer e Delay_start_timer ?d = (t, ?d\<lparr>a2_loop := l'\<rparr>)" "good (?d\<lparr>a2_loop := l', delay_start_timer := t\<rparr>)"
    using good_start [OF l(2), of e Delay_start_timer] by auto
  have "a2_start_timer e Delay_start_timer (s\<lparr>a2_loop := l\<rparr>) = (t, s\<lparr>a2_loop := l'\<rparr>)"
    using arg_cong [OF t(1), of "\<lambda>x. a2_loop (snd x)"] arg_cong [OF t(1), of fst] by (simp add: a2_start_timer_def split_beta)
  moreover have "quiet s (s\<lparr>a2_loop := l', delay_start_timer := t\<rparr>)" using t(2) by (simp add: quiet_def seen_def busy_def)
  ultimately have "quiet s (if flag_isset PENDING_STOP s \<and> delay_start_timer s \<noteq> None
      then let (t, s) = a2_start_timer e Delay_start_timer (a2_cancel_timer (delay_start_timer s) s) in s\<lparr>delay_start_timer := t\<rparr> else s)"
    using l(1) by simp
  then show ?thesis unfolding opened_suspended_def Let_def [of "if _ then _ else _"] by (intro quiet_emit quiet_audio_state quiet_flags(2)) simp_all
qed

lemma quiet_opened_offload_start_req:
  assumes "good s" "3 \<le> length data"
  shows "quiet s (opened_offload_start_req e data s)"
proof -
  let ?s = "flag_set PENDING_OFFLOAD_START (end_start_source s)"
  have q: "quiet s ?s" by (intro quiet_flags(1) quiet_end_start_source assms(1))
  have "quiet s (set_a2 Offload_timer (fst (a2_start_timer e Offload_timer ?s)) (snd (a2_start_timer e Offload_timer ?s)))"
    by (rule quiet_trans [OF q quiet_start [OF quiet_good [OF q assms(1)]]]) simp
  then show ?thesis using quiet_command [OF _ assms(2)] by (simp add: opened_offload_start_req_def split_beta)
qed

lemma opened_event_inv:
  assumes "a2_inv c s" "current_state s = Some opened_state" "a2_event_ok ev" "find_peer e \<noteq> None"
  shows "a2_inv c (opened_process_event c e ev s)"
proof -
  have g: "good s" "\<not> busy s" using assms(1,2) by (auto simp: a2_inv_def)
  note goto = goto_quiet_inv [OF assms(1,2) _ _ assms(4)]
  have moves: "move_ok opened_state closing_state" "move_ok opened_state idle_state" "move_ok opened_state started_state" by (simp_all add: move_ok_def)
  have q: "quiet s (a2_emit (Audio_started False) (end_start s))" by (simp add: quiet_emit quiet_end_start g)
  have e: "quiet s (end_start_source s)" by (rule quiet_end_start_source [OF g(1)])
  let ?o = "set_a2 Offload_timer None (a2_cancel_timer (a2_place (end_start_source s) Offload_timer) (end_start_source s))"
  have o: "quiet s ?o" by (rule quiet_trans [OF e quiet_cancel [OF quiet_good [OF e g(1)]]]) simp
  show ?thesis
  proof (cases "ev_type ev")
    case OFFLOAD_START_EVT
    then obtain st where st: "hci_get_result (ev_code ev) (ev_data ev) = Some st" using assms(3) by (auto simp: a2_event_ok_def)
    have "a2_inv c (a2_emit (Audio_started False) ?o)" by (rule quiet_inv [OF assms(1) quiet_emit [OF o]]) simp
    moreover have "a2_inv c (a2dp_goto c e started_state (a2_emit (Audio_started True) ?o))" by (rule goto [OF quiet_emit [OF o] moves(3)]) simp
    ultimately show ?thesis using OFFLOAD_START_EVT st by (simp add: opened_process_event_def opened_offload_start_evt_def Let_def)
  next
    case STREAM_STARTED_EVT
    have "a2_inv c (a2dp_goto c e started_state (a2_emit (Audio_started True) (end_start_source s)))" by (rule goto [OF quiet_emit [OF e] moves(3)]) simp
    then show ?thesis using STREAM_STARTED_EVT quiet_inv [OF assms(1) e] by (simp add: opened_process_event_def Let_def)
  next
    case DISCONNECTED_EVT
    have "a2_inv c (a2dp_goto c e idle_state (a2_emit (Audio_connection_changed False) s'))" if "quiet s s'" for s'
      by (rule goto [OF quiet_emit [OF that] moves(2)]) simp
    then show ?thesis using DISCONNECTED_EVT q by (simp add: opened_process_event_def Let_def)
  next
    case DISCONNECT_REQ
    have "a2_inv c (a2dp_goto c e closing_state (a2_emit (Audio_connection_changed False) (disconnect_calls c e s)))"
      by (rule goto [OF quiet_emit [OF quiet_disconnect_calls] moves(1)]) simp
    then show ?thesis using DISCONNECT_REQ by (simp add: opened_process_event_def)
  next
    case OFFLOAD_TIMEOUT
    have "quiet s (set_a2 Offload_timer None (flag_clear PENDING_OFFLOAD_START s))"
      by (rule quiet_trans [OF quiet_flags(2) [OF quiet_refl] quiet_forget]) simp
    then have "a2_inv c (a2_emit (Audio_started False) (set_a2 Offload_timer None (flag_clear PENDING_OFFLOAD_START s)))"
      by (intro quiet_inv [OF assms(1)] quiet_emit) simp_all
    then show ?thesis using OFFLOAD_TIMEOUT by (simp add: opened_process_event_def)
  next
    case DEVICE_CODEC_STATE_CHANGE_EVT
    have "quiet s (a2_emit Audio_setup_codec (a2dp_report_audio_config_state c (s\<lparr>audio_ready := True\<rparr>)))"
      by (intro quiet_emit quiet_audio_config quiet_fields(2)) simp
    then show ?thesis using DEVICE_CODEC_STATE_CHANGE_EVT quiet_inv [OF assms(1)] by (simp add: opened_process_event_def)
  next
    case OFFLOAD_START_REQ
    then show ?thesis using quiet_inv [OF assms(1) quiet_opened_offload_start_req [OF g(1)]] assms(3) by (simp add: opened_process_event_def a2_event_ok_def)
  next
    case OFFLOAD_STOP_REQ
    then show ?thesis using quiet_inv [OF assms(1) quiet_stop_cmd] assms(3) by (simp add: opened_process_event_def a2_event_ok_def)
  qed (use assms(1) quiet_inv [OF assms(1)] q quiet_opened_start_req [OF g] quiet_opened_delay_start_req [OF g(1)] quiet_opened_suspended [OF g(1)]
      quiet_emit [OF quiet_refl, of Control_stopped] in \<open>simp_all add: opened_process_event_def\<close>)
qed

lemma started_event_inv:
  assumes "a2_inv c s" "current_state s = Some started_state" "a2_event_ok ev" "find_peer e \<noteq> None"
  shows "a2_inv c (started_process_event c e ev s)"
proof -
  have g: "good s" using assms(1) by (rule inv_good)
  note goto = goto_quiet_inv [OF assms(1,2) _ _ assms(4)]
  have moves: "move_ok started_state closing_state" "move_ok started_state idle_state" "move_ok started_state opened_state" by (simp_all add: move_ok_def)
  have "quiet s (a2dp_report_audio_state c False (a2_emit Audio_stopped (s\<lparr>pending := PENDING_NONE\<rparr>)))"
    by (intro quiet_audio_state quiet_emit quiet_fields(1)) simp
  from goto [OF this moves(3)] have susp: "a2_inv c (started_suspended c e s)" by (simp add: started_suspended_def)
  show ?thesis
  proof (cases "ev_type ev")
    case DISCONNECT_REQ
    then show ?thesis using goto [OF quiet_disconnect_calls moves(1)] by (simp add: started_process_event_def)
  next
    case DISCONNECTED_EVT
    then show ?thesis using goto [OF quiet_emit [OF quiet_refl, of "Audio_connection_changed False"] moves(2)] by (simp add: started_process_event_def)
  next
    case STREAM_START_REQ
    have "quiet s (set_a2 Delay_start_timer (fst (a2_start_timer e Delay_start_timer s)) (snd (a2_start_timer e Delay_start_timer s)))"
      by (rule quiet_start [OF g]) simp
    from goto [OF this moves(3)] show ?thesis using STREAM_START_REQ assms(1) quiet_inv [OF assms(1) quiet_emit [OF quiet_refl, of "Audio_started True"]]
      by (simp add: started_process_event_def split_beta)
  next
    case STREAM_SUSPEND_REQ
    let ?s = "a2_emit (Call (bt_sal_a2dp_source_suspend_stream (a2_addr s))) (flag_set PENDING_STOP s)"
    have "quiet s ?s" "quiet s (a2_emit Audio_stopped ?s)" by (simp_all add: quiet_emit quiet_flags)
    then have "a2_inv c ?s" "a2_inv c (a2_emit Audio_stopped ?s)" using quiet_inv [OF assms(1)] by blast+
    moreover have "a2_addr (flag_set PENDING_STOP s) = a2_addr s" "a2_addr ?s = a2_addr s" by (simp_all add: flag_set_def a2_emit_def)
    ultimately show ?thesis using STREAM_SUSPEND_REQ assms(1) by (simp add: started_process_event_def Let_def)
  next
    case DEVICE_CODEC_STATE_CHANGE_EVT
    let ?s = "a2dp_report_audio_config_state c (s\<lparr>audio_ready := True\<rparr>)"
    have "quiet s ?s" by (intro quiet_audio_config quiet_fields(2))
    then have "a2_inv c ?s" "a2_inv c (a2_emit Audio_setup_codec ?s)" using quiet_inv [OF assms(1)] quiet_emit by simp_all
    then show ?thesis using DEVICE_CODEC_STATE_CHANGE_EVT by (simp add: started_process_event_def Let_def)
  next
    case OFFLOAD_STOP_REQ
    then show ?thesis using quiet_inv [OF assms(1) quiet_stop_cmd] assms(3) by (simp add: started_process_event_def a2_event_ok_def)
  qed (use assms(1) susp quiet_inv [OF assms(1)] quiet_emit [OF quiet_refl, of Control_stopped] quiet_emit [OF quiet_refl, of Packet_received]
      in \<open>simp_all add: started_process_event_def\<close>)
qed

lemma closing_event_inv:
  assumes "a2_inv c s" "current_state s = Some closing_state" "a2_event_ok ev" "find_peer e \<noteq> None"
  shows "a2_inv c (closing_process_event c e ev s)"
proof -
  have "quiet s (a2_emit Audio_stopped (flag_clear PENDING_STOP s))" "quiet s (a2_emit Control_stopped s)" by (simp_all add: quiet_emit quiet_flags)
  then have "a2_inv c (a2_emit Audio_stopped (flag_clear PENDING_STOP s))" "a2_inv c (a2_emit Control_stopped s)" using quiet_inv [OF assms(1)] by blast+
  moreover have "a2_inv c (a2dp_goto c e idle_state s)" using goto_inv [OF assms(1,2)] assms(4) by (simp add: move_ok_def)
  moreover have "a2_inv c (a2dp_offload_send_stop_cmd (ev_data ev) s)" if "ev_type ev = OFFLOAD_STOP_REQ"
    using assms(3) that by (intro quiet_inv [OF assms(1)] quiet_stop_cmd) (simp add: a2_event_ok_def)
  ultimately show ?thesis using assms(1) by (cases "ev_type ev") (simp_all add: closing_process_event_def)
qed

lemma handle_event_inv:
  assumes "a2_inv c s" "a2_event_ok ev" "find_peer e \<noteq> None"
  shows "a2_inv c (a2dp_state_machine_handle_event c e (Some ev) s)"
proof -
  obtain st where st: "current_state s = Some st" using assms(1) by (auto simp: a2_inv_def)
  then show ?thesis using assms idle_event_inv opening_event_inv opened_event_inv started_event_inv closing_event_inv
    by (cases st) (simp_all add: a2dp_state_machine_handle_event_def hsm_dispatch_event_def)
qed

section \<open>Histories\<close>

fun a2_input_ok :: "a2dp_env \<times> a2dp_input \<Rightarrow> bool" where
  "a2_input_ok (e, Event ev) \<longleftrightarrow> find_peer e \<noteq> None \<and> a2_event_ok ev"
| "a2_input_ok (e, Hci_result _ _) \<longleftrightarrow> True"
| "a2_input_ok (e, Fires _) \<longleftrightarrow> find_peer e \<noteq> None \<and> a2_event_mem e"

lemma timeout_event_inv:
  assumes "a2_inv c s" "find_peer e \<noteq> None" "a2_event_mem e" "ev \<in> {CONNECT_TIMEOUT, START_TIMEOUT, DELAY_STREAM_START_REQ, OFFLOAD_TIMEOUT}"
  shows "a2_inv c (timeout_event c e ev s)"
proof -
  let ?ev = "\<lparr>ev_type = ev, ev_addr = a2_addr s, ev_data = [], ev_code = 0\<rparr>"
  have "a2_event_ok ?ev" using assms(4) by (auto simp: a2_event_ok_def)
  then have "a2_inv c (a2dp_state_machine_handle_event c e (Some ?ev) s)" using handle_event_inv [OF assms(1)] assms(2) by blast
  then show ?thesis using assms(3) by (simp add: timeout_event_def a2dp_event_new_def a2dp_event_new_ext_def)
qed

lemma avrcp_timeout_inv:
  assumes "a2_inv c s"
  shows "a2_inv c (avrcp_start_timeout_callback s)"
proof -
  have q: "quiet s (set_a2 Avrcp_timer None s)" by (rule quiet_forget) simp
  then have "quiet s (a2_emit (Call (bt_sal_avrcp_control_connect (a2_addr (set_a2 Avrcp_timer None s)))) (set_a2 Avrcp_timer None s))"
    by (simp only: quiet_emit silent.simps)
  then show ?thesis using quiet_inv [OF assms] q by (simp add: avrcp_start_timeout_callback_def Let_def)
qed

lemma hci_callback_inv:
  assumes "a2_inv c s"
  shows "a2_inv c (a2dp_hci_event_callback c e code params s)"
proof -
  have "quiet s (case x of None \<Rightarrow> flag_clear w s | Some ev \<Rightarrow> a2_emit (Post_event ev) (flag_clear w s))" for w and x :: "a2dp_event option"
    using quiet_flags(2) [OF quiet_refl] quiet_emit by (cases x) simp_all
  then show ?thesis using quiet_inv [OF assms] assms by (simp add: a2dp_hci_event_callback_def Let_def)
qed

lemma a2dp_step_inv:
  assumes "a2_inv c s" "a2_input_ok i"
  shows "a2_inv c (a2dp_step c s i)"
proof (cases i)
  case (Pair e x)
  show ?thesis
  proof (cases x)
    case (Event ev)
    then show ?thesis using Pair assms handle_event_inv by auto
  next
    case (Hci_result code params)
    then show ?thesis using Pair assms hci_callback_inv by simp
  next
    case (Fires h)
    have inv: "a2_inv c (s\<lparr>a2_loop := l\<rparr>)" if "expire_timer h (a2_loop s) = Some (u, l)" for u l
    proof -
      have "a2_place (s\<lparr>a2_loop := l\<rparr>) = a2_place s" by (rule place_eq) simp_all
      then have "quiet s (s\<lparr>a2_loop := l\<rparr>)" using holds_expire [OF _ that] by (auto simp: quiet_def good_def seen_def busy_def)
      then show ?thesis using quiet_inv [OF assms(1)] by blast
    qed
    show ?thesis
      using Pair Fires assms inv timeout_event_inv avrcp_timeout_inv
      by (auto simp: a2dp_connect_timeout_callback_def a2dp_start_timeout_callback_def a2dp_delay_start_timeout_callback_def
        a2dp_offload_config_timeout_callback_def Let_def split: option.split timer_data.split a2dp_timer.split)
  qed
qed

interpretation a2_ev: event_machine "a2dp_step c" "a2_inv c" a2_input_ok for c
  by unfold_locales (rule a2dp_step_inv)

lemma a2dp_new_inv:
  assumes "if sep = SEP_SRC then cfg_sink c else cfg_source c"
  shows "a2_inv c (a2dp_state_machine_new c e sep addr)"
proof -
  let ?s = "a2dp_state_machine_new c e sep addr"
  have s: "?s = \<lparr>initial_state = idle_state, previous_state = None, current_state = Some idle_state, a2_addr = addr, acl_handle_of = 0,
        pending = 0, audio_ready = False, peer_sep = sep, connect_timer = None, start_timer = None, avrcp_timer = None,
        delay_start_timer = None, offload_timer = None, a2_loop = service_loop_init, a2_outs = [], a2_fault = False\<rparr>"
    by (simp add: a2dp_state_machine_new_def hsm_ctor_def hsm_transition_to_def idle_enter_def)
  have "a2_place ?s k = None" for k by (cases k) (simp_all add: s)
  then have "good ?s" by (simp add: good_def holds_def timers_ok_def s service_loop_init_def)
  then show ?thesis using assms by (simp add: a2_inv_def reporting_def seen_def busy_def s)
qed

text \<open>C7. The clients of an A2DP peer are told the truth: whatever events, results and expiries arrive, no timer
  is cancelled after it has been released; the reported connection states follow the diagram
  and end with the state of the machine; the power manager is told busy exactly while the stream is started; and a
  connection timer is kept only while the connection is being opened.\<close>

theorem a2dp_reports_state:
  assumes "if sep = SEP_SRC then cfg_sink c else cfg_source c" "\<And>x. x \<in> set es \<Longrightarrow> a2_input_ok x"
  shows "let s = foldl (a2dp_step c) (a2dp_state_machine_new c e sep addr) es
    in \<not> a2_fault s \<and> successively conn_edge (seen s) \<and> last (seen s) = a2dp_state_machine_get_connection_state s \<and>
      (busy s \<longleftrightarrow> a2dp_state_machine_get_state s = started_state) \<and>
      (connect_timer s = None \<or> a2dp_state_machine_get_state s = opening_state)"
proof -
  have "a2_inv c (foldl (a2dp_step c) (a2dp_state_machine_new c e sep addr) es)"
    by (rule a2_ev.inv_run [OF a2dp_new_inv [OF assms(1)] assms(2)])
  then show ?thesis by (auto simp: a2_inv_def good_def conn_of_current a2dp_state_machine_get_state_def Let_def)
qed

text \<open>A sink that starts and suspends a stream, is asked to start again, and disconnects and connects before it does.\<close>

definition demo_a2dp_config :: a2dp_config where
  "demo_a2dp_config = \<lparr>cfg_sink = False, cfg_source = True, cfg_cm = False, cfg_avrcp_target = False, cfg_avrcp_control = False,
     cfg_tartget = False, cfg_partial_reconn = False, cfg_vendor_bes = True\<rparr>"

definition demo_a2dp_env :: a2dp_env where
  "demo_a2dp_env = \<lparr>a2_sal = \<lambda>_. BT_STATUS_SUCCESS, find_peer = Some 1, audio_control_connected = True, a2_timer_mem = True, a2_event_mem = True\<rparr>"

definition demo_a2dp_inputs :: "(a2dp_env \<times> a2dp_input) list" where
  "demo_a2dp_inputs = map (\<lambda>t. (demo_a2dp_env, Event \<lparr>ev_type = t, ev_addr = [1, 2, 3, 4, 5, 6], ev_data = [], ev_code = 0\<rparr>))
     [CONNECTED_EVT, DEVICE_CODEC_STATE_CHANGE_EVT, STREAM_START_REQ, STREAM_STARTED_EVT, STREAM_SUSPEND_REQ, STREAM_START_REQ,
      DISCONNECTED_EVT, CONNECTED_EVT]"

lemma demo_a2dp_inputs_ok: "x \<in> set demo_a2dp_inputs \<Longrightarrow> a2_input_ok x"
  by (auto simp: demo_a2dp_inputs_def demo_a2dp_env_def a2_event_ok_def)

theorem a2dp_reports_state_witness:
  "let s = foldl (a2dp_step demo_a2dp_config) (a2dp_state_machine_new demo_a2dp_config demo_a2dp_env SEP_SNK [1, 2, 3, 4, 5, 6]) demo_a2dp_inputs
   in \<not> a2_fault s \<and> successively conn_edge (seen s) \<and> last (seen s) = a2dp_state_machine_get_connection_state s \<and>
     (busy s \<longleftrightarrow> a2dp_state_machine_get_state s = started_state) \<and>
     (connect_timer s = None \<or> a2dp_state_machine_get_state s = opening_state)"
  by (rule a2dp_reports_state [OF _ demo_a2dp_inputs_ok]) (simp_all add: demo_a2dp_config_def)


end
