(* ===== verification/Index_Allocator.thy ===== *)
theory Index_Allocator
  imports Prelude
begin

text \<open>
  service/common/index_allocator.c: the bitmap allocator of small indices. The bitmap is the
  trailing array \<open>id_map\<close> of 32-bit words; an access outside it is the result \<open>None\<close>, and so
  is the failed \<open>assert\<close> of \<open>index_free\<close>. The lemmas relate the bitmap to the set of indices
  in use and show that the search loop ends.
\<close>

unbundle bit_operations_syntax

record index_allocator_t =
  id_max :: u32
  id_next :: u8
  id_map :: "u32 list"

text \<open>\<open>mx\<close> is a non-negative \<open>int\<close>; the number of words is computed in a \<open>uint8_t\<close>.\<close>

definition index_allocator_create :: "nat \<Rightarrow> index_allocator_t" where
  "index_allocator_create mx =
     \<lparr>id_max = of_nat mx, id_next = 0, id_map = replicate (unat (of_nat (mx div 32 + 1) :: u8)) 0\<rparr>"

definition index_of :: "u8 \<Rightarrow> nat" where
  "index_of minor = unat (drop_bit 5 minor)"

definition bitno_of :: "u8 \<Rightarrow> nat" where
  "bitno_of minor = unat (minor AND 31)"

partial_function (option) index_alloc_loop :: "index_allocator_t \<Rightarrow> u8 \<Rightarrow> (int \<times> index_allocator_t) option" where
  "index_alloc_loop a start =
     (let minor = id_next a;
          a' = a\<lparr>id_next := if id_max a \<le> ucast minor then 0 else minor + 1\<rparr>
      in if length (id_map a) \<le> index_of minor then None
         else if id_map a ! index_of minor AND push_bit (bitno_of minor) 1 = 0
         then Some (int (unat minor),
                a'\<lparr>id_map := (id_map a)[index_of minor :=
                      id_map a ! index_of minor OR push_bit (bitno_of minor) 1]\<rparr>)
         else if id_next a' \<noteq> start then index_alloc_loop a' start
         else Some (- 1, a'))"

definition index_alloc :: "index_allocator_t \<Rightarrow> (int \<times> index_allocator_t) option" where
  "index_alloc a = index_alloc_loop a (id_next a)"

definition index_free :: "index_allocator_t \<Rightarrow> u16 \<Rightarrow> index_allocator_t option" where
  "index_free a i =
     (let index = unat (drop_bit 5 i); bitno = unat (i AND 31)
      in if length (id_map a) \<le> index then None
         else if id_map a ! index AND push_bit bitno 1 = 0 then None
         else let a' = a\<lparr>id_map := (id_map a)[index := id_map a ! index AND NOT (push_bit bitno 1)]\<rparr>
              in Some (if i < ucast (id_next a') then a'\<lparr>id_next := ucast i\<rparr> else a'))"

section \<open>The set of indices in use\<close>

definition used :: "index_allocator_t \<Rightarrow> nat \<Rightarrow> bool" where
  "used a i \<longleftrightarrow> i div 32 < length (id_map a) \<and> bit (id_map a ! (i div 32)) (i mod 32)"

abbreviation capacity :: "index_allocator_t \<Rightarrow> nat" where
  "capacity a \<equiv> Suc (unat (id_max a))"

definition alloc_inv :: "index_allocator_t \<Rightarrow> bool" where
  "alloc_inv a \<longleftrightarrow> unat (id_max a) < 256 \<and> length (id_map a) = unat (id_max a) div 32 + 1 \<and>
     unat (id_next a) < capacity a \<and> (\<forall>i. used a i \<longrightarrow> i < capacity a)"

lemma unat_ucast_8:
  "unat (ucast (w :: u8) :: u32) = unat w" "unat (ucast w :: u16) = unat w"
  using unat_u8 [of w]
  by (simp_all add: unsigned_ucast_eq take_bit_nat_eq_self_iff)

lemma and_push_bit_1: "(w :: u32) AND push_bit n 1 = 0 \<longleftrightarrow> \<not> bit w n"
  by (simp add: push_bit_of_1 and_exp_eq_0_iff_not_bit)

lemma index_of_eq: "index_of w = unat w div 32"
  by (simp add: index_of_def drop_bit_eq_div unat_div_distrib)

lemma bitno_of_eq: "bitno_of w = unat w mod 32"
proof -
  have "w AND 31 = take_bit 5 w" by (simp add: take_bit_eq_mask mask_eq_exp_minus_1)
  then show ?thesis by (simp add: bitno_of_def take_bit_eq_mod unat_mod_distrib)
qed

lemma index_of_eq16: "unat (drop_bit 5 (w :: u16)) = unat w div 32"
  by (simp add: drop_bit_eq_div unat_div_distrib)

lemma bitno_of_eq16: "unat ((w :: u16) AND 31) = unat w mod 32"
proof -
  have "w AND 31 = take_bit 5 w" by (simp add: take_bit_eq_mask mask_eq_exp_minus_1)
  then show ?thesis by (simp add: take_bit_eq_mod unat_mod_distrib)
qed

lemma div_mod_32_inj: "i div 32 = j div 32 \<Longrightarrow> i mod 32 = j mod 32 \<Longrightarrow> i = (j :: nat)"
  by (metis div_mult_mod_eq)

lemma used_set:
  assumes "j div 32 < length (id_map a)"
  shows "used (a\<lparr>id_map := (id_map a)[j div 32 := id_map a ! (j div 32) OR push_bit (j mod 32) 1]\<rparr>) i
     \<longleftrightarrow> used a i \<or> i = j"
  using assms div_mod_32_inj [of i j]
  by (auto simp: used_def nth_list_update bit_or_iff bit_exp_iff possible_bit_def push_bit_of_1)

lemma used_clear:
  assumes "j div 32 < length (id_map a)"
  shows "used (a\<lparr>id_map := (id_map a)[j div 32 := id_map a ! (j div 32) AND NOT (push_bit (j mod 32) 1)]\<rparr>) i
     \<longleftrightarrow> used a i \<and> i \<noteq> j"
  using assms div_mod_32_inj [of i j]
  by (auto simp: used_def nth_list_update bit_and_iff bit_not_iff bit_exp_iff possible_bit_def push_bit_of_1)

lemma used_next [simp]: "used (a\<lparr>id_next := n\<rparr>) = used a"
  by (simp add: used_def fun_eq_iff)

lemma alloc_inv_create:
  assumes "mx < 256"
  shows "alloc_inv (index_allocator_create mx)" "\<not> used (index_allocator_create mx) i"
    "capacity (index_allocator_create mx) = Suc mx" "id_next (index_allocator_create mx) = 0"
proof -
  have "unat (of_nat (mx div 32 + 1) :: u8) = mx div 32 + 1"
    using assms by (simp add: unat_of_nat del: of_nat_Suc of_nat_add Suc_eq_plus1 add_Suc_right)
  then show "alloc_inv (index_allocator_create mx)" "\<not> used (index_allocator_create mx) i"
    "capacity (index_allocator_create mx) = Suc mx" "id_next (index_allocator_create mx) = 0"
    using assms
    by (auto simp: alloc_inv_def index_allocator_create_def used_def unat_of_nat simp del: replicate_Suc)
qed

section \<open>The search loop\<close>

text \<open>The successor of the cursor: it runs cyclically through \<open>0 .. id_max\<close>.\<close>

lemma cursor_next:
  assumes "alloc_inv a"
  shows "unat (if id_max a \<le> ucast (id_next a) then 0 else id_next a + 1) = (unat (id_next a) + 1) mod capacity a"
proof -
  have c: "(id_max a \<le> ucast (id_next a)) = (unat (id_max a) \<le> unat (id_next a))"
    by (simp add: word_le_nat_alt unat_ucast_8)
  have "unat (id_next a + 1) = Suc (unat (id_next a))" if "unat (id_next a) < unat (id_max a)"
    using that assms by (intro unat_inc [of _ "255"]) (auto simp: alloc_inv_def word_less_nat_alt)
  with c assms show ?thesis by (auto simp: alloc_inv_def not_le mod_Suc)
qed

lemma mod_shift_neq:
  assumes "0 < k" "k < (n :: nat)"
  shows "(m + Suc k) mod n \<noteq> (m + 1) mod n"
proof
  assume "(m + Suc k) mod n = (m + 1) mod n"
  then have "n dvd k" by (metis add.commute add_Suc_right add_diff_cancel_left' le_add1 mod_eq_dvd_iff_nat plus_1_eq_Suc)
  with assms show False by (auto dest: dvd_imp_le)
qed

lemma cyclic_all:
  assumes "m < (n :: nat)"
  shows "(\<forall>j < n. P ((m + j) mod n)) \<longleftrightarrow> (\<forall>i < n. P i)"
proof (intro iffI allI impI)
  fix i assume all: "\<forall>j < n. P ((m + j) mod n)" and i: "i < n"
  have "(m + (i + (n - m)) mod n) mod n = (i + n) mod n"
    using assms by (simp add: mod_simps)
  also have "\<dots> = i" using i by simp
  finally show "P i" using all [rule_format, of "(i + (n - m)) mod n"] i by simp
qed simp

text \<open>With \<open>k\<close> candidates left, the loop gives the first free index in cyclic order, or \<open>-1\<close>.\<close>

lemma index_alloc_loop_spec:
  assumes "alloc_inv a" "0 < k" "k \<le> capacity a"
    and "unat start = (unat (id_next a) + k) mod capacity a"
  shows "\<exists>r a'. index_alloc_loop a start = Some (r, a') \<and> alloc_inv a' \<and> id_max a' = id_max a \<and>
     ((r = - 1 \<and> used a' = used a \<and> (\<forall>j < k. used a ((unat (id_next a) + j) mod capacity a))) \<or>
      (\<exists>j < k. r = int ((unat (id_next a) + j) mod capacity a) \<and>
         \<not> used a ((unat (id_next a) + j) mod capacity a) \<and>
         (\<forall>h < j. used a ((unat (id_next a) + h) mod capacity a)) \<and>
         used a' = (used a)((unat (id_next a) + j) mod capacity a := True)))"
  using assms
proof (induction k arbitrary: a)
  case 0
  then show ?case by simp
next
  case (Suc k)
  define m where "m = id_next a"
  define a1 where "a1 = a\<lparr>id_next := if id_max a \<le> ucast m then 0 else m + 1\<rparr>"
  have inv1: "alloc_inv a1" and next1: "unat (id_next a1) = (unat m + 1) mod capacity a"
    and cap1: "capacity a1 = capacity a" "id_max a1 = id_max a" "used a1 = used a"
    using Suc.prems(1) cursor_next [OF Suc.prems(1)] by (auto simp: alloc_inv_def a1_def m_def)
  have m: "unat m mod capacity a = unat m" "unat m div 32 < length (id_map a)" "unat m < capacity a"
    using Suc.prems(1) div_le_mono [of "unat m" "unat (id_max a)" 32]
    by (auto simp: alloc_inv_def m_def less_Suc_eq_le)
  have step: "index_alloc_loop a start =
      (if \<not> used a (unat m)
       then Some (int (unat m), a1\<lparr>id_map := (id_map a1)[unat m div 32 :=
              id_map a1 ! (unat m div 32) OR push_bit (unat m mod 32) 1]\<rparr>)
       else if id_next a1 \<noteq> start then index_alloc_loop a1 start else Some (- 1, a1))"
    using m by (subst index_alloc_loop.simps)
      (simp add: index_of_eq bitno_of_eq and_exp_eq_0_iff_not_bit used_def a1_def m_def Let_def)
  show ?case
  proof (cases "used a (unat m)")
    case False
    let ?a' = "a1\<lparr>id_map := (id_map a1)[unat m div 32 := id_map a1 ! (unat m div 32) OR push_bit (unat m mod 32) 1]\<rparr>"
    have u: "used ?a' = (used a)(unat m := True)"
      using m used_set [of "unat m" a1] cap1 by (auto simp: fun_eq_iff a1_def)
    have "alloc_inv ?a'"
      using inv1 u m cap1 by (auto simp: alloc_inv_def)
    then show ?thesis
      using False step u m cap1 by (auto simp: m_def intro!: exI [of _ 0])
  next
    case True
    have shift: "(unat (id_next a1) + j) mod capacity a = (unat m + Suc j) mod capacity a" for j
      by (simp add: next1 mod_simps)
    have ex: "(\<forall>j < Suc k. P j) \<longleftrightarrow> P 0 \<and> (\<forall>j < k. P (Suc j))" "(\<exists>j < Suc k. P j) \<longleftrightarrow> P 0 \<or> (\<exists>j < k. P (Suc j))"
      for P :: "nat \<Rightarrow> bool" and k by (auto simp: less_Suc_eq_0_disj)
    show ?thesis
    proof (cases "k = 0")
      case True
      then have "id_next a1 = start" using Suc.prems(4) next1 by (simp add: word_unat_eq_iff m_def)
      then show ?thesis using True \<open>used a (unat m)\<close> step inv1 cap1 m by (auto simp: m_def)
    next
      case False
      then have "id_next a1 \<noteq> start"
        using Suc.prems(3, 4) mod_shift_neq [of k "capacity a" "unat m"] next1 by (auto simp: m_def)
      then have "index_alloc_loop a start = index_alloc_loop a1 start"
        using step \<open>used a (unat m)\<close> by simp
      moreover have "unat start = (unat (id_next a1) + k) mod capacity a1"
        using Suc.prems(4) shift [of k] cap1 by (simp add: m_def)
      moreover have "0 < k" "k \<le> capacity a1" using False Suc.prems(3) cap1 by auto
      ultimately show ?thesis
        using Suc.IH [OF inv1] \<open>used a (unat m)\<close> m
        by (simp add: cap1 shift ex m_def [symmetric])
    qed
  qed
qed

lemma index_alloc_spec:
  assumes "alloc_inv a"
  shows "\<exists>r a'. index_alloc a = Some (r, a') \<and> alloc_inv a' \<and> id_max a' = id_max a \<and>
     (if \<forall>i < capacity a. used a i then r = - 1 \<and> used a' = used a
      else \<exists>i < capacity a. r = int i \<and> \<not> used a i \<and> used a' = (used a)(i := True))"
proof -
  have n: "unat (id_next a) < capacity a" using assms by (simp add: alloc_inv_def)
  then have "unat (id_next a) = (unat (id_next a) + capacity a) mod capacity a"
    by (metis mod_add_self2 mod_less)
  from index_alloc_loop_spec [OF assms _ order_refl this]
  obtain r a' where *: "index_alloc a = Some (r, a')" "alloc_inv a'" "id_max a' = id_max a"
    and r: "(r = - 1 \<and> used a' = used a \<and> (\<forall>j < capacity a. used a ((unat (id_next a) + j) mod capacity a))) \<or>
      (\<exists>i < capacity a. r = int i \<and> \<not> used a i \<and> used a' = (used a)(i := True))"
    unfolding index_alloc_def by (metis mod_less_divisor zero_less_Suc)
  from * r n show ?thesis unfolding cyclic_all [OF n] by (metis (no_types, lifting))
qed

lemma index_free_spec:
  assumes "alloc_inv a"
  shows "index_free a i = None \<longleftrightarrow> \<not> used a (unat i)"
    and "index_free a i = Some a' \<Longrightarrow> alloc_inv a' \<and> id_max a' = id_max a \<and> used a' = (used a)(unat i := False) \<and>
      id_next a' = (if unat i < unat (id_next a) then ucast i else id_next a)"
proof -
  have c: "(i < ucast (id_next a)) = (unat i < unat (id_next a))"
    by (simp add: word_less_nat_alt unat_ucast_8)
  show "index_free a i = None \<longleftrightarrow> \<not> used a (unat i)"
    by (auto simp: index_free_def index_of_eq16 bitno_of_eq16 and_exp_eq_0_iff_not_bit used_def Let_def)
  assume "index_free a i = Some a'"
  then have l: "unat i div 32 < length (id_map a)"
    and a': "a' = (let b = a\<lparr>id_map := (id_map a)[unat i div 32 := id_map a ! (unat i div 32) AND NOT (push_bit (unat i mod 32) 1)]\<rparr>
       in if unat i < unat (id_next a) then b\<lparr>id_next := ucast i\<rparr> else b)"
    by (auto simp: index_free_def index_of_eq16 bitno_of_eq16 c Let_def simp del: push_bit_of_1 split: if_splits)
  have u: "used a' = (used a)(unat i := False)"
    using used_clear [OF l] by (auto simp: a' Let_def fun_eq_iff simp del: push_bit_of_1)
  have "unat (ucast i :: u8) = unat i" if "unat i < unat (id_next a)"
    using that unat_u8 [of "id_next a"] by (simp add: unsigned_ucast_eq take_bit_nat_eq_self_iff)
  with assms u show "alloc_inv a' \<and> id_max a' = id_max a \<and> used a' = (used a)(unat i := False) \<and>
      id_next a' = (if unat i < unat (id_next a) then ucast i else id_next a)"
    by (auto simp: alloc_inv_def a' Let_def)
qed

section \<open>The contract of an index pool\<close>

text \<open>What a client of the allocator relies on; \<open>alloc_many\<close> is a client that only allocates.\<close>

primrec alloc_many :: "('s \<Rightarrow> (int \<times> 's) option) \<Rightarrow> nat \<Rightarrow> 's \<Rightarrow> (int list \<times> 's) option" where
  "alloc_many al 0 s = Some ([], s)"
| "alloc_many al (Suc n) s =
     do { (r, s1) \<leftarrow> al s; (rs, s2) \<leftarrow> alloc_many al n s1; Some (r # rs, s2) }"

locale index_pool =
  fixes pool_inv :: "'s \<Rightarrow> bool" and pool_cap :: "'s \<Rightarrow> nat" and pool_busy :: "'s \<Rightarrow> nat \<Rightarrow> bool"
    and pool_alloc :: "'s \<Rightarrow> (int \<times> 's) option"
  assumes busy_lt: "pool_inv s \<Longrightarrow> pool_busy s i \<Longrightarrow> i < pool_cap s"
    and alloc_law: "pool_inv s \<Longrightarrow> \<exists>r s'. pool_alloc s = Some (r, s') \<and> pool_inv s' \<and> pool_cap s' = pool_cap s \<and>
      (if \<forall>i < pool_cap s. pool_busy s i then r = - 1 \<and> pool_busy s' = pool_busy s
       else \<exists>i < pool_cap s. r = int i \<and> \<not> pool_busy s i \<and> pool_busy s' = (pool_busy s)(i := True))"
begin

abbreviation free_count :: "'s \<Rightarrow> nat" where
  "free_count s \<equiv> card {i. i < pool_cap s \<and> \<not> pool_busy s i}"

lemma alloc_many_distinct:
  assumes "pool_inv s"
  shows "\<exists>is s'. alloc_many pool_alloc n s =
      Some (map int is @ replicate (n - free_count s) (- 1), s') \<and> pool_inv s' \<and> length is = min n (free_count s) \<and>
      distinct is \<and> (\<forall>i \<in> set is. i < pool_cap s \<and> \<not> pool_busy s i)"
  using assms
proof (induction n arbitrary: s)
  case 0
  then show ?case by auto
next
  case (Suc n)
  let ?F = "\<lambda>s. {i. i < pool_cap s \<and> \<not> pool_busy s i}"
  obtain r s1 where a: "pool_alloc s = Some (r, s1)" and inv1: "pool_inv s1"
    and cap: "pool_cap s1 = pool_cap s"
    and r: "if \<forall>i < pool_cap s. pool_busy s i then r = - 1 \<and> pool_busy s1 = pool_busy s
       else \<exists>i < pool_cap s. r = int i \<and> \<not> pool_busy s i \<and> pool_busy s1 = (pool_busy s)(i := True)"
    using alloc_law [OF Suc.prems] by auto
  obtain "is" s2 where m: "alloc_many pool_alloc n s1 = Some (map int is @ replicate (n - free_count s1) (- 1), s2)"
    and i2: "pool_inv s2" "length is = min n (free_count s1)" "distinct is"
      "\<forall>i \<in> set is. i < pool_cap s1 \<and> \<not> pool_busy s1 i"
    using Suc.IH [OF inv1] by auto
  show ?case
  proof (cases "\<forall>i < pool_cap s. pool_busy s i")
    case True
    then have c: "free_count s = 0" "free_count s1 = 0" using r cap by auto
    have "is = []" using i2(2) unfolding c by simp
    then show ?thesis using True r a m i2 unfolding c by simp
  next
    case False
    with r obtain i where i: "i < pool_cap s" "r = int i" "\<not> pool_busy s i" "pool_busy s1 = (pool_busy s)(i := True)"
      by auto
    then have "?F s = insert i (?F s1)" "i \<notin> ?F s1" by (auto simp: cap)
    then have "free_count s = Suc (free_count s1)" by simp
    moreover have "i \<notin> set is" "\<forall>j \<in> set is. j < pool_cap s \<and> \<not> pool_busy s j"
      using i i2(4) cap by (auto split: if_splits)
    ultimately show ?thesis
      using i(1-3) a m i2(1-3) by (intro exI [of _ "i # is"] exI [of _ s2]) simp
  qed
qed

end

interpretation ia: index_pool alloc_inv "\<lambda>a. capacity a" used index_alloc
proof
  show "\<And>s i. alloc_inv s \<Longrightarrow> used s i \<Longrightarrow> i < capacity s" by (auto simp: alloc_inv_def)
qed (metis (no_types, lifting) index_alloc_spec)

definition demo_pool :: index_allocator_t where
  "demo_pool = \<lparr>id_max = 2, id_next = 1, id_map = [2]\<rparr>"

lemma used_single: "used \<lparr>id_max = k, id_next = n, id_map = [w]\<rparr> i \<longleftrightarrow> i < 32 \<and> bit w i"
  by (auto simp: used_def)

lemma demo_pool_inv: "alloc_inv demo_pool" "used demo_pool i \<longleftrightarrow> i = 1"
  by (auto simp: alloc_inv_def demo_pool_def used_single bit_2_iff possible_bit_def)

text \<open>C14. The allocator always returns: its cyclic search over the bitmap ends within the array,
  gives the first index in cyclic order from the cursor that is not in use and marks exactly
  that one, or gives -1 and changes no bit when all \<open>id_max + 1\<close> indices are in use.\<close>

theorem index_alloc_first_free:
  assumes "alloc_inv a"
  shows "\<exists>r a'. index_alloc a = Some (r, a') \<and> alloc_inv a' \<and> id_max a' = id_max a \<and>
     ((r = - 1 \<and> used a' = used a \<and> (\<forall>i < capacity a. used a i)) \<or>
      (\<exists>j < capacity a. r = int ((unat (id_next a) + j) mod capacity a) \<and>
         \<not> used a ((unat (id_next a) + j) mod capacity a) \<and>
         (\<forall>h < j. used a ((unat (id_next a) + h) mod capacity a)) \<and>
         used a' = (used a)((unat (id_next a) + j) mod capacity a := True)))"
proof -
  have n: "unat (id_next a) < capacity a" using assms by (simp add: alloc_inv_def)
  then have "unat (id_next a) = (unat (id_next a) + capacity a) mod capacity a"
    by (metis mod_add_self2 mod_less)
  from index_alloc_loop_spec [OF assms zero_less_Suc order_refl this, folded index_alloc_def]
  show ?thesis unfolding cyclic_all [OF n] .
qed

theorem index_alloc_first_free_witness:
  "alloc_inv demo_pool \<and> (\<exists>a'. index_alloc demo_pool = Some (2, a') \<and> alloc_inv a')"
proof -
  have c: "capacity demo_pool = 3" "unat (id_next demo_pool) = 1" by (simp_all add: demo_pool_def)
  have j: "Suc j mod 3 = 2" if "j < 3" "Suc j mod 3 \<noteq> Suc 0" "\<forall>h < j. Suc h mod 3 = Suc 0" for j :: nat
    using that(1, 2) that(3) [rule_format, of 1] by presburger
  have "\<not> (\<forall>i < 3. i = (1 :: nat))" by (metis zero_less_numeral zero_neq_one)
  with index_alloc_first_free [OF demo_pool_inv(1)] show ?thesis
    unfolding c demo_pool_inv(2) by (auto simp: demo_pool_inv(1) dest: j)
qed

text \<open>Freeing an index that is in use clears exactly its bit and moves the cursor down to it
  when it is below; freeing one that is not in use is the failed assertion.\<close>

theorem index_free_correct:
  assumes "alloc_inv a"
  shows "case index_free a i of
       None \<Rightarrow> \<not> used a (unat i)
     | Some a' \<Rightarrow> used a (unat i) \<and> alloc_inv a' \<and> used a' = (used a)(unat i := False) \<and>
         id_next a' = (if unat i < unat (id_next a) then ucast i else id_next a)"
proof (cases "index_free a i")
  case None
  then show ?thesis using index_free_spec(1) [OF assms, of i] by simp
next
  case (Some a')
  then show ?thesis using index_free_spec(1) [OF assms, of i] index_free_spec(2) [OF assms Some] by simp
qed

theorem index_free_correct_witness:
  "alloc_inv demo_pool \<and> (\<exists>a'. index_free demo_pool 1 = Some a' \<and> \<not> used a' 1) \<and> index_free demo_pool 2 = None"
  using index_free_correct [OF demo_pool_inv(1), of 1] index_free_correct [OF demo_pool_inv(1), of 2] demo_pool_inv
  by (auto split: option.splits)

text \<open>C20. A fresh allocator created for \<open>mx\<close> hands out \<open>mx + 1\<close> pairwise different indices of
  \<open>0 .. mx\<close> before it answers -1 to every further request.\<close>

theorem allocator_capacity:
  assumes "mx < 256"
  shows "\<exists>is a'. alloc_many index_alloc n (index_allocator_create mx) =
      Some (map int is @ replicate (n - Suc mx) (- 1), a') \<and>
      length is = min n (Suc mx) \<and> distinct is \<and> set is \<subseteq> {..mx}"
proof -
  have c: "card {i. i < Suc mx \<and> \<not> used (index_allocator_create mx) i} = Suc mx"
    using alloc_inv_create(2) [OF assms] by simp
  show ?thesis
    using ia.alloc_many_distinct [OF alloc_inv_create(1) [OF assms], of n]
    unfolding alloc_inv_create(3) [OF assms] c by (auto simp: less_Suc_eq_le subset_eq)
qed

theorem allocator_capacity_witness:
  "\<exists>is a'. alloc_many index_alloc 4 (index_allocator_create 2) = Some (map int is @ [- 1], a') \<and>
     length is = 3 \<and> distinct is"
  using allocator_capacity [of 2 4] by auto

end
