(* ===== verification/Advertising_Safety.thy ===== *)
theory Advertising_Safety
  imports Advertising
begin

text \<open>
  The advertising manager is safe: its list, the heap of advertisers, the indices of the allocator and the
  timers agree in every history, until the manager is cleaned up and holds nothing any more. The last section
  shows what a start that times out leaves behind in the stack.
\<close>

unbundle bit_operations_syntax

section \<open>Invariant\<close>

text \<open>The timer of an advertiser, and the advertisers that wait to be started.\<close>

definition adv_place :: "adv_manager \<Rightarrow> ptr \<Rightarrow> nat option" where
  "adv_place m p = Option.bind (advertisers m p) av_start"

fun starts :: "adv_msg list \<Rightarrow> ptr list" where
  "starts [] = []"
| "starts (Adv_start p _ # xs) = p # starts xs"
| "starts (_ # xs) = starts xs"

fun adv_msg_ok :: "adv_msg \<Rightarrow> bool" where
  "adv_msg_ok (Adv_start p info) \<longleftrightarrow> p \<noteq> NULL \<and> info \<noteq> None"
| "adv_msg_ok _ \<longleftrightarrow> True"

definition idle_adver :: "adv_manager \<Rightarrow> ptr \<Rightarrow> bool" where
  "idle_adver m p \<longleftrightarrow> (\<exists>a. advertisers m p = Some a \<and> av_id a = 0 \<and> av_start a = None)"

text \<open>The advertisers \<open>ps\<close> of the list have the indices that are in use.\<close>

definition ids_ok :: "index_allocator_t \<Rightarrow> (ptr \<Rightarrow> advertiser option) \<Rightarrow> ptr list \<Rightarrow> bool" where
  "ids_ok al hp ps \<longleftrightarrow> distinct ps \<and> (\<forall>p\<in>set ps. \<exists>a. hp p = Some a \<and> av_id a \<noteq> 0 \<and> used al (unat (av_id a) - 1)) \<and>
     (\<forall>i. used al i \<longrightarrow> (\<exists>p\<in>set ps. \<exists>a. hp p = Some a \<and> unat (av_id a) = Suc i)) \<and>
     (\<forall>p\<in>set ps. \<forall>q\<in>set ps. map_option av_id (hp p) = map_option av_id (hp q) \<longrightarrow> p = q)"

text \<open>\<open>X\<close> are the advertisers that have not been started yet.\<close>

definition adv_core :: "nat \<Rightarrow> ptr set \<Rightarrow> adv_manager \<Rightarrow> bool" where
  "adv_core mx X m \<longleftrightarrow> owns (adv_loop m) (adv_place m) \<and> (\<forall>p\<in>X. idle_adver m p) \<and>
     (if adv_started m
      then \<exists>al ps. adv_allocator m = Some al \<and> alloc_inv al \<and> unat (id_max al) = mx \<and> advertiser_list m = Some ps \<and>
        ids_ok al (advertisers m) ps \<and> set ps \<inter> X = {} \<and> dom (advertisers m) = set ps \<union> X
      else \<forall>p\<in>dom (advertisers m). idle_adver m p)"

definition adv_inv :: "nat \<Rightarrow> adv_manager option \<Rightarrow> bool" where
  "adv_inv mx mo \<longleftrightarrow> mx < 255 \<and> (\<exists>m. mo = Some m \<and> adv_core mx (set (starts (msg_queue (adv_loop m)))) m \<and>
     distinct (starts (msg_queue (adv_loop m))) \<and> list_all adv_msg_ok (msg_queue (adv_loop m)))"

lemma starts_append [simp]: "starts (xs @ ys) = starts xs @ starts ys"
  by (induction xs rule: starts.induct) simp_all

lemma owns_queue [simp]: "owns (l\<lparr>msg_queue := xs\<rparr>) f = owns l f"
  by (simp add: owns_def)

lemma adv_core_cong:
  assumes "owns (adv_loop m') = owns (adv_loop m)" "adv_started m' = adv_started m" "adv_allocator m' = adv_allocator m"
    "advertiser_list m' = advertiser_list m" "advertisers m' = advertisers m"
  shows "adv_core mx X m' = adv_core mx X m"
proof -
  have "adv_place m' = adv_place m" unfolding adv_place_def assms(5) ..
  moreover have "idle_adver m' = idle_adver m" unfolding idle_adver_def assms(5) ..
  ultimately show ?thesis unfolding adv_core_def assms(2-5) by (simp only: assms(1))
qed

lemma adv_core_frame [simp]:
  "adv_core mx X (adv_emit x m) = adv_core mx X m"
  "adv_core mx X (m\<lparr>adv_loop := (adv_loop m)\<lparr>msg_queue := xs\<rparr>\<rparr>) = adv_core mx X m"
  by (rule adv_core_cong; simp add: adv_emit_def fun_eq_iff)+

lemma adv_core_post [simp]: "adv_core mx X (adv_post x m) = adv_core mx X m"
  by (rule adv_core_cong) (simp_all add: adv_post_def do_in_service_loop_def fun_eq_iff)

lemma adv_coreD:
  assumes "adv_core mx X m" "adv_started m"
  obtains al ps where "adv_allocator m = Some al" "alloc_inv al" "unat (id_max al) = mx" "advertiser_list m = Some ps"
    "ids_ok al (advertisers m) ps" "set ps \<inter> X = {}" "dom (advertisers m) = set ps \<union> X" "owns (adv_loop m) (adv_place m)" "\<forall>p\<in>X. idle_adver m p"
  using assms by (auto simp: adv_core_def)

section \<open>Identifiers\<close>

lemma free_index: "(w :: u8) \<noteq> 0 \<Longrightarrow> unat (ucast w - 1 :: u16) = unat w - 1"
proof -
  assume "w \<noteq> 0"
  then have "0 < unat w" by (simp add: unat_gt_0)
  moreover have "unat (ucast w :: u16) = unat w" by (rule unat_ucast_8(2))
  ultimately have "1 \<le> (ucast w :: u16)" by (simp add: word_le_nat_alt)
  then show "unat (ucast w - 1 :: u16) = unat w - 1" by (simp add: unat_sub unat_ucast_8)
qed

lemma ids_okD:
  assumes "ids_ok al hp ps"
  shows "distinct ps" "p \<in> set ps \<Longrightarrow> \<exists>a. hp p = Some a \<and> av_id a \<noteq> 0 \<and> used al (unat (av_id a) - 1)"
    "used al i \<Longrightarrow> \<exists>p\<in>set ps. \<exists>a. hp p = Some a \<and> unat (av_id a) = Suc i"
    "p \<in> set ps \<Longrightarrow> q \<in> set ps \<Longrightarrow> map_option av_id (hp p) = map_option av_id (hp q) \<Longrightarrow> p = q"
  using assms unfolding ids_ok_def by blast+

lemma ids_remove:
  assumes "ids_ok al hp ps" "alloc_inv al" "p \<in> set ps" "hp p = Some a"
  shows "\<exists>al'. index_free al (ucast (av_id a) - 1) = Some al' \<and> alloc_inv al' \<and> id_max al' = id_max al \<and> ids_ok al' (hp(p := None)) (remove1 p ps)"
proof -
  have a: "av_id a \<noteq> 0" "used al (unat (av_id a) - 1)" "distinct ps"
    using ids_okD(1,2) [OF assms(1)] assms(3,4) by (metis option.inject)+
  then have pos: "0 < unat (av_id a)" by (simp add: unat_gt_0)
  obtain al' where al': "index_free al (ucast (av_id a) - 1) = Some al'"
    using index_free_spec(1) [OF assms(2), of "ucast (av_id a) - 1", unfolded free_index [OF a(1)]] a(2) by blast
  note sp = index_free_spec(2) [OF assms(2) al', unfolded free_index [OF a(1)]]
  have sp: "alloc_inv al'" "id_max al' = id_max al" "used al' = (used al)(unat (av_id a) - 1 := False)" using sp by blast+
  have other: "unat (av_id b) \<noteq> unat (av_id a)" if "q \<in> set ps" "q \<noteq> p" "hp q = Some b" for q b
  proof -
    have "map_option av_id (hp q) \<noteq> map_option av_id (hp p)" using ids_okD(4) [OF assms(1) that(1) assms(3)] that(2) by blast
    then show ?thesis using that(3) assms(4) by (simp add: unsigned_word_eqI word_unat_eq_iff)
  qed
  have keep: "\<exists>b. hp q = Some b \<and> av_id b \<noteq> 0 \<and> used al' (unat (av_id b) - 1)" if "q \<in> set ps" "q \<noteq> p" for q
  proof -
    note q = that
    obtain b where b: "hp q = Some b" "av_id b \<noteq> 0" "used al (unat (av_id b) - 1)"
      using ids_okD(2) [OF assms(1) q(1)] by blast
    have "0 < unat (av_id b)" using b(2) by (simp add: unat_gt_0)
    then have "unat (av_id b) - 1 \<noteq> unat (av_id a) - 1" using other [OF q b(1)] pos by linarith
    then show ?thesis using b sp(3) by auto
  qed
  have rest: "\<exists>q\<in>set ps - {p}. \<exists>b. hp q = Some b \<and> unat (av_id b) = Suc i" if "used al' i" for i
  proof -
    have i: "used al i" "i \<noteq> unat (av_id a) - 1" using that sp(3) by (auto split: if_splits)
    then obtain q b where "q \<in> set ps" "hp q = Some b" "unat (av_id b) = Suc i" using ids_okD(3) [OF assms(1)] by blast
    then show ?thesis using i(2) assms(4) by auto
  qed
  have set: "set (remove1 p ps) = set ps - {p}" using a(3) by (rule set_remove1_eq)
  have "ids_ok al' (hp(p := None)) (remove1 p ps)"
    unfolding ids_ok_def set
  proof (intro conjI ballI allI impI)
    show "distinct (remove1 p ps)" using a(3) by (rule distinct_remove1)
    show "\<exists>b. (hp(p := None)) q = Some b \<and> av_id b \<noteq> 0 \<and> used al' (unat (av_id b) - 1)" if "q \<in> set ps - {p}" for q
      using keep [of q] that by simp
    show "\<exists>q\<in>set ps - {p}. \<exists>b. (hp(p := None)) q = Some b \<and> unat (av_id b) = Suc i" if "used al' i" for i
      using rest [OF that] by force
    show "q = r" if "q \<in> set ps - {p}" "r \<in> set ps - {p}" "map_option av_id ((hp(p := None)) q) = map_option av_id ((hp(p := None)) r)" for q r
      using that ids_okD(4) [OF assms(1)] by auto
  qed
  then show ?thesis using al' sp by blast
qed

lemma ids_add:
  assumes "ids_ok al hp ps" "\<not> used al i" "used al' = (used al)(i := True)" "p \<notin> set ps" "unat (av_id a) = Suc i"
  shows "ids_ok al' (hp(p \<mapsto> a)) (ps @ [p])"
proof -
  have other: "map_option av_id (hp q) \<noteq> Some (av_id a)" if "q \<in> set ps" for q
    using ids_okD(2) [OF assms(1) that] assms(2,5) by auto
  have same: "(hp(p \<mapsto> a)) q = hp q" if "q \<in> set ps" for q using that assms(4) by auto
  show ?thesis
    unfolding ids_ok_def
  proof (intro conjI ballI allI impI)
    show "distinct (ps @ [p])" using ids_okD(1) [OF assms(1)] assms(4) by simp
    show "\<exists>b. (hp(p \<mapsto> a)) q = Some b \<and> av_id b \<noteq> 0 \<and> used al' (unat (av_id b) - 1)" if q: "q \<in> set (ps @ [p])" for q
    proof (cases "q = p")
      case True
      have "av_id a \<noteq> 0" using assms(5) by auto
      then show ?thesis using True assms(3,5) by simp
    next
      case False
      then have "q \<in> set ps" using q by simp
      then show ?thesis using ids_okD(2) [OF assms(1)] same assms(3) by (metis fun_upd_apply)
    qed
    show "\<exists>q\<in>set (ps @ [p]). \<exists>b. (hp(p \<mapsto> a)) q = Some b \<and> unat (av_id b) = Suc j" if j: "used al' j" for j
    proof (cases "j = i")
      case False
      then obtain q b where "q \<in> set ps" "hp q = Some b" "unat (av_id b) = Suc j" using j ids_okD(3) [OF assms(1), of j] assms(3) by auto
      then show ?thesis using assms(4) by (intro bexI [of _ q] exI [of _ b]) auto
    qed (use assms(5) in auto)
    show "q = r" if "q \<in> set (ps @ [p])" "r \<in> set (ps @ [p])" "map_option av_id ((hp(p \<mapsto> a)) q) = map_option av_id ((hp(p \<mapsto> a)) r)" for q r
      using that other [of q] other [of r] same ids_okD(4) [OF assms(1), of q r] by (cases "q = p"; cases "r = p") auto
  qed
qed

lemma ids_update:
  assumes "ids_ok al hp ps" "hp p = Some a" "av_id b = av_id a"
  shows "ids_ok al (hp(p \<mapsto> b)) ps"
proof -
  have same: "map_option av_id ((hp(p \<mapsto> b)) q) = map_option av_id (hp q)" for q using assms(2,3) by simp
  have up: "\<exists>c. (hp(p \<mapsto> b)) q = Some c \<and> av_id c = av_id a'" if "hp q = Some a'" for q a' using that assms(2,3) by auto
  show ?thesis
    unfolding ids_ok_def same
  proof (intro conjI ballI allI impI)
    show "distinct ps" by (rule ids_okD(1) [OF assms(1)])
    show "\<exists>c. (hp(p \<mapsto> b)) q = Some c \<and> av_id c \<noteq> 0 \<and> used al (unat (av_id c) - 1)" if "q \<in> set ps" for q
      using ids_okD(2) [OF assms(1) that] up by metis
    show "\<exists>q\<in>set ps. \<exists>c. (hp(p \<mapsto> b)) q = Some c \<and> unat (av_id c) = Suc i" if "used al i" for i
      using ids_okD(3) [OF assms(1) that] up by metis
    show "q = r" if "q \<in> set ps" "r \<in> set ps" "map_option av_id (hp q) = map_option av_id (hp r)" for q r
      using ids_okD(4) [OF assms(1) that] .
  qed
qed

section \<open>Operations\<close>

lemma cancel_queue: "service_loop_cancel_timer t l = Some l' \<Longrightarrow> msg_queue l' = msg_queue l"
  by (auto simp: service_loop_cancel_timer_def split: option.splits if_splits)

lemma remove_adver:
  assumes "adv_core mx X m" "adv_started m" "advertiser_list m = Some ps" "p \<in> set ps"
  obtains a m1 where "advertisers m p = Some a" "delete_advertiser p m = Some m1" "advertisers m1 p = Some (a\<lparr>av_start := None\<rparr>)"
    "\<And>x. \<exists>m2. destroy_advertiser p (adv_emit x m1) = Some m2 \<and> adv_core mx X m2 \<and> adv_started m2 \<and>
      advertiser_list m2 = Some (remove1 p ps) \<and> msg_queue (adv_loop m2) = msg_queue (adv_loop m)"
proof -
  obtain al where c: "adv_allocator m = Some al" "alloc_inv al" "unat (id_max al) = mx" "ids_ok al (advertisers m) ps" "set ps \<inter> X = {}"
    "dom (advertisers m) = set ps \<union> X" "owns (adv_loop m) (adv_place m)" "\<forall>p\<in>X. idle_adver m p"
    using adv_coreD [OF assms(1,2)] assms(3) by auto
  obtain a where a: "advertisers m p = Some a" "av_id a \<noteq> 0" using ids_okD(2) [OF c(4) assms(4)] by blast
  obtain l where l: "service_loop_cancel_timer (av_start a) (adv_loop m) = Some l" "owns l ((adv_place m)(p := None))"
    using owns_cancel [OF c(7), of p] a(1) by (auto simp: adv_place_def)
  obtain al' where al': "index_free al (ucast (av_id a) - 1) = Some al'" "alloc_inv al'" "id_max al' = id_max al"
    "ids_ok al' ((advertisers m)(p := None)) (remove1 p ps)"
    using ids_remove [OF c(4,2) assms(4) a(1)] by blast
  let ?m1 = "put_adver p (a\<lparr>av_start := None\<rparr>) (m\<lparr>adv_loop := l, advertiser_list := Some (remove1 p ps)\<rparr>)"
  have "\<exists>m2. destroy_advertiser p (adv_emit x ?m1) = Some m2 \<and> adv_core mx X m2 \<and> adv_started m2 \<and>
      advertiser_list m2 = Some (remove1 p ps) \<and> msg_queue (adv_loop m2) = msg_queue (adv_loop m)" for x
  proof -
    let ?m2 = "m\<lparr>adv_loop := l, advertiser_list := Some (remove1 p ps), adv_outs := adv_outs m @ [x], adv_allocator := Some al',
      advertisers := (advertisers m)(p := None)\<rparr>"
    have "destroy_advertiser p (adv_emit x ?m1) = Some ?m2"
      using a c(1) al'(1) by (simp add: destroy_advertiser_def adv_emit_def put_adver_def)
    moreover have "adv_place ?m2 = (adv_place m)(p := None)" by (rule ext) (simp add: adv_place_def)
    moreover have "p \<notin> X" using assms(4) c(5) by auto
    then have "\<forall>q\<in>X. idle_adver ?m2 q" using c(8) by (auto simp: idle_adver_def)
    moreover have "dom ((advertisers m)(p := None)) = set (remove1 p ps) \<union> X" "set (remove1 p ps) \<inter> X = {}"
      using c(5,6) \<open>p \<notin> X\<close> ids_okD(1) [OF c(4)] by (auto simp: set_remove1_eq)
    ultimately show ?thesis using l al' assms(2) c(3) cancel_queue [OF l(1)] by (intro exI [of _ ?m2]) (simp add: adv_core_def)
  qed
  moreover have "delete_advertiser p m = Some ?m1" using a(1) l(1) assms(3,4) by (simp add: delete_advertiser_def)
  moreover have "advertisers ?m1 p = Some (a\<lparr>av_start := None\<rparr>)" by (simp add: put_adver_def)
  ultimately show ?thesis using that a(1) by blast
qed

lemma adv_emit_sel [simp]:
  "adv_loop (adv_emit x m) = adv_loop m" "adv_started (adv_emit x m) = adv_started m" "advertiser_list (adv_emit x m) = advertiser_list m"
  "advertisers (adv_emit x m) = advertisers m" "adv_allocator (adv_emit x m) = adv_allocator m"
  by (simp_all add: adv_emit_def)

text \<open>The result of a handler: it returns, keeps the invariant and posts nothing.\<close>

definition adv_result :: "nat \<Rightarrow> ptr set \<Rightarrow> adv_manager \<Rightarrow> adv_manager option \<Rightarrow> bool" where
  "adv_result mx X m r \<longleftrightarrow> (\<exists>m'. r = Some m' \<and> adv_core mx X m' \<and> msg_queue (adv_loop m') = msg_queue (adv_loop m))"

lemma adv_resultI: "r = Some m' \<Longrightarrow> adv_core mx X m' \<Longrightarrow> msg_queue (adv_loop m') = msg_queue (adv_loop m) \<Longrightarrow> adv_result mx X m r"
  by (simp add: adv_result_def)

lemma start_timeout_result:
  assumes "adv_core mx X m" "adv_started m"
  shows "adv_result mx X m (start_advertising_timeout p m)"
proof -
  obtain al ps where c: "advertiser_list m = Some ps" by (rule adv_coreD [OF assms])
  show ?thesis
  proof (cases "p \<in> set ps")
    case True
    show ?thesis
    proof (rule remove_adver [OF assms c True])
      fix a m1
      assume "delete_advertiser p m = Some m1" "advertisers m1 p = Some (a\<lparr>av_start := None\<rparr>)"
        "\<And>x. \<exists>m2. destroy_advertiser p (adv_emit x m1) = Some m2 \<and> adv_core mx X m2 \<and> adv_started m2 \<and>
          advertiser_list m2 = Some (remove1 p ps) \<and> msg_queue (adv_loop m2) = msg_queue (adv_loop m)"
      then show ?thesis using c True by (simp add: start_advertising_timeout_def is_advertiser_exist_def adv_result_def) blast
    qed
  next
    case False
    then show ?thesis using c assms(1) by (intro adv_resultI [of _ m]) (simp_all add: start_advertising_timeout_def is_advertiser_exist_def)
  qed
qed

lemma find_adver_ok:
  assumes "\<forall>p\<in>set ps. advertisers m p \<noteq> None"
  shows "\<exists>r. find_adver w ps m = Some r \<and> (\<forall>p. r = Some p \<longrightarrow> p \<in> set ps)"
  using assms by (induction ps) auto

lemma get_advertiser_ok:
  assumes "adv_core mx X m" "adv_started m"
  obtains ps r where "advertiser_list m = Some ps" "get_advertiser_if_exist w m = Some r" "\<And>p. r = Some p \<Longrightarrow> p \<in> set ps"
    "\<forall>p\<in>set ps. advertisers m p \<noteq> None"
proof -
  obtain al ps where c: "advertiser_list m = Some ps" "ids_ok al (advertisers m) ps" by (rule adv_coreD [OF assms])
  then have "\<forall>p\<in>set ps. advertisers m p \<noteq> None" using ids_okD(2) by fastforce
  then show ?thesis using c(1) that find_adver_ok [of ps m w] by (auto simp: get_advertiser_if_exist_def)
qed

lemma stop_event_result:
  assumes "adv_core mx X m"
  shows "adv_result mx X m (advertiser_stop_event p w m)"
proof (cases "adv_started m")
  case True
  show ?thesis
  proof (rule get_advertiser_ok [OF assms True, of w])
    fix ps r
    assume r: "advertiser_list m = Some ps" "get_advertiser_if_exist w m = Some r" "\<And>p. r = Some p \<Longrightarrow> p \<in> set ps"
      "\<forall>p\<in>set ps. advertisers m p \<noteq> None"
    let ?r = "if p \<noteq> NULL then if p \<in> set ps then Some p else None else r"
    have "advertiser_stop_event p w m = (case ?r of None \<Rightarrow> Some m
        | Some p \<Rightarrow> do { a \<leftarrow> advertisers m p; Some (adv_emit (Sal_stop_adv (av_id a)) m) })"
      using True r(1,2) by (simp add: advertiser_stop_event_def is_advertiser_exist_def)
    moreover have "q \<in> set ps" if "?r = Some q" for q using that r(3) by (auto split: if_splits)
    ultimately show ?thesis
    proof (cases ?r)
      case (Some q)
      then obtain a where "advertisers m q = Some a" using \<open>\<And>q. ?r = Some q \<Longrightarrow> q \<in> set ps\<close> r(4) by blast
      then show ?thesis using Some \<open>advertiser_stop_event p w m = _\<close> assms
        by (intro adv_resultI [of _ "adv_emit (Sal_stop_adv (av_id a)) m"]) simp_all
    qed (use assms in \<open>simp add: adv_result_def\<close>)
  qed
qed (use assms in \<open>simp add: advertiser_stop_event_def adv_result_def\<close>)

lemma set_start_core:
  assumes "adv_core mx X m" "adv_started m" "advertiser_list m = Some ps" "p \<in> set ps" "advertisers m p = Some a"
    "owns l ((adv_place m)(p := t))"
  shows "adv_core mx X (put_adver p (a\<lparr>av_start := t\<rparr>) (m\<lparr>adv_loop := l\<rparr>))"
proof -
  let ?m = "put_adver p (a\<lparr>av_start := t\<rparr>) (m\<lparr>adv_loop := l\<rparr>)"
  obtain al where c: "adv_allocator m = Some al" "alloc_inv al" "unat (id_max al) = mx" "ids_ok al (advertisers m) ps" "set ps \<inter> X = {}"
    "dom (advertisers m) = set ps \<union> X" "\<forall>p\<in>X. idle_adver m p"
    using adv_coreD [OF assms(1,2)] assms(3) by auto
  have "adv_place ?m = (adv_place m)(p := t)" by (rule ext) (simp add: adv_place_def put_adver_def)
  moreover have "\<forall>q\<in>X. idle_adver ?m q" using c(5,7) assms(4) by (auto simp: idle_adver_def put_adver_def)
  moreover have "ids_ok al (advertisers ?m) ps" using ids_update [OF c(4) assms(5), of "a\<lparr>av_start := t\<rparr>"] by (simp add: put_adver_def)
  moreover have "dom (advertisers ?m) = set ps \<union> X" using c(6) assms(4) by (auto simp: put_adver_def)
  ultimately show ?thesis using c(1-3,5) assms(2,3,6) by (simp add: adv_core_def put_adver_def)
qed

lemma notify_result:
  assumes "adv_core mx X m"
  shows "adv_result mx X m (advertiser_notify_state w state m)"
proof (cases "adv_started m")
  case True
  show ?thesis
  proof (rule get_advertiser_ok [OF assms True, of w])
    fix ps r
    assume r: "advertiser_list m = Some ps" "get_advertiser_if_exist w m = Some r" "\<And>p. r = Some p \<Longrightarrow> p \<in> set ps"
    show ?thesis
    proof (cases r)
      case None
      then show ?thesis using True r(2) assms by (intro adv_resultI [of _ m]) (simp_all add: advertiser_notify_state_def)
    next
      case (Some p)
      show ?thesis
      proof (rule remove_adver [OF assms True r(1) r(3) [OF Some]])
        fix a m1
        assume a: "advertisers m p = Some a"
          and rm: "delete_advertiser p m = Some m1" "advertisers m1 p = Some (a\<lparr>av_start := None\<rparr>)"
          "\<And>x. \<exists>m2. destroy_advertiser p (adv_emit x m1) = Some m2 \<and> adv_core mx X m2 \<and> adv_started m2 \<and>
            advertiser_list m2 = Some (remove1 p ps) \<and> msg_queue (adv_loop m2) = msg_queue (adv_loop m)"
        have "owns (adv_loop m) (adv_place m)" using assms by (simp add: adv_core_def)
        then obtain l where l: "service_loop_cancel_timer (av_start a) (adv_loop m) = Some l" "owns l ((adv_place m)(p := None))"
          using owns_cancel [of "adv_loop m" "adv_place m" p] a by (auto simp: adv_place_def)
        let ?s = "adv_emit (On_advertising_start (get_adver p a) w BT_ADV_STATUS_SUCCESS) (put_adver p (a\<lparr>av_start := None\<rparr>) (m\<lparr>adv_loop := l\<rparr>))"
        have "adv_core mx X ?s" using set_start_core [OF assms True r(1) r(3) [OF Some] a l(2)] by simp
        moreover have "msg_queue (adv_loop ?s) = msg_queue (adv_loop m)" using cancel_queue [OF l(1)] by (simp add: put_adver_def)
        moreover obtain m2 where "destroy_advertiser p (adv_emit (On_advertising_stopped (get_adver p (a\<lparr>av_start := None\<rparr>)) w) m1) = Some m2"
          "adv_core mx X m2" "msg_queue (adv_loop m2) = msg_queue (adv_loop m)" using rm(3) by blast
        ultimately show ?thesis using True r(2) Some a rm(1,2) l(1) assms by (simp add: advertiser_notify_state_def adv_result_def)
      qed
    qed
  qed
qed (use assms in \<open>simp add: advertiser_notify_state_def adv_result_def\<close>)

lemma cleanup_loop_ok:
  assumes "adv_core mx X m" "adv_started m" "advertiser_list m = Some ps"
  shows "\<exists>m'. advertisers_cleanup_loop ps m = Some m' \<and> adv_core mx X m' \<and> adv_started m' \<and> advertiser_list m' = Some [] \<and>
    msg_queue (adv_loop m') = msg_queue (adv_loop m)"
  using assms
proof (induction ps arbitrary: m)
  case (Cons p ps)
  obtain a0 where a0: "advertisers m p = Some a0"
    by (rule remove_adver [OF Cons.prems, of p]) simp_all
  let ?m = "adv_emit (Sal_stop_adv (av_id a0)) m"
  have prems: "adv_core mx X ?m" "adv_started ?m" "advertiser_list ?m = Some (p # ps)" using Cons.prems by simp_all
  show ?case
  proof (rule remove_adver [OF prems, of p])
    fix a m1
    assume "advertisers ?m p = Some a" and m1: "delete_advertiser p ?m = Some m1"
      "\<And>x. \<exists>m2. destroy_advertiser p (adv_emit x m1) = Some m2 \<and> adv_core mx X m2 \<and> adv_started m2 \<and>
        advertiser_list m2 = Some (remove1 p (p # ps)) \<and> msg_queue (adv_loop m2) = msg_queue (adv_loop ?m)"
    then obtain m2 where m2: "destroy_advertiser p (adv_emit (On_advertising_stopped (get_adver p a0) (av_id a0)) m1) = Some m2"
      "adv_core mx X m2" "adv_started m2" "advertiser_list m2 = Some ps" "msg_queue (adv_loop m2) = msg_queue (adv_loop m)" by fastforce
    then show ?thesis using Cons.IH [OF m2(2-4)] a0 m1(1) by auto
  qed simp
qed simp

lemma cleanup_result:
  assumes "adv_core mx X m"
  shows "adv_result mx X m (advertisers_cleanup m)"
proof (cases "adv_started m")
  case True
  obtain al ps where ps: "advertiser_list m = Some ps" by (rule adv_coreD [OF assms True])
  obtain m1 where m1: "advertisers_cleanup_loop ps m = Some m1" "adv_core mx X m1" "adv_started m1" "advertiser_list m1 = Some []"
    "msg_queue (adv_loop m1) = msg_queue (adv_loop m)" using cleanup_loop_ok [OF assms True ps] by blast
  let ?m = "m1\<lparr>advertiser_list := None, adv_allocator := None, adv_started := False\<rparr>"
  have "adv_place ?m = adv_place m1" "idle_adver ?m = idle_adver m1" by (simp_all add: adv_place_def idle_adver_def fun_eq_iff)
  moreover have "dom (advertisers m1) = X" "\<forall>p\<in>X. idle_adver m1 p" "owns (adv_loop m1) (adv_place m1)" using m1(2-4) by (auto simp: adv_core_def)
  ultimately have "adv_core mx X ?m" by (simp add: adv_core_def)
  then show ?thesis using True ps m1(1,5) by (intro adv_resultI [of _ ?m]) (simp_all add: advertisers_cleanup_def)
qed (use assms in \<open>simp add: advertisers_cleanup_def adv_result_def\<close>)

lemma ids_cong:
  assumes "ids_ok al hp ps" "used al' = used al" "\<And>q. q \<in> set ps \<Longrightarrow> hp' q = hp q"
  shows "ids_ok al' hp' ps"
proof -
  have "(\<forall>p\<in>set ps. \<forall>q\<in>set ps. map_option av_id (hp' p) = map_option av_id (hp' q) \<longrightarrow> p = q)"
    using assms(3) ids_okD(4) [OF assms(1)] by simp
  moreover have "\<forall>p\<in>set ps. \<exists>a. hp' p = Some a \<and> av_id a \<noteq> 0 \<and> used al' (unat (av_id a) - 1)"
    using assms(2,3) ids_okD(2) [OF assms(1)] by simp
  moreover have "\<exists>p\<in>set ps. \<exists>a. hp' p = Some a \<and> unat (av_id a) = Suc i" if "used al' i" for i
    using assms(2,3) ids_okD(3) [OF assms(1), of i] that by fastforce
  ultimately show ?thesis using ids_okD(1) [OF assms(1)] by (simp add: ids_ok_def)
qed

lemma new_id: "i < 255 \<Longrightarrow> unat (of_int (int i) + 1 :: u8) = Suc i"
proof -
  assume "i < 255"
  then have "unat (of_nat i :: u8) = i" by (simp add: unat_of_nat)
  then show ?thesis using unat_inc [of "of_nat i :: u8" 255] \<open>i < 255\<close> by (simp add: word_less_nat_alt)
qed

text \<open>What becomes of an advertiser that is started: it is in the list with a new identifier, or gone.\<close>

lemma started_core:
  assumes "adv_core mx (insert p X) m" "adv_started m" "p \<notin> X" "adv_allocator m = Some al" "advertiser_list m = Some ps" "advertisers m p = Some a"
    "alloc_inv al'" "unat (id_max al') = unat (id_max al)"
  shows "\<not> used al i \<Longrightarrow> used al' = (used al)(i := True) \<Longrightarrow> unat (av_id b) = Suc i \<Longrightarrow> owns l ((adv_place m)(p := av_start b)) \<Longrightarrow>
      adv_core mx X (m\<lparr>adv_allocator := Some al', advertiser_list := Some (ps @ [p]), adv_loop := l, advertisers := (advertisers m)(p \<mapsto> b)\<rparr>)"
    and "used al' = used al \<Longrightarrow> adv_core mx X (m\<lparr>adv_allocator := Some al', advertisers := (advertisers m)(p := None)\<rparr>)"
proof -
  obtain al0 ps0 where "adv_allocator m = Some al0" "unat (id_max al0) = mx" "advertiser_list m = Some ps0"
    "ids_ok al0 (advertisers m) ps0" "set ps0 \<inter> insert p X = {}" "dom (advertisers m) = set ps0 \<union> insert p X" "owns (adv_loop m) (adv_place m)"
    "\<forall>q\<in>insert p X. idle_adver m q" by (rule adv_coreD [OF assms(1,2)])
  then have c: "unat (id_max al) = mx" "ids_ok al (advertisers m) ps" "set ps \<inter> insert p X = {}" "dom (advertisers m) = set ps \<union> insert p X"
    "owns (adv_loop m) (adv_place m)" "\<forall>q\<in>insert p X. idle_adver m q" using assms(4,5) by simp_all
  have none: "adv_place m p = None" using c(6) by (auto simp: idle_adver_def adv_place_def)
  {
    assume i: "\<not> used al i" "used al' = (used al)(i := True)" "unat (av_id b) = Suc i" and l: "owns l ((adv_place m)(p := av_start b))"
    let ?m = "m\<lparr>adv_allocator := Some al', advertiser_list := Some (ps @ [p]), adv_loop := l, advertisers := (advertisers m)(p \<mapsto> b)\<rparr>"
    have "adv_place ?m = (adv_place m)(p := av_start b)" by (rule ext) (simp add: adv_place_def)
    moreover have "\<forall>q\<in>X. idle_adver ?m q" using c(6) assms(3) by (auto simp: idle_adver_def)
    moreover have "ids_ok al' ((advertisers m)(p \<mapsto> b)) (ps @ [p])" using ids_add [OF c(2) i(1,2)] c(3) i(3) by auto
    moreover have "dom ((advertisers m)(p \<mapsto> b)) = set (ps @ [p]) \<union> X" "set (ps @ [p]) \<inter> X = {}" using c(3,4) assms(3) by auto
    ultimately show "adv_core mx X ?m" using l assms(2,7,8) c(1) by (simp add: adv_core_def)
  next
    assume u: "used al' = used al"
    let ?m = "m\<lparr>adv_allocator := Some al', advertisers := (advertisers m)(p := None)\<rparr>"
    have "adv_place ?m = adv_place m" using none by (simp add: adv_place_def fun_eq_iff)
    moreover have "\<forall>q\<in>X. idle_adver ?m q" using c(6) assms(3) by (auto simp: idle_adver_def)
    moreover have "ids_ok al' ((advertisers m)(p := None)) ps" by (rule ids_cong [OF c(2) u]) (use c(3) in auto)
    moreover have "dom ((advertisers m)(p := None)) = set ps \<union> X" "set ps \<inter> X = {}" using c(3,4) assms(3) by auto
    ultimately show "adv_core mx X ?m" using assms(2,5,7,8) c(1,5) by (simp add: adv_core_def)
  }
qed

lemma start_event_result:
  assumes "adv_core mx (insert p X) m" "p \<notin> X" "mx < 255"
  shows "adv_result mx X m (advertiser_start_event e p (Some info) m)"
proof (cases "adv_started m")
  case False
  then show ?thesis using assms(1) by (intro adv_resultI [of _ m]) (auto simp: advertiser_start_event_def adv_core_def)
next
  case True
  obtain al ps where c: "adv_allocator m = Some al" "alloc_inv al" "unat (id_max al) = mx" "advertiser_list m = Some ps"
    "owns (adv_loop m) (adv_place m)" "\<forall>q\<in>insert p X. idle_adver m q" by (rule adv_coreD [OF assms(1) True])
  obtain a where a: "advertisers m p = Some a" "av_id a = 0" "av_start a = None" using c(6) by (auto simp: idle_adver_def)
  obtain r al' where al': "index_alloc al = Some (r, al')" "alloc_inv al'" "unat (id_max al') = unat (id_max al)"
    "if \<forall>i < capacity al. used al i then r = - 1 \<and> used al' = used al
     else \<exists>i < capacity al. r = int i \<and> \<not> used al i \<and> used al' = (used al)(i := True)" using ia.alloc_law [OF c(2)] by auto
  note core = started_core [OF assms(1) True assms(2) c(1,4) a(1)]
  show ?thesis
  proof (cases "\<forall>i < capacity al. used al i")
    case full: True
    let ?m = "m\<lparr>adv_allocator := Some al', advertisers := (advertisers m)(p := None)\<rparr>"
    have "adv_core mx X ?m" using core(2) [OF al'(2,3)] full al'(4) by simp
    then have "adv_core mx X (?m\<lparr>adv_outs := os\<rparr>)" for os using adv_core_cong [of "?m\<lparr>adv_outs := os\<rparr>" ?m] by simp
    then show ?thesis using True full c(1) a al'(1,4)
      by (intro adv_resultI [of _ "?m\<lparr>adv_outs := adv_outs m @ [On_advertising_start (get_adver p a) 0 BT_ADV_STATUS_START_NOMEM]\<rparr>"])
        (simp_all add: advertiser_start_event_def destroy_advertiser_def adv_emit_def)
  next
    case False
    then obtain i where i: "i < capacity al" "r = int i" "\<not> used al i" "used al' = (used al)(i := True)"
      using al'(4) unfolding if_not_P [OF False] by blast
    have w: "unat (of_int r + 1 :: u8) = Suc i" using new_id [of i] i(1,2) c(3) assms(3) by simp
    let ?a = "a\<lparr>av_id := of_int r + 1\<rparr>"
    show ?thesis
    proof (cases "sal_start_adv e (of_int r + 1) info = BT_STATUS_SUCCESS")
      case ok: True
      let ?t = "service_loop_timer_no_repeating (adv_timer_mem e) (User p) (adv_loop m)"
      have none: "adv_place m p = None" using a by (simp add: adv_place_def)
      have o: "owns (snd ?t) ((adv_place m)(p := fst ?t))" and q: "msg_queue (snd ?t) = msg_queue (adv_loop m)"
        using owns_start [OF c(5) none, of False] c(5) none by (auto simp: service_loop_timer_no_repeating_def service_loop_timer_def fun_upd_idem)
      let ?m = "m\<lparr>adv_allocator := Some al', advertiser_list := Some (ps @ [p]), adv_loop := snd ?t, advertisers := (advertisers m)(p \<mapsto> ?a\<lparr>av_start := fst ?t\<rparr>)\<rparr>"
      have "adv_core mx X ?m" using core(1) [OF al'(2,3) i(3,4), of "?a\<lparr>av_start := fst ?t\<rparr>"] w o by simp
      then have "adv_core mx X (?m\<lparr>adv_outs := os\<rparr>)" for os using adv_core_cong [of "?m\<lparr>adv_outs := os\<rparr>" ?m] by simp
      then show ?thesis using True ok c(1,4) a al'(1) i(2) q
        by (intro adv_resultI [of _ "?m\<lparr>adv_outs := adv_outs m @ [Sal_start_adv (of_int r + 1) info]\<rparr>"])
          (simp_all add: advertiser_start_event_def put_adver_def adv_emit_def split_beta)
    next
      case refused: False
      have nz: "(of_int r + 1 :: u8) \<noteq> 0" using w by auto
      obtain al2 where al2: "index_free al' (ucast (of_int r + 1 :: u8) - 1) = Some al2"
        using index_free_spec(1) [OF al'(2), of "ucast (of_int r + 1 :: u8) - 1", unfolded free_index [OF nz] w] i(4) by auto
      have sp: "alloc_inv al2" "unat (id_max al2) = unat (id_max al)" "used al2 = used al"
        using index_free_spec(2) [OF al'(2) al2, unfolded free_index [OF nz] w] al'(3) i(3,4) by (auto simp: fun_eq_iff)
      let ?m = "m\<lparr>adv_allocator := Some al2, advertisers := (advertisers m)(p := None)\<rparr>"
      have "adv_core mx X ?m" by (rule core(2) [OF sp])
      then have "adv_core mx X (?m\<lparr>adv_outs := os\<rparr>)" for os using adv_core_cong [of "?m\<lparr>adv_outs := os\<rparr>" ?m] by simp
      then show ?thesis using True refused c(1) a al'(1) i(2) al2 nz
        by (intro adv_resultI [of _ "?m\<lparr>adv_outs := adv_outs m @ [Sal_start_adv (of_int r + 1) info, On_advertising_start (get_adver p ?a) 0 BT_ADV_STATUS_STACK_ERR]\<rparr>"])
          (simp_all add: advertiser_start_event_def destroy_advertiser_def put_adver_def adv_emit_def)
    qed
  qed
qed

section \<open>Histories\<close>

text \<open>The buffers a client passes hold as many bytes as it says, and the copy of the data is allocated.\<close>

fun adv_input_ok :: "adv_env \<times> adv_input \<Rightarrow> bool" where
  "adv_input_ok (e, Start_advertising p mem info_mem remote params d dl s sl) \<longleftrightarrow>
     info_mem = (True, True, True) \<and> (case d of None \<Rightarrow> True | Some x \<Rightarrow> unat dl \<le> length x) \<and> (case s of None \<Rightarrow> True | Some x \<Rightarrow> unat sl \<le> length x)"
| "adv_input_ok _ \<longleftrightarrow> True"

lemma adv_core_loop:
  assumes "adv_core mx X m" "owns l (adv_place m)"
  shows "adv_core mx X (m\<lparr>adv_loop := l\<rparr>)"
proof -
  have "adv_place (m\<lparr>adv_loop := l\<rparr>) = adv_place m" "idle_adver (m\<lparr>adv_loop := l\<rparr>) = idle_adver m"
    by (simp_all add: adv_place_def idle_adver_def fun_eq_iff)
  then show ?thesis using assms unfolding adv_core_def by (cases "adv_started m") auto
qed

lemma adv_core_new:
  assumes "adv_core mx X m" "advertisers m p = None"
  shows "adv_core mx (insert p X) (put_adver p \<lparr>av_remote = r, av_id = 0, av_start = None\<rparr> m)"
proof -
  let ?m = "put_adver p \<lparr>av_remote = r, av_id = 0, av_start = None\<rparr> m"
  have same: "adv_place ?m = adv_place m" using assms(2) by (simp add: adv_place_def put_adver_def fun_eq_iff)
  have p: "idle_adver ?m p" by (simp add: idle_adver_def put_adver_def)
  have q: "idle_adver ?m q" if "idle_adver m q" for q using that assms(2) by (auto simp: idle_adver_def put_adver_def)
  show ?thesis
  proof (cases "adv_started m")
    case True
    obtain al ps where c: "adv_allocator m = Some al" "alloc_inv al" "unat (id_max al) = mx" "advertiser_list m = Some ps"
      "ids_ok al (advertisers m) ps" "set ps \<inter> X = {}" "dom (advertisers m) = set ps \<union> X" "owns (adv_loop m) (adv_place m)"
      "\<forall>p\<in>X. idle_adver m p" by (rule adv_coreD [OF assms(1) True])
    have "p \<notin> set ps" using c(7) assms(2) by auto
    then have "ids_ok al (advertisers ?m) ps" by (intro ids_cong [OF c(5)]) (auto simp: put_adver_def)
    moreover have "dom (advertisers ?m) = set ps \<union> insert p X" using c(7) by (auto simp: put_adver_def)
    moreover have "\<forall>q\<in>insert p X. idle_adver ?m q" using p q c(9) by blast
    ultimately show ?thesis using True c(1-4,6,8) same \<open>p \<notin> set ps\<close> by (simp add: adv_core_def put_adver_def)
  next
    case False
    then have "\<forall>q\<in>dom (advertisers m). idle_adver m q" "owns (adv_loop m) (adv_place m)" "\<forall>q\<in>X. idle_adver m q"
      using assms(1) by (simp_all add: adv_core_def)
    moreover have "dom (advertisers ?m) = insert p (dom (advertisers m))" "adv_loop ?m = adv_loop m" "\<not> adv_started ?m"
      using False by (simp_all add: put_adver_def)
    ultimately show ?thesis using same p q by (simp add: adv_core_def)
  qed
qed

lemma adv_invI:
  "adv_core mx (set (starts (msg_queue (adv_loop m)))) m \<Longrightarrow> distinct (starts (msg_queue (adv_loop m))) \<Longrightarrow>
    list_all adv_msg_ok (msg_queue (adv_loop m)) \<Longrightarrow> mx < 255 \<Longrightarrow> adv_inv mx (Some m)"
  by (simp add: adv_inv_def)

lemma adv_inv_post:
  assumes "adv_inv mx (Some m)" "starts [x] = []" "adv_msg_ok x"
  shows "adv_inv mx (Some (adv_post x m))"
  using assms by (auto simp: adv_inv_def adv_post_def do_in_service_loop_def)

lemma adv_inv_result:
  assumes "adv_result mx (set (starts (msg_queue (adv_loop m)))) m r" "distinct (starts (msg_queue (adv_loop m)))" "list_all adv_msg_ok (msg_queue (adv_loop m))" "mx < 255"
  shows "adv_inv mx r"
  using assms by (auto simp: adv_inv_def adv_result_def)

lemma run_message_ok:
  assumes "adv_inv mx (Some m)"
  shows "adv_inv mx (adv_step (Some m) (e, Run_message))"
proof (cases "msg_queue (adv_loop m)")
  case Nil
  then show ?thesis using assms(1) by simp
next
  case (Cons x xs)
  let ?m = "m\<lparr>adv_loop := (adv_loop m)\<lparr>msg_queue := xs\<rparr>\<rparr>"
  have inv: "adv_core mx (set (starts (x # xs))) ?m" "distinct (starts (x # xs))" "list_all adv_msg_ok (x # xs)"
    using assms(1) Cons by (simp_all add: adv_inv_def)
  then have rest: "distinct (starts xs)" "list_all adv_msg_ok xs" by (cases x; simp)+
  have mx: "mx < 255" using assms by (simp add: adv_inv_def)
  have "adv_result mx (set (starts xs)) ?m (run_adv_msg e x ?m)"
  proof (cases x)
    case (Adv_start p info)
    then show ?thesis using inv start_event_result [of mx p "set (starts xs)" ?m e] mx by (auto simp: run_adv_msg_def)
  qed (use inv stop_event_result notify_result cleanup_result in \<open>simp_all add: run_adv_msg_def\<close>)
  then have "adv_inv mx (run_adv_msg e x ?m)" using adv_inv_result [of mx ?m] rest mx by simp
  then show ?thesis using Cons by simp
qed

lemma expires_ok:
  assumes "adv_inv mx (Some m)"
  shows "adv_inv mx (adv_step (Some m) (e, Start_expires p))"
proof (cases "find (\<lambda>x. snd (snd x) = User p) (active_timers (adv_loop m))")
  case (Some x)
  have core: "adv_core mx (set (starts (msg_queue (adv_loop m)))) m" using assms by (simp add: adv_inv_def)
  have "x \<in> set (active_timers (adv_loop m))" "snd (snd x) = User p" using Some by (auto simp: find_Some_iff)
  then obtain h r where x: "x = (h, r, User p)" "(h, r, User p) \<in> set (active_timers (adv_loop m))" by (metis prod.collapse)
  have owns: "owns (adv_loop m) (adv_place m)" using core by (simp add: adv_core_def)
  obtain l where l: "expire_timer h (adv_loop m) = Some (User p, l)" "owns l (adv_place m)" "adv_place m p = Some h"
    using owns_expire [OF owns x(2)] by blast
  have q: "msg_queue l = msg_queue (adv_loop m)" using l(1) by (auto simp: expire_timer_def split: option.splits if_splits)
  have "adv_started m"
  proof (rule ccontr)
    assume "\<not> adv_started m"
    then have "\<forall>q\<in>dom (advertisers m). idle_adver m q" using core by (simp add: adv_core_def)
    then show False using l(3) by (force simp: adv_place_def idle_adver_def bind_eq_Some_conv)
  qed
  then have "adv_result mx (set (starts (msg_queue l))) (m\<lparr>adv_loop := l\<rparr>) (start_advertising_timeout p (m\<lparr>adv_loop := l\<rparr>))"
    using start_timeout_result adv_core_loop [OF core l(2)] q by simp
  then have "adv_inv mx (start_advertising_timeout p (m\<lparr>adv_loop := l\<rparr>))"
    using adv_inv_result [of mx "m\<lparr>adv_loop := l\<rparr>"] assms q by (simp add: adv_inv_def)
  then show ?thesis using Some x(1) l(1) by simp
qed (use assms in simp)

lemma start_advertising_ok:
  assumes "adv_inv mx (Some m)" "adv_input_ok (e, Start_advertising p mem info_mem remote params d dl s sl)"
  shows "adv_inv mx (adv_step (Some m) (e, Start_advertising p mem info_mem remote params d dl s sl))"
proof (cases "adapter_is_le_enabled e \<and> advertisers m p = None \<and> p \<noteq> NULL")
  case True
  let ?q = "msg_queue (adv_loop m)"
  have core: "adv_core mx (set (starts ?q)) m" "distinct (starts ?q)" "list_all adv_msg_ok ?q" "mx < 255" using assms(1) by (simp_all add: adv_inv_def)
  have new: "p \<notin> set (starts ?q)" using core(1) True by (auto simp: adv_core_def idle_adver_def)
  have gone: "(put_adver p a m)\<lparr>advertisers := (advertisers (put_adver p a m))(p := None)\<rparr> = m" for a
    using True by (simp add: put_adver_def fun_upd_idem)
  have copy: "\<exists>c. copy_block True b len = Some (True, c)" if "case b of None \<Rightarrow> True | Some x \<Rightarrow> unat len \<le> length x" for b len
    using that by (auto simp: copy_block_def split: option.splits)
  obtain c1 c2 where "copy_block True d dl = Some (True, c1)" "copy_block True s sl = Some (True, c2)"
    using assms(2) copy [where b = d and len = dl] copy [where b = s and len = sl] by auto
  then obtain info where info: "advertiser_info_copy info_mem params d dl s sl = Some (Some info)"
    using assms(2) by (simp add: advertiser_info_copy_def)
  let ?m = "put_adver p \<lparr>av_remote = remote, av_id = 0, av_start = None\<rparr> m"
  have "adv_core mx (insert p (set (starts ?q))) ?m" using adv_core_new [OF core(1)] True by blast
  moreover have "msg_queue (adv_loop (adv_post (Adv_start p (Some info)) ?m)) = ?q @ [Adv_start p (Some info)]"
    by (simp add: adv_post_def do_in_service_loop_def put_adver_def)
  ultimately have "adv_inv mx (Some (adv_post (Adv_start p (Some info)) ?m))" using core(2-4) new True by (intro adv_invI) simp_all
  then show ?thesis using True info gone assms(1)
    by (cases mem) (simp_all add: start_advertising_def alloc_new_advertiser_def destroy_advertiser_def put_adver_def fun_upd_idem)
qed (use assms(1) in \<open>auto simp: start_advertising_def alloc_new_advertiser_def\<close>)

lemma adv_step_ok:
  assumes "adv_inv mx mo" "adv_input_ok ei"
  shows "adv_inv mx (adv_step mo ei)"
proof -
  obtain m e i where m: "mo = Some m" "ei = (e, i)" using assms(1) by (cases ei) (auto simp: adv_inv_def)
  show ?thesis
  proof (cases i)
    case Start_advertising
    then show ?thesis using start_advertising_ok assms m by blast
  next
    case Run_message
    then show ?thesis using run_message_ok assms m by blast
  next
    case Start_expires
    then show ?thesis using expires_ok assms m by blast
  qed (use m assms(1) in \<open>simp_all add: stop_advertising_def stop_advertising_id_def advertising_on_state_changed_def adv_manager_cleanup_def adv_inv_post\<close>)
qed

interpretation adv_ev: event_machine adv_step "adv_inv mx" adv_input_ok for mx
  by unfold_locales (rule adv_step_ok)

lemma adv_init_inv: "mx < 255 \<Longrightarrow> adv_inv mx (Some (adv_manager_init mx))"
proof -
  assume mx: "mx < 255"
  have al: "alloc_inv (index_allocator_create mx)" "\<not> used (index_allocator_create mx) i" for i using alloc_inv_create [of mx] mx by auto
  have "adv_place (adv_manager_init mx) = (\<lambda>_. None)" by (simp add: adv_place_def adv_manager_init_def fun_eq_iff)
  moreover have "owns service_loop_init (\<lambda>_. None)" by (simp add: owns_def timers_ok_def service_loop_init_def)
  moreover have "unat (id_max (index_allocator_create mx)) = mx" using mx by (simp add: index_allocator_create_def unat_of_nat)
  ultimately have "adv_core mx {} (adv_manager_init mx)" using al by (simp add: adv_core_def) (simp add: adv_manager_init_def ids_ok_def)
  then show ?thesis using mx by (intro adv_invI) (simp_all add: adv_manager_init_def service_loop_init_def)
qed

lemma adver_bound:
  assumes "alloc_inv al" "ids_ok al hp ps"
  shows "(\<lambda>p. unat (av_id (the (hp p))) - 1) ` set ps = {i. used al i}" "length ps \<le> capacity al"
proof -
  let ?f = "\<lambda>p. unat (av_id (the (hp p))) - 1"
  have "?f p \<in> {i. used al i}" if "p \<in> set ps" for p using ids_okD(2) [OF assms(2) that] by auto
  moreover have "i \<in> ?f ` set ps" if "used al i" for i using ids_okD(3) [OF assms(2) that] by (auto intro: rev_image_eqI)
  ultimately show im: "?f ` set ps = {i. used al i}" by blast
  have "inj_on ?f (set ps)"
  proof (rule inj_onI)
    fix p q
    assume pq: "p \<in> set ps" "q \<in> set ps" "?f p = ?f q"
    obtain a b where ab: "hp p = Some a" "av_id a \<noteq> 0" "hp q = Some b" "av_id b \<noteq> 0" using ids_okD(2) [OF assms(2)] pq(1,2) by blast
    then have "0 < unat (av_id a)" "0 < unat (av_id b)" by (simp_all add: unat_gt_0)
    then have "unat (av_id a) = unat (av_id b)" using pq(3) ab by simp
    then show "p = q" using ids_okD(4) [OF assms(2) pq(1,2)] ab by (simp add: unsigned_word_eqI)
  qed
  then have "card (set ps) = card {i. used al i}" using im card_image by metis
  moreover have "{i. used al i} \<subseteq> {..<capacity al}" using ia.busy_lt [OF assms(1)] by auto
  ultimately have "card (set ps) \<le> capacity al" using card_mono [of "{..<capacity al}"] by fastforce
  then show "length ps \<le> capacity al" using distinct_card [OF ids_okD(1) [OF assms(2)]] by simp
qed

text \<open>C4. In every history of starts, stops, reports of the stack, expiries and a cleanup, with memory for the
  copied data, the advertising manager touches no freed advertiser and fails no assertion. While it
  runs, the advertisers of the list have different identifiers, at most \<open>mx + 1\<close> of them, the indices in use are exactly
  theirs, every advertiser in memory is in the list or waits to be started, and every timer belongs to an
  advertiser of the list. After the cleanup no timer is left.\<close>

theorem adv_manager_safe:
  assumes "mx < 255" "\<And>x. x \<in> set es \<Longrightarrow> adv_input_ok x"
  shows "\<exists>m. foldl adv_step (Some (adv_manager_init mx)) es = Some m \<and>
    (if adv_started m
     then \<exists>al ps. adv_allocator m = Some al \<and> advertiser_list m = Some ps \<and> distinct ps \<and> length ps \<le> Suc mx \<and>
       inj_on (\<lambda>p. map_option av_id (advertisers m p)) (set ps) \<and>
       (\<lambda>p. unat (av_id (the (advertisers m p))) - 1) ` set ps = {i. used al i} \<and>
       dom (advertisers m) = set ps \<union> set (starts (msg_queue (adv_loop m))) \<and>
       (\<forall>h\<in>set (timers (adv_loop m)). \<exists>p\<in>set ps. map_option av_start (advertisers m p) = Some (Some h))
     else timers (adv_loop m) = [])"
proof -
  have "adv_inv mx (foldl adv_step (Some (adv_manager_init mx)) es)" using adv_ev.inv_run [OF adv_init_inv [OF assms(1)]] assms(2) by blast
  then obtain m where m: "foldl adv_step (Some (adv_manager_init mx)) es = Some m" "adv_core mx (set (starts (msg_queue (adv_loop m)))) m"
    by (auto simp: adv_inv_def)
  have owned: "\<exists>p a. advertisers m p = Some a \<and> av_start a = Some h" if "h \<in> set (timers (adv_loop m))" for h
  proof -
    have "owns (adv_loop m) (adv_place m)" using m(2) by (simp add: adv_core_def)
    from ownsD(3) [OF this that] obtain p where "adv_place m p = Some h" by blast
    then show ?thesis by (auto simp: adv_place_def bind_eq_Some_conv)
  qed
  show ?thesis
  proof (cases "adv_started m")
    case True
    obtain al ps where c: "adv_allocator m = Some al" "alloc_inv al" "unat (id_max al) = mx" "advertiser_list m = Some ps"
      "ids_ok al (advertisers m) ps" "dom (advertisers m) = set ps \<union> set (starts (msg_queue (adv_loop m)))"
      "\<forall>p\<in>set (starts (msg_queue (adv_loop m))). idle_adver m p" by (rule adv_coreD [OF m(2) True])
    have "\<exists>p\<in>set ps. map_option av_start (advertisers m p) = Some (Some h)" if h: "h \<in> set (timers (adv_loop m))" for h
    proof -
      obtain p a where p: "advertisers m p = Some a" "av_start a = Some h" using owned [OF h] by blast
      then have "p \<in> set ps" using c(6,7) by (force simp: idle_adver_def)
      then show ?thesis using p by (intro bexI [of _ p]) simp_all
    qed
    moreover have "inj_on (\<lambda>p. map_option av_id (advertisers m p)) (set ps)" using ids_okD(4) [OF c(5)] by (auto intro: inj_onI)
    ultimately show ?thesis using True m(1) c(1,3,4,6) adver_bound [OF c(2,5)] ids_okD(1) [OF c(5)] by auto
  next
    case False
    then have "\<forall>p\<in>dom (advertisers m). idle_adver m p" using m(2) by (simp add: adv_core_def)
    then have "timers (adv_loop m) = []" using owned by (cases "timers (adv_loop m)") (force simp: idle_adver_def)+
    then show ?thesis using False m(1) by simp
  qed
qed

text \<open>Two advertisers: one is reported as started, the other waits for its report.\<close>

definition demo_params :: ble_adv_params where
  "demo_params = \<lparr>ap_peer_addr = [], ap_adv_type = 0, ap_peer_addr_type = 0, ap_own_addr = [], ap_own_addr_type = 0, ap_tx_power = 0,
     ap_interval = 0x30, ap_duration = 0, ap_channel_map = 0, ap_filter_policy = 0\<rparr>"

definition demo_adv_inputs :: "(adv_env \<times> adv_input) list" where
  "demo_adv_inputs = map (Pair \<lparr>adapter_is_le_enabled = True, sal_start_adv = \<lambda>_ _. BT_STATUS_SUCCESS, adv_timer_mem = True\<rparr>)
     [Start_advertising 8 True (True, True, True) NULL demo_params (Some [2, 1, 6]) 3 None 0,
      Start_advertising 16 True (True, True, True) NULL demo_params (Some [2, 1, 6]) 3 None 0,
      Run_message, Run_message, State_changed True 1 0, Run_message]"

lemma demo_adv_inputs_ok: "x \<in> set demo_adv_inputs \<Longrightarrow> adv_input_ok x"
  by (auto simp: demo_adv_inputs_def)

theorem adv_manager_safe_witness:
  "\<exists>m. foldl adv_step (Some (adv_manager_init 2)) demo_adv_inputs = Some m \<and>
    (if adv_started m
     then \<exists>al ps. adv_allocator m = Some al \<and> advertiser_list m = Some ps \<and> distinct ps \<and> length ps \<le> Suc 2 \<and>
       inj_on (\<lambda>p. map_option av_id (advertisers m p)) (set ps) \<and>
       (\<lambda>p. unat (av_id (the (advertisers m p))) - 1) ` set ps = {i. used al i} \<and>
       dom (advertisers m) = set ps \<union> set (starts (msg_queue (adv_loop m))) \<and>
       (\<forall>h\<in>set (timers (adv_loop m)). \<exists>p\<in>set ps. map_option av_start (advertisers m p) = Some (Some h))
     else timers (adv_loop m) = [])"
  by (rule adv_manager_safe) (simp, erule demo_adv_inputs_ok)

section \<open>A start without a report\<close>

lemma timeout_effect:
  assumes "adv_core mx X m" "adv_started m" "advertiser_list m = Some ps" "p \<in> set ps" "advertisers m p = Some a"
  shows "\<exists>m' al'. start_advertising_timeout p m = Some m' \<and>
    adv_outs m' = adv_outs m @ [On_advertising_start (get_adver p a) 0 BT_ADV_STATUS_START_TIMEOUT] \<and>
    advertiser_list m' = Some (remove1 p ps) \<and> advertisers m' p = None \<and> adv_allocator m' = Some al' \<and> \<not> used al' (unat (av_id a) - 1)"
proof -
  obtain al where c: "adv_allocator m = Some al" "alloc_inv al" "ids_ok al (advertisers m) ps" "owns (adv_loop m) (adv_place m)"
    using adv_coreD [OF assms(1,2)] assms(3) by auto
  have id: "av_id a \<noteq> 0" "used al (unat (av_id a) - 1)" using ids_okD(2) [OF c(3) assms(4)] assms(5) by auto
  obtain l where l: "service_loop_cancel_timer (av_start a) (adv_loop m) = Some l"
    using owns_cancel [OF c(4), of p] assms(5) by (auto simp: adv_place_def)
  obtain al' where al': "index_free al (ucast (av_id a) - 1) = Some al'"
    using index_free_spec(1) [OF c(2), of "ucast (av_id a) - 1", unfolded free_index [OF id(1)]] id(2) by blast
  have "\<not> used al' (unat (av_id a) - 1)" using index_free_spec(2) [OF c(2) al', unfolded free_index [OF id(1)]] by simp
  then show ?thesis using assms(3-5) c(1) id(1) l al'
    by (simp add: start_advertising_timeout_def is_advertiser_exist_def delete_advertiser_def destroy_advertiser_def put_adver_def adv_emit_def get_adver_def)
qed

text \<open>C39. A start that the stack has accepted but not reported in time is given up without a word to the
  stack: the client is told of the timeout and the identifier is free for the next advertiser, while no request
  to stop it has been sent.\<close>

theorem adv_timeout_leaves_stack:
  assumes "adv_inv mx (Some m)" "(h, r, User p) \<in> set (active_timers (adv_loop m))"
  shows "\<exists>a m' al'. advertisers m p = Some a \<and> start_advertising_timeout p m = Some m' \<and>
    adv_outs m' = adv_outs m @ [On_advertising_start (get_adver p a) 0 BT_ADV_STATUS_START_TIMEOUT] \<and>
    advertisers m' p = None \<and> adv_allocator m' = Some al' \<and> \<not> used al' (unat (av_id a) - 1)"
proof -
  let ?X = "set (starts (msg_queue (adv_loop m)))"
  have core: "adv_core mx ?X m" using assms(1) by (simp add: adv_inv_def)
  then have "adv_place m p = Some h" using owns_expire [OF _ assms(2)] by (auto simp: adv_core_def)
  then obtain a where a: "advertisers m p = Some a" "av_start a = Some h" by (auto simp: adv_place_def bind_eq_Some_conv)
  then have busy: "\<not> idle_adver m p" by (simp add: idle_adver_def)
  then have started: "adv_started m" using core a(1) by (auto simp: adv_core_def split: if_splits)
  obtain al ps where c: "advertiser_list m = Some ps" "dom (advertisers m) = set ps \<union> ?X" "\<forall>p\<in>?X. idle_adver m p" by (rule adv_coreD [OF core started])
  then have "p \<in> set ps" using a(1) busy by blast
  then show ?thesis using timeout_effect [OF core started c(1)] a(1) by blast
qed

lemma demo_allocs:
  "index_alloc (index_allocator_create 2) = Some (0, \<lparr>id_max = 2, id_next = 1, id_map = [1]\<rparr>)"
  "index_alloc \<lparr>id_max = 2, id_next = 1, id_map = [1]\<rparr> = Some (1, \<lparr>id_max = 2, id_next = 2, id_map = [3]\<rparr>)"
  unfolding index_alloc_def by (subst index_alloc_loop.simps, simp add: index_allocator_create_def index_of_def bitno_of_def push_bit_eq_mult word_le_nat_alt)+

theorem adv_timeout_leaves_stack_witness:
  "\<exists>m a m' al'. foldl adv_step (Some (adv_manager_init 2)) demo_adv_inputs = Some m \<and> advertisers m 16 = Some a \<and>
    start_advertising_timeout 16 m = Some m' \<and> adv_outs m' = adv_outs m @ [On_advertising_start (get_adver 16 a) 0 BT_ADV_STATUS_START_TIMEOUT] \<and>
    adv_allocator m' = Some al' \<and> \<not> used al' (unat (av_id a) - 1)"
proof -
  have "case foldl adv_step (Some (adv_manager_init 2)) demo_adv_inputs of None \<Rightarrow> False | Some m \<Rightarrow> active_timers (adv_loop m) = [(1, False, User 16)]"
    by (simp add: demo_adv_inputs_def start_advertising_def alloc_new_advertiser_def advertiser_info_copy_def copy_block_def adv_post_def do_in_service_loop_def
      put_adver_def adv_manager_init_def service_loop_init_def run_adv_msg_def advertiser_start_event_def demo_allocs service_loop_timer_no_repeating_def
      service_loop_timer_def adv_emit_def advertising_on_state_changed_def advertiser_notify_state_def get_advertiser_if_exist_def service_loop_cancel_timer_def)
  then obtain m where m: "foldl adv_step (Some (adv_manager_init 2)) demo_adv_inputs = Some m" "(1, False, User 16) \<in> set (active_timers (adv_loop m))"
    by (auto split: option.splits)
  have "adv_inv 2 (Some m)" using adv_ev.inv_run [OF adv_init_inv, of 2 demo_adv_inputs] demo_adv_inputs_ok m(1) by simp
  then show ?thesis using adv_timeout_leaves_stack [OF _ m(2)] m(1) by blast
qed

end
