(* ===== verification/L2cap_Service.thy ===== *)
theory L2cap_Service
  imports Callbacks_List Service_Loop Index_Allocator Bt_Types
begin

text \<open>
  service/src/l2cap_service.c: the manager of L2CAP channels. Applications listen on a PSM or connect to one;
  every channel has an index of the allocator, a pipe to its application, and a receive side that
  reassembles the segments of an SDU and hands out credits. Channels are blocks of a heap, reached from the channel list
  and from the user data of a pipe that waits for its application; packets are passed on from owner to owner
  and are values here, with the address and the contents of their buffer. \<open>None\<close> is an access to a channel that is not allocated, a walk over
  the list after the cleanup, a failed assertion, a copy past the end of a buffer, or a division by zero.
  The pipes of framework/common/euv_pipe.c are seen from outside: which pipe still waits for its application, and which
  buffers are being written. The results of its calls, of the stack and of the allocations are arguments.
\<close>

unbundle bit_operations_syntax

type_synonym u64 = "64 word"

section \<open>State\<close>

definition L2CAP_CHANNEL_MAX_NUM :: nat where
  "L2CAP_CHANNEL_MAX_NUM = 20"

abbreviation (input) LE_PSM_DYNAMIC_MIN :: u16 where
  "LE_PSM_DYNAMIC_MIN \<equiv> 0x80"

abbreviation (input) L2CAP_LE_DYNAMIC_PSM_NUM :: u16 where
  "L2CAP_LE_DYNAMIC_PSM_NUM \<equiv> 64"

abbreviation (input) L2CAP_TX_QUOTA :: u16 where
  "L2CAP_TX_QUOTA \<equiv> 16"

abbreviation (input) L2CAP_CID_DYNAMIC_MIN :: u16 where
  "L2CAP_CID_DYNAMIC_MIN \<equiv> 0x40"

abbreviation (input) L2CAP_MAX_RX_BUF_SIZE :: nat where
  "L2CAP_MAX_RX_BUF_SIZE \<equiv> 10240"

abbreviation (input) L2CAP_LE_CREDITS_LOW_WATERMARK :: u16 where
  "L2CAP_LE_CREDITS_LOW_WATERMARK \<equiv> 10"

abbreviation (input) L2CAP_PIPE_DEF_READ_SIZE :: u16 where
  "L2CAP_PIPE_DEF_READ_SIZE \<equiv> 1024"

datatype l2cap_channel_role_t =
  L2CAP_CHANNEL_ROLE_SERVER_LISTEN | L2CAP_CHANNEL_ROLE_SERVER_ACCEPT | L2CAP_CHANNEL_ROLE_CLIENT

record l2cap_endpoint_param_t =
  ep_mtu :: u16
  ep_le_mps :: u16
  ep_credits :: u16

text \<open>A packet: the address of its data, the two lengths, and the allocated bytes.\<close>

record l2cap_pkt_t =
  pk_buf :: ptr
  len_total :: u16
  len_received :: u16
  pk_data :: "u8 list"

record l2cap_channel_t =
  lc_addr :: bt_address_t
  local_cid :: u16
  lc_psm :: u16
  incoming :: l2cap_endpoint_param_t
  outgoing :: l2cap_endpoint_param_t
  tx_mtu :: u16
  tx_quota :: u16
  lc_id :: u16
  lc_role :: l2cap_channel_role_t
  channel_connected :: bool
  lc_pipe :: ptr
  proxy_name :: string
  proxy_connected :: bool
  app_handle :: ptr
  rx_sdu :: "l2cap_pkt_t option"
  rx_list :: "l2cap_pkt_t list"
  rx_buf_size :: u16

record l2cap_channel_param_t =
  cp_is_client :: bool
  cp_local_cid :: u16
  cp_psm :: u16
  cp_incoming :: l2cap_endpoint_param_t
  cp_outgoing :: l2cap_endpoint_param_t

record l2cap_config_option_t =
  co_transport :: bt_transport_t
  co_psm :: u16
  co_mtu :: u16
  co_le_mps :: u16
  co_init_credits :: u16
  co_id :: u16
  co_proxy_name :: string

text \<open>What an application hears of a new connection; a listening identifier is there when the
  connection came to a listening channel.\<close>

record l2cap_connect_params_t =
  pa_addr :: bt_address_t
  pa_cid :: u16
  pa_psm :: u16
  pa_incoming_mtu :: u16
  pa_outgoing_mtu :: u16
  pa_id :: u16
  pa_listen :: "(u16 \<times> string) option"

datatype l2cap_msg_t =
    CID_ALLOCATED_EVT bt_address_t u16 u16
  | CHANNEL_CONNECTED_EVT bt_address_t l2cap_channel_param_t
  | CHANNEL_DISCONNECTED_EVT bt_address_t u16 u32
  | PACKET_RECEIVED_EVT bt_address_t u16 l2cap_pkt_t
  | PACKET_SENT_EVT bt_address_t u16

text \<open>The calls that leave the manager: into the stack, the pipes, and the applications.\<close>

datatype l2cap_out =
    Sal_listen l2cap_config_option_t | Sal_stop_listen u16 | Sal_connect bt_address_t l2cap_config_option_t
  | Sal_disconnect u16 | Sal_send u16 "u8 list" | Sal_give_credits u16 u16
  | Pipe_read_start ptr u16 | Pipe_read_stop ptr | Pipe_write ptr "u8 list" | Pipe_close ptr
  | On_connected ptr l2cap_connect_params_t | On_disconnected ptr bt_address_t u16 u32

record l2cap_manager_t =
  l2_callbacks :: cb_state
  channel_list :: "ptr list option"
  channels :: "ptr \<Rightarrow> l2cap_channel_t option"
  id_allocator :: "index_allocator_t option"
  psm_map :: u64
  pipe_waiting :: "(ptr \<times> ptr) list"
  pipe_writes :: "(ptr \<times> ptr) list"
  l2_loop :: "(l2cap_msg_t, unit) service_loop"
  l2_outs :: "l2cap_out list"

record l2cap_env =
  adapter_is_le_enabled :: bool
  has_on_connected :: "ptr \<Rightarrow> bool"
  has_on_disconnected :: "ptr \<Rightarrow> bool"
  sal_listen :: bt_status_t
  sal_connect :: bt_status_t
  sal_disconnect :: bt_status_t
  sal_give_credits :: bt_status_t
  read_start :: int
  read_stop :: int
  pipe_write :: int
  outgoing_mtu_limit :: u16

definition l2_emit :: "l2cap_out \<Rightarrow> l2cap_manager_t \<Rightarrow> l2cap_manager_t" where
  "l2_emit x m = m\<lparr>l2_outs := l2_outs m @ [x]\<rparr>"

definition put_channel :: "ptr \<Rightarrow> l2cap_channel_t \<Rightarrow> l2cap_manager_t \<Rightarrow> l2cap_manager_t" where
  "put_channel p ch m = m\<lparr>channels := (channels m)(p \<mapsto> ch)\<rparr>"

text \<open>A pipe that is closed no longer waits for its application.\<close>

definition close_pipe :: "ptr \<Rightarrow> l2cap_manager_t \<Rightarrow> l2cap_manager_t" where
  "close_pipe w m = l2_emit (Pipe_close w) (m\<lparr>pipe_waiting := filter (\<lambda>x. fst x \<noteq> w) (pipe_waiting m)\<rparr>)"

section \<open>Reports to the applications\<close>

definition l2cap_notify_connected ::
  "l2cap_env \<Rightarrow> l2cap_channel_t \<Rightarrow> l2cap_connect_params_t \<Rightarrow> l2cap_manager_t \<Rightarrow> l2cap_manager_t option" where
  "l2cap_notify_connected e ch param m =
     (if app_handle ch = NULL then Some m
      else do {
        r \<leftarrow> rcbks (l2_callbacks m) (app_handle ch);
        Some (if rc_remote r \<noteq> NULL \<and> rc_callbacks r \<noteq> NULL \<and> has_on_connected e (rc_callbacks r)
              then l2_emit (On_connected (rc_remote r) param) m else m) })"

definition l2cap_notify_disconnected ::
  "l2cap_env \<Rightarrow> l2cap_channel_t \<Rightarrow> u32 \<Rightarrow> l2cap_manager_t \<Rightarrow> l2cap_manager_t option" where
  "l2cap_notify_disconnected e ch reason m =
     (if app_handle ch = NULL then Some m
      else do {
        r \<leftarrow> rcbks (l2_callbacks m) (app_handle ch);
        Some (if rc_remote r \<noteq> NULL \<and> rc_callbacks r \<noteq> NULL \<and> has_on_disconnected e (rc_callbacks r)
              then l2_emit (On_disconnected (rc_remote r) (lc_addr ch) (lc_id ch) reason) m else m) })"

section \<open>Channels\<close>

definition no_endpoint :: l2cap_endpoint_param_t where
  "no_endpoint = \<lparr>ep_mtu = 0, ep_le_mps = 0, ep_credits = 0\<rparr>"

text \<open>\<open>q\<close> is the address \<open>calloc\<close> returns.\<close>

definition alloc_free_channel ::
  "ptr \<Rightarrow> ptr \<Rightarrow> bt_address_t option \<Rightarrow> u16 \<Rightarrow> l2cap_channel_role_t \<Rightarrow> l2cap_manager_t \<Rightarrow> (ptr \<times> l2cap_manager_t) option" where
  "alloc_free_channel q handle addr psm role m =
     (if addr \<noteq> None \<and> role = L2CAP_CHANNEL_ROLE_SERVER_LISTEN then Some (NULL, m)
      else do {
        al \<leftarrow> id_allocator m;
        (i, al) \<leftarrow> index_alloc al;
        if i < 0 then Some (NULL, m\<lparr>id_allocator := Some al\<rparr>)
        else if q = NULL
        then do { al \<leftarrow> index_free al (of_int i); Some (NULL, m\<lparr>id_allocator := Some al\<rparr>) }
        else do {
          ps \<leftarrow> channel_list m;
          Some (q, put_channel q
            \<lparr>lc_addr = (case addr of None \<Rightarrow> replicate 6 0 | Some a \<Rightarrow> a), local_cid = 0, lc_psm = psm, incoming = no_endpoint,
             outgoing = no_endpoint, tx_mtu = 0, tx_quota = 0, lc_id = of_int i, lc_role = role, channel_connected = False,
             lc_pipe = NULL, proxy_name = [], proxy_connected = False, app_handle = handle, rx_sdu = None, rx_list = [],
             rx_buf_size = 0\<rparr> (m\<lparr>id_allocator := Some al, channel_list := Some (ps @ [q])\<rparr>)) } })"

definition PSM_BIT_MASK :: "u16 \<Rightarrow> u64" where
  "PSM_BIT_MASK psm = push_bit (unat (psm - LE_PSM_DYNAMIC_MIN)) 1"

definition check_psm_available :: "u16 \<Rightarrow> l2cap_manager_t \<Rightarrow> bool" where
  "check_psm_available psm m =
     (if psm < LE_PSM_DYNAMIC_MIN \<or> LE_PSM_DYNAMIC_MIN + L2CAP_LE_DYNAMIC_PSM_NUM \<le> psm then False
      else psm_map m AND PSM_BIT_MASK psm = 0)"

text \<open>The search from \<open>n\<close> on; \<open>0\<close> when no PSM is left.\<close>

function alloc_psm_loop :: "nat \<Rightarrow> u64 \<Rightarrow> u16 \<times> u64" where
  "alloc_psm_loop n used_map =
     (if unat (LE_PSM_DYNAMIC_MIN + L2CAP_LE_DYNAMIC_PSM_NUM) \<le> n then (0, used_map)
      else if used_map AND PSM_BIT_MASK (of_nat n) = 0 then (of_nat n, used_map OR PSM_BIT_MASK (of_nat n))
      else alloc_psm_loop (Suc n) used_map)"
  by auto
termination
  by (relation "measure (\<lambda>(n, _). unat (LE_PSM_DYNAMIC_MIN + L2CAP_LE_DYNAMIC_PSM_NUM) - n)") auto

declare alloc_psm_loop.simps [simp del]

definition alloc_le_dynamic_psm :: "l2cap_manager_t \<Rightarrow> u16 \<times> l2cap_manager_t" where
  "alloc_le_dynamic_psm m =
     (case alloc_psm_loop (unat (LE_PSM_DYNAMIC_MIN + 10)) (psm_map m) of (psm, used_map) \<Rightarrow> (psm, m\<lparr>psm_map := used_map\<rparr>))"

text \<open>The walks over the channel list.\<close>

fun find_channel :: "(l2cap_channel_t \<Rightarrow> bool) \<Rightarrow> ptr list \<Rightarrow> l2cap_manager_t \<Rightarrow> ptr option option" where
  "find_channel P [] m = Some None"
| "find_channel P (p # ps) m = do { ch \<leftarrow> channels m p; if P ch then Some (Some p) else find_channel P ps m }"

definition find_in_list :: "(l2cap_channel_t \<Rightarrow> bool) \<Rightarrow> l2cap_manager_t \<Rightarrow> ptr option option" where
  "find_in_list P m = do { ps \<leftarrow> channel_list m; find_channel P ps m }"

definition find_l2cap_channel_by_cid :: "u16 \<Rightarrow> l2cap_manager_t \<Rightarrow> ptr option option" where
  "find_l2cap_channel_by_cid cid m = find_in_list (\<lambda>ch. local_cid ch = cid) m"

definition find_l2cap_channel_by_pipe :: "ptr \<Rightarrow> l2cap_manager_t \<Rightarrow> ptr option option" where
  "find_l2cap_channel_by_pipe pipe m = find_in_list (\<lambda>ch. lc_pipe ch = pipe) m"

definition find_l2cap_channel_by_id :: "u16 \<Rightarrow> l2cap_manager_t \<Rightarrow> ptr option option" where
  "find_l2cap_channel_by_id i m = find_in_list (\<lambda>ch. lc_id ch = i) m"

definition find_l2cap_channel_by_conn_param ::
  "bt_address_t option \<Rightarrow> u16 \<Rightarrow> l2cap_channel_role_t \<Rightarrow> bool \<Rightarrow> l2cap_manager_t \<Rightarrow> ptr option option" where
  "find_l2cap_channel_by_conn_param addr psm role is_connected m =
     (if role = L2CAP_CHANNEL_ROLE_CLIENT
      then (case addr of
              None \<Rightarrow> Some None
            | Some a \<Rightarrow> find_in_list (\<lambda>ch. lc_psm ch = psm \<and> lc_role ch = role \<and> channel_connected ch = is_connected \<and> lc_addr ch = a) m)
      else find_in_list (\<lambda>ch. lc_psm ch = psm \<and> lc_role ch = role \<and> channel_connected ch = is_connected) m)"

definition free_le_dynamic_psm :: "u16 \<Rightarrow> l2cap_manager_t \<Rightarrow> l2cap_manager_t option" where
  "free_le_dynamic_psm psm m =
     (if psm < LE_PSM_DYNAMIC_MIN \<or> LE_PSM_DYNAMIC_MIN + L2CAP_LE_DYNAMIC_PSM_NUM \<le> psm then Some m
      else do {
        listener \<leftarrow> find_l2cap_channel_by_conn_param None psm L2CAP_CHANNEL_ROLE_SERVER_LISTEN False m;
        if listener \<noteq> None then Some m
        else do {
          accepted \<leftarrow> find_l2cap_channel_by_conn_param None psm L2CAP_CHANNEL_ROLE_SERVER_ACCEPT True m;
          if accepted \<noteq> None then Some m
          else Some (l2_emit (Sal_stop_listen psm) (m\<lparr>psm_map := psm_map m AND NOT (PSM_BIT_MASK psm)\<rparr>)) } })"

definition free_l2cap_channel :: "ptr \<Rightarrow> l2cap_manager_t \<Rightarrow> l2cap_manager_t option" where
  "free_l2cap_channel p m =
     do { ch \<leftarrow> channels m p;
          let m = (if lc_pipe ch \<noteq> NULL then close_pipe (lc_pipe ch) m else m);
          al \<leftarrow> id_allocator m;
          al \<leftarrow> index_free al (lc_id ch);
          let m = m\<lparr>id_allocator := Some al\<rparr>;
          m \<leftarrow> (if lc_role ch \<noteq> L2CAP_CHANNEL_ROLE_CLIENT
                then free_le_dynamic_psm (lc_psm ch) (put_channel p (ch\<lparr>lc_psm := 0\<rparr>) m)
                else Some m);
          Some (m\<lparr>channels := (channels m)(p := None)\<rparr>) }"

text \<open>\<open>bt_list_remove\<close> and \<open>bt_list_remove_node\<close> on the channel list: the node is unlinked before the channel is freed.\<close>

definition remove_channel :: "ptr \<Rightarrow> l2cap_manager_t \<Rightarrow> l2cap_manager_t option" where
  "remove_channel p m =
     do { ps \<leftarrow> channel_list m;
          if p \<in> set ps then free_l2cap_channel p (m\<lparr>channel_list := Some (remove1 p ps)\<rparr>) else Some m }"

text \<open>The walk of \<open>l2cap_cleanup_app\<close>; the next node is read before a node is removed.\<close>

fun cleanup_app_loop :: "ptr \<Rightarrow> ptr list \<Rightarrow> l2cap_manager_t \<Rightarrow> l2cap_manager_t option" where
  "cleanup_app_loop app [] m = Some m"
| "cleanup_app_loop app (p # ps) m =
     do { ch \<leftarrow> channels m p;
          if app_handle ch = app
          then do { m \<leftarrow> remove_channel p (if channel_connected ch then l2_emit (Sal_disconnect (local_cid ch)) m else m);
                    cleanup_app_loop app ps m }
          else cleanup_app_loop app ps m }"

definition l2cap_cleanup_app :: "ptr \<Rightarrow> l2cap_manager_t \<Rightarrow> l2cap_manager_t option" where
  "l2cap_cleanup_app app m = do { ps \<leftarrow> channel_list m; cleanup_app_loop app ps m }"

section \<open>The data path\<close>

definition l2cap_receive_data_from_app ::
  "l2cap_env \<Rightarrow> ptr \<Rightarrow> u8 list \<Rightarrow> int \<Rightarrow> l2cap_manager_t \<Rightarrow> l2cap_manager_t option" where
  "l2cap_receive_data_from_app e pipe buf sz m =
     do { found \<leftarrow> find_l2cap_channel_by_pipe pipe m;
          case found of
            None \<Rightarrow> Some m
          | Some p \<Rightarrow> do {
              ch \<leftarrow> channels m p;
              if sz = 0 then Some m
              else if sz < 0
              then remove_channel p (if channel_connected ch then l2_emit (Sal_disconnect (local_cid ch)) m else m)
              else if \<not> channel_connected ch then Some m
              else if length buf < nat sz then None
              else let m = l2_emit (Sal_send (local_cid ch) (take (nat sz) buf)) m;
                       ch = ch\<lparr>tx_quota := tx_quota ch - 1\<rparr>;
                       m = put_channel p ch m
                   in Some (if tx_quota ch = 0 then l2_emit (Pipe_read_stop (lc_pipe ch)) m else m) } }"

definition proxy_connected_cb :: "l2cap_env \<Rightarrow> ptr \<Rightarrow> int \<Rightarrow> ptr \<Rightarrow> l2cap_manager_t \<Rightarrow> l2cap_manager_t option" where
  "proxy_connected_cb e pipe status p m =
     do { ch \<leftarrow> channels m p;
          if status \<noteq> 0 then remove_channel p m
          else let m = l2_emit (Pipe_read_start (lc_pipe ch) L2CAP_PIPE_DEF_READ_SIZE) (put_channel p (ch\<lparr>proxy_connected := True\<rparr>) m)
               in if read_start e \<noteq> 0 then remove_channel p m else Some m }"

fun decimal :: "nat \<Rightarrow> string" where
  "decimal n = (if n < 10 then [char_of (48 + n)] else decimal (n div 10) @ [char_of (48 + n mod 10)])"

declare decimal.simps [simp del]

text \<open>\<open>snprintf\<close> into the sixteen bytes of a name.\<close>

definition pipe_name :: "u16 \<Rightarrow> string" where
  "pipe_name i = take 15 (''l-srvpipe-'' @ decimal (unat i))"

text \<open>\<open>w\<close> is the pipe \<open>euv_pipe_open\<close> returns; it waits with the channel as user data.\<close>

definition prepare_data_path :: "ptr \<Rightarrow> ptr \<Rightarrow> l2cap_manager_t \<Rightarrow> (bool \<times> l2cap_manager_t) option" where
  "prepare_data_path w p m =
     do { ch \<leftarrow> channels m p;
          let m = put_channel p (ch\<lparr>proxy_name := pipe_name (lc_id ch), lc_pipe := w\<rparr>) m;
          if w = NULL then Some (False, m) else Some (True, m\<lparr>pipe_waiting := pipe_waiting m @ [(w, p)]\<rparr>) }"

definition l2cap_abort_channel :: "ptr \<Rightarrow> l2cap_manager_t \<Rightarrow> l2cap_manager_t option" where
  "l2cap_abort_channel p m =
     do { ch \<leftarrow> channels m p;
          let m = (if lc_pipe ch \<noteq> NULL
                   then put_channel p (ch\<lparr>proxy_connected := False, lc_pipe := NULL\<rparr>) (close_pipe (lc_pipe ch) m) else m);
          Some (if local_cid ch \<noteq> 0 then l2_emit (Sal_disconnect (local_cid ch)) m else m) }"

definition l2cap_config_param :: "l2cap_config_option_t \<Rightarrow> bool \<times> l2cap_config_option_t" where
  "l2cap_config_param opt =
     (if L2CAP_MAX_RX_BUF_SIZE < unat (co_mtu opt) then (False, opt)
      else if co_transport opt = BT_TRANSPORT_BLE
      then if co_le_mps opt = 0 then (False, opt)
           else if co_mtu opt < co_le_mps opt then (False, opt)
           else let min_credits = of_nat ((unat (co_mtu opt) + unat (co_le_mps opt) - 1) div unat (co_le_mps opt));
                    max_credits = of_nat (L2CAP_MAX_RX_BUF_SIZE div unat (co_le_mps opt))
                in (True, if co_init_credits opt < min_credits then opt\<lparr>co_init_credits := min_credits\<rparr>
                          else if max_credits < co_init_credits opt then opt\<lparr>co_init_credits := max_credits\<rparr>
                          else opt)
      else (True, opt))"

definition l2cap_add_incoming_credits :: "l2cap_env \<Rightarrow> ptr \<Rightarrow> l2cap_manager_t \<Rightarrow> l2cap_manager_t option" where
  "l2cap_add_incoming_credits e p m =
     do { ch \<leftarrow> channels m p;
          if ep_le_mps (incoming ch) = 0 then None
          else let remote_credits = rx_buf_size ch div ep_le_mps (incoming ch)
               in if remote_credits \<le> ep_credits (incoming ch) then Some m
                  else let m = l2_emit (Sal_give_credits (local_cid ch) (remote_credits - ep_credits (incoming ch))) m
                       in if sal_give_credits e \<noteq> BT_STATUS_SUCCESS then Some m
                          else Some (put_channel p (ch\<lparr>incoming := (incoming ch)\<lparr>ep_credits := remote_credits\<rparr>\<rparr>) m) }"

definition refill_credits :: "l2cap_env \<Rightarrow> ptr \<Rightarrow> l2cap_manager_t \<Rightarrow> l2cap_manager_t option" where
  "refill_credits e p m =
     do { ch \<leftarrow> channels m p;
          if ep_credits (incoming ch) < L2CAP_LE_CREDITS_LOW_WATERMARK then l2cap_add_incoming_credits e p m else Some m }"

text \<open>\<open>buf\<close> is the buffer whose write has ended; \<open>rx_buf_size\<close> is added to at sixteen bits.\<close>

definition l2cap_send_sdu_to_app_cb :: "l2cap_env \<Rightarrow> ptr \<Rightarrow> ptr \<Rightarrow> int \<Rightarrow> l2cap_manager_t \<Rightarrow> l2cap_manager_t option" where
  "l2cap_send_sdu_to_app_cb e pipe buf status m =
     do { found \<leftarrow> find_l2cap_channel_by_pipe pipe m;
          case found of
            None \<Rightarrow> Some m
          | Some p \<Rightarrow>
            if status \<noteq> 0 then l2cap_abort_channel p m
            else do {
              ch \<leftarrow> channels m p;
              case rx_list ch of
                [] \<Rightarrow> Some m
              | sdu # rest \<Rightarrow>
                if pk_buf sdu \<noteq> buf then None
                else let sz = rx_buf_size ch + len_total sdu;
                         sz = (if L2CAP_MAX_RX_BUF_SIZE < unat sz then of_nat L2CAP_MAX_RX_BUF_SIZE else sz)
                     in refill_credits e p (put_channel p (ch\<lparr>rx_list := rest, rx_buf_size := sz\<rparr>) m) } }"

definition l2cap_send_sdu_to_app :: "l2cap_env \<Rightarrow> ptr \<Rightarrow> l2cap_manager_t \<Rightarrow> l2cap_manager_t option" where
  "l2cap_send_sdu_to_app e p m =
     do { ch \<leftarrow> channels m p;
          sdu \<leftarrow> rx_sdu ch;
          if length (pk_data sdu) < unat (len_total sdu) then None
          else let ch = ch\<lparr>rx_sdu := None\<rparr>;
                   m = l2_emit (Pipe_write (lc_pipe ch) (take (unat (len_total sdu)) (pk_data sdu))) m
               in if pipe_write e \<noteq> 0 then l2cap_abort_channel p (put_channel p ch m)
                  else Some (put_channel p (ch\<lparr>rx_list := rx_list ch @ [sdu]\<rparr>)
                         (m\<lparr>pipe_writes := pipe_writes m @ [(lc_pipe ch, pk_buf sdu)]\<rparr>)) }"

section \<open>Events of the stack\<close>

definition handle_cid_allocated :: "bt_address_t \<Rightarrow> u16 \<Rightarrow> u16 \<Rightarrow> l2cap_manager_t \<Rightarrow> l2cap_manager_t option" where
  "handle_cid_allocated addr psm cid m =
     do { found \<leftarrow> find_l2cap_channel_by_conn_param (Some addr) psm L2CAP_CHANNEL_ROLE_CLIENT False m;
          case found of
            None \<Rightarrow> Some m
          | Some p \<Rightarrow> do { ch \<leftarrow> channels m p; Some (put_channel p (ch\<lparr>local_cid := cid\<rparr>) m) } }"

text \<open>The end of \<open>handle_channel_conneted\<close>: the parameters of the connection, the restart of the reader, and the report.
  \<open>listener\<close> is the channel that took over listening.\<close>

definition channel_ready ::
  "l2cap_env \<Rightarrow> l2cap_channel_param_t \<Rightarrow> ptr \<Rightarrow> ptr option \<Rightarrow> l2cap_manager_t \<Rightarrow> l2cap_manager_t option" where
  "channel_ready e param p listener m =
     do { ch \<leftarrow> channels m p;
          let sz = unat (ep_credits (cp_incoming param)) * unat (ep_le_mps (cp_incoming param));
          let ch = ch\<lparr>incoming := cp_incoming param, outgoing := cp_outgoing param,
                tx_mtu := min (ep_mtu (cp_outgoing param)) (outgoing_mtu_limit e), tx_quota := L2CAP_TX_QUOTA,
                rx_buf_size := (if L2CAP_MAX_RX_BUF_SIZE < sz then of_nat L2CAP_MAX_RX_BUF_SIZE else of_nat sz)\<rparr>;
          let m = l2_emit (Pipe_read_stop (lc_pipe ch)) (put_channel p ch m);
          if read_stop e \<noteq> 0 then l2cap_abort_channel p m
          else let m = l2_emit (Pipe_read_start (lc_pipe ch) (tx_mtu ch)) m
               in if read_start e \<noteq> 0 then l2cap_abort_channel p m
                  else do {
                    let m = put_channel p (ch\<lparr>channel_connected := True\<rparr>) m;
                    announced \<leftarrow> (case listener of
                                    None \<Rightarrow> Some None
                                  | Some q \<Rightarrow> do { new \<leftarrow> channels m q; Some (Some (lc_id new, proxy_name new)) });
                    l2cap_notify_connected e ch
                      \<lparr>pa_addr = lc_addr ch, pa_cid = local_cid ch, pa_psm = lc_psm ch, pa_incoming_mtu = ep_mtu (incoming ch),
                       pa_outgoing_mtu = ep_mtu (outgoing ch), pa_id = lc_id ch, pa_listen = announced\<rparr> m } }"

definition handle_channel_conneted ::
  "l2cap_env \<Rightarrow> ptr \<Rightarrow> ptr \<Rightarrow> bt_address_t \<Rightarrow> l2cap_channel_param_t \<Rightarrow> l2cap_manager_t \<Rightarrow> l2cap_manager_t option" where
  "handle_channel_conneted e q w addr param m =
     do { let role = (if cp_is_client param then L2CAP_CHANNEL_ROLE_CLIENT else L2CAP_CHANNEL_ROLE_SERVER_LISTEN);
          found \<leftarrow> find_l2cap_channel_by_conn_param (Some addr) (cp_psm param) role False m;
          case found of
            None \<Rightarrow> Some (if cp_local_cid param \<noteq> 0 then l2_emit (Sal_disconnect (cp_local_cid param)) m else m)
          | Some p \<Rightarrow> do {
              ch \<leftarrow> channels m p;
              if \<not> proxy_connected ch then l2cap_abort_channel p m
              else if role = L2CAP_CHANNEL_ROLE_SERVER_LISTEN
              then do {
                let m = put_channel p (ch\<lparr>lc_addr := addr, local_cid := cp_local_cid param, lc_role := L2CAP_CHANNEL_ROLE_SERVER_ACCEPT\<rparr>) m;
                (new, m) \<leftarrow> alloc_free_channel q (app_handle ch) None (lc_psm ch) L2CAP_CHANNEL_ROLE_SERVER_LISTEN m;
                if new = NULL then Some m
                else do {
                  (ok, m) \<leftarrow> prepare_data_path w new m;
                  if \<not> ok then remove_channel new m else channel_ready e param p (Some new) m } }
              else channel_ready e param p None m } }"

definition handle_channel_disconneted :: "l2cap_env \<Rightarrow> bt_address_t \<Rightarrow> u16 \<Rightarrow> u32 \<Rightarrow> l2cap_manager_t \<Rightarrow> l2cap_manager_t option" where
  "handle_channel_disconneted e addr cid reason m =
     do { found \<leftarrow> find_l2cap_channel_by_cid cid m;
          case found of
            None \<Rightarrow> Some m
          | Some p \<Rightarrow> do { ch \<leftarrow> channels m p; m \<leftarrow> l2cap_notify_disconnected e ch reason m; remove_channel p m } }"

text \<open>Appending a segment to the SDU under reassembly: the write has to stay within its buffer.\<close>

definition append_segment :: "l2cap_pkt_t \<Rightarrow> l2cap_pkt_t \<Rightarrow> l2cap_pkt_t option" where
  "append_segment sdu packet =
     (let off = unat (len_received sdu); n = unat (len_received packet)
      in if length (pk_data sdu) < off + n \<or> length (pk_data packet) < n then None
         else Some (sdu\<lparr>pk_data := take off (pk_data sdu) @ take n (pk_data packet) @ drop (off + n) (pk_data sdu),
                        len_received := len_received sdu + len_received packet\<rparr>))"

definition handle_packet_received :: "l2cap_env \<Rightarrow> bt_address_t \<Rightarrow> u16 \<Rightarrow> l2cap_pkt_t \<Rightarrow> l2cap_manager_t \<Rightarrow> l2cap_manager_t option" where
  "handle_packet_received e addr cid packet m =
     do { found \<leftarrow> find_l2cap_channel_by_cid cid m;
          case found of
            None \<Rightarrow> Some m
          | Some p \<Rightarrow> do {
              ch \<leftarrow> channels m p;
              if ep_le_mps (incoming ch) < len_received packet then l2cap_abort_channel p m
              else if ep_mtu (incoming ch) < len_total packet then l2cap_abort_channel p m
              else if ep_credits (incoming ch) = 0 then l2cap_abort_channel p m
              else if \<not> proxy_connected ch \<or> lc_pipe ch = NULL then Some m
              else do {
                m \<leftarrow> refill_credits e p (put_channel p
                  (ch\<lparr>incoming := (incoming ch)\<lparr>ep_credits := ep_credits (incoming ch) - 1\<rparr>,
                      rx_buf_size := rx_buf_size ch - len_received packet\<rparr>) m);
                ch \<leftarrow> channels m p;
                case rx_sdu ch of
                  None \<Rightarrow>
                    let m = put_channel p (ch\<lparr>rx_sdu := Some packet\<rparr>) m
                    in if len_received packet = len_total packet then l2cap_send_sdu_to_app e p m else Some m
                | Some sdu \<Rightarrow>
                    if unat (len_total sdu) < unat (len_received sdu) + unat (len_received packet)
                    then l2cap_abort_channel p (put_channel p (ch\<lparr>rx_sdu := None\<rparr>) m)
                    else do {
                      sdu \<leftarrow> append_segment sdu packet;
                      let m = put_channel p (ch\<lparr>rx_sdu := Some sdu\<rparr>) m;
                      if len_received sdu = len_total sdu then l2cap_send_sdu_to_app e p m else Some m } } } }"

definition handle_packet_sent :: "u16 \<Rightarrow> l2cap_manager_t \<Rightarrow> l2cap_manager_t option" where
  "handle_packet_sent cid m =
     do { found \<leftarrow> find_l2cap_channel_by_cid cid m;
          case found of
            None \<Rightarrow> Some m
          | Some p \<Rightarrow> do {
              ch \<leftarrow> channels m p;
              let m = (if lc_pipe ch \<noteq> NULL \<and> tx_quota ch = 0 then l2_emit (Pipe_read_start (lc_pipe ch) (tx_mtu ch)) m else m);
              Some (put_channel p (ch\<lparr>tx_quota := tx_quota ch + 1\<rparr>) m) } }"

definition handle_l2cap_event :: "l2cap_env \<Rightarrow> ptr \<Rightarrow> ptr \<Rightarrow> l2cap_msg_t \<Rightarrow> l2cap_manager_t \<Rightarrow> l2cap_manager_t option" where
  "handle_l2cap_event e q w msg m =
     (case msg of
        CID_ALLOCATED_EVT addr psm cid \<Rightarrow> handle_cid_allocated addr psm cid m
      | CHANNEL_CONNECTED_EVT addr param \<Rightarrow> handle_channel_conneted e q w addr param m
      | CHANNEL_DISCONNECTED_EVT addr cid reason \<Rightarrow> handle_channel_disconneted e addr cid reason m
      | PACKET_RECEIVED_EVT addr cid packet \<Rightarrow> handle_packet_received e addr cid packet m
      | PACKET_SENT_EVT addr cid \<Rightarrow> handle_packet_sent cid m)"

definition l2_post :: "l2cap_msg_t \<Rightarrow> l2cap_manager_t \<Rightarrow> l2cap_manager_t" where
  "l2_post msg m = m\<lparr>l2_loop := do_in_service_loop msg (l2_loop m)\<rparr>"

text \<open>The callbacks the stack calls; \<open>mem\<close> says that the message is allocated.\<close>

definition l2cap_on_cid_allocated :: "bool \<Rightarrow> bt_address_t \<Rightarrow> u16 \<Rightarrow> u16 \<Rightarrow> l2cap_manager_t \<Rightarrow> l2cap_manager_t" where
  "l2cap_on_cid_allocated mem addr psm cid m = (if mem then l2_post (CID_ALLOCATED_EVT addr psm cid) m else m)"

definition l2cap_on_channel_connected :: "bool \<Rightarrow> bt_address_t \<Rightarrow> l2cap_channel_param_t \<Rightarrow> l2cap_manager_t \<Rightarrow> l2cap_manager_t" where
  "l2cap_on_channel_connected mem addr param m = (if mem then l2_post (CHANNEL_CONNECTED_EVT addr param) m else m)"

definition l2cap_on_channel_disconnected :: "bool \<Rightarrow> bt_address_t \<Rightarrow> u16 \<Rightarrow> u32 \<Rightarrow> l2cap_manager_t \<Rightarrow> l2cap_manager_t" where
  "l2cap_on_channel_disconnected mem addr cid reason m = (if mem then l2_post (CHANNEL_DISCONNECTED_EVT addr cid reason) m else m)"

definition l2cap_on_packet_sent :: "bool \<Rightarrow> bt_address_t \<Rightarrow> u16 \<Rightarrow> l2cap_manager_t \<Rightarrow> l2cap_manager_t" where
  "l2cap_on_packet_sent mem addr cid m = (if mem then l2_post (PACKET_SENT_EVT addr cid) m else m)"

text \<open>\<open>buf\<close> is the address of the data of the new packet, \<open>NULL\<close> when it is not allocated.\<close>

definition l2cap_on_packet_received ::
  "bool \<Rightarrow> ptr \<Rightarrow> bt_address_t \<Rightarrow> u16 \<Rightarrow> u8 list \<Rightarrow> u16 \<Rightarrow> l2cap_manager_t \<Rightarrow> l2cap_manager_t option" where
  "l2cap_on_packet_received mem buf addr cid packet_data packet_size m =
     (if \<not> mem \<or> buf = NULL then Some m
      else if length packet_data < unat packet_size then None
      else Some (l2_post (PACKET_RECEIVED_EVT addr cid
             \<lparr>pk_buf = buf, len_total = packet_size, len_received = packet_size, pk_data = take (unat packet_size) packet_data\<rparr>) m))"

text \<open>\<open>junk\<close> is what the allocated bytes hold before they are written.\<close>

definition l2cap_on_segment_received ::
  "bool \<Rightarrow> ptr \<Rightarrow> u8 \<Rightarrow> bt_address_t option \<Rightarrow> u16 \<Rightarrow> u8 list option \<Rightarrow> u16 \<Rightarrow> u16 \<Rightarrow> u16 \<Rightarrow> l2cap_manager_t
    \<Rightarrow> (bool \<times> l2cap_manager_t) option" where
  "l2cap_on_segment_received mem buf junk addr cid seg seg_len sdu_len seg_off m =
     (case (addr, seg) of
        (Some a, Some bytes) \<Rightarrow>
          if seg_len = 0 \<or> cid < L2CAP_CID_DYNAMIC_MIN \<or> 0 < sdu_len \<and> sdu_len < seg_len \<or> \<not> mem \<or> buf = NULL then Some (False, m)
          else let data_len = (if seg_off \<noteq> 0 then seg_len else sdu_len)
               in if data_len < seg_len \<or> length bytes < unat seg_len then None
                  else Some (True, l2_post (PACKET_RECEIVED_EVT a cid
                         \<lparr>pk_buf = buf, len_total = sdu_len, len_received = seg_len,
                          pk_data = take (unat seg_len) bytes @ replicate (unat data_len - unat seg_len) junk\<rparr>) m)
      | _ \<Rightarrow> Some (False, m))"

section \<open>The interface\<close>

definition l2cap_register_callbacks :: "l2cap_env \<Rightarrow> ptr \<Rightarrow> ptr \<Rightarrow> l2cap_manager_t \<Rightarrow> (ptr \<times> l2cap_manager_t) option" where
  "l2cap_register_callbacks e remote cbs m =
     (if \<not> adapter_is_le_enabled e then Some (NULL, m)
      else do { (h, s) \<leftarrow> bt_remote_callbacks_register (l2_callbacks m) remote cbs; Some (h, m\<lparr>l2_callbacks := s\<rparr>) })"

definition l2cap_unregister_callbacks :: "l2cap_env \<Rightarrow> ptr \<Rightarrow> l2cap_manager_t \<Rightarrow> (bool \<times> l2cap_manager_t) option" where
  "l2cap_unregister_callbacks e cookie m =
     (if \<not> adapter_is_le_enabled e then Some (True, m)
      else if cookie = NULL then Some (False, m)
      else do {
        m \<leftarrow> l2cap_cleanup_app cookie m;
        (r, s) \<leftarrow> bt_remote_callbacks_unregister (l2_callbacks m) cookie;
        Some (r \<noteq> None, m\<lparr>l2_callbacks := s\<rparr>) })"

definition l2cap_listen_channel ::
  "l2cap_env \<Rightarrow> ptr \<Rightarrow> ptr \<Rightarrow> ptr \<Rightarrow> l2cap_config_option_t \<Rightarrow> l2cap_manager_t
    \<Rightarrow> (bt_status_t \<times> l2cap_config_option_t \<times> l2cap_manager_t) option" where
  "l2cap_listen_channel e q w handle opt m =
     (if handle = NULL then Some (BT_STATUS_PARM_INVALID, opt, m)
      else if \<not> adapter_is_le_enabled e then Some (BT_STATUS_NOT_ENABLED, opt, m)
      else if co_transport opt \<noteq> BT_TRANSPORT_BLE then Some (BT_STATUS_UNSUPPORTED, opt, m)
      else case l2cap_config_param opt of (valid, opt) \<Rightarrow>
        if \<not> valid then Some (BT_STATUS_PARM_INVALID, opt, m)
        else case (if co_psm opt = 0 then alloc_le_dynamic_psm m
                   else if check_psm_available (co_psm opt) m
                   then (co_psm opt, m\<lparr>psm_map := psm_map m OR PSM_BIT_MASK (co_psm opt)\<rparr>)
                   else (0, m)) of (psm, m) \<Rightarrow>
        if psm = 0 then Some (BT_STATUS_NOMEM, opt, m)
        else do {
          let opt = opt\<lparr>co_psm := psm\<rparr>;
          (p, m) \<leftarrow> alloc_free_channel q handle None psm L2CAP_CHANNEL_ROLE_SERVER_LISTEN m;
          if p = NULL then Some (BT_STATUS_NOMEM, opt, m)
          else do {
            (ok, m) \<leftarrow> prepare_data_path w p m;
            if \<not> ok then do { m \<leftarrow> remove_channel p m; Some (BT_STATUS_NOMEM, opt, m) }
            else do {
              ch \<leftarrow> channels m p;
              let opt = opt\<lparr>co_id := lc_id ch, co_proxy_name := proxy_name ch\<rparr>;
              let m = l2_emit (Sal_listen opt) m;
              if sal_listen e \<noteq> BT_STATUS_SUCCESS
              then do { m \<leftarrow> remove_channel p m; Some (sal_listen e, opt, m) }
              else Some (BT_STATUS_SUCCESS, opt, m) } } })"

definition l2cap_connect_channel ::
  "l2cap_env \<Rightarrow> ptr \<Rightarrow> ptr \<Rightarrow> ptr \<Rightarrow> bt_address_t \<Rightarrow> l2cap_config_option_t \<Rightarrow> l2cap_manager_t
    \<Rightarrow> (bt_status_t \<times> l2cap_config_option_t \<times> l2cap_manager_t) option" where
  "l2cap_connect_channel e q w handle addr opt m =
     (if handle = NULL then Some (BT_STATUS_PARM_INVALID, opt, m)
      else if \<not> adapter_is_le_enabled e then Some (BT_STATUS_NOT_ENABLED, opt, m)
      else case l2cap_config_param opt of (valid, opt) \<Rightarrow>
        if \<not> valid then Some (BT_STATUS_PARM_INVALID, opt, m)
        else do {
          (p, m) \<leftarrow> alloc_free_channel q handle (Some addr) (co_psm opt) L2CAP_CHANNEL_ROLE_CLIENT m;
          if p = NULL then Some (BT_STATUS_NOMEM, opt, m)
          else do {
            (ok, m) \<leftarrow> prepare_data_path w p m;
            if \<not> ok then do { m \<leftarrow> remove_channel p m; Some (BT_STATUS_NOMEM, opt, m) }
            else do {
              ch \<leftarrow> channels m p;
              let opt = opt\<lparr>co_id := lc_id ch, co_proxy_name := proxy_name ch\<rparr>;
              let m = l2_emit (Sal_connect addr opt) m;
              if sal_connect e \<noteq> BT_STATUS_SUCCESS
              then do { m \<leftarrow> remove_channel p m; Some (sal_connect e, opt, m) }
              else Some (BT_STATUS_SUCCESS, opt, m) } } })"

definition l2cap_disconnect_channel :: "l2cap_env \<Rightarrow> ptr \<Rightarrow> u16 \<Rightarrow> l2cap_manager_t \<Rightarrow> (bt_status_t \<times> l2cap_manager_t) option" where
  "l2cap_disconnect_channel e handle i m =
     (if \<not> adapter_is_le_enabled e then Some (BT_STATUS_NOT_ENABLED, m)
      else do {
        found \<leftarrow> find_l2cap_channel_by_id i m;
        case found of
          None \<Rightarrow> Some (BT_STATUS_NOT_FOUND, m)
        | Some p \<Rightarrow> do {
            ch \<leftarrow> channels m p;
            if app_handle ch \<noteq> handle then Some (BT_STATUS_UNHANDLED, m)
            else if local_cid ch = 0 then Some (BT_STATUS_NOT_READY, m)
            else Some (sal_disconnect e, l2_emit (Sal_disconnect (local_cid ch)) m) } })"

definition l2cap_stop_listen_channel ::
  "l2cap_env \<Rightarrow> ptr \<Rightarrow> bt_transport_t \<Rightarrow> u16 \<Rightarrow> l2cap_manager_t \<Rightarrow> (bt_status_t \<times> l2cap_manager_t) option" where
  "l2cap_stop_listen_channel e handle transport psm m =
     (if \<not> adapter_is_le_enabled e then Some (BT_STATUS_NOT_ENABLED, m)
      else if transport \<noteq> BT_TRANSPORT_BLE then Some (BT_STATUS_UNSUPPORTED, m)
      else do {
        found \<leftarrow> find_l2cap_channel_by_conn_param None psm L2CAP_CHANNEL_ROLE_SERVER_LISTEN False m;
        case found of
          None \<Rightarrow> Some (BT_STATUS_NOT_FOUND, m)
        | Some p \<Rightarrow> do {
            ch \<leftarrow> channels m p;
            if app_handle ch \<noteq> handle then Some (BT_STATUS_UNHANDLED, m)
            else do { m \<leftarrow> remove_channel p m; Some (BT_STATUS_SUCCESS, m) } } })"

text \<open>\<open>cbs\<close> is the registry of callbacks, if it is allocated, and \<open>list_mem\<close> the outcome for the list.\<close>

definition l2cap_service_init :: "cb_state option \<Rightarrow> bool \<Rightarrow> bt_status_t \<times> l2cap_manager_t option" where
  "l2cap_service_init cbs list_mem =
     (case cbs of
        None \<Rightarrow> (BT_STATUS_NOMEM, None)
      | Some s \<Rightarrow>
        if \<not> list_mem then (BT_STATUS_NOMEM, None)
        else (BT_STATUS_SUCCESS, Some
          \<lparr>l2_callbacks = s, channel_list = Some [], channels = (\<lambda>_. None), id_allocator = Some (index_allocator_create L2CAP_CHANNEL_MAX_NUM),
           psm_map = 0, pipe_waiting = [], pipe_writes = [], l2_loop = service_loop_init, l2_outs = []\<rparr>))"

fun clear_channels :: "ptr list \<Rightarrow> l2cap_manager_t \<Rightarrow> l2cap_manager_t option" where
  "clear_channels [] m = Some m"
| "clear_channels (p # ps) m = do { m \<leftarrow> remove_channel p m; clear_channels ps m }"

definition l2cap_service_cleanup :: "l2cap_manager_t \<Rightarrow> l2cap_manager_t option" where
  "l2cap_service_cleanup m =
     do { mem \<leftarrow> bt_callbacks_list_free (l2_callbacks m);
          let m = m\<lparr>l2_callbacks := (l2_callbacks m)\<lparr>cmem := mem, rcbks := (\<lambda>_. None)\<rparr>\<rparr>;
          ps \<leftarrow> channel_list m;
          m \<leftarrow> clear_channels ps m;
          Some (m\<lparr>channel_list := None, id_allocator := None, psm_map := 0\<rparr>) }"

end
