(* ===== verification/L2cap_Wf.thy ===== *)
theory L2cap_Wf
  imports L2cap_Service
begin

text \<open>
  The histories of the L2CAP manager: the calls of the applications, the reports of the stack, the messages of the
  service loop, and the callbacks of the pipes. A manager is well formed when list, heap, allocator, pipes,
  PSM map and receive buffers agree. The lemmas show that every operation runs without a fault on a
  well-formed manager and leaves one, for the inputs that the stack and the pipes can give.
\<close>

unbundle bit_operations_syntax

section \<open>Histories\<close>

datatype l2cap_input =
    In_register ptr ptr | In_unregister ptr
  | In_listen ptr ptr ptr l2cap_config_option_t | In_connect ptr ptr ptr bt_address_t l2cap_config_option_t
  | In_disconnect ptr u16 | In_stop_listen ptr bt_transport_t u16
  | In_cid bool bt_address_t u16 u16 | In_connected bool bt_address_t l2cap_channel_param_t
  | In_disconnected bool bt_address_t u16 u32 | In_sent bool bt_address_t u16
  | In_packet bool ptr bt_address_t u16 "u8 list" u16
  | In_segment bool ptr u8 "bt_address_t option" u16 "u8 list option" u16 u16 u16
  | In_message ptr ptr | In_proxy ptr int | In_data ptr "u8 list" int | In_written ptr int

text \<open>One input. A pipe that waits for its application calls back once; the writes of a pipe end in their order.\<close>

fun l2_exec :: "l2cap_env \<Rightarrow> l2cap_input \<Rightarrow> l2cap_manager_t \<Rightarrow> l2cap_manager_t option" where
  "l2_exec e (In_register remote cbs) m = map_option snd (l2cap_register_callbacks e remote cbs m)"
| "l2_exec e (In_unregister cookie) m = map_option snd (l2cap_unregister_callbacks e cookie m)"
| "l2_exec e (In_listen q w handle opt) m = map_option (snd \<circ> snd) (l2cap_listen_channel e q w handle opt m)"
| "l2_exec e (In_connect q w handle addr opt) m = map_option (snd \<circ> snd) (l2cap_connect_channel e q w handle addr opt m)"
| "l2_exec e (In_disconnect handle i) m = map_option snd (l2cap_disconnect_channel e handle i m)"
| "l2_exec e (In_stop_listen handle transport psm) m = map_option snd (l2cap_stop_listen_channel e handle transport psm m)"
| "l2_exec e (In_cid mem addr psm cid) m = Some (l2cap_on_cid_allocated mem addr psm cid m)"
| "l2_exec e (In_connected mem addr param) m = Some (l2cap_on_channel_connected mem addr param m)"
| "l2_exec e (In_disconnected mem addr cid reason) m = Some (l2cap_on_channel_disconnected mem addr cid reason m)"
| "l2_exec e (In_sent mem addr cid) m = Some (l2cap_on_packet_sent mem addr cid m)"
| "l2_exec e (In_packet mem buf addr cid bytes n) m = l2cap_on_packet_received mem buf addr cid bytes n m"
| "l2_exec e (In_segment mem buf junk addr cid seg seg_len sdu_len seg_off) m =
     map_option snd (l2cap_on_segment_received mem buf junk addr cid seg seg_len sdu_len seg_off m)"
| "l2_exec e (In_message q w) m =
     (case msg_queue (l2_loop m) of
        [] \<Rightarrow> Some m
      | x # xs \<Rightarrow> handle_l2cap_event e q w x (m\<lparr>l2_loop := (l2_loop m)\<lparr>msg_queue := xs\<rparr>\<rparr>))"
| "l2_exec e (In_proxy w status) m =
     (case map_of (pipe_waiting m) w of
        None \<Rightarrow> Some m
      | Some p \<Rightarrow> proxy_connected_cb e w status p (m\<lparr>pipe_waiting := filter (\<lambda>x. fst x \<noteq> w) (pipe_waiting m)\<rparr>))"
| "l2_exec e (In_data w buf sz) m = l2cap_receive_data_from_app e w buf sz m"
| "l2_exec e (In_written w status) m =
     (case find (\<lambda>x. fst x = w) (pipe_writes m) of
        None \<Rightarrow> Some m
      | Some (_, buf) \<Rightarrow>
          l2cap_send_sdu_to_app_cb e w buf status (m\<lparr>pipe_writes := remove_first (\<lambda>x. fst x = w) (pipe_writes m)\<rparr>))"

text \<open>What the environment promises. An allocation returns an address that is not in use, and so does the opening of a pipe; an
  application uses the handle it was given.
  The stack reports an endpoint whose credits fit the receive buffer, the length of the SDU with every segment, buffers of the length it says,
  and the segments of an SDU in their order: a segment that is not the first one finds an SDU under reassembly, unless
  the channel was given up.\<close>

definition fresh_pipe :: "ptr \<Rightarrow> l2cap_manager_t \<Rightarrow> bool" where
  "fresh_pipe w m \<longleftrightarrow> w = NULL \<or>
     w \<notin> fst ` set (pipe_waiting m) \<and> w \<notin> fst ` set (pipe_writes m) \<and>
     (case channel_list m of
        None \<Rightarrow> True
      | Some ps \<Rightarrow> \<forall>p \<in> set ps. case channels m p of None \<Rightarrow> True | Some ch \<Rightarrow> lc_pipe ch \<noteq> w)"

definition endpoint_ok :: "l2cap_endpoint_param_t \<Rightarrow> bool" where
  "endpoint_ok ep \<longleftrightarrow> ep_le_mps ep \<noteq> 0 \<and> unat (ep_credits ep) * unat (ep_le_mps ep) \<le> L2CAP_MAX_RX_BUF_SIZE"

definition in_order :: "u16 \<Rightarrow> l2cap_pkt_t \<Rightarrow> l2cap_manager_t \<Rightarrow> bool" where
  "in_order cid packet m \<longleftrightarrow>
     unat (len_total packet) \<le> length (pk_data packet) \<or>
     (case find_l2cap_channel_by_cid cid m of
        Some (Some p) \<Rightarrow> (case channels m p of None \<Rightarrow> True | Some ch \<Rightarrow> lc_pipe ch = NULL \<or> rx_sdu ch \<noteq> None)
      | _ \<Rightarrow> True)"

fun l2_admitted :: "l2cap_input \<Rightarrow> l2cap_manager_t \<Rightarrow> bool" where
  "l2_admitted (In_register remote cbs) m \<longleftrightarrow> 2 \<le> budget (cmem (l2_callbacks m))"
| "l2_admitted (In_listen q w handle opt) m \<longleftrightarrow>
     channels m q = None \<and> fresh_pipe w m \<and> (handle = NULL \<or> rcbks (l2_callbacks m) handle \<noteq> None)"
| "l2_admitted (In_connect q w handle addr opt) m \<longleftrightarrow>
     channels m q = None \<and> fresh_pipe w m \<and> (handle = NULL \<or> rcbks (l2_callbacks m) handle \<noteq> None)"
| "l2_admitted (In_connected mem addr param) m \<longleftrightarrow> endpoint_ok (cp_incoming param)"
| "l2_admitted (In_packet mem buf addr cid bytes n) m \<longleftrightarrow> unat n \<le> length bytes"
| "l2_admitted (In_segment mem buf junk addr cid seg seg_len sdu_len seg_off) m \<longleftrightarrow>
     sdu_len \<noteq> 0 \<and> (case seg of None \<Rightarrow> True | Some bytes \<Rightarrow> unat seg_len \<le> length bytes)"
| "l2_admitted (In_message q w) m \<longleftrightarrow>
     channels m q = None \<and> fresh_pipe w m \<and>
     (case msg_queue (l2_loop m) of PACKET_RECEIVED_EVT addr cid packet # xs \<Rightarrow> in_order cid packet m | _ \<Rightarrow> True)"
| "l2_admitted (In_data w buf sz) m \<longleftrightarrow> w \<noteq> NULL \<and> nat sz \<le> length buf"
| "l2_admitted (In_written w status) m \<longleftrightarrow> w \<noteq> NULL"
| "l2_admitted _ m \<longleftrightarrow> True"

text \<open>The managers that arise from an initialised one.\<close>

inductive l2cap_reach :: "l2cap_manager_t \<Rightarrow> bool" where
  init: "cb_inv s ds \<Longrightarrow> l2cap_service_init (Some s) True = (BT_STATUS_SUCCESS, Some m) \<Longrightarrow> l2cap_reach m"
| step: "l2cap_reach m \<Longrightarrow> l2_admitted i m \<Longrightarrow> l2_exec e i m = Some m' \<Longrightarrow> l2cap_reach m'"

section \<open>Well-formed managers\<close>

definition heap_ok :: "ptr list option \<Rightarrow> (ptr \<Rightarrow> l2cap_channel_t option) \<Rightarrow> bool" where
  "heap_ok lo C \<longleftrightarrow> (\<exists>ps. lo = Some ps \<and> distinct ps \<and> NULL \<notin> set ps \<and> (\<forall>p. C p \<noteq> None \<longleftrightarrow> p \<in> set ps))"

definition ids_ok :: "index_allocator_t option \<Rightarrow> (ptr \<Rightarrow> l2cap_channel_t option) \<Rightarrow> bool" where
  "ids_ok ao C \<longleftrightarrow> (\<exists>al. ao = Some al \<and> alloc_inv al \<and> capacity al = Suc L2CAP_CHANNEL_MAX_NUM \<and>
     (\<forall>i. used al i \<longleftrightarrow> (\<exists>p ch. C p = Some ch \<and> unat (lc_id ch) = i)) \<and>
     (\<forall>p q c d. C p = Some c \<longrightarrow> C q = Some d \<longrightarrow> lc_id c = lc_id d \<longrightarrow> p = q))"

definition pipes_ok :: "(ptr \<times> ptr) list \<Rightarrow> (ptr \<Rightarrow> l2cap_channel_t option) \<Rightarrow> bool" where
  "pipes_ok ws C \<longleftrightarrow>
     (\<forall>p q c d. C p = Some c \<longrightarrow> C q = Some d \<longrightarrow> lc_pipe c = lc_pipe d \<longrightarrow> lc_pipe c \<noteq> NULL \<longrightarrow> p = q) \<and>
     (\<forall>w p. (w, p) \<in> set ws \<longrightarrow> w \<noteq> NULL \<and> (\<exists>ch. C p = Some ch \<and> lc_pipe ch = w))"

definition apps_ok :: "cb_state \<Rightarrow> (ptr \<Rightarrow> l2cap_channel_t option) \<Rightarrow> bool" where
  "apps_ok s C \<longleftrightarrow> (\<exists>ds. cb_inv s ds) \<and> (\<forall>p ch. C p = Some ch \<longrightarrow> rcbks s (app_handle ch) \<noteq> None)"

definition psm_valid :: "u16 \<Rightarrow> bool" where
  "psm_valid psm \<longleftrightarrow> \<not> (psm < LE_PSM_DYNAMIC_MIN \<or> LE_PSM_DYNAMIC_MIN + L2CAP_LE_DYNAMIC_PSM_NUM \<le> psm)"

definition psm_marked :: "u64 \<Rightarrow> u16 \<Rightarrow> bool" where
  "psm_marked pm psm \<longleftrightarrow> bit pm (unat (psm - LE_PSM_DYNAMIC_MIN))"

text \<open>A PSM has at most one listening channel, and it is marked.\<close>

definition psm_ok :: "u64 \<Rightarrow> (ptr \<Rightarrow> l2cap_channel_t option) \<Rightarrow> bool" where
  "psm_ok pm C \<longleftrightarrow>
     (\<forall>p ch. C p = Some ch \<longrightarrow> lc_role ch = L2CAP_CHANNEL_ROLE_SERVER_LISTEN \<longrightarrow>
        psm_valid (lc_psm ch) \<and> psm_marked pm (lc_psm ch) \<and> \<not> channel_connected ch) \<and>
     (\<forall>p q c d. C p = Some c \<longrightarrow> C q = Some d \<longrightarrow> lc_role c = L2CAP_CHANNEL_ROLE_SERVER_LISTEN \<longrightarrow>
        lc_role d = L2CAP_CHANNEL_ROLE_SERVER_LISTEN \<longrightarrow> lc_psm c = lc_psm d \<longrightarrow> p = q)"

text \<open>The bytes a channel holds: the segments of the SDU under reassembly, and the SDUs that are being written.\<close>

definition rx_pending :: "l2cap_channel_t \<Rightarrow> nat" where
  "rx_pending ch = (case rx_sdu ch of None \<Rightarrow> 0 | Some s \<Rightarrow> unat (len_received s)) + (\<Sum>s \<leftarrow> rx_list ch. unat (len_total s))"

definition rx_fits :: "l2cap_channel_t \<Rightarrow> bool" where
  "rx_fits ch \<longleftrightarrow>
     unat (ep_credits (incoming ch)) * unat (ep_le_mps (incoming ch)) \<le> unat (rx_buf_size ch) \<and>
     unat (rx_buf_size ch) + rx_pending ch \<le> L2CAP_MAX_RX_BUF_SIZE \<and>
     (ep_le_mps (incoming ch) = 0 \<longrightarrow> ep_credits (incoming ch) = 0 \<and> rx_sdu ch = None \<and> rx_list ch = [])"

definition sdu_ok :: "l2cap_pkt_t \<Rightarrow> bool" where
  "sdu_ok s \<longleftrightarrow> len_received s \<le> len_total s \<and> unat (len_total s) \<le> length (pk_data s)"

definition writes_of :: "ptr \<Rightarrow> (ptr \<times> ptr) list \<Rightarrow> ptr list" where
  "writes_of w ws = map snd (filter (\<lambda>x. fst x = w) ws)"

definition chan_ok :: "(ptr \<times> ptr) list \<Rightarrow> l2cap_channel_t \<Rightarrow> bool" where
  "chan_ok ws ch \<longleftrightarrow>
     (lc_pipe ch = NULL \<longrightarrow> \<not> proxy_connected ch) \<and>
     (lc_pipe ch \<noteq> NULL \<longrightarrow> writes_of (lc_pipe ch) ws = map pk_buf (rx_list ch)) \<and>
     (lc_pipe ch \<noteq> NULL \<longrightarrow> \<not> channel_connected ch \<longrightarrow> ep_le_mps (incoming ch) = 0) \<and>
     rx_fits ch \<and> (\<forall>s. rx_sdu ch = Some s \<longrightarrow> sdu_ok s)"

definition rx_ok :: "(ptr \<times> ptr) list \<Rightarrow> (ptr \<Rightarrow> l2cap_channel_t option) \<Rightarrow> bool" where
  "rx_ok ws C \<longleftrightarrow> (\<forall>p ch. C p = Some ch \<longrightarrow> chan_ok ws ch)"

fun msg_ok :: "l2cap_msg_t \<Rightarrow> bool" where
  "msg_ok (CHANNEL_CONNECTED_EVT addr param) \<longleftrightarrow> endpoint_ok (cp_incoming param)"
| "msg_ok (PACKET_RECEIVED_EVT addr cid packet) \<longleftrightarrow>
     len_received packet \<le> len_total packet \<and> unat (len_received packet) \<le> length (pk_data packet)"
| "msg_ok _ \<longleftrightarrow> True"

definition l2_wf :: "l2cap_manager_t \<Rightarrow> bool" where
  "l2_wf m \<longleftrightarrow>
     heap_ok (channel_list m) (channels m) \<and> ids_ok (id_allocator m) (channels m) \<and> pipes_ok (pipe_waiting m) (channels m) \<and>
     apps_ok (l2_callbacks m) (channels m) \<and> psm_ok (psm_map m) (channels m) \<and> rx_ok (pipe_writes m) (channels m) \<and>
     list_all msg_ok (msg_queue (l2_loop m))"

text \<open>The outcome of an operation that does not fault and leaves a well-formed manager.\<close>

definition ok_result :: "l2cap_manager_t option \<Rightarrow> bool" where
  "ok_result r \<longleftrightarrow> (\<exists>m. r = Some m \<and> l2_wf m)"

lemma ok_resultI: "l2_wf m \<Longrightarrow> ok_result (Some m)"
  by (simp add: ok_result_def)

lemma wf_emit [simp]: "l2_wf (l2_emit x m) = l2_wf m"
  by (simp add: l2_emit_def l2_wf_def)

lemma emit_fields [simp]:
  "channels (l2_emit x m) = channels m" "channel_list (l2_emit x m) = channel_list m"
  "id_allocator (l2_emit x m) = id_allocator m" "psm_map (l2_emit x m) = psm_map m"
  "pipe_waiting (l2_emit x m) = pipe_waiting m" "pipe_writes (l2_emit x m) = pipe_writes m"
  "l2_callbacks (l2_emit x m) = l2_callbacks m" "l2_loop (l2_emit x m) = l2_loop m"
  by (simp_all add: l2_emit_def)

lemma put_fields [simp]:
  "channels (put_channel p ch m) = (channels m)(p \<mapsto> ch)" "channel_list (put_channel p ch m) = channel_list m"
  "id_allocator (put_channel p ch m) = id_allocator m" "psm_map (put_channel p ch m) = psm_map m"
  "pipe_waiting (put_channel p ch m) = pipe_waiting m" "pipe_writes (put_channel p ch m) = pipe_writes m"
  "l2_callbacks (put_channel p ch m) = l2_callbacks m" "l2_loop (put_channel p ch m) = l2_loop m"
  by (simp_all add: put_channel_def)

lemma close_fields [simp]:
  "channels (close_pipe w m) = channels m" "channel_list (close_pipe w m) = channel_list m"
  "id_allocator (close_pipe w m) = id_allocator m" "psm_map (close_pipe w m) = psm_map m"
  "pipe_waiting (close_pipe w m) = filter (\<lambda>x. fst x \<noteq> w) (pipe_waiting m)" "pipe_writes (close_pipe w m) = pipe_writes m"
  "l2_callbacks (close_pipe w m) = l2_callbacks m" "l2_loop (close_pipe w m) = l2_loop m"
  by (simp_all add: close_pipe_def)

lemma wfD:
  assumes "l2_wf m"
  shows "heap_ok (channel_list m) (channels m)" "ids_ok (id_allocator m) (channels m)" "pipes_ok (pipe_waiting m) (channels m)"
    "apps_ok (l2_callbacks m) (channels m)" "psm_ok (psm_map m) (channels m)" "rx_ok (pipe_writes m) (channels m)"
    "list_all msg_ok (msg_queue (l2_loop m))"
  using assms by (simp_all add: l2_wf_def)

lemma wf_chan: "l2_wf m \<Longrightarrow> channels m p = Some ch \<Longrightarrow> chan_ok (pipe_writes m) ch"
  by (auto dest: wfD(6) simp: rx_ok_def)

lemma find_channel_cases:
  assumes "\<forall>p \<in> set ps. channels m p \<noteq> None"
  shows "(find_channel P ps m = Some None \<and> (\<forall>p \<in> set ps. \<forall>ch. channels m p = Some ch \<longrightarrow> \<not> P ch)) \<or>
     (\<exists>p \<in> set ps. \<exists>ch. find_channel P ps m = Some (Some p) \<and> channels m p = Some ch \<and> P ch)"
  using assms
proof (induction ps)
  case (Cons a ps)
  then obtain c where c: "channels m a = Some c" by auto
  show ?case
  proof (cases "P c")
    case True
    then show ?thesis using c by (intro disjI2 bexI [of _ a] exI [of _ c]) simp_all
  next
    case False
    then have "find_channel P (a # ps) m = find_channel P ps m" using c by simp
    then show ?thesis using Cons False c by (metis list.set_intros(2) option.inject set_ConsD)
  qed
qed simp

lemma find_in_list_cases:
  assumes "l2_wf m"
  obtains "find_in_list P m = Some None" "\<And>p ch. channels m p = Some ch \<Longrightarrow> \<not> P ch"
  | p ch where "find_in_list P m = Some (Some p)" "channels m p = Some ch" "P ch"
proof -
  obtain ps where ps: "channel_list m = Some ps" "\<forall>p. channels m p \<noteq> None \<longleftrightarrow> p \<in> set ps"
    using wfD(1) [OF assms] by (auto simp: heap_ok_def)
  then have al: "\<forall>p \<in> set ps. channels m p \<noteq> None" by blast
  have mem: "p \<in> set ps" if "channels m p = Some ch" for p ch using ps(2) that by (metis option.distinct(1))
  have eq: "find_in_list P m = find_channel P ps m" by (simp add: find_in_list_def ps(1))
  from find_channel_cases [OF al, of P] show thesis
  proof (elim disjE conjE bexE exE)
    assume "find_channel P ps m = Some None" "\<forall>p \<in> set ps. \<forall>ch. channels m p = Some ch \<longrightarrow> \<not> P ch"
    then show thesis using that(1) mem unfolding eq by blast
  next
    fix p ch
    assume "find_channel P ps m = Some (Some p)" "channels m p = Some ch" "P ch"
    then show thesis using that(2) [of p ch] unfolding eq by blast
  qed
qed

text \<open>Writing a channel without touching what other channels and the manager know of it.\<close>

definition same_face :: "l2cap_channel_t \<Rightarrow> l2cap_channel_t \<Rightarrow> bool" where
  "same_face c d \<longleftrightarrow> lc_id c = lc_id d \<and> lc_pipe c = lc_pipe d \<and> app_handle c = app_handle d \<and> lc_psm c = lc_psm d \<and>
     (lc_role c = L2CAP_CHANNEL_ROLE_SERVER_LISTEN \<longrightarrow> lc_role d = L2CAP_CHANNEL_ROLE_SERVER_LISTEN \<and> (channel_connected c \<longrightarrow> channel_connected d))"

text \<open>A property that no two channels share, over the fields that a write keeps.\<close>

definition unshared :: "(ptr \<Rightarrow> l2cap_channel_t option) \<Rightarrow> (l2cap_channel_t \<Rightarrow> l2cap_channel_t \<Rightarrow> bool) \<Rightarrow> bool" where
  "unshared C R \<longleftrightarrow> (\<forall>p q c d. C p = Some c \<longrightarrow> C q = Some d \<longrightarrow> R c d \<longrightarrow> p = q)"

lemma unsharedD: "unshared C R \<Longrightarrow> C p = Some c \<Longrightarrow> C q = Some d \<Longrightarrow> R c d \<Longrightarrow> p = q"
  by (simp add: unshared_def)

lemma unshared_put:
  assumes "unshared C R" "C p = Some ch" "\<And>d. R ch' d \<Longrightarrow> R ch d" "\<And>d. R d ch' \<Longrightarrow> R d ch"
  shows "unshared (C(p \<mapsto> ch')) R"
  unfolding unshared_def
proof (intro allI impI)
  fix x y c d
  assume "(C(p \<mapsto> ch')) x = Some c" "(C(p \<mapsto> ch')) y = Some d" "R c d"
  then show "x = y"
    using assms(2-4) unsharedD [OF assms(1)] by (cases "x = p"; cases "y = p") auto
qed

lemma unshared_new:
  assumes "unshared C R" "\<And>p d. C p = Some d \<Longrightarrow> \<not> R ch d \<and> \<not> R d ch"
  shows "unshared (C(q \<mapsto> ch)) R"
  unfolding unshared_def
proof (intro allI impI)
  fix x y c d
  assume "(C(q \<mapsto> ch)) x = Some c" "(C(q \<mapsto> ch)) y = Some d" "R c d"
  then show "x = y"
    using assms(2) unsharedD [OF assms(1)] by (cases "x = q"; cases "y = q") auto
qed

lemma unshared_del: "unshared C R \<Longrightarrow> unshared (C(p := None)) R"
  by (simp add: unshared_def)

lemma ids_ok_unshared:
  "ids_ok ao C \<longleftrightarrow> (\<exists>al. ao = Some al \<and> alloc_inv al \<and> capacity al = Suc L2CAP_CHANNEL_MAX_NUM \<and>
     used al = (\<lambda>i. \<exists>p ch. C p = Some ch \<and> unat (lc_id ch) = i)) \<and> unshared C (\<lambda>c d. lc_id c = lc_id d)"
  unfolding ids_ok_def unshared_def fun_eq_iff
  by (rule iffI) (elim exE conjE, intro conjI exI, assumption+, elim exE conjE, intro exI conjI, assumption+)

lemma pipes_ok_unshared:
  "pipes_ok ws C \<longleftrightarrow> unshared C (\<lambda>c d. lc_pipe c = lc_pipe d \<and> lc_pipe c \<noteq> NULL) \<and>
     (\<forall>w p. (w, p) \<in> set ws \<longrightarrow> w \<noteq> NULL \<and> (\<exists>ch. C p = Some ch \<and> lc_pipe ch = w))"
  unfolding pipes_ok_def unshared_def by blast

lemma psm_ok_unshared:
  "psm_ok pm C \<longleftrightarrow>
     (\<forall>p ch. C p = Some ch \<longrightarrow> lc_role ch = L2CAP_CHANNEL_ROLE_SERVER_LISTEN \<longrightarrow>
        psm_valid (lc_psm ch) \<and> psm_marked pm (lc_psm ch) \<and> \<not> channel_connected ch) \<and>
     unshared C (\<lambda>c d. lc_role c = L2CAP_CHANNEL_ROLE_SERVER_LISTEN \<and> lc_role d = L2CAP_CHANNEL_ROLE_SERVER_LISTEN \<and> lc_psm c = lc_psm d)"
  unfolding psm_ok_def unshared_def by blast

lemma ids_ok_put:
  assumes "ids_ok ao C" "C p = Some ch" "lc_id ch' = lc_id ch"
  shows "ids_ok ao (C(p \<mapsto> ch'))"
proof -
  have eq: "(\<lambda>i. \<exists>q d. (C(p \<mapsto> ch')) q = Some d \<and> unat (lc_id d) = i) = (\<lambda>i. \<exists>q d. C q = Some d \<and> unat (lc_id d) = i)"
  proof (intro ext iffI; elim exE conjE)
    fix i q d assume "(C(p \<mapsto> ch')) q = Some d" "unat (lc_id d) = i"
    then show "\<exists>q d. C q = Some d \<and> unat (lc_id d) = i"
      using assms(2, 3) by (intro exI [of _ q] exI [of _ "if q = p then ch else d"]) (auto split: if_splits)
  next
    fix i q d assume "C q = Some d" "unat (lc_id d) = i"
    then show "\<exists>q d. (C(p \<mapsto> ch')) q = Some d \<and> unat (lc_id d) = i"
      using assms(2, 3) by (intro exI [of _ q] exI [of _ "if q = p then ch' else d"]) auto
  qed
  have "unshared (C(p \<mapsto> ch')) (\<lambda>c d. lc_id c = lc_id d)"
    using assms by (intro unshared_put [where ch = ch]) (simp_all add: ids_ok_unshared)
  with assms(1) show ?thesis unfolding ids_ok_unshared eq by blast
qed

lemma pipes_ok_put:
  assumes "pipes_ok ws C" "C p = Some ch" "lc_pipe ch' = lc_pipe ch"
  shows "pipes_ok ws (C(p \<mapsto> ch'))"
proof -
  have "unshared (C(p \<mapsto> ch')) (\<lambda>c d. lc_pipe c = lc_pipe d \<and> lc_pipe c \<noteq> NULL)"
    using assms by (intro unshared_put [where ch = ch]) (simp_all add: pipes_ok_unshared)
  moreover have "\<exists>d. (C(p \<mapsto> ch')) q = Some d \<and> lc_pipe d = w" if "(w, q) \<in> set ws" for w q
    using assms that by (cases "q = p") (force simp: pipes_ok_def)+
  ultimately show ?thesis using assms(1) unfolding pipes_ok_unshared by blast
qed

lemma psm_ok_put:
  assumes "psm_ok pm C" "C p = Some ch" "lc_psm ch' = lc_psm ch"
    and "lc_role ch' = L2CAP_CHANNEL_ROLE_SERVER_LISTEN \<Longrightarrow> lc_role ch = L2CAP_CHANNEL_ROLE_SERVER_LISTEN \<and> (channel_connected ch' \<longrightarrow> channel_connected ch)"
  shows "psm_ok pm (C(p \<mapsto> ch'))"
proof -
  have one: "psm_valid (lc_psm c) \<and> psm_marked pm (lc_psm c) \<and> \<not> channel_connected c"
    if "C q = Some c" "lc_role c = L2CAP_CHANNEL_ROLE_SERVER_LISTEN" for q c
    using assms(1) that unfolding psm_ok_unshared by blast
  have "psm_valid (lc_psm c) \<and> psm_marked pm (lc_psm c) \<and> \<not> channel_connected c"
    if "(C(p \<mapsto> ch')) q = Some c" "lc_role c = L2CAP_CHANNEL_ROLE_SERVER_LISTEN" for q c
    using one [of q c] one [OF assms(2)] assms(3, 4) that by (cases "q = p") auto
  moreover have "unshared (C(p \<mapsto> ch')) (\<lambda>c d. lc_role c = L2CAP_CHANNEL_ROLE_SERVER_LISTEN \<and> lc_role d = L2CAP_CHANNEL_ROLE_SERVER_LISTEN \<and> lc_psm c = lc_psm d)"
    using assms by (intro unshared_put [where ch = ch]) (simp_all add: psm_ok_unshared)
  ultimately show ?thesis unfolding psm_ok_unshared by blast
qed

lemma heap_ok_put: "heap_ok lo C \<Longrightarrow> C p = Some ch \<Longrightarrow> heap_ok lo (C(p \<mapsto> ch'))"
proof -
  assume "heap_ok lo C" and p: "C p = Some ch"
  then obtain ps where ps: "lo = Some ps" "distinct ps" "NULL \<notin> set ps" "\<And>q. C q \<noteq> None \<longleftrightarrow> q \<in> set ps"
    unfolding heap_ok_def by blast
  moreover have "p \<in> set ps" using ps(4) [of p] p by simp
  ultimately show ?thesis unfolding heap_ok_def by (intro exI [of _ ps]) simp
qed

lemma apps_ok_put: "apps_ok s C \<Longrightarrow> C p = Some ch \<Longrightarrow> app_handle ch' = app_handle ch \<Longrightarrow> apps_ok s (C(p \<mapsto> ch'))"
  unfolding apps_ok_def by auto

lemma rx_ok_put: "rx_ok ws C \<Longrightarrow> chan_ok ws ch' \<Longrightarrow> rx_ok ws (C(p \<mapsto> ch'))"
  unfolding rx_ok_def by auto

lemma wf_put:
  assumes "l2_wf m" "channels m p = Some ch" "same_face ch' ch" "chan_ok (pipe_writes m) ch'"
  shows "l2_wf (put_channel p ch' m)"
proof -
  note d = wfD [OF assms(1)] and f = assms(3) [unfolded same_face_def]
  show ?thesis unfolding l2_wf_def put_fields
    using heap_ok_put [OF d(1) assms(2)] ids_ok_put [OF d(2) assms(2)] pipes_ok_put [OF d(3) assms(2)]
      apps_ok_put [OF d(4) assms(2)] psm_ok_put [OF d(5) assms(2)] rx_ok_put [OF d(6) assms(4)] d(7) f
    by blast
qed

end
