(* ===== verification/L2cap_Steps.thy ===== *)
theory L2cap_Steps
  imports L2cap_Wf
begin

text \<open>
  The building blocks of the L2CAP manager on a well-formed state: removing a channel, giving it up, creating one with
  its pipe, and handing out credits. Each lemma gives the state that the block leaves.
\<close>

unbundle bit_operations_syntax

section \<open>Removing a channel\<close>

lemma psm_bit_inj:
  assumes "psm_valid a" "psm_valid b" "unat (a - LE_PSM_DYNAMIC_MIN) = unat (b - LE_PSM_DYNAMIC_MIN)"
  shows "a = b"
  using assms(3) by (simp add: word_unat_eq_iff [symmetric])

lemma psm_bit_lt: "psm_valid a \<Longrightarrow> unat (a - LE_PSM_DYNAMIC_MIN) < 64"
  by (auto simp: psm_valid_def not_less not_le word_le_nat_alt word_less_nat_alt unat_sub)

lemma marked_clear:
  assumes "psm_valid a" "psm_valid b" "a \<noteq> b" "psm_marked pm a"
  shows "psm_marked (pm AND NOT (PSM_BIT_MASK b)) a"
  using assms psm_bit_inj [OF assms(1, 2)] psm_bit_lt [OF assms(1)]
  by (auto simp: psm_marked_def PSM_BIT_MASK_def bit_and_iff bit_not_iff bit_exp_iff possible_bit_def)

lemma marked_set:
  assumes "psm_valid a"
  shows "psm_marked (pm OR PSM_BIT_MASK a) a" "psm_marked pm b \<Longrightarrow> psm_marked (pm OR PSM_BIT_MASK a) b"
  using psm_bit_lt [OF assms]
  by (auto simp: psm_marked_def PSM_BIT_MASK_def bit_or_iff bit_exp_iff possible_bit_def)

lemma marked_mask: "psm_valid a \<Longrightarrow> pm AND PSM_BIT_MASK a = 0 \<longleftrightarrow> \<not> psm_marked pm a"
  by (simp add: PSM_BIT_MASK_def psm_marked_def and_exp_eq_0_iff_not_bit)

text \<open>The search of \<open>free_le_dynamic_psm\<close> over the channels that are left.\<close>

lemma find_listening:
  assumes ps: "\<forall>p \<in> set ps. channels m p \<noteq> None" "channel_list m = Some ps"
  shows "\<exists>r. find_l2cap_channel_by_conn_param None psm L2CAP_CHANNEL_ROLE_SERVER_LISTEN False m = Some r \<and>
     (r = None \<longrightarrow> (\<forall>p \<in> set ps. \<forall>ch. channels m p = Some ch \<longrightarrow> lc_role ch = L2CAP_CHANNEL_ROLE_SERVER_LISTEN \<longrightarrow>
        \<not> channel_connected ch \<longrightarrow> lc_psm ch \<noteq> psm))"
    and "\<exists>r. find_l2cap_channel_by_conn_param None psm L2CAP_CHANNEL_ROLE_SERVER_ACCEPT True m = Some r"
proof -
  define P where "P = (\<lambda>ch :: l2cap_channel_t. lc_psm ch = psm \<and> lc_role ch = L2CAP_CHANNEL_ROLE_SERVER_LISTEN \<and> channel_connected ch = False)"
  have "find_l2cap_channel_by_conn_param None psm L2CAP_CHANNEL_ROLE_SERVER_LISTEN False m = find_channel P ps m"
    by (simp add: find_l2cap_channel_by_conn_param_def find_in_list_def ps(2) P_def)
  moreover from find_channel_cases [OF ps(1), of P]
  have "\<exists>r. find_channel P ps m = Some r \<and> (r = None \<longrightarrow> (\<forall>p \<in> set ps. \<forall>ch. channels m p = Some ch \<longrightarrow> \<not> P ch))"
    by (elim disjE conjE bexE exE) simp_all
  ultimately show "\<exists>r. find_l2cap_channel_by_conn_param None psm L2CAP_CHANNEL_ROLE_SERVER_LISTEN False m = Some r \<and>
     (r = None \<longrightarrow> (\<forall>p \<in> set ps. \<forall>ch. channels m p = Some ch \<longrightarrow> lc_role ch = L2CAP_CHANNEL_ROLE_SERVER_LISTEN \<longrightarrow>
        \<not> channel_connected ch \<longrightarrow> lc_psm ch \<noteq> psm))"
    unfolding P_def by auto
  show "\<exists>r. find_l2cap_channel_by_conn_param None psm L2CAP_CHANNEL_ROLE_SERVER_ACCEPT True m = Some r"
    using find_channel_cases [OF ps(1)] ps(2)
    by (simp add: find_l2cap_channel_by_conn_param_def find_in_list_def) blast
qed

text \<open>Freeing a PSM: either nothing changes, or no listening channel is left on it.\<close>

lemma free_psm_cases:
  assumes ps: "\<forall>p \<in> set ps. channels m p \<noteq> None" "channel_list m = Some ps"
  obtains "free_le_dynamic_psm psm m = Some m"
  | "psm_valid psm" "free_le_dynamic_psm psm m = Some (l2_emit (Sal_stop_listen psm) (m\<lparr>psm_map := psm_map m AND NOT (PSM_BIT_MASK psm)\<rparr>))"
    "\<And>p ch. p \<in> set ps \<Longrightarrow> channels m p = Some ch \<Longrightarrow> lc_role ch = L2CAP_CHANNEL_ROLE_SERVER_LISTEN \<Longrightarrow> \<not> channel_connected ch \<Longrightarrow> lc_psm ch \<noteq> psm"
proof (cases "psm_valid psm")
  case False
  then show ?thesis using that(1) by (simp add: free_le_dynamic_psm_def psm_valid_def)
next
  case True
  obtain r where r: "find_l2cap_channel_by_conn_param None psm L2CAP_CHANNEL_ROLE_SERVER_LISTEN False m = Some r"
    "r = None \<Longrightarrow> \<forall>p \<in> set ps. \<forall>ch. channels m p = Some ch \<longrightarrow> lc_role ch = L2CAP_CHANNEL_ROLE_SERVER_LISTEN \<longrightarrow>
        \<not> channel_connected ch \<longrightarrow> lc_psm ch \<noteq> psm"
    using find_listening(1) [OF ps, of psm] by blast
  obtain a where a: "find_l2cap_channel_by_conn_param None psm L2CAP_CHANNEL_ROLE_SERVER_ACCEPT True m = Some a"
    using find_listening(2) [OF ps, of psm] by blast
  have d: "free_le_dynamic_psm psm m = (if r \<noteq> None \<or> a \<noteq> None then Some m
      else Some (l2_emit (Sal_stop_listen psm) (m\<lparr>psm_map := psm_map m AND NOT (PSM_BIT_MASK psm)\<rparr>)))"
    using True r(1) a by (simp add: free_le_dynamic_psm_def psm_valid_def)
  show ?thesis
  proof (cases "r \<noteq> None \<or> a \<noteq> None")
    case True
    then show ?thesis using d that(1) by simp
  next
    case False
    then show ?thesis using d r(2) that(2) True by simp
  qed
qed

lemma ids_ok_del:
  assumes "ids_ok (Some al) C" "C p = Some ch"
  obtains al' where "index_free al (lc_id ch) = Some al'" "ids_ok (Some al') (C(p := None))"
proof -
  have al: "alloc_inv al" "capacity al = Suc L2CAP_CHANNEL_MAX_NUM"
    and u: "\<And>i. used al i \<longleftrightarrow> (\<exists>p ch. C p = Some ch \<and> unat (lc_id ch) = i)"
    and un: "unshared C (\<lambda>c d. lc_id c = lc_id d)"
    using assms(1) unfolding ids_ok_unshared by auto
  have "used al (unat (lc_id ch))" using u assms(2) by blast
  then obtain al' where f: "index_free al (lc_id ch) = Some al'" using index_free_spec(1) [OF al(1), of "lc_id ch"] by blast
  note s = index_free_spec(2) [OF al(1) f]
  have "used al' i \<longleftrightarrow> (\<exists>q d. (C(p := None)) q = Some d \<and> unat (lc_id d) = i)" for i
  proof -
    have "used al' i \<longleftrightarrow> used al i \<and> i \<noteq> unat (lc_id ch)" using s by simp
    also have "\<dots> \<longleftrightarrow> (\<exists>q d. C q = Some d \<and> unat (lc_id d) = i \<and> lc_id d \<noteq> lc_id ch)"
      unfolding u by (auto simp: word_unat_eq_iff)
    also have "\<dots> \<longleftrightarrow> (\<exists>q d. (C(p := None)) q = Some d \<and> unat (lc_id d) = i)"
    proof (intro iffI; elim exE conjE)
      fix q d assume "C q = Some d" "unat (lc_id d) = i" "lc_id d \<noteq> lc_id ch"
      then show "\<exists>q d. (C(p := None)) q = Some d \<and> unat (lc_id d) = i"
        using assms(2) by (intro exI [of _ q] exI [of _ d]) auto
    next
      fix q d assume "(C(p := None)) q = Some d" "unat (lc_id d) = i"
      then show "\<exists>q d. C q = Some d \<and> unat (lc_id d) = i \<and> lc_id d \<noteq> lc_id ch"
        using unsharedD [OF un _ assms(2)] by (intro exI [of _ q] exI [of _ d]) (auto split: if_splits)
    qed
    finally show ?thesis .
  qed
  then have "ids_ok (Some al') (C(p := None))"
    using s al unshared_del [OF un] unfolding ids_ok_unshared fun_eq_iff by simp
  with f show thesis by (rule that)
qed

lemma pipes_ok_del:
  assumes "pipes_ok ws C" "C p = Some ch"
  shows "pipes_ok (if lc_pipe ch \<noteq> NULL then filter (\<lambda>x. fst x \<noteq> lc_pipe ch) ws else ws) (C(p := None))"
proof -
  have un: "unshared C (\<lambda>c d. lc_pipe c = lc_pipe d \<and> lc_pipe c \<noteq> NULL)"
    and w: "\<And>w q. (w, q) \<in> set ws \<Longrightarrow> w \<noteq> NULL \<and> (\<exists>d. C q = Some d \<and> lc_pipe d = w)"
    using assms(1) unfolding pipes_ok_unshared by blast+
  have "w \<noteq> NULL \<and> (\<exists>d. (C(p := None)) q = Some d \<and> lc_pipe d = w)"
    if "(w, q) \<in> set ws" "w \<noteq> lc_pipe ch" for w q
    using w [OF that(1)] that(2) assms(2) by auto
  moreover have "w \<noteq> lc_pipe ch" if "(w, q) \<in> set ws" "lc_pipe ch = NULL" for w q using w [OF that(1)] that(2) by simp
  ultimately show ?thesis unfolding pipes_ok_unshared using unshared_del [OF un] by auto
qed

lemma heap_ok_del:
  assumes "heap_ok (Some ps) C"
  shows "heap_ok (Some (remove1 p ps)) (C(p := None))"
  using assms unfolding heap_ok_def by (auto simp: set_remove1_eq)

lemma psm_ok_del:
  assumes "psm_ok pm C"
    and "pm' = pm \<or> psm_valid psm \<and> pm' = pm AND NOT (PSM_BIT_MASK psm) \<and>
      (\<forall>q d. q \<noteq> p \<longrightarrow> C q = Some d \<longrightarrow> lc_role d = L2CAP_CHANNEL_ROLE_SERVER_LISTEN \<longrightarrow> \<not> channel_connected d \<longrightarrow> lc_psm d \<noteq> psm)"
  shows "psm_ok pm' (C(p := None))"
proof -
  have "psm_marked pm' (lc_psm d)" if "q \<noteq> p" "C q = Some d" "lc_role d = L2CAP_CHANNEL_ROLE_SERVER_LISTEN" for q d
  proof -
    have v: "psm_valid (lc_psm d)" "psm_marked pm (lc_psm d)" "\<not> channel_connected d"
      using assms(1) that(2, 3) unfolding psm_ok_def by blast+
    from assms(2) show ?thesis
    proof
      assume "psm_valid psm \<and> pm' = pm AND NOT (PSM_BIT_MASK psm) \<and>
        (\<forall>q d. q \<noteq> p \<longrightarrow> C q = Some d \<longrightarrow> lc_role d = L2CAP_CHANNEL_ROLE_SERVER_LISTEN \<longrightarrow> \<not> channel_connected d \<longrightarrow> lc_psm d \<noteq> psm)"
      then show ?thesis using marked_clear [OF v(1) _ _ v(2)] that v(3) by blast
    qed (use v in simp)
  qed
  moreover have "unshared (C(p := None)) (\<lambda>c d. lc_role c = L2CAP_CHANNEL_ROLE_SERVER_LISTEN \<and> lc_role d = L2CAP_CHANNEL_ROLE_SERVER_LISTEN \<and> lc_psm c = lc_psm d)"
    using assms(1) unfolding psm_ok_unshared by (intro unshared_del) blast
  ultimately show ?thesis using assms(1) unfolding psm_ok_unshared by auto
qed

lemma wf_remove:
  assumes wf: "l2_wf m" and p: "channels m p = Some ch"
  obtains m' where "remove_channel p m = Some m'" "l2_wf m'" "channels m' = (channels m)(p := None)"
    "l2_callbacks m' = l2_callbacks m" "l2_loop m' = l2_loop m" "pipe_writes m' = pipe_writes m"
    "channel_list m' = map_option (remove1 p) (channel_list m)"
proof -
  note d = wfD [OF wf]
  obtain ps where ps: "channel_list m = Some ps" "distinct ps" "\<And>q. channels m q \<noteq> None \<longleftrightarrow> q \<in> set ps"
    using d(1) unfolding heap_ok_def by blast
  have pin: "p \<in> set ps" using ps(3) [of p] p by simp
  obtain al where al: "id_allocator m = Some al" using d(2) unfolding ids_ok_def by blast
  obtain al' where al': "index_free al (lc_id ch) = Some al'" "ids_ok (Some al') ((channels m)(p := None))"
    using ids_ok_del [OF d(2) [unfolded al] p] .
  define m1 where "m1 = (if lc_pipe ch \<noteq> NULL then close_pipe (lc_pipe ch) (m\<lparr>channel_list := Some (remove1 p ps)\<rparr>)
    else m\<lparr>channel_list := Some (remove1 p ps)\<rparr>)\<lparr>id_allocator := Some al'\<rparr>"
  have m1: "channels m1 = channels m" "channel_list m1 = Some (remove1 p ps)" "id_allocator m1 = Some al'" "psm_map m1 = psm_map m"
    "pipe_writes m1 = pipe_writes m" "l2_callbacks m1 = l2_callbacks m" "l2_loop m1 = l2_loop m"
    "pipe_waiting m1 = (if lc_pipe ch \<noteq> NULL then filter (\<lambda>x. fst x \<noteq> lc_pipe ch) (pipe_waiting m) else pipe_waiting m)"
    by (simp_all add: m1_def)
  define m2 where "m2 = put_channel p (ch\<lparr>lc_psm := 0\<rparr>) m1"
  have ex: "remove_channel p m =
      do { m \<leftarrow> (if lc_role ch \<noteq> L2CAP_CHANNEL_ROLE_CLIENT then free_le_dynamic_psm (lc_psm ch) m2 else Some m1);
           Some (m\<lparr>channels := (channels m)(p := None)\<rparr>) }"
    using ps(1) pin p al al'(1) by (simp add: remove_channel_def free_l2cap_channel_def m2_def m1_def Let_def)
  have live: "\<forall>q \<in> set (remove1 p ps). channels m2 q \<noteq> None" "channel_list m2 = Some (remove1 p ps)"
    using ps(3) ps(2) by (auto simp: m2_def m1 set_remove1_eq)
  obtain pm x where r: "(if lc_role ch \<noteq> L2CAP_CHANNEL_ROLE_CLIENT then free_le_dynamic_psm (lc_psm ch) m2 else Some m1) = Some x"
    "channel_list x = channel_list m1" "id_allocator x = id_allocator m1" "pipe_writes x = pipe_writes m1" "l2_callbacks x = l2_callbacks m1"
    "l2_loop x = l2_loop m1" "pipe_waiting x = pipe_waiting m1" "(channels x)(p := None) = (channels m)(p := None)" "psm_map x = pm"
    "pm = psm_map m \<or> psm_valid (lc_psm ch) \<and> pm = psm_map m AND NOT (PSM_BIT_MASK (lc_psm ch)) \<and>
      (\<forall>q d. q \<noteq> p \<longrightarrow> channels m q = Some d \<longrightarrow> lc_role d = L2CAP_CHANNEL_ROLE_SERVER_LISTEN \<longrightarrow> \<not> channel_connected d \<longrightarrow> lc_psm d \<noteq> lc_psm ch)"
  proof (cases "lc_role ch = L2CAP_CHANNEL_ROLE_CLIENT")
    case True
    then show ?thesis using that [of m1 "psm_map m"] by (simp add: m1)
  next
    case False
    from live show ?thesis
    proof (cases rule: free_psm_cases [where psm = "lc_psm ch"])
      case 1
      then show ?thesis using that [of m2 "psm_map m"] False by (simp add: m2_def m1)
    next
      case 2
      have "lc_psm d \<noteq> lc_psm ch" if "q \<noteq> p" "channels m q = Some d" "lc_role d = L2CAP_CHANNEL_ROLE_SERVER_LISTEN" "\<not> channel_connected d" for q d
        using 2(3) [of q d] that ps(3) [of q] by (simp add: m2_def m1 in_set_remove1)
      then show ?thesis
        using that [OF _ _ _ _ _ _ _ _ refl] 2(1, 2) False by (simp add: m2_def m1)
    qed
  qed
  let ?m = "x\<lparr>channels := (channels x)(p := None)\<rparr>"
  have "l2_wf ?m"
    unfolding l2_wf_def
    using heap_ok_del [of ps "channels m" p] d(1) ps(1) al'(2) pipes_ok_del [OF d(3) p] psm_ok_del [OF d(5) r(10)] d(4, 6, 7)
    by (simp add: r m1 apps_ok_def rx_ok_def)
  moreover have "remove_channel p m = Some ?m" using ex r(1) by simp
  ultimately show thesis using that [of ?m] r ps(1) m1 by simp
qed

lemma remove_ok: "l2_wf m \<Longrightarrow> channels m p = Some ch \<Longrightarrow> ok_result (remove_channel p m)"
  by (erule wf_remove, assumption) (simp add: ok_result_def)

section \<open>Giving up a channel\<close>

lemma abort_ok:
  assumes wf: "l2_wf m" and p: "channels m p = Some ch"
  shows "ok_result (l2cap_abort_channel p m)"
proof (cases "lc_pipe ch = NULL")
  case True
  then show ?thesis using wf p by (simp add: l2cap_abort_channel_def ok_result_def)
next
  case False
  let ?ch = "ch\<lparr>proxy_connected := False, lc_pipe := NULL\<rparr>"
  let ?m = "put_channel p ?ch (close_pipe (lc_pipe ch) m)"
  note d = wfD [OF wf]
  have un: "unshared (channels m) (\<lambda>c d. lc_pipe c = lc_pipe d \<and> lc_pipe c \<noteq> NULL)"
    and w: "\<And>w q. (w, q) \<in> set (pipe_waiting m) \<Longrightarrow> w \<noteq> NULL \<and> (\<exists>d. channels m q = Some d \<and> lc_pipe d = w)"
    using d(3) unfolding pipes_ok_unshared by blast+
  have "unshared ((channels m)(p \<mapsto> ?ch)) (\<lambda>c d. lc_pipe c = lc_pipe d \<and> lc_pipe c \<noteq> NULL)"
    by (rule unshared_put [OF un p]) auto
  moreover have "w \<noteq> NULL \<and> (\<exists>d. ((channels m)(p \<mapsto> ?ch)) q = Some d \<and> lc_pipe d = w)"
    if "(w, q) \<in> set (pipe_waiting m)" "w \<noteq> lc_pipe ch" for w q
    using w [OF that(1)] that(2) p by auto
  ultimately have "pipes_ok (filter (\<lambda>x. fst x \<noteq> lc_pipe ch) (pipe_waiting m)) ((channels m)(p \<mapsto> ?ch))"
    unfolding pipes_ok_unshared by auto
  moreover have "chan_ok (pipe_writes m) ?ch"
    using wf_chan [OF wf p] by (simp add: chan_ok_def rx_fits_def rx_pending_def)
  moreover have "psm_ok (psm_map m) ((channels m)(p \<mapsto> ?ch))"
    by (rule psm_ok_put [OF d(5) p]) simp_all
  ultimately have "l2_wf ?m"
    unfolding l2_wf_def put_fields close_fields
    using heap_ok_put [OF d(1) p] ids_ok_put [OF d(2) p] apps_ok_put [OF d(4) p] rx_ok_put [OF d(6)] d(7)
    by simp
  then show ?thesis using p False by (simp add: l2cap_abort_channel_def ok_result_def Let_def)
qed

section \<open>A new channel\<close>

lemma ids_ok_alloc:
  assumes "ids_ok (Some al) C"
  obtains al' where "index_alloc al = Some (-1, al')" "ids_ok (Some al') C"
  | i al' where "index_alloc al = Some (int i, al')" "i < 256"
    "index_free al' (of_nat i) \<noteq> None" "\<And>al''. index_free al' (of_nat i) = Some al'' \<Longrightarrow> ids_ok (Some al'') C"
    "\<And>q ch. C q = None \<Longrightarrow> lc_id ch = of_nat i \<Longrightarrow> ids_ok (Some al') (C(q \<mapsto> ch))"
proof -
  have al: "alloc_inv al" "capacity al = Suc L2CAP_CHANNEL_MAX_NUM"
    and u: "used al = (\<lambda>i. \<exists>p ch. C p = Some ch \<and> unat (lc_id ch) = i)"
    and un: "unshared C (\<lambda>c d. lc_id c = lc_id d)"
    using assms unfolding ids_ok_unshared by auto
  obtain r al' where a: "index_alloc al = Some (r, al')" "alloc_inv al'" "id_max al' = id_max al"
    and r: "if \<forall>i < capacity al. used al i then r = - 1 \<and> used al' = used al
      else \<exists>i < capacity al. r = int i \<and> \<not> used al i \<and> used al' = (used al)(i := True)"
    using index_alloc_spec [OF al(1)] by blast
  show thesis
  proof (cases "\<forall>i < capacity al. used al i")
    case True
    then have r1: "r = - 1" "used al' = used al" using r by auto
    have "ids_ok (Some al') C" unfolding ids_ok_unshared using a al r1(2) u un by simp
    then show ?thesis using that(1) a(1) r1(1) by simp
  next
    case False
    obtain i where i: "i < capacity al" "r = int i" "\<not> used al i" "used al' = (used al)(i := True)"
      using r unfolding if_not_P [OF False] by blast
    have i256: "i < 256" using i(1) al(2) by (simp add: L2CAP_CHANNEL_MAX_NUM_def)
    then have ui: "unat (of_nat i :: u16) = i" by (simp add: unat_of_nat)
    have fr: "index_free al' (of_nat i) \<noteq> None" using index_free_spec(1) [OF a(2), of "of_nat i"] i(4) ui by simp
    have again: "ids_ok (Some al'') C" if f: "index_free al' (of_nat i) = Some al''" for al''
    proof -
      have "used al'' = used al" using index_free_spec(2) [OF a(2) f] i(3, 4) ui by (auto simp: fun_eq_iff)
      then show ?thesis unfolding ids_ok_unshared using index_free_spec(2) [OF a(2) f] a(3) al(2) u un by simp
    qed
    have new: "ids_ok (Some al') (C(q \<mapsto> ch))" if q: "C q = None" "lc_id ch = of_nat i" for q ch
    proof -
      have ne: "unat (lc_id d) \<noteq> i" if "C p = Some d" for p d using i(3) that unfolding u by blast
      have "unshared (C(q \<mapsto> ch)) (\<lambda>c d. lc_id c = lc_id d)"
        by (rule unshared_new [OF un]) (use ne q(2) ui in force)
      moreover have "used al' = (\<lambda>j. \<exists>p d. (C(q \<mapsto> ch)) p = Some d \<and> unat (lc_id d) = j)"
      proof
        fix j
        have "used al' j \<longleftrightarrow> (\<exists>p d. C p = Some d \<and> unat (lc_id d) = j) \<or> j = i" unfolding i(4) u by auto
        also have "\<dots> \<longleftrightarrow> (\<exists>p d. (C(q \<mapsto> ch)) p = Some d \<and> unat (lc_id d) = j)"
        proof (intro iffI; elim disjE exE conjE)
          fix p d assume "C p = Some d" "unat (lc_id d) = j"
          then show "\<exists>p d. (C(q \<mapsto> ch)) p = Some d \<and> unat (lc_id d) = j" using q by (intro exI [of _ p] exI [of _ d]) auto
        next
          assume "j = i"
          then show "\<exists>p d. (C(q \<mapsto> ch)) p = Some d \<and> unat (lc_id d) = j" using q ui by (intro exI [of _ q] exI [of _ ch]) simp
        next
          fix p d assume "(C(q \<mapsto> ch)) p = Some d" "unat (lc_id d) = j"
          then show "(\<exists>p d. C p = Some d \<and> unat (lc_id d) = j) \<or> j = i" using q ui by (cases "p = q") auto
        qed
        finally show "used al' j = (\<exists>p d. (C(q \<mapsto> ch)) p = Some d \<and> unat (lc_id d) = j)" .
      qed
      ultimately show ?thesis unfolding ids_ok_unshared using a(2, 3) al(2) by simp
    qed
    show ?thesis using that(2) [of i al'] a(1) i(2) i256 fr again new by blast
  qed
qed

text \<open>A channel without a pipe that has not received anything.\<close>

definition blank_channel :: "l2cap_channel_t \<Rightarrow> bool" where
  "blank_channel ch \<longleftrightarrow> lc_pipe ch = NULL \<and> \<not> proxy_connected ch \<and> \<not> channel_connected ch \<and> incoming ch = no_endpoint \<and>
     rx_sdu ch = None \<and> rx_list ch = [] \<and> rx_buf_size ch = 0"

definition may_listen :: "u16 \<Rightarrow> l2cap_manager_t \<Rightarrow> bool" where
  "may_listen psm m \<longleftrightarrow> psm_valid psm \<and> psm_marked (psm_map m) psm \<and>
     (\<forall>p ch. channels m p = Some ch \<longrightarrow> lc_role ch = L2CAP_CHANNEL_ROLE_SERVER_LISTEN \<longrightarrow> lc_psm ch \<noteq> psm)"

lemma wf_new_channel:
  assumes wf: "l2_wf m" and q: "channels m q = None" "q \<noteq> NULL"
    and ids: "ids_ok (Some al') ((channels m)(q \<mapsto> ch))"
    and ps: "channel_list m = Some ps" and b: "blank_channel ch" and h: "rcbks (l2_callbacks m) (app_handle ch) \<noteq> None"
    and l: "lc_role ch = L2CAP_CHANNEL_ROLE_SERVER_LISTEN \<Longrightarrow> may_listen (lc_psm ch) m"
  shows "l2_wf (put_channel q ch (m\<lparr>id_allocator := Some al', channel_list := Some (ps @ [q])\<rparr>))"
proof -
  note d = wfD [OF wf]
  have hp: "distinct ps" "NULL \<notin> set ps" "\<And>p. channels m p \<noteq> None \<longleftrightarrow> p \<in> set ps" using d(1) ps unfolding heap_ok_def by auto
  then have "q \<notin> set ps" using q(1) by metis
  then have "heap_ok (Some (ps @ [q])) ((channels m)(q \<mapsto> ch))" using hp q(2) unfolding heap_ok_def by auto
  moreover have "pipes_ok (pipe_waiting m) ((channels m)(q \<mapsto> ch))"
  proof -
    have "unshared ((channels m)(q \<mapsto> ch)) (\<lambda>c d. lc_pipe c = lc_pipe d \<and> lc_pipe c \<noteq> NULL)"
      by (rule unshared_new) (use d(3) b in \<open>auto simp: pipes_ok_unshared blank_channel_def\<close>)
    moreover have "\<exists>d. ((channels m)(q \<mapsto> ch)) p = Some d \<and> lc_pipe d = w" if "(w, p) \<in> set (pipe_waiting m)" for w p
      using d(3) that q(1) unfolding pipes_ok_def by (metis fun_upd_apply option.distinct(1))
    ultimately show ?thesis using d(3) unfolding pipes_ok_unshared by blast
  qed
  moreover have "apps_ok (l2_callbacks m) ((channels m)(q \<mapsto> ch))" using d(4) h unfolding apps_ok_def by auto
  moreover have "psm_ok (psm_map m) ((channels m)(q \<mapsto> ch))"
  proof -
    have "unshared ((channels m)(q \<mapsto> ch)) (\<lambda>c d. lc_role c = L2CAP_CHANNEL_ROLE_SERVER_LISTEN \<and> lc_role d = L2CAP_CHANNEL_ROLE_SERVER_LISTEN \<and> lc_psm c = lc_psm d)"
      by (rule unshared_new) (use d(5) l in \<open>force simp: psm_ok_unshared may_listen_def\<close>)+
    moreover have "psm_valid (lc_psm c) \<and> psm_marked (psm_map m) (lc_psm c) \<and> \<not> channel_connected c"
      if "((channels m)(q \<mapsto> ch)) p = Some c" "lc_role c = L2CAP_CHANNEL_ROLE_SERVER_LISTEN" for p c
    proof (cases "p = q")
      case True
      then show ?thesis using that l b unfolding may_listen_def blank_channel_def by auto
    next
      case False
      then have "channels m p = Some c" using that(1) by simp
      then show ?thesis using d(5) that(2) unfolding psm_ok_def by blast
    qed
    ultimately show ?thesis unfolding psm_ok_unshared by blast
  qed
  moreover have "chan_ok (pipe_writes m) ch"
    using b by (simp add: chan_ok_def blank_channel_def rx_fits_def rx_pending_def no_endpoint_def)
  ultimately show ?thesis using ids rx_ok_put [OF d(6), of ch q] d(7) by (simp add: l2_wf_def)
qed

lemma alloc_channel_cases:
  assumes wf: "l2_wf m" and q: "channels m q = None" and h: "rcbks (l2_callbacks m) handle \<noteq> None"
    and l: "role = L2CAP_CHANNEL_ROLE_SERVER_LISTEN \<Longrightarrow> may_listen psm m"
  obtains m' where "alloc_free_channel q handle addr psm role m = Some (NULL, m')" "l2_wf m'" "channels m' = channels m"
    "l2_callbacks m' = l2_callbacks m" "l2_loop m' = l2_loop m" "psm_map m' = psm_map m"
  | m' ch where "alloc_free_channel q handle addr psm role m = Some (q, m')" "q \<noteq> NULL" "l2_wf m'" "channels m' = (channels m)(q \<mapsto> ch)"
    "blank_channel ch" "lc_role ch = role" "lc_psm ch = psm" "pipe_waiting m' = pipe_waiting m" "pipe_writes m' = pipe_writes m"
proof (cases "addr \<noteq> None \<and> role = L2CAP_CHANNEL_ROLE_SERVER_LISTEN")
  case True
  then show ?thesis using that(1) wf by (simp add: alloc_free_channel_def)
next
  case False
  note d = wfD [OF wf]
  obtain al where al: "id_allocator m = Some al" using d(2) unfolding ids_ok_def by blast
  obtain ps where ps: "channel_list m = Some ps" using d(1) unfolding heap_ok_def by blast
  have wf_al: "l2_wf (m\<lparr>id_allocator := Some a\<rparr>)" if "ids_ok (Some a) (channels m)" for a
    using that d by (simp add: l2_wf_def)
  from d(2) [unfolded al] show ?thesis
  proof (cases rule: ids_ok_alloc)
    case (1 al')
    then have "alloc_free_channel q handle addr psm role m = Some (NULL, m\<lparr>id_allocator := Some al'\<rparr>)"
      unfolding alloc_free_channel_def if_not_P [OF False] using al by simp
    then show ?thesis using that(1) [of "m\<lparr>id_allocator := Some al'\<rparr>"] wf_al [OF 1(2)] by simp
  next
    case (2 i al')
    show ?thesis
    proof (cases "q = NULL")
      case True
      obtain al'' where f: "index_free al' (of_nat i) = Some al''" using 2(3) by blast
      then have "alloc_free_channel q handle addr psm role m = Some (NULL, m\<lparr>id_allocator := Some al''\<rparr>)"
        unfolding alloc_free_channel_def if_not_P [OF False] using al 2(1) True by simp
      then show ?thesis using that(1) [of "m\<lparr>id_allocator := Some al''\<rparr>"] wf_al [OF 2(4) [OF f]] by simp
    next
      case nn: False
      define ch where "ch = \<lparr>lc_addr = (case addr of None \<Rightarrow> replicate 6 0 | Some a \<Rightarrow> a), local_cid = 0, lc_psm = psm, incoming = no_endpoint,
             outgoing = no_endpoint, tx_mtu = 0, tx_quota = 0, lc_id = of_nat i, lc_role = role, channel_connected = False,
             lc_pipe = NULL, proxy_name = [], proxy_connected = False, app_handle = handle, rx_sdu = None, rx_list = [],
             rx_buf_size = 0\<rparr>"
      let ?m = "put_channel q ch (m\<lparr>id_allocator := Some al', channel_list := Some (ps @ [q])\<rparr>)"
      have b: "blank_channel ch" by (simp add: blank_channel_def ch_def)
      have "l2_wf ?m"
        by (rule wf_new_channel [OF wf q nn 2(5) [OF q] ps b]) (use h l in \<open>simp_all add: ch_def\<close>)
      moreover have "alloc_free_channel q handle addr psm role m = Some (q, ?m)"
        unfolding alloc_free_channel_def if_not_P [OF False] using 2(1) al ps nn by (simp add: ch_def)
      ultimately show ?thesis using that(2) [of ?m ch] b nn by (simp add: ch_def)
    qed
  qed
qed

lemma fresh_pipeD:
  assumes "l2_wf m" "fresh_pipe w m" "w \<noteq> NULL"
  shows "\<And>p. (w, p) \<notin> set (pipe_waiting m)" "writes_of w (pipe_writes m) = []" "\<And>p ch. channels m p = Some ch \<Longrightarrow> lc_pipe ch \<noteq> w"
proof -
  obtain ps where ps: "channel_list m = Some ps" "\<And>q. channels m q \<noteq> None \<longleftrightarrow> q \<in> set ps"
    using wfD(1) [OF assms(1)] unfolding heap_ok_def by blast
  have f: "w \<notin> fst ` set (pipe_waiting m)" "w \<notin> fst ` set (pipe_writes m)"
    "\<forall>p \<in> set ps. case channels m p of None \<Rightarrow> True | Some ch \<Rightarrow> lc_pipe ch \<noteq> w"
    using assms(2, 3) ps(1) by (auto simp: fresh_pipe_def)
  show "\<And>p. (w, p) \<notin> set (pipe_waiting m)" using f(1) by force
  show "writes_of w (pipe_writes m) = []" using f(2) by (force simp: writes_of_def filter_empty_conv)
  show "lc_pipe ch \<noteq> w" if c: "channels m p = Some ch" for p ch
    using f(3) [rule_format, of p] ps(2) [of p] c by simp
qed

definition unused_pipe :: "ptr \<Rightarrow> l2cap_manager_t \<Rightarrow> bool" where
  "unused_pipe w m \<longleftrightarrow> w = NULL \<or> writes_of w (pipe_writes m) = [] \<and> (\<forall>p ch. channels m p = Some ch \<longrightarrow> lc_pipe ch \<noteq> w)"

lemma fresh_unused: "l2_wf m \<Longrightarrow> fresh_pipe w m \<Longrightarrow> unused_pipe w m"
  unfolding unused_pipe_def using fresh_pipeD(2, 3) by blast

lemma unused_new:
  "unused_pipe w m \<Longrightarrow> channels m' = (channels m)(q \<mapsto> ch) \<Longrightarrow> pipe_writes m' = pipe_writes m \<Longrightarrow> lc_pipe ch = NULL \<Longrightarrow> unused_pipe w m'"
  by (auto simp: unused_pipe_def)

lemma prepare_cases:
  assumes wf: "l2_wf m" and p: "channels m p = Some ch" and b: "blank_channel ch" and w: "unused_pipe w m"
  obtains m' where "prepare_data_path w p m = Some (w \<noteq> NULL, m')" "l2_wf m'"
    "channels m' = (channels m)(p \<mapsto> ch\<lparr>proxy_name := pipe_name (lc_id ch), lc_pipe := w\<rparr>)"
proof -
  let ?ch = "ch\<lparr>proxy_name := pipe_name (lc_id ch), lc_pipe := w\<rparr>"
  note d = wfD [OF wf]
  define m1 where "m1 = put_channel p ?ch m"
  define m2 where "m2 = (if w = NULL then m1 else m1\<lparr>pipe_waiting := pipe_waiting m1 @ [(w, p)]\<rparr>)"
  have f: "channel_list m2 = channel_list m" "id_allocator m2 = id_allocator m" "l2_callbacks m2 = l2_callbacks m"
    "psm_map m2 = psm_map m" "pipe_writes m2 = pipe_writes m" "l2_loop m2 = l2_loop m" "channels m2 = (channels m)(p \<mapsto> ?ch)"
    "pipe_waiting m2 = (if w = NULL then pipe_waiting m else pipe_waiting m @ [(w, p)])"
    by (simp_all add: m2_def m1_def)
  have un: "unshared (channels m) (\<lambda>c d. lc_pipe c = lc_pipe d \<and> lc_pipe c \<noteq> NULL)"
    and wt: "\<And>w q. (w, q) \<in> set (pipe_waiting m) \<Longrightarrow> w \<noteq> NULL \<and> (\<exists>d. channels m q = Some d \<and> lc_pipe d = w)"
    using d(3) unfolding pipes_ok_unshared by blast+
  have "unshared ((channels m)(p \<mapsto> ?ch)) (\<lambda>c d. lc_pipe c = lc_pipe d \<and> lc_pipe c \<noteq> NULL)"
    by (rule unshared_new [OF un]) (use w in \<open>auto simp: unused_pipe_def\<close>)
  moreover have "\<exists>d. ((channels m)(p \<mapsto> ?ch)) q = Some d \<and> lc_pipe d = v" if "(v, q) \<in> set (pipe_waiting m)" for v q
    using wt [OF that] p b by (cases "q = p") (auto simp: blank_channel_def)
  ultimately have "pipes_ok (pipe_waiting m2) (channels m2)" unfolding pipes_ok_unshared f using wt by auto
  moreover have "chan_ok (pipe_writes m) ?ch"
    using b w by (auto simp: chan_ok_def blank_channel_def unused_pipe_def rx_fits_def rx_pending_def no_endpoint_def)
  moreover have "psm_ok (psm_map m) ((channels m)(p \<mapsto> ?ch))" by (rule psm_ok_put [OF d(5) p]) simp_all
  ultimately have "l2_wf m2"
    unfolding l2_wf_def f
    using heap_ok_put [OF d(1) p] ids_ok_put [OF d(2) p] apps_ok_put [OF d(4) p] rx_ok_put [OF d(6)] d(7) f(7)
    by simp
  moreover have "prepare_data_path w p m = Some (w \<noteq> NULL, m2)"
    using p by (simp add: prepare_data_path_def m2_def m1_def Let_def)
  ultimately show thesis using that [of m2] f(7) by simp
qed

section \<open>The receive side\<close>

lemma unat_mult_bound:
  fixes a b :: u16
  shows "unat (a div b) * unat b \<le> unat a"
  by (simp add: unat_div_distrib div_times_less_eq_dividend)

text \<open>What a step of the receive side leaves alone.\<close>

definition rx_frame :: "l2cap_channel_t \<Rightarrow> l2cap_channel_t \<Rightarrow> bool" where
  "rx_frame c d \<longleftrightarrow> same_face c d \<and> lc_role c = lc_role d \<and> channel_connected c = channel_connected d \<and> proxy_connected c = proxy_connected d \<and>
     rx_sdu c = rx_sdu d \<and> rx_list c = rx_list d \<and> rx_buf_size c = rx_buf_size d \<and> local_cid c = local_cid d \<and>
     ep_le_mps (incoming c) = ep_le_mps (incoming d) \<and> ep_mtu (incoming c) = ep_mtu (incoming d)"

lemma rx_frame_refl [simp]: "rx_frame c c"
  by (simp add: rx_frame_def same_face_def)

text \<open>The SDUs handed to pipes, in their order.\<close>

definition sdu_writes :: "l2cap_out list \<Rightarrow> (ptr \<times> u8 list) list" where
  "sdu_writes xs = concat (map (\<lambda>x. case x of Pipe_write w b \<Rightarrow> [(w, b)] | _ \<Rightarrow> []) xs)"

lemma sdu_writes_emit [simp]:
  "sdu_writes (l2_outs (l2_emit x m)) = sdu_writes (l2_outs m) @ (case x of Pipe_write w b \<Rightarrow> [(w, b)] | _ \<Rightarrow> [])"
  by (simp add: sdu_writes_def l2_emit_def)

lemma refill_cases:
  assumes wf: "l2_wf m" and p: "channels m p = Some ch" and mps: "ep_le_mps (incoming ch) \<noteq> 0"
  obtains m' ch' where "refill_credits e p m = Some m'" "l2_wf m'" "channels m' = (channels m)(p \<mapsto> ch')" "rx_frame ch' ch"
    "pipe_writes m' = pipe_writes m" "l2_loop m' = l2_loop m" "channel_list m' = channel_list m"
    "sdu_writes (l2_outs m') = sdu_writes (l2_outs m)" "ep_credits (incoming ch) \<le> ep_credits (incoming ch')"
proof -
  let ?r = "rx_buf_size ch div ep_le_mps (incoming ch)"
  let ?ch = "ch\<lparr>incoming := (incoming ch)\<lparr>ep_credits := ?r\<rparr>\<rparr>"
  have same: "(channels m)(p \<mapsto> ch) = channels m" using p by auto
  have ok: "chan_ok (pipe_writes m) ?ch"
    using wf_chan [OF wf p] mps unat_mult_bound [of "rx_buf_size ch" "ep_le_mps (incoming ch)"]
    by (simp add: chan_ok_def rx_fits_def rx_pending_def)
  have wf': "l2_wf (put_channel p ?ch m)" by (rule wf_put [OF wf p _ ok]) (simp add: same_face_def)
  have fr: "rx_frame ?ch ch" by (simp add: rx_frame_def same_face_def)
  define x where "x = Sal_give_credits (local_cid ch) (?r - ep_credits (incoming ch))"
  have eq: "refill_credits e p m =
      (if L2CAP_LE_CREDITS_LOW_WATERMARK \<le> ep_credits (incoming ch) \<or> ?r \<le> ep_credits (incoming ch) then Some m
       else if sal_give_credits e \<noteq> BT_STATUS_SUCCESS then Some (l2_emit x m) else Some (put_channel p ?ch (l2_emit x m)))"
    using p mps by (simp add: refill_credits_def l2cap_add_incoming_credits_def Let_def not_le x_def)
  consider "refill_credits e p m = Some m"
    | "refill_credits e p m = Some (l2_emit x m)"
    | "refill_credits e p m = Some (put_channel p ?ch (l2_emit x m))" "ep_credits (incoming ch) \<le> ?r"
    unfolding eq by (metis nle_le)
  then show thesis
  proof cases
    case 1
    then show ?thesis using that [of m ch] wf same by simp
  next
    case 2
    then show ?thesis using that [of "l2_emit x m" ch] wf same by (simp add: x_def)
  next
    case 3
    have "put_channel p ?ch (l2_emit x m) = l2_emit x (put_channel p ?ch m)" by (simp add: put_channel_def l2_emit_def)
    moreover have "l2_outs (put_channel p ?ch m) = l2_outs m" by (simp add: put_channel_def)
    ultimately show ?thesis using 3 that [of "l2_emit x (put_channel p ?ch m)" ?ch] wf' fr by (simp add: x_def)
  qed
qed

end
