(* ===== verification/L2cap_Safety.thy ===== *)
theory L2cap_Safety
  imports L2cap_Steps
begin

text \<open>
  Every handler and every call of the L2CAP manager on a well-formed state, and with them all histories.
\<close>

unbundle bit_operations_syntax

section \<open>Handing an SDU to the application\<close>

lemma writes_of_snoc [simp]: "writes_of w (ws @ [(v, b)]) = writes_of w ws @ (if v = w then [b] else [])"
  by (simp add: writes_of_def)

lemma rx_ok_write:
  assumes "rx_ok ws C" "pipes_ok wt C" "C p = Some ch" "lc_pipe ch \<noteq> NULL" "chan_ok (ws @ [(lc_pipe ch, b)]) ch'"
  shows "rx_ok (ws @ [(lc_pipe ch, b)]) (C(p \<mapsto> ch'))"
proof -
  have "chan_ok (ws @ [(lc_pipe ch, b)]) d" if "C q = Some d" "q \<noteq> p" for q d
  proof -
    have "lc_pipe d = lc_pipe ch \<Longrightarrow> lc_pipe d = NULL"
      using assms(2-4) that unfolding pipes_ok_def by metis
    moreover have "chan_ok ws d" using assms(1) that(1) unfolding rx_ok_def by blast
    ultimately show ?thesis unfolding chan_ok_def by auto
  qed
  then show ?thesis using assms(5) unfolding rx_ok_def by auto
qed

lemma send_ok:
  assumes wf: "l2_wf m" and p: "channels m p = Some ch" and s: "rx_sdu ch = Some s" "len_received s = len_total s" and w: "lc_pipe ch \<noteq> NULL"
  shows "ok_result (l2cap_send_sdu_to_app e p m)"
proof -
  note d = wfD [OF wf] and c = wf_chan [OF wf p]
  have l: "unat (len_total s) \<le> length (pk_data s)" using c s(1) by (auto simp: chan_ok_def sdu_ok_def)
  let ?x = "Pipe_write (lc_pipe ch) (take (unat (len_total s)) (pk_data s))"
  let ?c1 = "ch\<lparr>rx_sdu := None\<rparr>"
  let ?c2 = "ch\<lparr>rx_sdu := None, rx_list := rx_list ch @ [s]\<rparr>"
  have eq: "l2cap_send_sdu_to_app e p m = (if pipe_write e \<noteq> 0 then l2cap_abort_channel p (put_channel p ?c1 (l2_emit ?x m))
      else Some (put_channel p ?c2 ((l2_emit ?x m)\<lparr>pipe_writes := pipe_writes m @ [(lc_pipe ch, pk_buf s)]\<rparr>)))"
    using p s(1) l by (simp add: l2cap_send_sdu_to_app_def Let_def)
  have "l2_wf (put_channel p ?c1 (l2_emit ?x m))"
    by (rule wf_put) (use wf p c s in \<open>auto simp: same_face_def chan_ok_def rx_fits_def rx_pending_def\<close>)
  from abort_ok [OF this, of p ?c1] have a: "ok_result (l2cap_abort_channel p (put_channel p ?c1 (l2_emit ?x m)))" by simp
  have "rx_ok (pipe_writes m @ [(lc_pipe ch, pk_buf s)]) ((channels m)(p \<mapsto> ?c2))"
    by (rule rx_ok_write [OF d(6) d(3) p w]) (use c s w in \<open>auto simp: chan_ok_def rx_fits_def rx_pending_def\<close>)
  moreover have "psm_ok (psm_map m) ((channels m)(p \<mapsto> ?c2))" by (rule psm_ok_put [OF d(5) p]) simp_all
  ultimately have "l2_wf (put_channel p ?c2 ((l2_emit ?x m)\<lparr>pipe_writes := pipe_writes m @ [(lc_pipe ch, pk_buf s)]\<rparr>))"
    using heap_ok_put [OF d(1) p] ids_ok_put [OF d(2) p] pipes_ok_put [OF d(3) p] apps_ok_put [OF d(4) p] d(7)
    by (simp add: l2_wf_def)
  with a show ?thesis unfolding eq by (simp add: ok_result_def)
qed

lemma append_ok:
  assumes "sdu_ok s" "unat (len_received s) + unat (len_received packet) \<le> unat (len_total s)" "unat (len_received packet) \<le> length (pk_data packet)"
  obtains s' where "append_segment s packet = Some s'" "sdu_ok s'" "len_total s' = len_total s" "pk_buf s' = pk_buf s"
    "unat (len_received s') = unat (len_received s) + unat (len_received packet)"
proof -
  have "unat (len_received s) + unat (len_received packet) < 2 ^ LENGTH(16)"
    using assms(2) unsigned_less [of "len_total s", where ?'a = nat] by linarith
  then have u: "unat (len_received s + len_received packet) = unat (len_received s) + unat (len_received packet)"
    by (simp add: unat_word_ariths(1))
  show thesis
    using assms that u by (auto simp: append_segment_def sdu_ok_def Let_def word_le_nat_alt)
qed

section \<open>Segments\<close>

text \<open>A segment takes a credit and its bytes of the buffer; no subtraction wraps around.\<close>

lemma segment_fits:
  assumes "rx_fits ch" "ep_credits (incoming ch) \<noteq> 0" "n \<le> ep_le_mps (incoming ch)"
  shows "ep_le_mps (incoming ch) \<noteq> 0" "unat (rx_buf_size ch - n) = unat (rx_buf_size ch) - unat n" "unat n \<le> unat (rx_buf_size ch)"
    "rx_fits (ch\<lparr>incoming := (incoming ch)\<lparr>ep_credits := ep_credits (incoming ch) - 1\<rparr>, rx_buf_size := rx_buf_size ch - n\<rparr>)"
proof -
  let ?c = "unat (ep_credits (incoming ch))" and ?s = "unat (ep_le_mps (incoming ch))"
  have f: "?c * ?s \<le> unat (rx_buf_size ch)" "unat (rx_buf_size ch) + rx_pending ch \<le> L2CAP_MAX_RX_BUF_SIZE"
    using assms(1) by (simp_all add: rx_fits_def)
  show m: "ep_le_mps (incoming ch) \<noteq> 0" using assms(1, 2) by (auto simp: rx_fits_def)
  have c: "0 < ?c" using assms(2) by (simp add: unat_gt_0)
  have n: "unat n \<le> ?s" using assms(3) by (simp add: word_le_nat_alt)
  have cs: "?c * ?s = (?c - 1) * ?s + ?s" using c by (cases ?c) simp_all
  show le: "unat n \<le> unat (rx_buf_size ch)" using f(1) n cs by linarith
  then show sub: "unat (rx_buf_size ch - n) = unat (rx_buf_size ch) - unat n" by (simp add: unat_sub word_le_nat_alt)
  have "unat (ep_credits (incoming ch) - 1) = ?c - 1" using c by (subst unat_sub) (simp_all add: word_le_nat_alt)
  moreover have "(?c - 1) * ?s \<le> unat (rx_buf_size ch) - unat n" using f(1) n cs by linarith
  ultimately show "rx_fits (ch\<lparr>incoming := (incoming ch)\<lparr>ep_credits := ep_credits (incoming ch) - 1\<rparr>, rx_buf_size := rx_buf_size ch - n\<rparr>)"
    using f(2) sub m by (simp add: rx_fits_def rx_pending_def)
qed

lemma rx_frameD:
  assumes "rx_frame c d"
  shows "lc_pipe c = lc_pipe d" "rx_sdu c = rx_sdu d" "rx_list c = rx_list d" "rx_buf_size c = rx_buf_size d"
    "ep_le_mps (incoming c) = ep_le_mps (incoming d)" "channel_connected c = channel_connected d" "rx_pending c = rx_pending d"
  using assms by (simp_all add: rx_frame_def same_face_def rx_pending_def)

text \<open>Putting a packet under reassembly, or a longer one in its place, as far as the room goes.\<close>

lemma put_sdu:
  assumes wf: "l2_wf m" and p: "channels m p = Some ch" and s: "sdu_ok s" and mps: "ep_le_mps (incoming ch) \<noteq> 0"
    and room: "unat (rx_buf_size ch) + unat (len_received s) + (\<Sum>s \<leftarrow> rx_list ch. unat (len_total s)) \<le> L2CAP_MAX_RX_BUF_SIZE"
  shows "l2_wf (put_channel p (ch\<lparr>rx_sdu := Some s\<rparr>) m)"
  by (rule wf_put [OF wf p]) (use wf_chan [OF wf p] s mps room in \<open>auto simp: same_face_def chan_ok_def rx_fits_def rx_pending_def\<close>)

lemma sdu_step_ok:
  assumes wf: "l2_wf m" and p: "channels m p = Some ch" and w: "lc_pipe ch \<noteq> NULL" and mps: "ep_le_mps (incoming ch) \<noteq> 0"
    and room: "unat (rx_buf_size ch) + unat (len_received packet) + rx_pending ch \<le> L2CAP_MAX_RX_BUF_SIZE"
    and k: "len_received packet \<le> len_total packet" "unat (len_received packet) \<le> length (pk_data packet)"
    and o: "rx_sdu ch = None \<Longrightarrow> unat (len_total packet) \<le> length (pk_data packet)"
  shows "ok_result (case rx_sdu ch of
      None \<Rightarrow> let m = put_channel p (ch\<lparr>rx_sdu := Some packet\<rparr>) m
              in if len_received packet = len_total packet then l2cap_send_sdu_to_app e p m else Some m
    | Some sdu \<Rightarrow>
        if unat (len_total sdu) < unat (len_received sdu) + unat (len_received packet)
        then l2cap_abort_channel p (put_channel p (ch\<lparr>rx_sdu := None\<rparr>) m)
        else do {
          sdu \<leftarrow> append_segment sdu packet;
          let m = put_channel p (ch\<lparr>rx_sdu := Some sdu\<rparr>) m;
          if len_received sdu = len_total sdu then l2cap_send_sdu_to_app e p m else Some m })"
proof (cases "rx_sdu ch")
  case None
  have "l2_wf (put_channel p (ch\<lparr>rx_sdu := Some packet\<rparr>) m)"
    by (rule put_sdu [OF wf p _ mps]) (use None o k room in \<open>simp_all add: sdu_ok_def rx_pending_def\<close>)
  then show ?thesis using None w send_ok [of "put_channel p (ch\<lparr>rx_sdu := Some packet\<rparr>) m" p "ch\<lparr>rx_sdu := Some packet\<rparr>" packet e]
    by (simp add: ok_result_def Let_def)
next
  case (Some s)
  have so: "sdu_ok s" using wf_chan [OF wf p] Some by (simp add: chan_ok_def)
  show ?thesis
  proof (cases "unat (len_total s) < unat (len_received s) + unat (len_received packet)")
    case True
    have "l2_wf (put_channel p (ch\<lparr>rx_sdu := None\<rparr>) m)"
      by (rule wf_put [OF wf p]) (use wf_chan [OF wf p] Some in \<open>auto simp: same_face_def chan_ok_def rx_fits_def rx_pending_def\<close>)
    from abort_ok [OF this, of p "ch\<lparr>rx_sdu := None\<rparr>"] True Some show ?thesis by simp
  next
    case False
    obtain s' where s': "append_segment s packet = Some s'" "sdu_ok s'" "unat (len_received s') = unat (len_received s) + unat (len_received packet)"
      using append_ok [OF so _ k(2)] False by (metis not_less)
    have "l2_wf (put_channel p (ch\<lparr>rx_sdu := Some s'\<rparr>) m)"
      by (rule put_sdu [OF wf p s'(2) mps]) (use Some s'(3) room in \<open>simp add: rx_pending_def\<close>)
    then show ?thesis using Some False s'(1) w send_ok [of "put_channel p (ch\<lparr>rx_sdu := Some s'\<rparr>) m" p "ch\<lparr>rx_sdu := Some s'\<rparr>" s' e]
      by (simp add: ok_result_def Let_def)
  qed
qed

lemma packet_ok:
  assumes wf: "l2_wf m" and k: "len_received packet \<le> len_total packet" "unat (len_received packet) \<le> length (pk_data packet)"
    and o: "in_order cid packet m"
  shows "ok_result (handle_packet_received e addr cid packet m)"
proof -
  from wf show ?thesis
  proof (cases rule: find_in_list_cases [where P = "\<lambda>ch. local_cid ch = cid"])
    case 1
    then show ?thesis using wf by (simp add: handle_packet_received_def find_l2cap_channel_by_cid_def ok_result_def)
  next
    case (2 p ch)
    let ?ch = "ch\<lparr>incoming := (incoming ch)\<lparr>ep_credits := ep_credits (incoming ch) - 1\<rparr>, rx_buf_size := rx_buf_size ch - len_received packet\<rparr>"
    let ?bad = "ep_le_mps (incoming ch) < len_received packet \<or> ep_mtu (incoming ch) < len_total packet \<or> ep_credits (incoming ch) = 0"
    note c = wf_chan [OF wf 2(2)]
    have f: "find_l2cap_channel_by_cid cid m = Some (Some p)" using 2(1) by (simp add: find_l2cap_channel_by_cid_def)
    show ?thesis
    proof (cases "?bad \<or> lc_pipe ch = NULL \<or> \<not> proxy_connected ch")
      case True
      then show ?thesis using 2(2) wf abort_ok [OF wf 2(2)] f by (auto simp: handle_packet_received_def ok_result_def)
    next
      case False
      then have g: "len_received packet \<le> ep_le_mps (incoming ch)" "ep_credits (incoming ch) \<noteq> 0" "lc_pipe ch \<noteq> NULL" "proxy_connected ch" by auto
      have fits: "rx_fits ch" using c by (simp add: chan_ok_def)
      note sf = segment_fits [OF fits g(2, 1)]
      have wf1: "l2_wf (put_channel p ?ch m)"
        by (rule wf_put [OF wf 2(2)]) (use c sf(4) in \<open>auto simp: same_face_def chan_ok_def\<close>)
      obtain m' ch' where m': "refill_credits e p (put_channel p ?ch m) = Some m'" "l2_wf m'" "channels m' p = Some ch'" "rx_frame ch' ?ch"
        by (rule refill_cases [OF wf1, of p ?ch e]) (use sf(1) in simp_all)
      note fr = rx_frameD [OF m'(4)]
      have "rx_sdu ch' = None \<Longrightarrow> unat (len_total packet) \<le> length (pk_data packet)"
        using o g(3) f 2(2) fr(2) by (auto simp: in_order_def)
      moreover have "unat (rx_buf_size ch') + unat (len_received packet) + rx_pending ch' \<le> L2CAP_MAX_RX_BUF_SIZE"
        using fits sf(2, 3) fr(4, 7) by (simp add: rx_fits_def rx_pending_def)
      ultimately show ?thesis
        using sdu_step_ok [OF m'(2, 3) _ _ _ k] False g sf(1) fr f 2(2) m'(1, 3) by (simp add: handle_packet_received_def)
    qed
  qed
qed

section \<open>The end of a write\<close>

lemma find_in_list_cong:
  "channel_list m = channel_list m' \<Longrightarrow> channels m = channels m' \<Longrightarrow> find_in_list P m = find_in_list P m'"
proof -
  assume a: "channel_list m = channel_list m'" "channels m = channels m'"
  have "find_channel P ps m = find_channel P ps m'" for ps by (induction ps) (simp_all add: a(2) cong: if_cong)
  then show ?thesis by (simp add: find_in_list_def a(1))
qed

lemma writes_of_remove:
  "writes_of v (remove_first (\<lambda>x. fst x = w) ws) = (if v = w then tl (writes_of w ws) else writes_of v ws)"
  by (induction ws) (auto simp: writes_of_def)

lemma writes_of_find:
  "find (\<lambda>x. fst x = w) ws = Some (v, b) \<Longrightarrow> writes_of w ws = b # tl (writes_of w ws)"
  by (induction ws) (auto simp: writes_of_def split: if_splits)

lemma wf_forget_write:
  assumes wf: "l2_wf m" and no: "\<And>p ch. channels m p = Some ch \<Longrightarrow> lc_pipe ch \<noteq> w"
  shows "l2_wf (m\<lparr>pipe_writes := remove_first (\<lambda>x. fst x = w) (pipe_writes m)\<rparr>)"
proof -
  have "chan_ok (remove_first (\<lambda>x. fst x = w) (pipe_writes m)) ch" if "channels m p = Some ch" for p ch
    using wf_chan [OF wf that] no [OF that] by (simp add: chan_ok_def writes_of_remove)
  then show ?thesis using wfD [OF wf] by (simp add: l2_wf_def rx_ok_def)
qed

lemma abort_writes:
  assumes wf: "l2_wf m" and p: "channels m p = Some ch" and w: "lc_pipe ch = w" "w \<noteq> NULL"
  shows "ok_result (l2cap_abort_channel p (m\<lparr>pipe_writes := remove_first (\<lambda>x. fst x = w) (pipe_writes m)\<rparr>))"
proof -
  let ?f = "\<lambda>m. m\<lparr>pipe_writes := remove_first (\<lambda>x. fst x = w) (pipe_writes m)\<rparr>"
  obtain m' where m': "l2cap_abort_channel p m = Some m'" "l2_wf m'" using abort_ok [OF wf p] by (auto simp: ok_result_def)
  have eq: "l2cap_abort_channel p (?f m) = Some (?f m')"
    using m'(1) p w by (auto simp: l2cap_abort_channel_def put_channel_def close_pipe_def l2_emit_def Let_def)
  have ch: "channels m' = (channels m)(p \<mapsto> ch\<lparr>proxy_connected := False, lc_pipe := NULL\<rparr>)"
    using m'(1) p w by (auto simp: l2cap_abort_channel_def Let_def)
  have "lc_pipe d \<noteq> w" if "channels m' q = Some d" for q d
  proof (cases "q = p")
    case True
    then show ?thesis using that w ch by auto
  next
    case False
    then have "channels m q = Some d" using that ch by simp
    then show ?thesis using wfD(3) [OF wf] p w False unfolding pipes_ok_def by metis
  qed
  from wf_forget_write [OF m'(2) this] show ?thesis by (simp add: eq ok_result_def)
qed

lemma written_fits:
  assumes "rx_fits ch" "rx_list ch = s # rest"
  shows "unat (rx_buf_size ch + len_total s) = unat (rx_buf_size ch) + unat (len_total s)"
    "unat (rx_buf_size ch + len_total s) \<le> L2CAP_MAX_RX_BUF_SIZE"
    "rx_fits (ch\<lparr>rx_list := rest, rx_buf_size := rx_buf_size ch + len_total s\<rparr>)"
proof -
  have b: "unat (rx_buf_size ch) + rx_pending ch \<le> L2CAP_MAX_RX_BUF_SIZE" using assms(1) by (simp add: rx_fits_def)
  have p: "rx_pending ch = unat (len_total s) + rx_pending (ch\<lparr>rx_list := rest\<rparr>)" using assms(2) by (simp add: rx_pending_def)
  have "unat (rx_buf_size ch) + unat (len_total s) < 2 ^ LENGTH(16)" using b p by simp
  then show u: "unat (rx_buf_size ch + len_total s) = unat (rx_buf_size ch) + unat (len_total s)" by (simp add: unat_word_ariths(1))
  then show "unat (rx_buf_size ch + len_total s) \<le> L2CAP_MAX_RX_BUF_SIZE" using b p by simp
  show "rx_fits (ch\<lparr>rx_list := rest, rx_buf_size := rx_buf_size ch + len_total s\<rparr>)"
    using assms b p u by (auto simp: rx_fits_def rx_pending_def)
qed

lemma wf_written:
  assumes wf: "l2_wf m" and p: "channels m p = Some ch" and w: "lc_pipe ch = w" "w \<noteq> NULL" and l: "rx_list ch = s # rest"
  shows "l2_wf (put_channel p (ch\<lparr>rx_list := rest, rx_buf_size := rx_buf_size ch + len_total s\<rparr>)
     (m\<lparr>pipe_writes := remove_first (\<lambda>x. fst x = w) (pipe_writes m)\<rparr>))"
proof -
  let ?ch = "ch\<lparr>rx_list := rest, rx_buf_size := rx_buf_size ch + len_total s\<rparr>"
  let ?ws = "remove_first (\<lambda>x. fst x = w) (pipe_writes m)"
  note d = wfD [OF wf] and c = wf_chan [OF wf p]
  have "chan_ok ?ws ?ch"
    using c w l written_fits(3) [OF _ l] by (simp add: chan_ok_def writes_of_remove)
  moreover have "chan_ok ?ws e" if "q \<noteq> p" "channels m q = Some e" for q e
  proof -
    have "lc_pipe e \<noteq> w" using d(3) p w that unfolding pipes_ok_def by metis
    then show ?thesis using wf_chan [OF wf that(2)] by (simp add: chan_ok_def writes_of_remove)
  qed
  ultimately have "rx_ok ?ws ((channels m)(p \<mapsto> ?ch))" unfolding rx_ok_def by auto
  moreover have "psm_ok (psm_map m) ((channels m)(p \<mapsto> ?ch))" by (rule psm_ok_put [OF d(5) p]) simp_all
  ultimately show ?thesis
    using heap_ok_put [OF d(1) p] ids_ok_put [OF d(2) p] pipes_ok_put [OF d(3) p] apps_ok_put [OF d(4) p] d(7)
    by (simp add: l2_wf_def)
qed

lemma written_ok:
  assumes wf: "l2_wf m" and w: "w \<noteq> NULL" and f: "find (\<lambda>x. fst x = w) (pipe_writes m) = Some (v, buf)"
  shows "ok_result (l2cap_send_sdu_to_app_cb e w buf status (m\<lparr>pipe_writes := remove_first (\<lambda>x. fst x = w) (pipe_writes m)\<rparr>))"
proof -
  let ?m = "m\<lparr>pipe_writes := remove_first (\<lambda>x. fst x = w) (pipe_writes m)\<rparr>"
  have eq: "find_l2cap_channel_by_pipe w ?m = find_in_list (\<lambda>ch. lc_pipe ch = w) m"
    unfolding find_l2cap_channel_by_pipe_def by (rule find_in_list_cong) simp_all
  from wf show ?thesis
  proof (cases rule: find_in_list_cases [where P = "\<lambda>ch. lc_pipe ch = w"])
    case 1
    then show ?thesis using wf_forget_write [OF wf 1(2)] eq by (simp add: l2cap_send_sdu_to_app_cb_def ok_result_def)
  next
    case (2 p ch)
    note c = wf_chan [OF wf 2(2)]
    have "map pk_buf (rx_list ch) = buf # tl (writes_of w (pipe_writes m))"
      using c 2(3) w writes_of_find [OF f] by (simp add: chan_ok_def)
    then obtain s rest where l: "rx_list ch = s # rest" "pk_buf s = buf" by (cases "rx_list ch") auto
    have fits: "rx_fits ch" using c by (simp add: chan_ok_def)
    let ?ch = "ch\<lparr>rx_list := rest, rx_buf_size := rx_buf_size ch + len_total s\<rparr>"
    have mps: "ep_le_mps (incoming ch) \<noteq> 0" using fits l by (auto simp: rx_fits_def)
    have "ok_result (refill_credits e p (put_channel p ?ch ?m))"
      by (rule refill_cases [OF wf_written [OF wf 2(2) 2(3) w l(1)], of p ?ch e]) (use mps in \<open>simp_all add: ok_result_def\<close>)
    then show ?thesis
      using eq 2 l written_fits(2) [OF fits l(1)] abort_writes [OF wf 2(2) 2(3) w]
      by (simp add: l2cap_send_sdu_to_app_cb_def Let_def not_less [symmetric])
  qed
qed

section \<open>Connections\<close>

lemma wf_handle: "l2_wf m \<Longrightarrow> channels m p = Some ch \<Longrightarrow> rcbks (l2_callbacks m) (app_handle ch) \<noteq> None"
  using wfD(4) unfolding apps_ok_def by blast

lemma app_notify_result:
  assumes "rcbks (l2_callbacks m) (app_handle ch) \<noteq> None"
  shows "\<exists>m'. l2cap_notify_connected e ch param m = Some m' \<and> (m' = m \<or> (\<exists>x. m' = l2_emit x m))"
    and "\<exists>m'. l2cap_notify_disconnected e ch r m = Some m' \<and> (m' = m \<or> (\<exists>x. m' = l2_emit x m))"
  using assms by (auto simp: l2cap_notify_connected_def l2cap_notify_disconnected_def)

text \<open>Giving up a channel while its new contents are still being written.\<close>

lemma abort_put:
  assumes wf: "l2_wf m" and p: "channels m p = Some ch" and w: "lc_pipe ch \<noteq> NULL"
    and f: "same_face ch' ch" "local_cid ch' = local_cid ch"
    and ok: "chan_ok (pipe_writes m) (ch'\<lparr>proxy_connected := False, lc_pipe := NULL\<rparr>)"
  shows "ok_result (l2cap_abort_channel p (put_channel p ch' m))"
proof -
  obtain m' where m': "l2cap_abort_channel p m = Some m'" "l2_wf m'" using abort_ok [OF wf p] by (auto simp: ok_result_def)
  let ?c = "ch\<lparr>proxy_connected := False, lc_pipe := NULL\<rparr>" and ?d = "ch'\<lparr>proxy_connected := False, lc_pipe := NULL\<rparr>"
  have fm: "channels m' = (channels m)(p \<mapsto> ?c)" "pipe_writes m' = pipe_writes m"
    using m'(1) p w by (auto simp: l2cap_abort_channel_def Let_def)
  have "l2_wf (put_channel p ?d m')"
    by (rule wf_put [OF m'(2), of p ?c]) (use fm f(1) ok in \<open>simp_all add: same_face_def\<close>)
  moreover have "l2cap_abort_channel p (put_channel p ch' m) = Some (put_channel p ?d m')"
    using m'(1) p w f by (auto simp: l2cap_abort_channel_def put_channel_def close_pipe_def l2_emit_def same_face_def Let_def)
  ultimately show ?thesis by (simp add: ok_result_def)
qed

lemma emit_put: "l2_emit x (put_channel p ch m) = put_channel p ch (l2_emit x m)"
  by (simp add: l2_emit_def put_channel_def)

lemma put_put: "put_channel p ch (put_channel p d m) = put_channel p ch m"
  by (simp add: put_channel_def)

lemma connected_fits:
  assumes "endpoint_ok ep" "rx_sdu ch = None" "rx_list ch = []"
  shows "rx_fits (ch\<lparr>incoming := ep, outgoing := o', tx_mtu := t, tx_quota := n,
     rx_buf_size := (let sz = unat (ep_credits ep) * unat (ep_le_mps ep)
        in if L2CAP_MAX_RX_BUF_SIZE < sz then of_nat L2CAP_MAX_RX_BUF_SIZE else of_nat sz)\<rparr>)"
proof -
  have le: "unat (ep_credits ep) * unat (ep_le_mps ep) \<le> L2CAP_MAX_RX_BUF_SIZE" using assms(1) by (simp add: endpoint_ok_def)
  then have "unat (of_nat (unat (ep_credits ep) * unat (ep_le_mps ep)) :: u16) = unat (ep_credits ep) * unat (ep_le_mps ep)"
    by (simp add: unat_of_nat mod_less del: of_nat_mult)
  then show ?thesis using assms le by (simp add: rx_fits_def rx_pending_def endpoint_ok_def Let_def del: of_nat_mult)
qed

lemma ready_ok:
  assumes wf: "l2_wf m" and p: "channels m p = Some ch" and w: "lc_pipe ch \<noteq> NULL" and n: "\<not> channel_connected ch"
    and r: "lc_role ch \<noteq> L2CAP_CHANNEL_ROLE_SERVER_LISTEN" and ep: "endpoint_ok (cp_incoming param)"
    and l: "\<And>q. listener = Some q \<Longrightarrow> channels m q \<noteq> None"
  shows "ok_result (channel_ready e param p listener m)"
proof -
  define sz where "sz = unat (ep_credits (cp_incoming param)) * unat (ep_le_mps (cp_incoming param))"
  define c1 where "c1 = ch\<lparr>incoming := cp_incoming param, outgoing := cp_outgoing param,
      tx_mtu := min (ep_mtu (cp_outgoing param)) (outgoing_mtu_limit e), tx_quota := L2CAP_TX_QUOTA,
      rx_buf_size := (if L2CAP_MAX_RX_BUF_SIZE < sz then of_nat L2CAP_MAX_RX_BUF_SIZE else of_nat sz)\<rparr>"
  define c2 where "c2 = c1\<lparr>channel_connected := True\<rparr>"
  note c = wf_chan [OF wf p]
  have e0: "rx_sdu ch = None" "rx_list ch = []" using c w n by (auto simp: chan_ok_def rx_fits_def)
  have fits: "rx_fits c1" using connected_fits [OF ep e0] unfolding c1_def sz_def Let_def .
  have same: "same_face c1 ch" "same_face c2 ch" "local_cid c1 = local_cid ch" "rx_sdu c1 = None" "rx_list c1 = []" "lc_pipe c1 = lc_pipe ch"
    using r e0 by (simp_all add: same_face_def c1_def c2_def)
  have fits2: "rx_fits c2" using fits by (simp add: c2_def rx_fits_def rx_pending_def)
  have ok2: "chan_ok (pipe_writes m) c2" using c w fits2 e0 by (simp add: chan_ok_def c2_def c1_def)
  have okn: "chan_ok (pipe_writes m) (c1\<lparr>proxy_connected := False, lc_pipe := NULL\<rparr>)"
    using fits e0 by (simp add: chan_ok_def c1_def rx_fits_def rx_pending_def)
  have ab: "ok_result (l2cap_abort_channel p (put_channel p c1 (l2_emit y (l2_emit x m))))"
    "ok_result (l2cap_abort_channel p (put_channel p c1 (l2_emit x m)))" for x y
    by (rule abort_put [of _ p ch]; use wf p w same okn in simp)+
  have wf2: "l2_wf (put_channel p c2 m)" by (rule wf_put [OF wf p same(2) ok2])
  obtain a where a: "(case listener of None \<Rightarrow> Some None
      | Some q \<Rightarrow> do { new \<leftarrow> ((channels m)(p \<mapsto> c2)) q; Some (Some (lc_id new, proxy_name new)) }) = Some a"
  proof (cases listener)
    case (Some q)
    then obtain d where "((channels m)(p \<mapsto> c2)) q = Some d" using l [OF Some] by (cases "q = p") auto
    then show ?thesis using that Some by simp
  qed (use that in simp)
  have h: "rcbks (l2_callbacks m) (app_handle c1) \<noteq> None" using wf_handle [OF wf p] by (simp add: c1_def)
  have nt: "ok_result (l2cap_notify_connected e c1 pa (put_channel p c2 (l2_emit y (l2_emit x m))))" for pa x y
  proof -
    let ?m = "put_channel p c2 (l2_emit y (l2_emit x m))"
    have wfm: "l2_wf ?m" unfolding emit_put [symmetric] using wf2 by simp
    show ?thesis using app_notify_result(1) [of ?m c1 e pa] h wfm by (auto simp: ok_result_def)
  qed
  have "channel_ready e param p listener m =
      (let x = Pipe_read_stop (lc_pipe ch); y = Pipe_read_start (lc_pipe ch) (tx_mtu c1)
       in if read_stop e \<noteq> 0 then l2cap_abort_channel p (put_channel p c1 (l2_emit x m))
          else if read_start e \<noteq> 0 then l2cap_abort_channel p (put_channel p c1 (l2_emit y (l2_emit x m)))
          else l2cap_notify_connected e c1
            \<lparr>pa_addr = lc_addr c1, pa_cid = local_cid c1, pa_psm = lc_psm c1, pa_incoming_mtu = ep_mtu (incoming c1),
             pa_outgoing_mtu = ep_mtu (outgoing c1), pa_id = lc_id c1, pa_listen = a\<rparr> (put_channel p c2 (l2_emit y (l2_emit x m))))"
    using p a unfolding channel_ready_def
    by (simp add: Let_def c1_def [symmetric] sz_def [symmetric] c2_def [symmetric] same(6) emit_put put_put cong: option.case_cong)
  then show ?thesis using ab nt by (simp add: Let_def)
qed

lemma accept_ok:
  assumes wf: "l2_wf m" and p: "channels m p = Some ch" and c: "proxy_connected ch" "lc_role ch = L2CAP_CHANNEL_ROLE_SERVER_LISTEN"
    and q: "channels m q = None" and w: "unused_pipe w m" and ep: "endpoint_ok (cp_incoming param)"
  shows "ok_result (do {
     (new, m) \<leftarrow> alloc_free_channel q (app_handle ch) None (lc_psm ch) L2CAP_CHANNEL_ROLE_SERVER_LISTEN
        (put_channel p (ch\<lparr>lc_addr := addr, local_cid := cid, lc_role := L2CAP_CHANNEL_ROLE_SERVER_ACCEPT\<rparr>) m);
     if new = NULL then Some m
     else do {
       (ok, m) \<leftarrow> prepare_data_path w new m;
       if \<not> ok then remove_channel new m else channel_ready e param p (Some new) m } })"
proof -
  let ?c = "ch\<lparr>lc_addr := addr, local_cid := cid, lc_role := L2CAP_CHANNEL_ROLE_SERVER_ACCEPT\<rparr>"
  let ?m = "put_channel p ?c m"
  note d = wfD [OF wf]
  have nc: "\<not> channel_connected ch" and pm: "psm_valid (lc_psm ch)" "psm_marked (psm_map m) (lc_psm ch)"
    using d(5) p c(2) unfolding psm_ok_def by blast+
  have pipe: "lc_pipe ch \<noteq> NULL" using wf_chan [OF wf p] c(1) by (auto simp: chan_ok_def)
  have wf1: "l2_wf ?m"
    by (rule wf_put [OF wf p]) (use wf_chan [OF wf p] in \<open>auto simp: same_face_def chan_ok_def rx_fits_def rx_pending_def\<close>)
  have "lc_psm x \<noteq> lc_psm ch" if "channels ?m y = Some x" "lc_role x = L2CAP_CHANNEL_ROLE_SERVER_LISTEN" for x y
  proof -
    have "y \<noteq> p" "channels m y = Some x" using that by (auto split: if_splits)
    then show ?thesis using d(5) p c(2) that(2) unfolding psm_ok_def by metis
  qed
  then have ml: "may_listen (lc_psm ch) ?m" using pm by (auto simp: may_listen_def)
  have qn: "channels ?m q = None" and qp: "q \<noteq> p" using q p by auto
  have h: "rcbks (l2_callbacks ?m) (app_handle ch) \<noteq> None" using wf_handle [OF wf p] by simp
  from wf1 qn h ml show ?thesis
  proof (cases rule: alloc_channel_cases [where addr = None and role = L2CAP_CHANNEL_ROLE_SERVER_LISTEN and psm = "lc_psm ch"])
    case (1 m')
    then show ?thesis by (simp add: ok_result_def)
  next
    case (2 m' new)
    have u: "unused_pipe w m'"
      by (rule unused_new [OF _ 2(4, 9)]) (use w p pipe 2(5) in \<open>auto simp: unused_pipe_def blank_channel_def split: if_splits\<close>)
    have nq: "channels m' q = Some new" using 2(4) by simp
    show ?thesis
    proof (rule prepare_cases [OF 2(3) nq 2(5) u])
      fix m2
      assume m2: "prepare_data_path w q m' = Some (w \<noteq> NULL, m2)" "l2_wf m2"
        "channels m2 = (channels m')(q \<mapsto> new\<lparr>proxy_name := pipe_name (lc_id new), lc_pipe := w\<rparr>)"
      have pc: "channels m2 p = Some ?c" using m2(3) 2(4) qp by simp
      have "ok_result (remove_channel q m2)" by (rule remove_ok [OF m2(2)]) (use m2(3) in simp)
      moreover have "ok_result (channel_ready e param p (Some q) m2)"
        by (rule ready_ok [OF m2(2) pc]) (use pipe nc ep m2(3) in auto)
      ultimately show ?thesis using 2(1, 2) m2(1) by simp
    qed
  qed
qed

lemma channel_connected_ok:
  assumes wf: "l2_wf m" and q: "channels m q = None" and w: "unused_pipe w m" and ep: "endpoint_ok (cp_incoming param)"
  shows "ok_result (handle_channel_conneted e q w addr param m)"
proof (cases "cp_is_client param")
  case True
  let ?P = "\<lambda>ch. lc_psm ch = cp_psm param \<and> lc_role ch = L2CAP_CHANNEL_ROLE_CLIENT \<and> channel_connected ch = False \<and> lc_addr ch = addr"
  from wf show ?thesis
  proof (cases rule: find_in_list_cases [where P = ?P])
    case 1
    then show ?thesis using wf True by (simp add: handle_channel_conneted_def find_l2cap_channel_by_conn_param_def ok_result_def)
  next
    case (2 p ch)
    have "lc_pipe ch \<noteq> NULL" if "proxy_connected ch" using wf_chan [OF wf 2(2)] that by (auto simp: chan_ok_def)
    then show ?thesis
      using 2 True abort_ok [OF wf 2(2)] ready_ok [OF wf 2(2) _ _ _ ep, of None e]
      by (simp add: handle_channel_conneted_def find_l2cap_channel_by_conn_param_def)
  qed
next
  case False
  let ?P = "\<lambda>ch. lc_psm ch = cp_psm param \<and> lc_role ch = L2CAP_CHANNEL_ROLE_SERVER_LISTEN \<and> channel_connected ch = False"
  from wf show ?thesis
  proof (cases rule: find_in_list_cases [where P = ?P])
    case 1
    then show ?thesis using wf False by (simp add: handle_channel_conneted_def find_l2cap_channel_by_conn_param_def ok_result_def)
  next
    case (2 p ch)
    then show ?thesis
      using False abort_ok [OF wf 2(2)] accept_ok [OF wf 2(2) _ _ q w ep, where addr = addr and cid = "cp_local_cid param" and e = e]
      by (simp add: handle_channel_conneted_def find_l2cap_channel_by_conn_param_def Let_def)
  qed
qed

lemma channel_disconnected_ok:
  assumes wf: "l2_wf m"
  shows "ok_result (handle_channel_disconneted e addr cid reason m)"
  using wf
proof (cases rule: find_in_list_cases [where P = "\<lambda>ch. local_cid ch = cid"])
  case 1
  then show ?thesis using wf by (simp add: handle_channel_disconneted_def find_l2cap_channel_by_cid_def ok_result_def)
next
  case (2 p ch)
  obtain m' where m': "l2cap_notify_disconnected e ch reason m = Some m'" "m' = m \<or> (\<exists>x. m' = l2_emit x m)"
    using app_notify_result(2) [OF wf_handle [OF wf 2(2)]] by blast
  then have "l2_wf m'" "channels m' p = Some ch" using wf 2(2) by auto
  from remove_ok [OF this] show ?thesis
    using 2 m'(1) by (simp add: handle_channel_disconneted_def find_l2cap_channel_by_cid_def)
qed

lemma wf_put_same:
  assumes "l2_wf m" "channels m p = Some ch"
  shows "l2_wf (put_channel p (ch\<lparr>local_cid := c\<rparr>) m)" "l2_wf (put_channel p (ch\<lparr>tx_quota := t\<rparr>) m)"
  by (rule wf_put [OF assms], use wf_chan [OF assms] in \<open>simp_all add: same_face_def chan_ok_def rx_fits_def rx_pending_def\<close>)+

lemma cid_ok:
  assumes wf: "l2_wf m"
  shows "ok_result (handle_cid_allocated addr psm cid m)"
  using wf
proof (cases rule: find_in_list_cases [where P = "\<lambda>ch. lc_psm ch = psm \<and> lc_role ch = L2CAP_CHANNEL_ROLE_CLIENT \<and>
    channel_connected ch = False \<and> lc_addr ch = addr"])
  case 1
  then show ?thesis using wf by (simp add: handle_cid_allocated_def find_l2cap_channel_by_conn_param_def ok_result_def)
next
  case (2 p ch)
  then show ?thesis using wf_put_same(1) [OF wf 2(2)] by (simp add: handle_cid_allocated_def find_l2cap_channel_by_conn_param_def ok_result_def)
qed

lemma sent_ok:
  assumes wf: "l2_wf m"
  shows "ok_result (handle_packet_sent cid m)"
  using wf
proof (cases rule: find_in_list_cases [where P = "\<lambda>ch. local_cid ch = cid"])
  case 1
  then show ?thesis using wf by (simp add: handle_packet_sent_def find_l2cap_channel_by_cid_def ok_result_def)
next
  case (2 p ch)
  then show ?thesis using wf_put_same(2) [OF wf 2(2)]
    by (simp add: handle_packet_sent_def find_l2cap_channel_by_cid_def ok_result_def emit_put [symmetric] Let_def)
qed

end
