(* ===== verification/L2cap_Histories.thy ===== *)
theory L2cap_Histories
  imports L2cap_Safety
begin

text \<open>
  The calls of the applications and the callbacks of the pipes on a well-formed L2CAP manager, all histories, and the
  properties of the component.
\<close>

unbundle bit_operations_syntax

section \<open>Pipes\<close>

lemma wf_waiting:
  assumes "l2_wf m" "set ws \<subseteq> set (pipe_waiting m)"
  shows "l2_wf (m\<lparr>pipe_waiting := ws\<rparr>)"
proof -
  have "pipes_ok ws (channels m)" using wfD(3) [OF assms(1)] assms(2) unfolding pipes_ok_def by blast
  then show ?thesis using wfD [OF assms(1)] by (simp add: l2_wf_def)
qed

lemma proxy_ok:
  assumes wf: "l2_wf m" and w: "map_of (pipe_waiting m) w = Some p"
  shows "ok_result (proxy_connected_cb e w status p (m\<lparr>pipe_waiting := filter (\<lambda>x. fst x \<noteq> w) (pipe_waiting m)\<rparr>))"
proof -
  let ?m = "m\<lparr>pipe_waiting := filter (\<lambda>x. fst x \<noteq> w) (pipe_waiting m)\<rparr>"
  have wf1: "l2_wf ?m" by (rule wf_waiting [OF wf]) auto
  obtain ch where ch: "channels m p = Some ch" "lc_pipe ch = w" "w \<noteq> NULL"
    using wfD(3) [OF wf] map_of_SomeD [OF w] unfolding pipes_ok_def by blast
  let ?c = "ch\<lparr>proxy_connected := True\<rparr>"
  have "l2_wf (put_channel p ?c ?m)"
    by (rule wf_put [OF wf1]) (use ch wf_chan [OF wf ch(1)] in \<open>auto simp: same_face_def chan_ok_def rx_fits_def rx_pending_def\<close>)
  then show ?thesis
    using ch remove_ok [OF wf1, of p ch] remove_ok [of "l2_emit (Pipe_read_start w L2CAP_PIPE_DEF_READ_SIZE) (put_channel p ?c ?m)" p ?c]
    by (simp add: proxy_connected_cb_def ok_result_def Let_def)
qed

lemma data_ok:
  assumes wf: "l2_wf m" and b: "nat sz \<le> length buf"
  shows "ok_result (l2cap_receive_data_from_app e w buf sz m)"
  using wf
proof (cases rule: find_in_list_cases [where P = "\<lambda>ch. lc_pipe ch = w"])
  case 1
  then show ?thesis using wf by (simp add: l2cap_receive_data_from_app_def find_l2cap_channel_by_pipe_def ok_result_def)
next
  case (2 p ch)
  have "ok_result (remove_channel p (l2_emit x m))" "ok_result (remove_channel p m)" for x
    using remove_ok [OF wf 2(2)] remove_ok [of "l2_emit x m" p ch] wf 2(2) by simp_all
  moreover have "l2_wf (put_channel p (ch\<lparr>tx_quota := t\<rparr>) (l2_emit x m))" for t x
    using wf_put_same(2) [OF wf 2(2)] by (simp add: emit_put [symmetric])
  ultimately show ?thesis
    using 2 b wf by (simp add: l2cap_receive_data_from_app_def find_l2cap_channel_by_pipe_def ok_result_def Let_def)
qed

section \<open>Applications\<close>

lemma cleanup_app_ok:
  assumes "l2_wf m" "distinct ps" "\<And>p. p \<in> set ps \<Longrightarrow> channels m p \<noteq> None"
  shows "\<exists>m'. cleanup_app_loop app ps m = Some m' \<and> l2_wf m' \<and> l2_callbacks m' = l2_callbacks m \<and>
     (\<forall>q ch. channels m' q = Some ch \<longrightarrow> channels m q = Some ch \<and> (q \<in> set ps \<longrightarrow> app_handle ch \<noteq> app))"
  using assms
proof (induction ps arbitrary: m)
  case (Cons p ps)
  obtain ch where p: "channels m p = Some ch" using Cons.prems(3) [of p] by auto
  show ?case
  proof (cases "app_handle ch = app")
    case True
    let ?m = "if channel_connected ch then l2_emit (Sal_disconnect (local_cid ch)) m else m"
    have wf: "l2_wf ?m" and pm: "channels ?m p = Some ch" and f: "channels ?m = channels m" "l2_callbacks ?m = l2_callbacks m"
      using Cons.prems(1) p by simp_all
    obtain m1 where m1: "remove_channel p ?m = Some m1" "l2_wf m1" "channels m1 = (channels m)(p := None)" "l2_callbacks m1 = l2_callbacks m"
      by (rule wf_remove [OF wf pm]) (simp add: f)
    have "channels m1 q \<noteq> None" if "q \<in> set ps" for q using Cons.prems(2, 3) that m1(3) by auto
    then obtain m' where m': "cleanup_app_loop app ps m1 = Some m'" "l2_wf m'" "l2_callbacks m' = l2_callbacks m1"
      "\<And>q c. channels m' q = Some c \<Longrightarrow> channels m1 q = Some c \<and> (q \<in> set ps \<longrightarrow> app_handle c \<noteq> app)"
      using Cons.IH [OF m1(2)] Cons.prems(2) by auto
    have "channels m q = Some c \<and> (q \<in> set (p # ps) \<longrightarrow> app_handle c \<noteq> app)" if "channels m' q = Some c" for q c
      using m'(4) [OF that] m1(3) by (auto split: if_splits)
    then show ?thesis using m'(1-3) m1(1, 4) p True by auto
  next
    case False
    obtain m' where m': "cleanup_app_loop app ps m = Some m'" "l2_wf m'" "l2_callbacks m' = l2_callbacks m"
      "\<And>q c. channels m' q = Some c \<Longrightarrow> channels m q = Some c \<and> (q \<in> set ps \<longrightarrow> app_handle c \<noteq> app)"
      using Cons.IH [OF Cons.prems(1)] Cons.prems(2, 3) by auto
    have "channels m q = Some c \<and> (q \<in> set (p # ps) \<longrightarrow> app_handle c \<noteq> app)" if "channels m' q = Some c" for q c
      using m'(4) [OF that] p False by auto
    then show ?thesis using m'(1-3) p False by auto
  qed
qed simp

lemma unregister_frame:
  "unregister_loop s rcbk node = Some r \<Longrightarrow> rcbks (snd r) d = rcbks s d \<or> d = rcbk"
proof (rule unregister_loop.raw_induct [of "\<lambda>s rcbk node r. rcbks (snd r) d = rcbks s d \<or> d = rcbk"], goal_cases)
  case (1 f s rcbk node r)
  from 1(3) show ?case
    by (auto simp: bind_eq_Some_conv split: if_splits option.splits dest!: 1(2))
qed

lemma unregister_apps:
  assumes "cb_inv s ds"
  obtains r s' ds' where "bt_remote_callbacks_unregister s p = Some (r, s')" "cb_inv s' ds'" "\<And>d. d \<noteq> p \<Longrightarrow> rcbks s' d = rcbks s d"
proof -
  obtain r s' ds' where u: "bt_remote_callbacks_unregister s p = Some (r, s')" "cb_inv s' ds'"
    using unregister_unknown [OF assms, of p] unregister_known [OF assms, of p] assms by (cases "p \<in> set ds") auto
  have "rcbks s' d = rcbks s d" if "d \<noteq> p" for d
    using u(1) unregister_frame [of s p _ "(r, s')" d] that by (auto simp: bt_remote_callbacks_unregister_def bind_eq_Some_conv)
  with u show thesis by (rule that)
qed

lemma register_apps:
  assumes "cb_inv s ds" "2 \<le> budget (cmem s)"
  obtains h s' ds' where "bt_remote_callbacks_register s remote cbs = Some (h, s')" "cb_inv s' ds'" "\<And>d. rcbks s d \<noteq> None \<Longrightarrow> rcbks s' d \<noteq> None"
proof -
  obtain h s' ds' where r: "bt_remote_callbacks_register s remote cbs = Some (h, s')" "cb_inv s' ds'"
    using register_rejects [OF assms(1)] register_accepts [OF assms(1) _ _ assms(2)] assms(1) by metis
  have "rcbks s' d \<noteq> None" if "rcbks s d \<noteq> None" for d
    using r(1) that by (auto simp: bt_remote_callbacks_register_def bind_eq_Some_conv split: if_splits prod.splits)
  with r show thesis by (rule that)
qed

lemma wf_callbacks:
  assumes "l2_wf m" "cb_inv s ds" "\<And>p ch. channels m p = Some ch \<Longrightarrow> rcbks s (app_handle ch) \<noteq> None"
  shows "l2_wf (m\<lparr>l2_callbacks := s\<rparr>)"
proof -
  have "apps_ok s (channels m)" using assms(2, 3) unfolding apps_ok_def by blast
  then show ?thesis using wfD [OF assms(1)] by (simp add: l2_wf_def)
qed

lemma register_ok:
  assumes wf: "l2_wf m" and b: "2 \<le> budget (cmem (l2_callbacks m))"
  shows "ok_result (map_option snd (l2cap_register_callbacks e remote cbs m))"
proof -
  obtain ds where ds: "cb_inv (l2_callbacks m) ds" using wfD(4) [OF wf] unfolding apps_ok_def by blast
  show ?thesis
  proof (rule register_apps [OF ds b, of remote cbs])
    fix h s' ds'
    assume r: "bt_remote_callbacks_register (l2_callbacks m) remote cbs = Some (h, s')" "cb_inv s' ds'"
      and k: "\<And>d. rcbks (l2_callbacks m) d \<noteq> None \<Longrightarrow> rcbks s' d \<noteq> None"
    have "l2_wf (m\<lparr>l2_callbacks := s'\<rparr>)" by (rule wf_callbacks [OF wf r(2)]) (use k wf_handle [OF wf] in blast)
    then show ?thesis using wf r(1) by (simp add: l2cap_register_callbacks_def ok_result_def)
  qed
qed

lemma unregister_ok:
  assumes wf: "l2_wf m"
  shows "ok_result (map_option snd (l2cap_unregister_callbacks e cookie m))"
proof -
  obtain ps where ps: "channel_list m = Some ps" "distinct ps" "\<And>p. channels m p \<noteq> None \<longleftrightarrow> p \<in> set ps"
    using wfD(1) [OF wf] unfolding heap_ok_def by blast
  obtain m' where m': "cleanup_app_loop cookie ps m = Some m'" "l2_wf m'"
    "\<And>q ch. channels m' q = Some ch \<Longrightarrow> channels m q = Some ch \<and> (q \<in> set ps \<longrightarrow> app_handle ch \<noteq> cookie)"
    using cleanup_app_ok [OF wf ps(2), of cookie] ps(3) by blast
  have away: "app_handle ch \<noteq> cookie" if "channels m' q = Some ch" for q ch
    using m'(3) [OF that] ps(3) [of q] by simp
  obtain ds where ds: "cb_inv (l2_callbacks m') ds" using wfD(4) [OF m'(2)] unfolding apps_ok_def by blast
  show ?thesis
  proof (rule unregister_apps [OF ds, of cookie])
    fix r s' ds'
    assume r: "bt_remote_callbacks_unregister (l2_callbacks m') cookie = Some (r, s')" "cb_inv s' ds'"
      and k: "\<And>d. d \<noteq> cookie \<Longrightarrow> rcbks s' d = rcbks (l2_callbacks m') d"
    have "l2_wf (m'\<lparr>l2_callbacks := s'\<rparr>)"
      by (rule wf_callbacks [OF m'(2) r(2)]) (use k away wf_handle [OF m'(2)] in metis)
    then show ?thesis using wf r(1) m'(1) ps(1) by (auto simp: l2cap_unregister_callbacks_def l2cap_cleanup_app_def ok_result_def)
  qed
qed

section \<open>Listening and connecting\<close>

lemma alloc_psm_loop_spec:
  assumes "unat LE_PSM_DYNAMIC_MIN \<le> n" "alloc_psm_loop n pm = (psm, pm')"
  shows "psm = 0 \<and> pm' = pm \<or> psm_valid psm \<and> \<not> psm_marked pm psm \<and> pm' = pm OR PSM_BIT_MASK psm"
  using assms
proof (induction n pm rule: alloc_psm_loop.induct)
  case (1 n pm)
  show ?case
  proof (cases "unat (LE_PSM_DYNAMIC_MIN + L2CAP_LE_DYNAMIC_PSM_NUM) \<le> n \<or> pm AND PSM_BIT_MASK (of_nat n) \<noteq> 0")
    case True
    then show ?thesis using 1 by (subst (asm) (2) alloc_psm_loop.simps) (auto split: if_splits)
  next
    case False
    then have n: "128 \<le> n" "n < 192" using 1(2) by auto
    then have "unat (of_nat n :: u16) = n" by (simp add: unat_of_nat)
    with n have v: "psm_valid (of_nat n)" by (simp add: psm_valid_def word_le_nat_alt word_less_nat_alt)
    have "psm = of_nat n" "pm' = pm OR PSM_BIT_MASK (of_nat n)" using 1(3) False by (subst (asm) alloc_psm_loop.simps, simp)+
    then show ?thesis using v False marked_mask [OF v] by simp
  qed
qed

text \<open>Marking a PSM that was free makes it available for one listener.\<close>

lemma wf_mark_psm:
  assumes wf: "l2_wf m" and v: "psm_valid psm" and n: "\<not> psm_marked (psm_map m) psm"
  shows "l2_wf (m\<lparr>psm_map := psm_map m OR PSM_BIT_MASK psm\<rparr>)" "may_listen psm (m\<lparr>psm_map := psm_map m OR PSM_BIT_MASK psm\<rparr>)"
proof -
  have "psm_ok (psm_map m OR PSM_BIT_MASK psm) (channels m)"
    using wfD(5) [OF wf] marked_set(2) [OF v] unfolding psm_ok_unshared by blast
  then show "l2_wf (m\<lparr>psm_map := psm_map m OR PSM_BIT_MASK psm\<rparr>)" using wfD [OF wf] by (simp add: l2_wf_def)
  show "may_listen psm (m\<lparr>psm_map := psm_map m OR PSM_BIT_MASK psm\<rparr>)"
    using wfD(5) [OF wf] marked_set(1) [OF v] v n unfolding psm_ok_def may_listen_def by auto
qed

lemma new_path_cases:
  assumes wf: "l2_wf m" and q: "channels m q = None" and w: "unused_pipe w m" and h: "rcbks (l2_callbacks m) handle \<noteq> None"
    and l: "role = L2CAP_CHANNEL_ROLE_SERVER_LISTEN \<Longrightarrow> may_listen psm m"
  obtains m' where "alloc_free_channel q handle addr psm role m = Some (NULL, m')" "l2_wf m'"
  | m1 m' ch b where "alloc_free_channel q handle addr psm role m = Some (q, m1)" "q \<noteq> NULL" "prepare_data_path w q m1 = Some (b, m')"
    "l2_wf m'" "channels m' q = Some ch"
proof (rule alloc_channel_cases [OF wf q h l, where addr = addr], assumption)
  fix m' assume "alloc_free_channel q handle addr psm role m = Some (NULL, m')" "l2_wf m'"
  then show thesis by (rule that(1))
next
  fix m1 ch
  assume a: "alloc_free_channel q handle addr psm role m = Some (q, m1)" "q \<noteq> NULL" "l2_wf m1" "channels m1 = (channels m)(q \<mapsto> ch)"
    "blank_channel ch" "pipe_writes m1 = pipe_writes m"
  have "unused_pipe w m1" by (rule unused_new [OF w a(4, 6)]) (use a(5) in \<open>simp add: blank_channel_def\<close>)
  moreover have "channels m1 q = Some ch" using a(4) by simp
  ultimately show thesis
    by (rule_tac prepare_cases [OF a(3) _ a(5)]) (use that(2) a(1, 2) in auto)
qed

definition ok_call :: "('a \<times> 'b \<times> l2cap_manager_t) option \<Rightarrow> bool" where
  "ok_call r \<longleftrightarrow> ok_result (map_option (snd \<circ> snd) r)"

lemma ok_callI [simp]: "ok_call (Some (a, b, m)) = l2_wf m"
  by (simp add: ok_call_def ok_result_def)

lemma ok_call_remove: "ok_result (remove_channel p m) \<Longrightarrow> ok_call (do { m \<leftarrow> remove_channel p m; Some (a, b, m) })"
  by (auto simp: ok_call_def ok_result_def)

text \<open>The common end of both calls.\<close>

lemma open_ok:
  assumes "l2_wf m" "channels m q = None" "unused_pipe w m" "rcbks (l2_callbacks m) handle \<noteq> None"
    and "role = L2CAP_CHANNEL_ROLE_SERVER_LISTEN \<Longrightarrow> may_listen psm m"
  shows "ok_call (do {
     (p, m) \<leftarrow> alloc_free_channel q handle addr psm role m;
     if p = NULL then Some (BT_STATUS_NOMEM, opt, m)
     else do {
       (ok, m) \<leftarrow> prepare_data_path w p m;
       if \<not> ok then do { m \<leftarrow> remove_channel p m; Some (BT_STATUS_NOMEM, opt, m) }
       else do {
         ch \<leftarrow> channels m p;
         let opt = opt\<lparr>co_id := lc_id ch, co_proxy_name := proxy_name ch\<rparr>;
         let m = l2_emit (x opt) m;
         if st \<noteq> BT_STATUS_SUCCESS then do { m \<leftarrow> remove_channel p m; Some (st, opt, m) }
         else Some (BT_STATUS_SUCCESS, opt, m) } } })"
proof (rule new_path_cases [OF assms, where addr = addr], assumption)
  fix m' assume "alloc_free_channel q handle addr psm role m = Some (NULL, m')" "l2_wf m'"
  then show ?thesis by simp
next
  fix m1 m' ch b
  assume a: "alloc_free_channel q handle addr psm role m = Some (q, m1)" "q \<noteq> NULL" "prepare_data_path w q m1 = Some (b, m')"
    "l2_wf m'" "channels m' q = Some ch"
  have "ok_result (remove_channel q m')" "\<And>y. ok_result (remove_channel q (l2_emit y m'))"
    using remove_ok [OF a(4, 5)] remove_ok [of "l2_emit _ m'" q ch] a(4, 5) by simp_all
  then show ?thesis using a by (simp add: ok_call_remove Let_def)
qed

lemma unused_psm_map [simp]: "unused_pipe w (m\<lparr>psm_map := pm\<rparr>) = unused_pipe w m"
  by (simp add: unused_pipe_def)

lemma choose_psm_cases:
  assumes wf: "l2_wf m"
  obtains "(if psm0 = 0 then alloc_le_dynamic_psm m
      else if check_psm_available psm0 m then (psm0, m\<lparr>psm_map := psm_map m OR PSM_BIT_MASK psm0\<rparr>) else (0, m)) = (0, m)"
  | psm where "(if psm0 = 0 then alloc_le_dynamic_psm m
      else if check_psm_available psm0 m then (psm0, m\<lparr>psm_map := psm_map m OR PSM_BIT_MASK psm0\<rparr>) else (0, m)) =
        (psm, m\<lparr>psm_map := psm_map m OR PSM_BIT_MASK psm\<rparr>)" "psm_valid psm" "\<not> psm_marked (psm_map m) psm"
proof (cases "psm0 = 0")
  case True
  obtain psm pm where r: "alloc_psm_loop (unat (LE_PSM_DYNAMIC_MIN + 10)) (psm_map m) = (psm, pm)" by fastforce
  have eq: "alloc_le_dynamic_psm m = (psm, m\<lparr>psm_map := pm\<rparr>)" by (simp only: alloc_le_dynamic_psm_def r prod.case)
  have "unat LE_PSM_DYNAMIC_MIN \<le> unat (LE_PSM_DYNAMIC_MIN + 10)" by simp
  from alloc_psm_loop_spec [OF this r] show ?thesis
  proof (elim disjE conjE)
    assume "psm = 0" "pm = psm_map m"
    then show ?thesis using that(1) True eq by simp
  next
    assume "psm_valid psm" "\<not> psm_marked (psm_map m) psm" "pm = psm_map m OR PSM_BIT_MASK psm"
    then show ?thesis using that(2) [of psm] True eq by simp
  qed
next
  case False
  then show ?thesis
    using that(1) that(2) [of psm0] marked_mask [of psm0 "psm_map m"]
    by (cases "check_psm_available psm0 m") (auto simp: check_psm_available_def psm_valid_def split: if_splits)
qed

lemma psm_valid_nonzero: "psm_valid psm \<Longrightarrow> psm \<noteq> 0"
  by (auto simp: psm_valid_def)

lemma listen_ok:
  assumes wf: "l2_wf m" and q: "channels m q = None" and w: "fresh_pipe w m" and h: "handle = NULL \<or> rcbks (l2_callbacks m) handle \<noteq> None"
  shows "ok_call (l2cap_listen_channel e q w handle opt m)"
proof -
  obtain valid o1 where o1: "l2cap_config_param opt = (valid, o1)" by fastforce
  show ?thesis
  proof (cases "handle = NULL \<or> \<not> adapter_is_le_enabled e \<or> co_transport opt \<noteq> BT_TRANSPORT_BLE \<or> \<not> valid")
    case True
    then show ?thesis using wf o1 by (auto simp: l2cap_listen_channel_def)
  next
    case False
    from wf show ?thesis
    proof (cases rule: choose_psm_cases [where ?psm0.0 = "co_psm o1"])
      case 1
      show ?thesis unfolding l2cap_listen_channel_def o1 prod.case 1 using False wf by simp
    next
      case (2 psm)
      let ?m = "m\<lparr>psm_map := psm_map m OR PSM_BIT_MASK psm\<rparr>"
      have u: "unused_pipe w ?m" using fresh_unused [OF wf w] by simp
      have hh: "rcbks (l2_callbacks ?m) handle \<noteq> None" using h False by simp
      show ?thesis
        unfolding l2cap_listen_channel_def o1 prod.case 2(1)
        using False psm_valid_nonzero [OF 2(2)]
          open_ok [OF wf_mark_psm(1) [OF wf 2(2, 3)] _ u hh, where role = L2CAP_CHANNEL_ROLE_SERVER_LISTEN and psm = psm and addr = None
            and q = q and opt = "o1\<lparr>co_psm := psm\<rparr>" and x = Sal_listen and st = "sal_listen e"] q wf_mark_psm(2) [OF wf 2(2, 3)]
        by (simp add: Let_def)
    qed
  qed
qed

lemma connect_ok:
  assumes wf: "l2_wf m" and q: "channels m q = None" and w: "fresh_pipe w m" and h: "handle = NULL \<or> rcbks (l2_callbacks m) handle \<noteq> None"
  shows "ok_call (l2cap_connect_channel e q w handle addr opt m)"
proof -
  obtain valid o1 where o1: "l2cap_config_param opt = (valid, o1)" by fastforce
  show ?thesis
  proof (cases "handle = NULL \<or> \<not> adapter_is_le_enabled e \<or> \<not> valid")
    case True
    then show ?thesis using wf o1 by (auto simp: l2cap_connect_channel_def)
  next
    case False
    then show ?thesis
      unfolding l2cap_connect_channel_def o1 prod.case
      using open_ok [OF wf q fresh_unused [OF wf w], where handle = handle and role = L2CAP_CHANNEL_ROLE_CLIENT and psm = "co_psm o1" and addr = "Some addr"
          and opt = o1 and x = "Sal_connect addr" and st = "sal_connect e"] h
      by (simp add: Let_def)
  qed
qed

lemma disconnect_ok:
  assumes wf: "l2_wf m"
  shows "ok_result (map_option snd (l2cap_disconnect_channel e handle i m))"
  using wf
proof (cases rule: find_in_list_cases [where P = "\<lambda>ch. lc_id ch = i"])
  case 1
  then show ?thesis using wf by (simp add: l2cap_disconnect_channel_def find_l2cap_channel_by_id_def ok_result_def)
next
  case (2 p ch)
  then show ?thesis using wf by (simp add: l2cap_disconnect_channel_def find_l2cap_channel_by_id_def ok_result_def)
qed

lemma stop_listen_ok:
  assumes wf: "l2_wf m"
  shows "ok_result (map_option snd (l2cap_stop_listen_channel e handle transport psm m))"
  using wf
proof (cases rule: find_in_list_cases [where P = "\<lambda>ch. lc_psm ch = psm \<and> lc_role ch = L2CAP_CHANNEL_ROLE_SERVER_LISTEN \<and> channel_connected ch = False"])
  case 1
  then show ?thesis using wf by (simp add: l2cap_stop_listen_channel_def find_l2cap_channel_by_conn_param_def ok_result_def)
next
  case (2 p ch)
  then show ?thesis using wf remove_ok [OF wf 2(2)]
    by (auto simp: l2cap_stop_listen_channel_def find_l2cap_channel_by_conn_param_def ok_result_def)
qed

section \<open>All histories\<close>

lemma wf_post: "l2_wf m \<Longrightarrow> msg_ok x \<Longrightarrow> l2_wf (l2_post x m)"
  by (simp add: l2_wf_def l2_post_def do_in_service_loop_def)

lemma segment_post_ok:
  assumes wf: "l2_wf m" and s: "sdu_len \<noteq> 0" "case seg of None \<Rightarrow> True | Some bytes \<Rightarrow> unat seg_len \<le> length bytes"
  shows "ok_result (map_option snd (l2cap_on_segment_received mem buf junk addr cid seg seg_len sdu_len seg_off m))"
proof -
  have "0 < sdu_len" using s(1) by (simp add: word_gt_0)
  then show ?thesis
    using wf s(2) wf_post [OF wf] unfolding l2cap_on_segment_received_def
    by (auto simp: ok_result_def not_less word_le_nat_alt word_less_nat_alt Let_def split: option.splits)
qed

lemma wf_pop: "l2_wf m \<Longrightarrow> msg_queue (l2_loop m) = x # xs \<Longrightarrow> l2_wf (m\<lparr>l2_loop := (l2_loop m)\<lparr>msg_queue := xs\<rparr>\<rparr>) \<and> msg_ok x"
  by (simp add: l2_wf_def)

lemma in_order_pop: "in_order cid packet (m\<lparr>l2_loop := l\<rparr>) = in_order cid packet m"
  unfolding in_order_def find_l2cap_channel_by_cid_def using find_in_list_cong [of "m\<lparr>l2_loop := l\<rparr>" m] by (simp cong: option.case_cong)

lemma message_ok:
  assumes wf: "l2_wf m" and q: "channels m q = None" and w: "fresh_pipe w m"
    and o: "case msg_queue (l2_loop m) of PACKET_RECEIVED_EVT addr cid packet # xs \<Rightarrow> in_order cid packet m | _ \<Rightarrow> True"
  shows "ok_result (l2_exec e (In_message q w) m)"
proof (cases "msg_queue (l2_loop m)")
  case Nil
  then show ?thesis using wf by (simp add: ok_result_def)
next
  case (Cons x xs)
  let ?m = "m\<lparr>l2_loop := (l2_loop m)\<lparr>msg_queue := xs\<rparr>\<rparr>"
  have wf1: "l2_wf ?m" and x: "msg_ok x" using wf_pop [OF wf Cons] by auto
  have q1: "channels ?m q = None" using q by simp
  have w1: "unused_pipe w ?m" using fresh_unused [OF wf w] by (simp add: unused_pipe_def)
  show ?thesis
  proof (cases x)
    case (CID_ALLOCATED_EVT addr psm cid)
    then show ?thesis using Cons cid_ok [OF wf1] by (simp add: handle_l2cap_event_def)
  next
    case (CHANNEL_CONNECTED_EVT addr param)
    then show ?thesis using Cons x channel_connected_ok [OF wf1 q1 w1] by (simp add: handle_l2cap_event_def)
  next
    case (CHANNEL_DISCONNECTED_EVT addr cid reason)
    then show ?thesis using Cons channel_disconnected_ok [OF wf1] by (simp add: handle_l2cap_event_def)
  next
    case (PACKET_RECEIVED_EVT addr cid packet)
    then show ?thesis using Cons x o packet_ok [OF wf1, of packet cid e addr] by (simp add: handle_l2cap_event_def in_order_pop)
  next
    case (PACKET_SENT_EVT addr cid)
    then show ?thesis using Cons sent_ok [OF wf1] by (simp add: handle_l2cap_event_def)
  qed
qed

lemma post_oks:
  assumes "l2_wf m"
  shows "l2_wf (l2cap_on_cid_allocated mem addr psm cid m)" "endpoint_ok (cp_incoming param) \<Longrightarrow> l2_wf (l2cap_on_channel_connected mem addr param m)"
    "l2_wf (l2cap_on_channel_disconnected mem addr cid reason m)" "l2_wf (l2cap_on_packet_sent mem addr cid m)"
    "unat n \<le> length bytes \<Longrightarrow> ok_result (l2cap_on_packet_received mem buf addr cid bytes n m)"
  using assms wf_post [OF assms]
  by (simp_all add: l2cap_on_cid_allocated_def l2cap_on_channel_connected_def l2cap_on_channel_disconnected_def l2cap_on_packet_sent_def
      l2cap_on_packet_received_def ok_result_def)

lemma exec_ok:
  assumes wf: "l2_wf m" and a: "l2_admitted i m"
  shows "ok_result (l2_exec e i m)"
proof (cases i)
  case (In_listen q w handle opt)
  then show ?thesis using a listen_ok [OF wf] by (simp add: ok_call_def)
next
  case (In_connect q w handle addr opt)
  then show ?thesis using a connect_ok [OF wf] by (simp add: ok_call_def)
next
  case (In_message q w)
  then show ?thesis using a message_ok [OF wf, of q w e] by (simp only: l2_admitted.simps)
next
  case (In_proxy w status)
  then show ?thesis using wf proxy_ok [OF wf] by (auto simp: ok_result_def split: option.splits)
next
  case (In_written w status)
  then show ?thesis using a wf written_ok [OF wf] by (auto simp: ok_result_def split: option.splits)
next
  case (In_segment mem buf junk addr cid seg seg_len sdu_len seg_off)
  then show ?thesis using a segment_post_ok [OF wf] by simp
qed (use a register_ok [OF wf] unregister_ok [OF wf] disconnect_ok [OF wf] stop_listen_ok [OF wf] post_oks [OF wf] data_ok [OF wf]
      in \<open>simp_all add: ok_result_def\<close>)

lemma init_wf:
  assumes "cb_inv s ds" "l2cap_service_init (Some s) True = (BT_STATUS_SUCCESS, Some m)"
  shows "l2_wf m"
proof -
  have m: "m = \<lparr>l2_callbacks = s, channel_list = Some [], channels = (\<lambda>_. None), id_allocator = Some (index_allocator_create L2CAP_CHANNEL_MAX_NUM),
      psm_map = 0, pipe_waiting = [], pipe_writes = [], l2_loop = service_loop_init, l2_outs = []\<rparr>"
    using assms(2) by (simp add: l2cap_service_init_def)
  have "ids_ok (Some (index_allocator_create L2CAP_CHANNEL_MAX_NUM)) (\<lambda>_. None)"
    unfolding ids_ok_def using alloc_inv_create [of L2CAP_CHANNEL_MAX_NUM] by (simp add: L2CAP_CHANNEL_MAX_NUM_def)
  then show ?thesis
    using assms(1) by (auto simp: m l2_wf_def heap_ok_def pipes_ok_def apps_ok_def psm_ok_def rx_ok_def service_loop_init_def)
qed

lemma reach_wf: "l2cap_reach m \<Longrightarrow> l2_wf m"
proof (induction rule: l2cap_reach.induct)
  case (init s ds m)
  then show ?case by (rule init_wf)
next
  case (step m i e m')
  then show ?case using exec_ok [of m i e] by (simp add: ok_result_def)
qed

end
