(* ===== verification/L2cap_Reassembly.thy ===== *)
theory L2cap_Reassembly
  imports L2cap_Histories
begin

text \<open>
  The segments of one SDU on their way through the L2CAP manager: what the stack hands over in pieces reaches the
  pipe of the application in one write, byte for byte.
\<close>

text \<open>The stack hands over the segments of an SDU of \<open>n\<close> bytes, from offset \<open>off\<close> on, and the service loop runs each message.\<close>

fun give_segments ::
  "l2cap_env \<Rightarrow> ptr \<Rightarrow> u8 \<Rightarrow> bt_address_t \<Rightarrow> u16 \<Rightarrow> u16 \<Rightarrow> nat \<Rightarrow> u8 list list \<Rightarrow> l2cap_manager_t \<Rightarrow> l2cap_manager_t option" where
  "give_segments e buf junk addr cid n off [] m = Some m"
| "give_segments e buf junk addr cid n off (seg # segs) m =
     do { (ok, m) \<leftarrow> l2cap_on_segment_received True buf junk (Some addr) cid (Some seg) (of_nat (length seg)) n (of_nat off) m;
          m \<leftarrow> l2_exec e (In_message NULL NULL) m;
          give_segments e buf junk addr cid n (off + length seg) segs m }"

text \<open>A channel that can take \<open>k\<close> more segments, with the bytes \<open>pre\<close> of an SDU of \<open>n\<close> bytes received.\<close>

definition receiving :: "ptr \<Rightarrow> u16 \<Rightarrow> nat \<Rightarrow> u16 \<Rightarrow> u8 list \<Rightarrow> ptr \<Rightarrow> u16 \<Rightarrow> l2cap_manager_t \<Rightarrow> bool" where
  "receiving p cid k n pre w mps m \<longleftrightarrow>
     l2_wf m \<and> msg_queue (l2_loop m) = [] \<and> find_l2cap_channel_by_cid cid m = Some (Some p) \<and>
     (\<exists>ch. channels m p = Some ch \<and> proxy_connected ch \<and> lc_pipe ch = w \<and> w \<noteq> NULL \<and> n \<le> ep_mtu (incoming ch) \<and>
        ep_le_mps (incoming ch) = mps \<and> k \<le> unat (ep_credits (incoming ch)) \<and>
        (case rx_sdu ch of
           None \<Rightarrow> pre = []
         | Some s \<Rightarrow> pre \<noteq> [] \<and> len_total s = n \<and> unat (len_received s) = length pre \<and> take (length pre) (pk_data s) = pre))"

lemma find_put:
  assumes "find_in_list P m = Some (Some p)" "channels m p = Some ch" "P ch' = P ch"
    and "channel_list m' = channel_list m" "channels m' = (channels m)(p \<mapsto> ch')"
  shows "find_in_list P m' = Some (Some p)"
proof -
  have "find_channel P ps m' = find_channel P ps m" for ps
    by (induction ps) (use assms(2, 3, 5) in \<open>auto cong: if_cong\<close>)
  then show ?thesis using assms(1, 4) by (simp add: find_in_list_def)
qed

lemma no_messages:
  assumes "msg_queue (l2_loop m) = []"
  shows "m\<lparr>l2_loop := (l2_loop m)\<lparr>msg_queue := []\<rparr>\<rparr> = m"
  unfolding assms [symmetric] by simp

text \<open>The state after the accounting for a segment.\<close>

lemma segment_accounted:
  assumes r: "receiving p cid (Suc k) n pre w mps m" and k: "len_received packet \<le> mps" "len_total packet = n"
  obtains m1 ch1 where "l2_wf m1" "channels m1 p = Some ch1" "receiving p cid k n pre w mps m1"
    "sdu_writes (l2_outs m1) = sdu_writes (l2_outs m)"
    "unat (rx_buf_size ch1) + unat (len_received packet) + rx_pending ch1 \<le> L2CAP_MAX_RX_BUF_SIZE"
    "ep_le_mps (incoming ch1) \<noteq> 0" "lc_pipe ch1 = w"
    "handle_packet_received e addr cid packet m = (case rx_sdu ch1 of
      None \<Rightarrow> let m = put_channel p (ch1\<lparr>rx_sdu := Some packet\<rparr>) m1
              in if len_received packet = len_total packet then l2cap_send_sdu_to_app e p m else Some m
    | Some sdu \<Rightarrow>
        if unat (len_total sdu) < unat (len_received sdu) + unat (len_received packet)
        then l2cap_abort_channel p (put_channel p (ch1\<lparr>rx_sdu := None\<rparr>) m1)
        else do {
          sdu \<leftarrow> append_segment sdu packet;
          let m = put_channel p (ch1\<lparr>rx_sdu := Some sdu\<rparr>) m1;
          if len_received sdu = len_total sdu then l2cap_send_sdu_to_app e p m else Some m })"
proof -
  obtain ch where wf: "l2_wf m" and fd: "find_l2cap_channel_by_cid cid m = Some (Some p)" and p: "channels m p = Some ch"
    and g: "proxy_connected ch" "lc_pipe ch = w" "w \<noteq> NULL" "n \<le> ep_mtu (incoming ch)" "ep_le_mps (incoming ch) = mps"
      "Suc k \<le> unat (ep_credits (incoming ch))" and qu: "msg_queue (l2_loop m) = []"
    and s: "case rx_sdu ch of None \<Rightarrow> pre = []
         | Some s \<Rightarrow> pre \<noteq> [] \<and> len_total s = n \<and> unat (len_received s) = length pre \<and> take (length pre) (pk_data s) = pre"
    using r unfolding receiving_def by blast
  let ?ch = "ch\<lparr>incoming := (incoming ch)\<lparr>ep_credits := ep_credits (incoming ch) - 1\<rparr>, rx_buf_size := rx_buf_size ch - len_received packet\<rparr>"
  have fits: "rx_fits ch" using wf_chan [OF wf p] by (simp add: chan_ok_def)
  have c: "ep_credits (incoming ch) \<noteq> 0" using g(6) by auto
  note sf = segment_fits [OF fits c, unfolded g(5), OF k(1)]
  have wf1: "l2_wf (put_channel p ?ch m)"
    by (rule wf_put [OF wf p]) (use wf_chan [OF wf p] sf(4) in \<open>auto simp: same_face_def chan_ok_def\<close>)
  have pc: "channels (put_channel p ?ch m) p = Some ?ch" and mz: "ep_le_mps (incoming ?ch) \<noteq> 0" using sf(1) g(5) by simp_all
  show thesis
  proof (rule refill_cases [OF wf1 pc mz, of e])
    fix m1 ch1
    assume m1: "refill_credits e p (put_channel p ?ch m) = Some m1" "l2_wf m1" "channels m1 = (channels (put_channel p ?ch m))(p \<mapsto> ch1)"
      "rx_frame ch1 ?ch" "l2_loop m1 = l2_loop (put_channel p ?ch m)" "channel_list m1 = channel_list (put_channel p ?ch m)"
      "sdu_writes (l2_outs m1) = sdu_writes (l2_outs (put_channel p ?ch m))" "ep_credits (incoming ?ch) \<le> ep_credits (incoming ch1)"
    note fr = rx_frameD [OF m1(4)]
    have "unat (ep_credits (incoming ch) - 1) = unat (ep_credits (incoming ch)) - 1"
      using g(6) by (subst unat_sub) (simp_all add: word_le_nat_alt)
    then have cr: "k \<le> unat (ep_credits (incoming ch1))" using m1(8) g(6) by (simp add: word_le_nat_alt)
    have "find_l2cap_channel_by_cid cid m1 = Some (Some p)"
      unfolding find_l2cap_channel_by_cid_def
      by (rule find_put [OF fd [unfolded find_l2cap_channel_by_cid_def] p, of ch1]) (use m1(3, 4, 6) in \<open>simp_all add: rx_frame_def\<close>)
    then have rec: "receiving p cid k n pre w mps m1"
      unfolding receiving_def using m1(2, 3, 4, 5) g cr s qu fr by (simp add: rx_frame_def)
    have room: "unat (rx_buf_size ch1) + unat (len_received packet) + rx_pending ch1 \<le> L2CAP_MAX_RX_BUF_SIZE"
      using fits sf(2, 3) fr(4, 7) by (simp add: rx_fits_def rx_pending_def)
    have p1: "channels m1 p = Some ch1" using m1(3) by simp
    have gates: "\<not> ep_le_mps (incoming ch) < len_received packet" "\<not> ep_mtu (incoming ch) < len_total packet" "lc_pipe ch \<noteq> NULL"
      using k g by (simp_all add: not_less)
    have "sdu_writes (l2_outs m1) = sdu_writes (l2_outs m)" using m1(7) by (simp add: put_channel_def)
    then show thesis
    proof (rule that [OF m1(2) p1 rec _ room])
      show "ep_le_mps (incoming ch1) \<noteq> 0" "lc_pipe ch1 = w" using sf(1) fr g by simp_all
    qed (simp add: handle_packet_received_def fd p gates c g(1) m1(1) p1)
  qed
qed

text \<open>A packet that carries the bytes \<open>b\<close>, in a buffer that holds the whole SDU when it is the first one.\<close>

definition carries :: "l2cap_pkt_t \<Rightarrow> u16 \<Rightarrow> u8 list \<Rightarrow> u8 list \<Rightarrow> bool" where
  "carries packet n pre b \<longleftrightarrow> len_total packet = n \<and> unat (len_received packet) = length b \<and>
     take (length b) (pk_data packet) = b \<and> length b \<le> length (pk_data packet) \<and> (pre = [] \<longrightarrow> unat n \<le> length (pk_data packet)) \<and>
     b \<noteq> [] \<and> length pre + length b \<le> unat n"

lemma append_carries:
  assumes s: "sdu_ok s" "len_total s = n" "unat (len_received s) = length pre" "take (length pre) (pk_data s) = pre"
    and c: "carries packet n pre b"
  obtains s' where "append_segment s packet = Some s'" "sdu_ok s'" "len_total s' = n" "unat (len_received s') = length (pre @ b)"
    "take (length (pre @ b)) (pk_data s') = pre @ b"
proof -
  have l: "unat (len_received s) + unat (len_received packet) \<le> unat (len_total s)" "unat (len_received packet) \<le> length (pk_data packet)"
    using c s by (simp_all add: carries_def)
  obtain s' where s': "append_segment s packet = Some s'" "sdu_ok s'" "len_total s' = len_total s"
    "unat (len_received s') = unat (len_received s) + unat (len_received packet)"
    using append_ok [OF s(1) l] by metis
  have "length pre + length b \<le> length (pk_data s)" using s c by (auto simp: sdu_ok_def carries_def)
  then have "take (length (pre @ b)) (pk_data s') = pre @ b"
    using s'(1) s(3, 4) c by (auto simp: append_segment_def carries_def Let_def split: if_splits)
  then show thesis using that s' s c by (simp add: carries_def)
qed

lemma segment_stored:
  assumes r: "receiving p cid (Suc k) n pre w mps m" and c: "carries packet n pre b" and mps: "length b \<le> unat mps"
  obtains m2 s where "receiving p cid k n (pre @ b) w mps m2" "sdu_writes (l2_outs m2) = sdu_writes (l2_outs m)"
    "\<exists>ch. channels m2 p = Some ch \<and> rx_sdu ch = Some s \<and> lc_pipe ch = w"
    "len_total s = n" "unat (len_received s) = length (pre @ b)" "take (length (pre @ b)) (pk_data s) = pre @ b" "sdu_ok s"
    "handle_packet_received e addr cid packet m = (if len_received s = len_total s then l2cap_send_sdu_to_app e p m2 else Some m2)"
proof -
  have k: "len_received packet \<le> mps" "len_total packet = n" using c mps by (auto simp: carries_def word_le_nat_alt)
  show thesis
  proof (rule segment_accounted [OF r k, of e addr])
    fix m1 ch1
    assume m1: "l2_wf m1" "channels m1 p = Some ch1" "receiving p cid k n pre w mps m1" "sdu_writes (l2_outs m1) = sdu_writes (l2_outs m)"
      "unat (rx_buf_size ch1) + unat (len_received packet) + rx_pending ch1 \<le> L2CAP_MAX_RX_BUF_SIZE"
      "ep_le_mps (incoming ch1) \<noteq> 0" "lc_pipe ch1 = w"
      and h: "handle_packet_received e addr cid packet m = (case rx_sdu ch1 of
        None \<Rightarrow> let m = put_channel p (ch1\<lparr>rx_sdu := Some packet\<rparr>) m1
                in if len_received packet = len_total packet then l2cap_send_sdu_to_app e p m else Some m
      | Some sdu \<Rightarrow>
          if unat (len_total sdu) < unat (len_received sdu) + unat (len_received packet)
          then l2cap_abort_channel p (put_channel p (ch1\<lparr>rx_sdu := None\<rparr>) m1)
          else do {
            sdu \<leftarrow> append_segment sdu packet;
            let m = put_channel p (ch1\<lparr>rx_sdu := Some sdu\<rparr>) m1;
            if len_received sdu = len_total sdu then l2cap_send_sdu_to_app e p m else Some m })"
    have pre: "case rx_sdu ch1 of None \<Rightarrow> pre = []
         | Some s \<Rightarrow> pre \<noteq> [] \<and> len_total s = n \<and> unat (len_received s) = length pre \<and> take (length pre) (pk_data s) = pre"
      using m1(2, 3) by (auto simp: receiving_def)
    obtain s where s: "sdu_ok s" "len_total s = n" "unat (len_received s) = length (pre @ b)" "take (length (pre @ b)) (pk_data s) = pre @ b"
      and hs: "handle_packet_received e addr cid packet m =
        (if len_received s = len_total s then l2cap_send_sdu_to_app e p (put_channel p (ch1\<lparr>rx_sdu := Some s\<rparr>) m1)
         else Some (put_channel p (ch1\<lparr>rx_sdu := Some s\<rparr>) m1))"
    proof (cases "rx_sdu ch1")
      case None
      then have "pre = []" using pre by simp
      then show ?thesis using that [of packet] c h None by (simp add: carries_def sdu_ok_def word_le_nat_alt)
    next
      case (Some t)
      have t: "sdu_ok t" "len_total t = n" "unat (len_received t) = length pre" "take (length pre) (pk_data t) = pre"
        using pre Some wf_chan [OF m1(1, 2)] by (simp_all add: chan_ok_def)
      have nov: "\<not> unat (len_total t) < unat (len_received t) + unat (len_received packet)" using c t by (simp add: carries_def)
      show ?thesis
      proof (rule append_carries [OF t c])
        fix s
        assume s: "append_segment t packet = Some s" "sdu_ok s" "len_total s = n" "unat (len_received s) = length (pre @ b)"
          "take (length (pre @ b)) (pk_data s) = pre @ b"
        show ?thesis by (rule that [OF s(2-5)]) (simp only: h Some option.case if_not_P [OF nov] s(1) Option.bind.simps Let_def)
      qed
    qed
    let ?m = "put_channel p (ch1\<lparr>rx_sdu := Some s\<rparr>) m1"
    have wf2: "l2_wf ?m"
      by (rule put_sdu [OF m1(1, 2) s(1) m1(6)])
        (use m1(5) pre s(3) c in \<open>auto simp: rx_pending_def carries_def split: option.splits\<close>)
    have "find_l2cap_channel_by_cid cid m1 = Some (Some p)" using m1(3) by (simp add: receiving_def)
    then have "find_l2cap_channel_by_cid cid ?m = Some (Some p)"
      unfolding find_l2cap_channel_by_cid_def by (rule find_put [OF _ m1(2)]) simp_all
    then have "receiving p cid k n (pre @ b) w mps ?m"
      using m1(2, 3) wf2 s c unfolding receiving_def by (auto simp: carries_def)
    moreover have "sdu_writes (l2_outs ?m) = sdu_writes (l2_outs m)" using m1(4) by (simp add: put_channel_def)
    ultimately show thesis using that [of ?m s] s hs m1(7) by simp
  qed
qed

lemma send_writes:
  assumes "channels m p = Some ch" "rx_sdu ch = Some s" "lc_pipe ch = w" "sdu_ok s" "pipe_write e = 0"
    "take (unat (len_total s)) (pk_data s) = bytes"
  obtains m' where "l2cap_send_sdu_to_app e p m = Some m'" "sdu_writes (l2_outs m') = sdu_writes (l2_outs m) @ [(w, bytes)]"
  using assms by (auto simp: l2cap_send_sdu_to_app_def sdu_ok_def Let_def put_channel_def l2_emit_def sdu_writes_def)

lemma give_one:
  assumes r: "receiving p cid (Suc k) n pre w mps m" and b: "b \<noteq> []" "length pre + length b \<le> unat n"
    and buf: "buf \<noteq> NULL" and cid: "L2CAP_CID_DYNAMIC_MIN \<le> cid"
  obtains packet where "carries packet n pre b"
    "give_segments e buf junk addr cid n (length pre) (b # segs) m =
       do { m \<leftarrow> handle_packet_received e addr cid packet m; give_segments e buf junk addr cid n (length (pre @ b)) segs m }"
proof -
  have lt: "length pre < 65536" "length b < 65536" using b(2) unsigned_less [of n, where ?'a = nat] by auto
  then have u: "unat (of_nat (length b) :: u16) = length b" "unat (of_nat (length pre) :: u16) = length pre" by (simp_all add: unat_of_nat)
  define d where "d = (if of_nat (length pre) \<noteq> (0 :: u16) then of_nat (length b) else n)"
  let ?k = "\<lparr>pk_buf = buf, len_total = n, len_received = of_nat (length b),
     pk_data = take (length b) b @ replicate (unat d - length b) junk\<rparr>"
  have zero: "(x :: u16) = 0 \<longleftrightarrow> unat x = 0" for x by (simp add: unat_eq_zero)
  have nz: "of_nat (length b) \<noteq> (0 :: u16)" using b(1) u(1) unfolding zero by simp
  have ds: "\<not> d < of_nat (length b)" using b(2) u by (auto simp: d_def word_less_nat_alt)
  have ns: "\<not> n < of_nat (length b)" using b(2) u by (simp add: word_less_nat_alt)
  have z: "of_nat (length pre) = (0 :: u16) \<longleftrightarrow> pre = []" unfolding zero u(2) by simp
  have post: "l2cap_on_segment_received True buf junk (Some addr) cid (Some b) (of_nat (length b)) n (of_nat (length pre)) m =
      Some (True, l2_post (PACKET_RECEIVED_EVT addr cid ?k) m)"
    using nz ds ns buf cid u(1) by (simp add: l2cap_on_segment_received_def d_def [symmetric] not_less [symmetric] Let_def)
  have q: "msg_queue (l2_loop m) = []" using r by (simp add: receiving_def)
  have "l2_exec e (In_message NULL NULL) (l2_post (PACKET_RECEIVED_EVT addr cid ?k) m) = handle_packet_received e addr cid ?k m"
    using q by (simp add: l2_post_def do_in_service_loop_def handle_l2cap_event_def no_messages [OF q])
  moreover have "carries ?k n pre b" using b u z by (auto simp: carries_def d_def)
  ultimately show thesis using that [of ?k] post by simp
qed

lemma give_all:
  assumes "receiving p cid (length segs) n pre w mps m" "\<And>b. b \<in> set segs \<Longrightarrow> b \<noteq> [] \<and> length b \<le> unat mps"
    and "length pre + length (concat segs) = unat n" "segs \<noteq> []"
    and buf: "buf \<noteq> NULL" and cid: "L2CAP_CID_DYNAMIC_MIN \<le> cid" and e: "pipe_write e = 0"
  shows "\<exists>m'. give_segments e buf junk addr cid n (length pre) segs m = Some m' \<and>
     sdu_writes (l2_outs m') = sdu_writes (l2_outs m) @ [(w, pre @ concat segs)]"
  using assms(1-4)
proof (induction segs arbitrary: pre m)
  case (Cons b segs)
  note IH = Cons.IH and prems = Cons.prems
  have b: "b \<noteq> []" "length b \<le> unat mps" using Cons.prems(2) by simp_all
  have le: "length pre + length b \<le> unat n" using Cons.prems(3) by simp
  have r: "receiving p cid (Suc (length segs)) n pre w mps m" using Cons.prems(1) by simp
  obtain packet where k: "carries packet n pre b"
    and g: "give_segments e buf junk addr cid n (length pre) (b # segs) m =
       do { m \<leftarrow> handle_packet_received e addr cid packet m; give_segments e buf junk addr cid n (length (pre @ b)) segs m }"
    using give_one [OF r b(1) le buf cid] by blast
  show ?case
  proof (rule segment_stored [OF r k b(2), of e addr])
    fix m2 s
    assume m2: "receiving p cid (length segs) n (pre @ b) w mps m2" "sdu_writes (l2_outs m2) = sdu_writes (l2_outs m)"
      "\<exists>ch. channels m2 p = Some ch \<and> rx_sdu ch = Some s \<and> lc_pipe ch = w"
      and s: "len_total s = n" "unat (len_received s) = length (pre @ b)" "take (length (pre @ b)) (pk_data s) = pre @ b" "sdu_ok s"
      and h: "handle_packet_received e addr cid packet m = (if len_received s = len_total s then l2cap_send_sdu_to_app e p m2 else Some m2)"
    have "length pre + length b + length (concat segs) = unat n" using prems(3) by simp
    then have "len_received s = len_total s \<longleftrightarrow> length (concat segs) = 0"
      unfolding word_unat_eq_iff s(1, 2) length_append by linarith
    then have fin: "len_received s = len_total s \<longleftrightarrow> concat segs = []" by (simp only: length_0_conv)
    show ?case
    proof (cases segs)
      case Nil
      then have t: "take (unat (len_total s)) (pk_data s) = pre @ b" using s Cons.prems(3) by simp
      obtain ch where ch: "channels m2 p = Some ch" "rx_sdu ch = Some s" "lc_pipe ch = w" using m2(3) by blast
      show ?thesis
        by (rule send_writes [OF ch s(4) e t]) (use Nil g h fin m2(2) in simp)
    next
      case (Cons c cs)
      then have "c \<noteq> []" using prems(2) by simp
      then have "handle_packet_received e addr cid packet m = Some m2" using h fin Cons by simp
      then show ?thesis using g IH [OF m2(1)] prems(2, 3) m2(2) Cons by simp
    qed
  qed
qed simp

section \<open>A connected channel\<close>

definition demo_l2_env :: l2cap_env where
  "demo_l2_env = \<lparr>adapter_is_le_enabled = True, has_on_connected = (\<lambda>_. True), has_on_disconnected = (\<lambda>_. True),
     sal_listen = BT_STATUS_SUCCESS, sal_connect = BT_STATUS_SUCCESS, sal_disconnect = BT_STATUS_SUCCESS, sal_give_credits = BT_STATUS_SUCCESS,
     read_start = 0, read_stop = 0, pipe_write = 0, outgoing_mtu_limit = 1000\<rparr>"

definition demo_option :: l2cap_config_option_t where
  "demo_option = \<lparr>co_transport = BT_TRANSPORT_BLE, co_psm = 0x90, co_mtu = 8, co_le_mps = 4, co_init_credits = 20, co_id = 0, co_proxy_name = []\<rparr>"

definition demo_param :: l2cap_channel_param_t where
  "demo_param = \<lparr>cp_is_client = True, cp_local_cid = 0x41, cp_psm = 0x90, cp_incoming = \<lparr>ep_mtu = 8, ep_le_mps = 4, ep_credits = 20\<rparr>,
     cp_outgoing = \<lparr>ep_mtu = 64, ep_le_mps = 64, ep_credits = 5\<rparr>\<rparr>"

definition demo_l2_init :: l2cap_manager_t where
  "demo_l2_init = \<lparr>l2_callbacks = demo_full, channel_list = Some [], channels = (\<lambda>_. None), id_allocator = Some (index_allocator_create L2CAP_CHANNEL_MAX_NUM),
     psm_map = 0, pipe_waiting = [], pipe_writes = [], l2_loop = service_loop_init, l2_outs = []\<rparr>"

definition demo_peer :: bt_address_t where
  "demo_peer = [1, 2, 3, 4, 5, 6]"

definition demo_inputs :: "l2cap_input list" where
  "demo_inputs = [In_connect 5 9 70 demo_peer demo_option, In_proxy 9 0, In_cid True demo_peer 0x90 0x41, In_message 0 0,
     In_connected True demo_peer demo_param, In_message 0 0]"

fun l2_run :: "l2cap_env \<Rightarrow> l2cap_input list \<Rightarrow> l2cap_manager_t \<Rightarrow> l2cap_manager_t option" where
  "l2_run e [] m = Some m"
| "l2_run e (i # is) m = (if l2_admitted i m then do { m \<leftarrow> l2_exec e i m; l2_run e is m } else None)"

lemma run_reach: "l2_run e is m = Some m' \<Longrightarrow> l2cap_reach m \<Longrightarrow> l2cap_reach m'"
  by (induction "is" arbitrary: m) (auto simp: bind_eq_Some_conv split: if_splits intro: l2cap_reach.step)

lemma demo_alloc:
  "index_alloc (index_allocator_create L2CAP_CHANNEL_MAX_NUM) = Some (0, \<lparr>id_max = 20, id_next = 1, id_map = [1]\<rparr>)"
  by (simp add: index_alloc_def index_allocator_create_def L2CAP_CHANNEL_MAX_NUM_def, subst index_alloc_loop.simps)
    (simp add: index_of_def bitno_of_def Let_def)

lemma demo_name: "pipe_name 0 = ''l-srvpipe-0''"
proof -
  have "char_of (48 :: nat) = CHR ''0''" by code_simp
  then show ?thesis by (simp add: pipe_name_def decimal.simps [of 0])
qed

definition demo_channel :: l2cap_channel_t where
  "demo_channel = \<lparr>lc_addr = demo_peer, local_cid = 0x41, lc_psm = 0x90, incoming = \<lparr>ep_mtu = 8, ep_le_mps = 4, ep_credits = 20\<rparr>,
     outgoing = \<lparr>ep_mtu = 64, ep_le_mps = 64, ep_credits = 5\<rparr>, tx_mtu = 64, tx_quota = 16, lc_id = 0, lc_role = L2CAP_CHANNEL_ROLE_CLIENT,
     channel_connected = True, lc_pipe = 9, proxy_name = ''l-srvpipe-0'', proxy_connected = True, app_handle = 70, rx_sdu = None,
     rx_list = [], rx_buf_size = 80\<rparr>"

lemma demo_run:
  "\<exists>m. l2_run demo_l2_env demo_inputs demo_l2_init = Some m \<and> channels m = [5 \<mapsto> demo_channel] \<and> channel_list m = Some [5] \<and>
     msg_queue (l2_loop m) = [] \<and> sdu_writes (l2_outs m) = []"
  by (simp add: demo_inputs_def demo_l2_init_def demo_l2_env_def demo_option_def demo_peer_def demo_param_def demo_full_def
      l2cap_connect_channel_def l2cap_config_param_def alloc_free_channel_def demo_alloc put_channel_def prepare_data_path_def fresh_pipe_def
      l2_emit_def proxy_connected_cb_def l2cap_on_cid_allocated_def l2_post_def do_in_service_loop_def service_loop_init_def handle_l2cap_event_def
      handle_cid_allocated_def find_l2cap_channel_by_conn_param_def find_in_list_def l2cap_on_channel_connected_def endpoint_ok_def
      handle_channel_conneted_def channel_ready_def l2cap_notify_connected_def demo_channel_def no_endpoint_def demo_name sdu_writes_def Let_def)

definition demo_l2 :: l2cap_manager_t where
  "demo_l2 = the (l2_run demo_l2_env demo_inputs demo_l2_init)"

lemma demo_l2_facts:
  "channels demo_l2 = [5 \<mapsto> demo_channel]" "channel_list demo_l2 = Some [5]" "msg_queue (l2_loop demo_l2) = []"
  "sdu_writes (l2_outs demo_l2) = []" "l2cap_reach demo_l2"
proof -
  obtain m where m: "l2_run demo_l2_env demo_inputs demo_l2_init = Some m" "channels m = [5 \<mapsto> demo_channel]" "channel_list m = Some [5]"
    "msg_queue (l2_loop m) = []" "sdu_writes (l2_outs m) = []"
    using demo_run by blast
  have "l2cap_reach demo_l2_init"
    by (rule l2cap_reach.init [OF demo_full_inv]) (simp add: l2cap_service_init_def demo_l2_init_def)
  then show "channels demo_l2 = [5 \<mapsto> demo_channel]" "channel_list demo_l2 = Some [5]" "msg_queue (l2_loop demo_l2) = []"
    "sdu_writes (l2_outs demo_l2) = []" "l2cap_reach demo_l2"
    using m run_reach [OF m(1)] by (simp_all add: demo_l2_def)
qed

section \<open>Properties\<close>

text \<open>C5. Every input that the stack, the pipes and the applications can give to a reachable L2CAP manager runs without
  a fault (no access to a freed channel, no copy past a buffer, no failed assertion, no division by zero) and leaves a well-formed manager: the
  list and the heap hold the same channels, identifiers are unique and exactly those of the allocator, every pipe belongs to one
  channel, every handle is registered, a listening PSM is marked and has one listener, and the buffers are accounted for.\<close>

theorem l2cap_runs_well_formed:
  assumes "l2cap_reach m" "l2_admitted i m"
  shows "\<exists>m'. l2_exec e i m = Some m' \<and> l2_wf m'"
  using exec_ok [OF reach_wf [OF assms(1)] assms(2)] by (simp add: ok_result_def)

theorem l2cap_runs_well_formed_witness:
  "\<exists>m'. l2_exec demo_l2_env (In_data 9 [1, 2, 3] 3) demo_l2 = Some m' \<and> l2_wf m'"
  using l2cap_runs_well_formed [OF demo_l2_facts(5), of "In_data 9 [1, 2, 3] 3" demo_l2_env] by simp

text \<open>C6. An SDU that the stack hands over in segments reaches the pipe of its channel in one write that holds exactly its bytes, when
  no segment is longer than the MPS, the SDU is not longer than the MTU, and the peer has a credit for every segment.\<close>

theorem l2cap_reassembles:
  assumes "l2cap_reach m" "msg_queue (l2_loop m) = []" "find_l2cap_channel_by_cid cid m = Some (Some p)" "channels m p = Some ch"
    and "rx_sdu ch = None" "proxy_connected ch"
    and "segs \<noteq> []" "list_all (\<lambda>b. b \<noteq> [] \<and> length b \<le> unat (ep_le_mps (incoming ch))) segs"
    and "length (concat segs) \<le> unat (ep_mtu (incoming ch))" "length segs \<le> unat (ep_credits (incoming ch))"
    and "0x40 \<le> cid" "buf \<noteq> NULL" "pipe_write e = 0"
  shows "\<exists>m'. give_segments e buf junk addr cid (of_nat (length (concat segs))) 0 segs m = Some m' \<and>
     sdu_writes (l2_outs m') = sdu_writes (l2_outs m) @ [(lc_pipe ch, concat segs)]"
proof -
  have wf: "l2_wf m" using assms(1) by (rule reach_wf)
  have n: "unat (of_nat (length (concat segs)) :: u16) = length (concat segs)"
    using assms(9) unsigned_less [of "ep_mtu (incoming ch)", where ?'a = nat] by (simp add: unat_of_nat)
  have "lc_pipe ch \<noteq> NULL" using wf_chan [OF wf assms(4)] assms(6) by (auto simp: chan_ok_def)
  then have "receiving p cid (length segs) (of_nat (length (concat segs))) [] (lc_pipe ch) (ep_le_mps (incoming ch)) m"
    unfolding receiving_def using wf assms n by (simp add: word_le_nat_alt)
  from give_all [OF this, of buf e junk addr] show ?thesis using assms n by (simp add: list_all_iff)
qed

theorem l2cap_reassembles_witness:
  "\<exists>m'. give_segments demo_l2_env 33 0 demo_peer 0x41 6 0 [[1, 2], [3, 4, 5], [6]] demo_l2 = Some m' \<and>
     sdu_writes (l2_outs m') = [(9, [1, 2, 3, 4, 5, 6])]"
  using l2cap_reassembles [OF demo_l2_facts(5, 3), of "0x41" 5 demo_channel "[[1, 2], [3, 4, 5], [6]]" 33 demo_l2_env 0 demo_peer]
  by (simp add: demo_l2_facts demo_channel_def demo_l2_env_def find_l2cap_channel_by_cid_def find_in_list_def)



text \<open>C37. When the MTU does not fit into the full segments that the receive buffer holds, the initial credits that fit the
  buffer are raised to the minimum for one SDU, past the buffer, and the configuration is accepted.\<close>

theorem l2cap_credits_overcommitted:
  assumes "co_transport opt = BT_TRANSPORT_BLE" "0 < unat (co_le_mps opt)" "co_le_mps opt \<le> co_mtu opt" "unat (co_mtu opt) \<le> 10240"
    and "10240 div unat (co_le_mps opt) * unat (co_le_mps opt) < unat (co_mtu opt)"
    and "unat (co_init_credits opt) * unat (co_le_mps opt) \<le> 10240"
  shows "case l2cap_config_param opt of (valid, opt') \<Rightarrow> valid \<and> 10240 < unat (co_init_credits opt') * unat (co_le_mps opt')"
proof -
  let ?s = "unat (co_le_mps opt)" and ?t = "unat (co_mtu opt)"
  define c where "c = (?t + ?s - 1) div ?s"
  define x where "x = 10240 div ?s"
  have s: "?s \<noteq> 0" using assms(2) by simp
  have "x + 1 \<le> c"
  proof -
    have "(x + 1) * ?s \<le> ?t + ?s - 1" using assms(5) unfolding x_def [symmetric] by (simp add: algebra_simps)
    then show ?thesis unfolding c_def using s by (simp add: less_eq_div_iff_mult_less_eq)
  qed
  moreover have "10240 < (x + 1) * ?s"
    using dividend_less_times_div [OF assms(2), of 10240] unfolding x_def by (simp add: algebra_simps)
  ultimately have big: "10240 < c * ?s" by (meson less_le_trans mult_le_mono1)
  have "unat (co_init_credits opt) \<le> x" unfolding x_def using assms(6) s by (simp add: less_eq_div_iff_mult_less_eq)
  then have lt: "unat (co_init_credits opt) < c" using \<open>x + 1 \<le> c\<close> by simp
  have "c \<le> ?t + ?s - 1" unfolding c_def by (rule div_le_dividend)
  then have "c < 65536" using assms(3, 4) by (simp add: word_le_nat_alt)
  then have u: "unat (of_nat c :: u16) = c" by (simp add: unat_of_nat)
  have "l2cap_config_param opt = (True, opt\<lparr>co_init_credits := of_nat c\<rparr>)"
    unfolding l2cap_config_param_def c_def [symmetric]
    using assms(1, 3, 4) s lt u by (simp add: word_less_nat_alt word_le_nat_alt not_less unat_eq_zero Let_def)
  then show ?thesis using big u by simp
qed

theorem l2cap_credits_overcommitted_witness:
  "case l2cap_config_param (demo_option\<lparr>co_mtu := 10240, co_le_mps := 3000, co_init_credits := 3\<rparr>) of
     (valid, opt') \<Rightarrow> valid \<and> 10240 < unat (co_init_credits opt') * unat (co_le_mps opt')"
  by (rule l2cap_credits_overcommitted) (simp_all add: demo_option_def)



section \<open>Further error behaviour\<close>

text \<open>A connection that comes to a listener whose application has not opened its pipe yet closes the pipe for good;
  the link itself is not disconnected, because the channel identifier of the connection has not been stored.\<close>

theorem unprepared_listener_is_lost:
  assumes "l2cap_reach m" "\<not> cp_is_client param" "channels m p = Some ch" "\<not> proxy_connected ch" "local_cid ch = 0" "lc_pipe ch \<noteq> NULL"
    and "lc_role ch = L2CAP_CHANNEL_ROLE_SERVER_LISTEN" "lc_psm ch = cp_psm param"
  shows "\<exists>m'. handle_channel_conneted e q w addr param m = Some m' \<and> l2_outs m' = l2_outs m @ [Pipe_close (lc_pipe ch)] \<and>
     channels m' p = Some (ch\<lparr>proxy_connected := False, lc_pipe := NULL\<rparr>)"
proof -
  have wf: "l2_wf m" using assms(1) by (rule reach_wf)
  let ?P = "\<lambda>c. lc_psm c = cp_psm param \<and> lc_role c = L2CAP_CHANNEL_ROLE_SERVER_LISTEN \<and> channel_connected c = False"
  have P: "?P ch" using wfD(5) [OF wf] assms(3, 7, 8) unfolding psm_ok_def by blast
  from wf have "find_in_list ?P m = Some (Some p)"
  proof (cases rule: find_in_list_cases [where P = ?P])
    case 1
    then show ?thesis using assms(3) P by blast
  next
    case (2 r c)
    then have "r = p" using wfD(5) [OF wf] assms(3, 7, 8) unfolding psm_ok_def by metis
    then show ?thesis using 2(1) by simp
  qed
  then show ?thesis
    using assms by (simp add: handle_channel_conneted_def find_l2cap_channel_by_conn_param_def l2cap_abort_channel_def Let_def
        put_channel_def close_pipe_def l2_emit_def)
qed

text \<open>A first segment of an SDU of length zero passes the checks, and is copied past the end of its packet.\<close>

theorem empty_sdu_overflows:
  assumes "seg_len \<noteq> 0" "L2CAP_CID_DYNAMIC_MIN \<le> cid" "buf \<noteq> NULL"
  shows "l2cap_on_segment_received True buf junk (Some addr) cid (Some bytes) seg_len 0 0 m = None"
  using assms by (simp add: l2cap_on_segment_received_def not_less [symmetric] word_gt_0)

end
