(* ===== verification/Spec2Isabelle.thy ===== *)
theory Spec2Isabelle
  imports Callbacks_List Adapter_Devices Power_Timers Scan_Safety Conn_Reconnect A2dp_Reports Advertising_Safety L2cap_Reassembly
begin

text \<open>
  A verification library for the Bluetooth framework and service (the sources under src/). Each theory
  translates the functions of one component and proves what makes the component correct; the
  findings are stated as theorems about the code as it is.

  \<^bold>\<open>Parts of the program and their theories.\<close>
  \<^item> \<open>Prelude\<close>: machine words, searches and updates in lists, and the locales \<open>event_machine\<close> and
    \<open>refined_machine\<close> that turn one-step laws into laws about runs.
  \<^item> \<open>Heap_List\<close>: framework/include/list.h and framework/common/bt_list.c on a heap of linked cells; a
    list operation that follows a bad link is \<open>None\<close>. The locale \<open>list_container\<close> is what clients of
    \<open>bt_list_t\<close> rely on; \<open>Callbacks_List\<close> (callbacks_list.c) is such a client.
  \<^item> \<open>Index_Allocator\<close>: service/common/index_allocator.c, a bitmap of words; the search loop is a
    \<open>partial_function\<close> that is shown to end.
  \<^item> \<open>Addr_Uuid\<close>, \<open>Bt_Types\<close>: bt_addr.c, bt_uuid.c, the stream macros of bt_utils.h, shared enumerations.
  \<^item> \<open>Device\<close>: service/src/device.c, the record of a remote device and its packed form in the storage.
  \<^item> \<open>Hsm\<close>, \<open>Adapter_Base\<close>, \<open>Adapter_State\<close>: framework/common/state_machine.c and service/src/adapter_state.c,
    the power states of the adapter as a machine driven by requests, stack answers and timers.
  \<^item> \<open>Adapter_Remote\<close>, \<open>Adapter_Api\<close>, \<open>Adapter_Devices\<close>: service/src/adapter_service.c, the handlers of stack
    reports, the requests of clients, and the invariant of the device lists.
  \<^item> \<open>Power_Manager\<close>, \<open>Power_Timers\<close>: service/src/power_manager.c and the ledger of its timers.
  \<^item> \<open>Adv_Data\<close>: advertiser_data.c, advertiser_data_helper.c, scan_record.c, scan_filter.c, bt_hash.c.
  \<^item> \<open>Scan_Manager\<close>, \<open>Scan_Safety\<close>: service/src/scan_manager.c, scanners on a heap, with the messages that the
    calls of the interface post to the service loop; and the invariant of registered scanners.
  \<^item> \<open>Service_Loop\<close>: service/common/service_loop.c, its timers and queues, as a refinement of two queues.
  \<^item> \<open>Conn_Manager\<close>, \<open>Conn_Reconnect\<close>: service/src/connection_manager.c, connection_manager_dlf.c and hci_parser.c on
    the timers of \<open>Service_Loop\<close> and the state of \<open>Power_Manager\<close>; the reconnection of a lost link is a
    refinement of an abstract machine that counts retries.
  \<^item> \<open>A2dp_Machine\<close>, \<open>A2dp_Reports\<close>: service/profiles/a2dp/a2dp_state_machine.c, a2dp_event.c and the command builder of
    vendor/bt_vendor_bes.h, a machine over \<open>Hsm\<close> with five timers of \<open>Service_Loop\<close>.
  \<^item> \<open>Advertising\<close>, \<open>Advertising_Safety\<close>: service/src/advertising.c on \<open>Service_Loop\<close> and \<open>Index_Allocator\<close>.
  \<^item> \<open>L2cap_Service\<close>: service/src/l2cap_service.c on \<open>Callbacks_List\<close>, \<open>Index_Allocator\<close> and \<open>Service_Loop\<close>; channels on a heap,
    the PSM map, pipes, reassembly and credits. \<open>L2cap_Wf\<close> has the inputs of a history and the well-formed managers,
    \<open>L2cap_Steps\<close>, \<open>L2cap_Safety\<close> and \<open>L2cap_Histories\<close> show that they are kept, and \<open>L2cap_Reassembly\<close> follows an SDU through the manager.

  \<^bold>\<open>How state and effects are modelled.\<close> A C structure is a record, an enumeration a datatype, a
  machine integer a word where it can wrap. A component's functions take and return its state; what
  leaves it (calls of the stack, callbacks of clients) is appended to a list of outputs, and what it
  asks of the outside is an environment argument. \<open>None\<close> stands for a null or dangling dereference, an
  access outside a buffer or a failed assertion, so that a theorem with \<open>Some\<close> also says that the code
  does not crash. Timers of the service loop are handles that are armed, cancelled and fired.

  \<^bold>\<open>What the lemmas show.\<close> Memory safety and contents of lists and registries; capacity and uniqueness of
  indices; round trips of addresses, UUIDs, stored properties and advertising data; for the adapter
  machine, that it moves on its diagram and that a safe disable completes; for the device lists, that no
  history of messages duplicates a device; for the power manager and the connection manager, that every armed timer has one owner;
  for the scan and the advertising manager, that no freed client is reached; for the service loop, that messages run in order;
  for an A2DP peer, that clients and power manager are told the state the machine is in; for the L2CAP manager, that its
  structures agree in every reachable state, that no input faults, and that an SDU arrives as it was sent.
  Error behaviour is stated exactly, including the inputs on which the code faults.

  \<^bold>\<open>Bounds.\<close> No fuel is used: loops are structural recursion, or partial functions with a proof that they
  return. The histories of the L2CAP manager are an inductive relation, with the promises of the stack and the pipes as
  conditions on its inputs (\<open>l2_admitted\<close>).

  \<^bold>\<open>Not modelled.\<close> The Zephyr host stack and its adaptation layer (their answers are inputs), the transport
  of calls between processes, logging, and the profiles that are not named above.
\<close>

end
